(* ===== verification/Prelude.thy ===== *)
theory Prelude
  imports Main "HOL-Library.Word"
begin

text \<open>
  The shared vocabulary of the development.

  \<^item> A byte is a \<^typ>\<open>char\<close> (HOL's characters are exactly the 8-bit values), a byte slice or
    vector is a list of them, and a Rust \<open>String\<close> / \<open>&str\<close> is the list of its UTF-8 bytes, so
    that \<open>len\<close> is \<^term>\<open>length\<close> and \<open>as_bytes\<close> is the identity.
  \<^item> \<open>Result<T, E>\<close> is \<open>'e + 'a\<close> with \<^term>\<open>Inl\<close> for the error; the \<open>?\<close> operator is
    \<open>bind_r\<close>, \<open>map_err\<close> and \<open>ok_or\<close> keep their names.
  \<^item> An \<open>async fn\<close> that talks to the outside world is a function of the world
    \<open>'w \<Rightarrow> ('e + 'a) \<times> 'w\<close>; \<open>bind_io\<close> is \<open>.await?\<close>.
  \<^item> The functions of the Rust standard library on strings and integers that the program
    calls (\<open>trim\<close>, \<open>split\<close>, \<open>strip_prefix\<close>, \<open>to_string\<close>, \<open>parse\<close>, \<open>checked_mul\<close>, ...).
\<close>

named_theorems result_simps \<open>rewriting of result and option combinators\<close>
named_theorems io_simps \<open>rewriting of effectful computations applied to a world\<close>

type_synonym u16 = "16 word"
type_synonym u64 = "64 word"
type_synonym i32 = "32 word"
type_synonym bytes = "char list"

section \<open>Results\<close>

definition bind_r :: "'e + 'a \<Rightarrow> ('a \<Rightarrow> 'e + 'b) \<Rightarrow> 'e + 'b" where
  "bind_r r f = (case r of Inl e \<Rightarrow> Inl e | Inr a \<Rightarrow> f a)"

definition map_err :: "('e \<Rightarrow> 'f) \<Rightarrow> 'e + 'a \<Rightarrow> 'f + 'a" where
  "map_err f r = (case r of Inl e \<Rightarrow> Inl (f e) | Inr a \<Rightarrow> Inr a)"

definition ok_or :: "'e \<Rightarrow> 'a option \<Rightarrow> 'e + 'a" where
  "ok_or e m = (case m of None \<Rightarrow> Inl e | Some a \<Rightarrow> Inr a)"

fun collect_r :: "('a \<Rightarrow> 'e + 'b) \<Rightarrow> 'a list \<Rightarrow> 'e + 'b list" where
  "collect_r f [] = Inr []"
| "collect_r f (x # xs) = bind_r (f x) (\<lambda>y. bind_r (collect_r f xs) (\<lambda>ys. Inr (y # ys)))"

lemma bind_r_simps [simp, result_simps]:
  "bind_r (Inl e) f = Inl e"
  "bind_r (Inr a) f = f a"
  by (simp_all add: bind_r_def)

lemma map_err_simps [simp, result_simps]:
  "map_err g (Inl e) = Inl (g e)"
  "map_err g (Inr a) = Inr a"
  by (simp_all add: map_err_def)

lemma ok_or_simps [simp, result_simps]:
  "ok_or e None = Inl e"
  "ok_or e (Some a) = Inr a"
  by (simp_all add: ok_or_def)

lemma bind_r_Inr_iff [result_simps]:
  "bind_r r f = Inr b \<longleftrightarrow> (\<exists>a. r = Inr a \<and> f a = Inr b)"
  by (cases r) auto

lemma bind_r_Inl_iff [result_simps]:
  "bind_r r f = Inl e \<longleftrightarrow> r = Inl e \<or> (\<exists>a. r = Inr a \<and> f a = Inl e)"
  by (cases r) auto

lemma map_err_Inr_iff [simp, result_simps]:
  "map_err g r = Inr a \<longleftrightarrow> r = Inr a" "Inr a = map_err g r \<longleftrightarrow> r = Inr a"
  by (cases r; auto)+

lemma map_err_Inl_iff [result_simps]: "map_err g r = Inl e \<longleftrightarrow> (\<exists>d. r = Inl d \<and> e = g d)"
  by (cases r) auto

lemma map_err_Inl_rev: "Inl e = map_err g r \<longleftrightarrow> (\<exists>d. r = Inl d \<and> e = g d)"
  by (cases r) auto

lemma ok_or_Inr_iff [simp, result_simps]: "ok_or e m = Inr a \<longleftrightarrow> m = Some a"
  by (cases m) auto

lemma ok_or_Inl_iff [result_simps]: "ok_or e m = Inl d \<longleftrightarrow> m = None \<and> d = e"
  by (cases m) auto

lemma collect_r_map:
  "(\<And>x. x \<in> set xs \<Longrightarrow> f (g x) = Inr x) \<Longrightarrow> collect_r f (map g xs) = Inr xs"
  by (induction xs) auto

lemma collect_r_Inr_length: "collect_r f xs = Inr ys \<Longrightarrow> length ys = length xs"
  by (induction xs arbitrary: ys) (auto simp: bind_r_Inr_iff)

lemma collect_r_Inr_set:
  "collect_r f xs = Inr ys \<Longrightarrow> y \<in> set ys \<Longrightarrow> \<exists>x \<in> set xs. f x = Inr y"
  by (induction xs arbitrary: ys) (auto simp: bind_r_Inr_iff)

section \<open>Effects\<close>

type_synonym ('w, 'e, 'a) io = "'w \<Rightarrow> ('e + 'a) \<times> 'w"

definition ret :: "'a \<Rightarrow> ('w, 'e, 'a) io" where
  "ret a = (\<lambda>w. (Inr a, w))"

definition throw :: "'e \<Rightarrow> ('w, 'e, 'a) io" where
  "throw e = (\<lambda>w. (Inl e, w))"

definition lift_r :: "'e + 'a \<Rightarrow> ('w, 'e, 'a) io" where
  "lift_r r = (\<lambda>w. (r, w))"

definition bind_io :: "('w, 'e, 'a) io \<Rightarrow> ('a \<Rightarrow> ('w, 'e, 'b) io) \<Rightarrow> ('w, 'e, 'b) io" where
  "bind_io m f = (\<lambda>w. case m w of (Inl e, w') \<Rightarrow> (Inl e, w') | (Inr a, w') \<Rightarrow> f a w')"

definition map_err_io :: "('e \<Rightarrow> 'f) \<Rightarrow> ('w, 'e, 'a) io \<Rightarrow> ('w, 'f, 'a) io" where
  "map_err_io g m = (\<lambda>w. case m w of (r, w') \<Rightarrow> (map_err g r, w'))"

text \<open>\<open>match call.await { Ok(a) => ok a, Err(e) => err e }\<close>.\<close>

definition match_io ::
  "('w, 'e, 'a) io \<Rightarrow> ('a \<Rightarrow> ('w, 'f, 'b) io) \<Rightarrow> ('e \<Rightarrow> ('w, 'f, 'b) io) \<Rightarrow> ('w, 'f, 'b) io" where
  "match_io m ok err = (\<lambda>w. case m w of (Inl e, w') \<Rightarrow> err e w' | (Inr a, w') \<Rightarrow> ok a w')"

lemma io_apply [simp, io_simps]:
  "ret a w = (Inr a, w)"
  "throw e w = (Inl e, w)"
  "lift_r r w = (r, w)"
  by (simp_all add: ret_def throw_def lift_r_def)

lemma bind_io_step [io_simps]:
  "m w = (Inr a, w') \<Longrightarrow> bind_io m f w = f a w'"
  "m w = (Inl e, w') \<Longrightarrow> bind_io m f w = (Inl e, w')"
  by (simp_all add: bind_io_def)

lemma bind_io_ret [simp, io_simps]:
  "bind_io (ret a) f = f a"
  "bind_io (throw e) f = throw e"
  "bind_io (lift_r (Inr a)) f = f a"
  "bind_io (lift_r (Inl e)) f = throw e"
  by (simp_all add: bind_io_def fun_eq_iff)

lemma bind_io_Inr_iff:
  "bind_io m f w = (Inr b, w'') \<longleftrightarrow> (\<exists>a w'. m w = (Inr a, w') \<and> f a w' = (Inr b, w''))"
  by (auto simp: bind_io_def split: prod.splits sum.splits)

lemma bind_io_InrE:
  assumes "bind_io m f w = (Inr b, w'')"
  obtains a w' where "m w = (Inr a, w')" "f a w' = (Inr b, w'')"
  using assms unfolding bind_io_Inr_iff by blast

lemma bind_io_Inl_iff:
  "bind_io m f w = (Inl e, w'') \<longleftrightarrow>
     m w = (Inl e, w'') \<or> (\<exists>a w'. m w = (Inr a, w') \<and> f a w' = (Inl e, w''))"
  by (auto simp: bind_io_def split: prod.splits sum.splits)

lemma map_err_io_iff:
  "map_err_io g m w = (r', w') \<longleftrightarrow> (\<exists>r. m w = (r, w') \<and> r' = map_err g r)"
  by (auto simp: map_err_io_def split: prod.splits)

lemma map_err_io_step [io_simps]:
  "m w = (r, w') \<Longrightarrow> map_err_io g m w = (map_err g r, w')"
  by (simp add: map_err_io_def)

lemma match_io_step [io_simps]:
  "m w = (Inr a, w') \<Longrightarrow> match_io m ok err w = ok a w'"
  "m w = (Inl e, w') \<Longrightarrow> match_io m ok err w = err e w'"
  by (simp_all add: match_io_def)

text \<open>
  A computation leaves an observation \<open>v\<close> of the world alone. The frame lemmas below are
  what every ``this operation does not touch that table'' argument uses.
\<close>

definition keeps :: "('w \<Rightarrow> 'v) \<Rightarrow> ('w, 'e, 'a) io \<Rightarrow> bool" where
  "keeps v m \<longleftrightarrow> (\<forall>w. v (snd (m w)) = v w)"

lemma keepsD: "keeps v m \<Longrightarrow> m w = (r, w') \<Longrightarrow> v w' = v w"
  by (metis keeps_def snd_conv)

lemma keepsI: "(\<And>w r w'. m w = (r, w') \<Longrightarrow> v w' = v w) \<Longrightarrow> keeps v m"
  unfolding keeps_def by (metis prod.collapse)

lemma keeps_ret [simp, intro]: "keeps v (ret a)" "keeps v (throw e)" "keeps v (lift_r r)"
  by (simp_all add: keeps_def)

lemma keeps_bind [intro]: "keeps v m \<Longrightarrow> (\<And>a. keeps v (f a)) \<Longrightarrow> keeps v (bind_io m f)"
  by (rule keepsI, auto simp: bind_io_def split: prod.splits sum.splits) (metis keepsD)+

lemma keeps_map_err [intro]: "keeps v m \<Longrightarrow> keeps v (map_err_io g m)"
  by (auto simp: map_err_io_iff intro!: keepsI dest: keepsD)

lemma keeps_match [intro]:
  "keeps v m \<Longrightarrow> (\<And>a. keeps v (f a)) \<Longrightarrow> (\<And>e. keeps v (g e)) \<Longrightarrow> keeps v (match_io m f g)"
  by (rule keepsI, auto simp: match_io_def split: prod.splits sum.splits) (metis keepsD)+

text \<open>
  The same under an invariant: from a world satisfying \<open>P\<close> the computation leaves \<open>v\<close> alone and
  ends in a world satisfying \<open>P\<close>.
\<close>

definition frames :: "('w \<Rightarrow> bool) \<Rightarrow> ('w \<Rightarrow> 'v) \<Rightarrow> ('w, 'e, 'a) io \<Rightarrow> bool" where
  "frames P v m \<longleftrightarrow> (\<forall>w. P w \<longrightarrow> v (snd (m w)) = v w \<and> P (snd (m w)))"

lemma framesD: "frames P v m \<Longrightarrow> P w \<Longrightarrow> m w = (r, w') \<Longrightarrow> v w' = v w \<and> P w'"
  by (metis frames_def snd_conv)

lemma framesI: "(\<And>w r w'. P w \<Longrightarrow> m w = (r, w') \<Longrightarrow> v w' = v w \<and> P w') \<Longrightarrow> frames P v m"
  unfolding frames_def by (metis prod.collapse)

lemma frames_ret [simp, intro]: "frames P v (ret a)" "frames P v (throw e)" "frames P v (lift_r r)"
  by (simp_all add: frames_def)

lemma frames_bind [intro]:
  "frames P v m \<Longrightarrow> (\<And>a. frames P v (f a)) \<Longrightarrow> frames P v (bind_io m f)"
  by (rule framesI, auto simp: bind_io_def split: prod.splits sum.splits) (metis framesD)+

lemma frames_map_err [intro]: "frames P v m \<Longrightarrow> frames P v (map_err_io g m)"
  by (auto simp: map_err_io_iff intro!: framesI dest: framesD)

lemma frames_match [intro]:
  "frames P v m \<Longrightarrow> (\<And>a. frames P v (f a)) \<Longrightarrow> (\<And>e. frames P v (g e)) \<Longrightarrow> frames P v (match_io m f g)"
  by (rule framesI, auto simp: match_io_def split: prod.splits sum.splits) (metis framesD)+

lemma frames_if: "(b \<Longrightarrow> frames P v m) \<Longrightarrow> (\<not> b \<Longrightarrow> frames P v n) \<Longrightarrow> frames P v (if b then m else n)"
  and keeps_if: "(b \<Longrightarrow> keeps v m) \<Longrightarrow> (\<not> b \<Longrightarrow> keeps v n) \<Longrightarrow> keeps v (if b then m else n)"
  by simp_all

text \<open>The errors a computation may report.\<close>

definition throws :: "('e \<Rightarrow> bool) \<Rightarrow> ('w, 'e, 'a) io \<Rightarrow> bool" where
  "throws P m \<longleftrightarrow> (\<forall>w e. fst (m w) = Inl e \<longrightarrow> P e)"

lemma throwsI: "(\<And>w e w'. m w = (Inl e, w') \<Longrightarrow> P e) \<Longrightarrow> throws P m"
  unfolding throws_def by (metis prod.collapse)

lemma throwsD: "throws P m \<Longrightarrow> m w = (Inl e, w') \<Longrightarrow> P e"
  unfolding throws_def by (metis fst_conv)

lemma throws_ret [simp, intro]: "throws P (ret a)"
  by (simp add: throws_def)

lemma throws_throw [simp]: "throws P (throw e) \<longleftrightarrow> P e"
  by (simp add: throws_def)

lemma throws_lift [simp]: "throws P (lift_r r) \<longleftrightarrow> (\<forall>e. r = Inl e \<longrightarrow> P e)"
  by (simp add: throws_def)

lemma throws_bind [intro]: "throws P m \<Longrightarrow> (\<And>a. throws P (f a)) \<Longrightarrow> throws P (bind_io m f)"
  by (rule throwsI) (metis bind_io_Inl_iff throwsD)

lemma throws_map_err [intro]: "(\<And>e. P (g e)) \<Longrightarrow> throws P (map_err_io g m)"
  by (rule throwsI) (auto simp: map_err_io_iff map_err_Inl_rev)

text \<open>
  What a computation establishes: started in \<open>P\<close> it ends in \<open>Q\<close> of its result, or in \<open>E\<close> of its
  error. One rule per combinator, so that a handler's proof follows its code.
\<close>

definition triple ::
  "('w \<Rightarrow> bool) \<Rightarrow> ('w, 'e, 'a) io \<Rightarrow> ('a \<Rightarrow> 'w \<Rightarrow> bool) \<Rightarrow> ('e \<Rightarrow> 'w \<Rightarrow> bool) \<Rightarrow> bool" where
  "triple P m Q E \<longleftrightarrow> (\<forall>w. P w \<longrightarrow> (case m w of (Inr a, w') \<Rightarrow> Q a w' | (Inl e, w') \<Rightarrow> E e w'))"

lemma tripleI:
  "(\<And>w a w'. P w \<Longrightarrow> m w = (Inr a, w') \<Longrightarrow> Q a w') \<Longrightarrow> (\<And>w e w'. P w \<Longrightarrow> m w = (Inl e, w') \<Longrightarrow> E e w')
     \<Longrightarrow> triple P m Q E"
  by (auto simp: triple_def split: prod.split sum.split)

lemma triple_ok: "triple P m Q E \<Longrightarrow> P w \<Longrightarrow> m w = (Inr a, w') \<Longrightarrow> Q a w'"
  and triple_err: "triple P m Q E \<Longrightarrow> P w \<Longrightarrow> m w = (Inl e, w') \<Longrightarrow> E e w'"
  by (force simp: triple_def)+

lemma triple_ret: "(\<And>w. P w \<Longrightarrow> Q a w) \<Longrightarrow> triple P (ret a) Q E"
  and triple_throw: "(\<And>w. P w \<Longrightarrow> E e w) \<Longrightarrow> triple P (throw e) Q E"
  and triple_lift:
    "(\<And>w a. P w \<Longrightarrow> r = Inr a \<Longrightarrow> Q a w) \<Longrightarrow> (\<And>w e. P w \<Longrightarrow> r = Inl e \<Longrightarrow> E e w) \<Longrightarrow> triple P (lift_r r) Q E"
  by (auto simp: triple_def split: sum.split)

lemma triple_bind:
  "triple P m R E \<Longrightarrow> (\<And>a. triple (R a) (f a) Q E) \<Longrightarrow> triple P (bind_io m f) Q E"
  by (fastforce simp: triple_def bind_io_def split: prod.splits sum.splits)

lemma triple_match:
  "triple P m R S \<Longrightarrow> (\<And>a. triple (R a) (f a) Q E) \<Longrightarrow> (\<And>e. triple (S e) (g e) Q E)
     \<Longrightarrow> triple P (match_io m f g) Q E"
  by (fastforce simp: triple_def match_io_def split: prod.splits sum.splits)

lemma triple_map_err: "triple P m Q (\<lambda>e. E (g e)) \<Longrightarrow> triple P (map_err_io g m) Q E"
  by (rule tripleI) (auto simp: map_err_io_iff map_err_Inl_rev dest: triple_ok triple_err)

lemma triple_if:
  "(b \<Longrightarrow> triple P m Q E) \<Longrightarrow> (\<not> b \<Longrightarrow> triple P n Q E) \<Longrightarrow> triple P (if b then m else n) Q E"
  by simp

lemma triple_frames:
  "frames G v m \<Longrightarrow> (\<And>w a w'. P w \<Longrightarrow> G w \<Longrightarrow> v w' = v w \<Longrightarrow> G w' \<Longrightarrow> Q a w')
     \<Longrightarrow> (\<And>w e w'. P w \<Longrightarrow> G w \<Longrightarrow> v w' = v w \<Longrightarrow> G w' \<Longrightarrow> E e w') \<Longrightarrow> (\<And>w. P w \<Longrightarrow> G w) \<Longrightarrow> triple P m Q E"
  by (rule tripleI) (metis framesD)+

end
