(* ===== verification/Rust_Str.thy ===== *)
theory Rust_Str
  imports Prelude
begin

text \<open>
  The part of Rust's standard library on strings and unsigned integers that the program
  calls, on UTF-8 byte lists: character classes, \<open>trim\<close> with the Unicode \<open>White_Space\<close> set,
  \<open>split\<close> by one character, prefixes and suffixes, ASCII case, \<open>to_string\<close> and \<open>parse\<close> of
  unsigned integers, and UTF-8 validity. The lemmas are the facts the parsers of the program
  rest on: decimal text is parsed back, trimming leaves printable text alone, and splitting
  text without the separator gives one piece.
\<close>

section \<open>Characters\<close>

definition byte :: "char \<Rightarrow> nat" where
  "byte c = of_char c"

definition chr :: "nat \<Rightarrow> char" where
  "chr n = char_of n"

lemma byte_chr [simp]: "n < 256 \<Longrightarrow> byte (chr n) = n"
  by (simp add: byte_def chr_def)

lemma chr_byte [simp]: "chr (byte c) = c"
  by (simp add: byte_def chr_def)

lemma byte_less [simp]: "byte c < 256"
  by (simp add: byte_def)

lemma byte_inj: "byte a = byte b \<longleftrightarrow> a = b"
  by (metis chr_byte)

definition is_ascii :: "char \<Rightarrow> bool" where
  "is_ascii c \<longleftrightarrow> byte c < 128"

definition is_ascii_digit :: "char \<Rightarrow> bool" where
  "is_ascii_digit c \<longleftrightarrow> 48 \<le> byte c \<and> byte c \<le> 57"

definition is_ascii_lowercase :: "char \<Rightarrow> bool" where
  "is_ascii_lowercase c \<longleftrightarrow> 97 \<le> byte c \<and> byte c \<le> 122"

definition is_ascii_uppercase :: "char \<Rightarrow> bool" where
  "is_ascii_uppercase c \<longleftrightarrow> 65 \<le> byte c \<and> byte c \<le> 90"

definition is_ascii_alphanumeric :: "char \<Rightarrow> bool" where
  "is_ascii_alphanumeric c \<longleftrightarrow> is_ascii_digit c \<or> is_ascii_lowercase c \<or> is_ascii_uppercase c"

definition is_ascii_hexdigit :: "char \<Rightarrow> bool" where
  "is_ascii_hexdigit c \<longleftrightarrow>
     is_ascii_digit c \<or> (97 \<le> byte c \<and> byte c \<le> 102) \<or> (65 \<le> byte c \<and> byte c \<le> 70)"

definition to_lower :: "char \<Rightarrow> char" where
  "to_lower c = (if is_ascii_uppercase c then chr (byte c + 32) else c)"

definition to_ascii_lowercase :: "string \<Rightarrow> string" where
  "to_ascii_lowercase s = map to_lower s"

definition eq_ignore_ascii_case :: "string \<Rightarrow> string \<Rightarrow> bool" where
  "eq_ignore_ascii_case a b \<longleftrightarrow> to_ascii_lowercase a = to_ascii_lowercase b"

text \<open>Printable ASCII without the space.\<close>

definition graphic :: "char \<Rightarrow> bool" where
  "graphic c \<longleftrightarrow> 33 \<le> byte c \<and> byte c \<le> 126"

lemmas char_class_defs = is_ascii_def is_ascii_digit_def is_ascii_lowercase_def
  is_ascii_uppercase_def is_ascii_alphanumeric_def is_ascii_hexdigit_def graphic_def

lemma alphanumeric_graphic: "is_ascii_alphanumeric c \<Longrightarrow> graphic c"
  by (auto simp: char_class_defs)

lemma hexdigit_alphanumeric: "is_ascii_hexdigit c \<Longrightarrow> is_ascii_alphanumeric c"
  by (auto simp: char_class_defs)

lemma digit_hexdigit: "is_ascii_digit c \<Longrightarrow> is_ascii_hexdigit c"
  by (auto simp: char_class_defs)

lemma to_lower_not_upper [simp]: "\<not> is_ascii_uppercase (to_lower c)"
  by (auto simp: to_lower_def char_class_defs)

lemma to_lower_id [simp]: "\<not> is_ascii_uppercase c \<Longrightarrow> to_lower c = c"
  by (simp add: to_lower_def)

lemma to_lower_idem [simp]: "to_lower (to_lower c) = to_lower c"
  by simp

lemma to_ascii_lowercase_idem [simp]:
  "to_ascii_lowercase (to_ascii_lowercase s) = to_ascii_lowercase s"
  by (simp add: to_ascii_lowercase_def)

lemma length_to_ascii_lowercase [simp]: "length (to_ascii_lowercase s) = length s"
  by (simp add: to_ascii_lowercase_def)

lemma to_lower_hexdigit [simp]: "is_ascii_hexdigit (to_lower c) = is_ascii_hexdigit c"
  by (auto simp: to_lower_def char_class_defs)

lemma to_ascii_lowercase_id:
  "(\<And>c. c \<in> set s \<Longrightarrow> \<not> is_ascii_uppercase c) \<Longrightarrow> to_ascii_lowercase s = s"
  by (simp add: to_ascii_lowercase_def map_idI)

section \<open>Prefixes, suffixes, substrings\<close>

definition starts_with :: "string \<Rightarrow> string \<Rightarrow> bool" where
  "starts_with s p \<longleftrightarrow> take (length p) s = p"

definition ends_with :: "string \<Rightarrow> string \<Rightarrow> bool" where
  "ends_with s p \<longleftrightarrow> length p \<le> length s \<and> drop (length s - length p) s = p"

definition strip_prefix :: "string \<Rightarrow> string \<Rightarrow> string option" where
  "strip_prefix s p = (if starts_with s p then Some (drop (length p) s) else None)"

fun contains_str :: "string \<Rightarrow> string \<Rightarrow> bool" where
  "contains_str [] p = (p = [])"
| "contains_str (c # s) p = (starts_with (c # s) p \<or> contains_str s p)"

definition contains_char :: "string \<Rightarrow> char \<Rightarrow> bool" where
  "contains_char s c \<longleftrightarrow> c \<in> set s"

definition trim_end_matches :: "char \<Rightarrow> string \<Rightarrow> string" where
  "trim_end_matches c s = rev (dropWhile (\<lambda>d. d = c) (rev s))"

definition trim_matches :: "char \<Rightarrow> string \<Rightarrow> string" where
  "trim_matches c s = trim_end_matches c (dropWhile (\<lambda>d. d = c) s)"

lemma starts_with_append [simp]: "starts_with (p @ s) p"
  by (simp add: starts_with_def)

lemma starts_withE: "starts_with s p \<Longrightarrow> (\<And>t. s = p @ t \<Longrightarrow> P) \<Longrightarrow> P"
  unfolding starts_with_def by (metis append_take_drop_id)

lemma strip_prefix_append [simp]: "strip_prefix (p @ s) p = Some s"
  by (simp add: strip_prefix_def)

lemma strip_prefix_Some_iff: "strip_prefix s p = Some t \<longleftrightarrow> s = p @ t"
  by (auto simp: strip_prefix_def elim: starts_withE split: if_splits)

lemma trim_end_matches_idem [simp]:
  "trim_end_matches c (trim_end_matches c s) = trim_end_matches c s"
proof -
  have "dropWhile P (dropWhile P xs) = dropWhile P xs" for P and xs :: string
    by (induction xs) auto
  then show ?thesis by (simp add: trim_end_matches_def)
qed

section \<open>split\<close>

text \<open>\<open>s.split(sep)\<close>: the pieces between separators; never empty.\<close>

fun split_on :: "char \<Rightarrow> string \<Rightarrow> string list" where
  "split_on sep [] = [[]]"
| "split_on sep (c # s) =
     (if c = sep then [] # split_on sep s
      else (case split_on sep s of [] \<Rightarrow> [[c]] | p # ps \<Rightarrow> (c # p) # ps))"

lemma split_on_nonempty [simp]: "split_on sep s \<noteq> []"
  by (induction s) (auto split: list.splits)

lemma split_on_no_sep: "sep \<notin> set s \<Longrightarrow> split_on sep s = [s]"
  by (induction s) auto

lemma split_on_append_sep: "sep \<notin> set p \<Longrightarrow> split_on sep (p @ sep # s) = p # split_on sep s"
  by (induction p) auto

lemma split_on_pieces: "p \<in> set (split_on sep s) \<Longrightarrow> sep \<notin> set p"
  by (induction s arbitrary: p) (auto split: if_splits list.splits)

lemma split_on_singleton: "split_on sep s = [p] \<Longrightarrow> s = p"
  by (induction s arbitrary: p) (auto split: if_splits list.splits)

lemma split_on_pair: "split_on sep s = [p, q] \<Longrightarrow> s = p @ sep # q"
proof (induction s arbitrary: p)
  case (Cons c s)
  show ?case
  proof (cases "c = sep")
    case True
    with Cons.prems show ?thesis by (auto dest: split_on_singleton)
  next
    case False
    with Cons show ?thesis by (auto split: list.splits)
  qed
qed simp

section \<open>trim\<close>

text \<open>
  The UTF-8 encodings of the characters with the Unicode property \<open>White_Space\<close>, which
  \<open>str::trim\<close> removes at both ends.
\<close>

definition white_space :: "string list" where
  "white_space = map (map chr)
     ([[9], [10], [11], [12], [13], [32], [194, 133], [194, 160], [225, 154, 128],
       [226, 128, 168], [226, 128, 169], [226, 128, 175], [226, 129, 159], [227, 128, 128]]
      @ map (\<lambda>n. [226, 128, n]) [128, 129, 130, 131, 132, 133, 134, 135, 136, 137, 138])"

function trim_with :: "string list \<Rightarrow> string \<Rightarrow> string" where
  "trim_with ws s =
     (case find (\<lambda>p. p \<noteq> [] \<and> starts_with s p) ws of
        None \<Rightarrow> s
      | Some p \<Rightarrow> trim_with ws (drop (length p) s))"
  by pat_completeness auto
termination
proof (relation "measure (\<lambda>(ws, s). length s)")
  fix ws s p
  assume "find (\<lambda>p. p \<noteq> [] \<and> starts_with s p) ws = Some p"
  then have "p \<noteq> [] \<and> starts_with s p" by (auto simp: find_Some_iff)
  then show "((ws, drop (length p) s), ws, s) \<in> measure (\<lambda>(ws, s). length s)"
    by (cases s; cases p) (auto simp: starts_with_def)
qed simp

declare trim_with.simps [simp del]

definition trim_start :: "string \<Rightarrow> string" where
  "trim_start s = trim_with white_space s"

definition trim_end :: "string \<Rightarrow> string" where
  "trim_end s = rev (trim_with (map rev white_space) (rev s))"

definition trim :: "string \<Rightarrow> string" where
  "trim s = trim_end (trim_start s)"

lemma trim_with_id:
  assumes "s = [] \<or> graphic (hd s)" and "\<And>p. p \<in> set ws \<Longrightarrow> p \<noteq> [] \<Longrightarrow> \<not> graphic (hd p)"
  shows "trim_with ws s = s"
proof -
  have "\<not> (p \<noteq> [] \<and> starts_with s p)" if "p \<in> set ws" for p
    using assms(1) assms(2) [OF that] by (cases p; cases s) (auto simp: starts_with_def)
  then have "find (\<lambda>p. p \<noteq> [] \<and> starts_with s p) ws = None"
    by (auto simp: find_None_iff)
  then show ?thesis by (subst trim_with.simps) simp
qed

lemma white_space_not_graphic:
  "p \<in> set white_space \<Longrightarrow> \<not> graphic (hd p)"
  "p \<in> set (map rev white_space) \<Longrightarrow> \<not> graphic (hd p)"
  by (auto simp: white_space_def graphic_def)

lemma trim_id:
  assumes "s = [] \<or> graphic (hd s) \<and> graphic (last s)"
  shows "trim s = s"
proof -
  have "trim_start s = s"
    unfolding trim_start_def by (rule trim_with_id) (use assms white_space_not_graphic in auto)
  moreover have "trim_end s = s"
    unfolding trim_end_def using assms white_space_not_graphic
    by (subst trim_with_id) (auto simp: hd_rev)
  ultimately show ?thesis by (simp add: trim_def)
qed

lemma trim_graphic: "(\<And>c. c \<in> set s \<Longrightarrow> graphic c) \<Longrightarrow> trim s = s"
  by (cases "s = []") (auto intro!: trim_id)

section \<open>Unsigned integers: to\_string and parse\<close>

fun show_nat :: "nat \<Rightarrow> string" where
  "show_nat n = (if n < 10 then [chr (48 + n)] else show_nat (n div 10) @ [chr (48 + n mod 10)])"

declare show_nat.simps [simp del]

fun digits_val :: "nat \<Rightarrow> string \<Rightarrow> nat option" where
  "digits_val acc [] = Some acc"
| "digits_val acc (c # s) =
     (if is_ascii_digit c then digits_val (10 * acc + (byte c - 48)) s else None)"

text \<open>
  \<open>str::parse\<close> at an unsigned type with maximum \<open>bound - 1\<close>: an optional plus sign, then at
  least one digit, all digits, and no overflow.
\<close>

definition parse_uint :: "nat \<Rightarrow> string \<Rightarrow> nat option" where
  "parse_uint bound s =
     (let t = (case strip_prefix s ''+'' of None \<Rightarrow> s | Some t \<Rightarrow> t) in
      if t = [] then None
      else case digits_val 0 t of
        None \<Rightarrow> None
      | Some n \<Rightarrow> if n < bound then Some n else None)"

definition parse_u8 :: "string \<Rightarrow> nat option" where
  "parse_u8 = parse_uint (2 ^ 8)"

definition parse_u16 :: "string \<Rightarrow> nat option" where
  "parse_u16 = parse_uint (2 ^ 16)"

definition parse_u64 :: "string \<Rightarrow> u64 option" where
  "parse_u64 s = map_option of_nat (parse_uint (2 ^ 64) s)"

definition show_u64 :: "u64 \<Rightarrow> string" where
  "show_u64 v = show_nat (unat v)"

definition show_int :: "int \<Rightarrow> string" where
  "show_int i = (if i < 0 then CHR ''-'' # show_nat (nat (- i)) else show_nat (nat i))"

lemma show_nat_not_Nil [simp]: "show_nat n \<noteq> []"
  by (subst show_nat.simps) simp

lemma show_nat_digits: "c \<in> set (show_nat n) \<Longrightarrow> is_ascii_digit c"
proof (induction n rule: show_nat.induct)
  case (1 n)
  show ?case
  proof (cases "n < 10")
    case True
    with "1.prems" show ?thesis by (subst (asm) show_nat.simps) (simp add: is_ascii_digit_def)
  next
    case False
    have "c \<in> set (show_nat (n div 10)) \<or> c = chr (48 + n mod 10)"
      using "1.prems" False by (subst (asm) show_nat.simps) auto
    then show ?thesis
    proof
      assume "c = chr (48 + n mod 10)"
      moreover have "n mod 10 < 10" by simp
      ultimately show ?thesis by (simp add: is_ascii_digit_def)
    qed (use "1.IH" False in simp)
  qed
qed

lemma digits_val_append:
  "digits_val acc (s @ t) = (case digits_val acc s of None \<Rightarrow> None | Some v \<Rightarrow> digits_val v t)"
  by (induction s arbitrary: acc) auto

lemma digits_val_show_nat: "digits_val 0 (show_nat n) = Some n"
proof (induction n rule: show_nat.induct)
  case (1 n)
  show ?case
  proof (cases "n < 10")
    case True
    then show ?thesis by (subst show_nat.simps) (simp add: is_ascii_digit_def)
  next
    case False
    with 1 have "digits_val 0 (show_nat (n div 10)) = Some (n div 10)" by simp
    moreover have "n mod 10 < 10" by simp
    ultimately show ?thesis
      using False by (subst show_nat.simps) (simp add: digits_val_append is_ascii_digit_def)
  qed
qed

lemma digits_no_plus: "(\<And>c. c \<in> set s \<Longrightarrow> is_ascii_digit c) \<Longrightarrow> strip_prefix s ''+'' = None"
proof (cases s)
  case (Cons d t)
  assume "\<And>c. c \<in> set s \<Longrightarrow> is_ascii_digit c"
  with Cons have "is_ascii_digit d" by simp
  then have "d \<noteq> CHR ''+''" by (auto simp: is_ascii_digit_def byte_def)
  with Cons show ?thesis by (simp add: strip_prefix_def starts_with_def)
qed (simp add: strip_prefix_def starts_with_def)

lemma parse_show_nat: "parse_uint bound (show_nat n) = (if n < bound then Some n else None)"
  using digits_no_plus [OF show_nat_digits]
  by (simp add: parse_uint_def digits_val_show_nat)

lemma parse_uint_less: "parse_uint bound s = Some n \<Longrightarrow> n < bound"
  by (auto simp: parse_uint_def Let_def split: if_splits option.splits)

lemma parse_show_u64 [simp]: "parse_u64 (show_u64 v) = Some v"
proof -
  have "unat v < 2 ^ 64" using unsigned_less [of v] by simp
  then show ?thesis by (simp add: parse_u64_def show_u64_def parse_show_nat)
qed

lemma show_nat_inj: "show_nat a = show_nat b \<longleftrightarrow> a = b"
  by (metis digits_val_show_nat option.inject)

lemma show_u64_inj: "show_u64 a = show_u64 b \<longleftrightarrow> a = b"
  by (simp add: show_u64_def show_nat_inj word_unat_eq_iff)

section \<open>Checked and saturating arithmetic\<close>

definition checked_mul_u64 :: "u64 \<Rightarrow> u64 \<Rightarrow> u64 option" where
  "checked_mul_u64 a b = (if unat a * unat b < 2 ^ 64 then Some (a * b) else None)"

definition saturating_add_u64 :: "u64 \<Rightarrow> u64 \<Rightarrow> u64" where
  "saturating_add_u64 a b = (if unat a + unat b < 2 ^ 64 then a + b else - 1)"

lemma checked_mul_u64_Some:
  "checked_mul_u64 a b = Some c \<longleftrightarrow> unat a * unat b < 2 ^ 64 \<and> unat c = unat a * unat b"
proof -
  have "unat (a * b) = unat a * unat b" if "unat a * unat b < 2 ^ 64"
    using that by (simp add: unat_word_ariths(2))
  then show ?thesis by (auto simp: checked_mul_u64_def word_unat_eq_iff)
qed

lemma unat_saturating_add_u64:
  "unat (saturating_add_u64 a b) = min (unat a + unat b) (2 ^ 64 - 1)"
proof (cases "unat a + unat b < 2 ^ 64")
  case True
  then have "unat (a + b) = unat a + unat b" by (simp add: unat_word_ariths(1))
  with True show ?thesis by (simp add: saturating_add_u64_def)
next
  case False
  then show ?thesis by (simp add: saturating_add_u64_def unsigned_minus_1_eq_mask mask_eq_exp_minus_1)
qed

section \<open>UTF-8 validity\<close>

text \<open>
  Well-formed UTF-8 (what \<open>str::from_utf8\<close> accepts): a lead byte fixes the ranges its
  continuation bytes must lie in.
\<close>

definition utf8_lead :: "nat \<Rightarrow> (nat \<times> nat) list option" where
  "utf8_lead b =
     (if b < 128 then Some []
      else if 194 \<le> b \<and> b \<le> 223 then Some [(128, 191)]
      else if b = 224 then Some [(160, 191), (128, 191)]
      else if b = 237 then Some [(128, 159), (128, 191)]
      else if 225 \<le> b \<and> b \<le> 239 then Some [(128, 191), (128, 191)]
      else if b = 240 then Some [(144, 191), (128, 191), (128, 191)]
      else if 241 \<le> b \<and> b \<le> 243 then Some [(128, 191), (128, 191), (128, 191)]
      else if b = 244 then Some [(128, 143), (128, 191), (128, 191)]
      else None)"

fun utf8_go :: "(nat \<times> nat) list \<Rightarrow> bytes \<Rightarrow> bool" where
  "utf8_go [] [] = True"
| "utf8_go (r # rs) [] = False"
| "utf8_go ((lo, hi) # rs) (c # s) = (lo \<le> byte c \<and> byte c \<le> hi \<and> utf8_go rs s)"
| "utf8_go [] (c # s) = (case utf8_lead (byte c) of None \<Rightarrow> False | Some rs \<Rightarrow> utf8_go rs s)"

definition utf8_valid :: "bytes \<Rightarrow> bool" where
  "utf8_valid s = utf8_go [] s"

lemma utf8_valid_ascii: "(\<And>c. c \<in> set s \<Longrightarrow> is_ascii c) \<Longrightarrow> utf8_valid s"
  unfolding utf8_valid_def by (induction s) (auto simp: is_ascii_def utf8_lead_def)

lemma utf8_go_append: "utf8_go rs s \<Longrightarrow> utf8_go [] t \<Longrightarrow> utf8_go rs (s @ t)"
  by (induction rs s rule: utf8_go.induct) (auto split: option.splits)

lemma utf8_valid_append: "utf8_valid s \<Longrightarrow> utf8_valid t \<Longrightarrow> utf8_valid (s @ t)"
  by (simp add: utf8_valid_def utf8_go_append)

end
