(* ===== verification/External.thy ===== *)
theory External
  imports Rust_Str
begin

text \<open>
  The third-party crates the program computes with: \<open>hex\<close>, \<open>sha2\<close> and \<open>base64\<close>. They are not
  part of the repository, so they are a parameter of the model, a record of functions that
  every definition using them takes as its argument. The locales state the documented
  behaviour the program relies on; nothing is assumed of SHA-256 beyond its being a function
  into 32 bytes, so no theorem of the development rests on collision resistance. The last
  part gives a reference implementation of each codec, proves that it has these laws and
  collects them in \<open>ref_ext\<close>, on which the witnesses run.
\<close>

record ext =
  hex_encode :: "bytes \<Rightarrow> string"
  hex_decode :: "string \<Rightarrow> bytes option"
  sha256 :: "bytes \<Rightarrow> bytes"
  b64_encode :: "bytes \<Rightarrow> string"
  b64_decode :: "string \<Rightarrow> bytes option"

section \<open>The contracts\<close>

locale hex_codec =
  fixes henc :: "bytes \<Rightarrow> string" and hdec :: "string \<Rightarrow> bytes option"
  assumes hdec_henc: "hdec (henc b) = Some b"
    and henc_hdec: "hdec s = Some b \<Longrightarrow> henc b = to_ascii_lowercase s"
    and henc_chars: "c \<in> set (henc b) \<Longrightarrow> is_ascii_hexdigit c \<and> \<not> is_ascii_uppercase c"
    and henc_length: "length (henc b) = 2 * length b"
begin

lemma henc_inj: "henc a = henc b \<longleftrightarrow> a = b"
  by (metis hdec_henc option.inject)

lemma henc_lower [simp]: "to_ascii_lowercase (henc b) = henc b"
  using henc_chars by (intro to_ascii_lowercase_id) blast

lemma hdec_length: "hdec s = Some b \<Longrightarrow> length s = 2 * length b"
  using henc_hdec henc_length by (metis length_to_ascii_lowercase)

lemma henc_graphic: "c \<in> set (henc b) \<Longrightarrow> graphic c"
  using henc_chars hexdigit_alphanumeric alphanumeric_graphic by blast

end

locale sha256_fn =
  fixes H :: "bytes \<Rightarrow> bytes"
  assumes sha_length: "length (H b) = 32"

locale base64_codec =
  fixes benc :: "bytes \<Rightarrow> string" and bdec :: "string \<Rightarrow> bytes option"
  assumes bdec_benc: "bdec (benc b) = Some b"
    and benc_alphabet: "c \<in> set (benc b) \<Longrightarrow> is_ascii_alphanumeric c \<or> c \<in> {CHR ''+'', CHR ''/'', CHR ''=''}"
    and benc_length: "length (benc b) = 4 * ((length b + 2) div 3)"
begin

lemma benc_chars: "c \<in> set (benc b) \<Longrightarrow> graphic c \<and> c \<noteq> CHR 0x22 \<and> c \<noteq> CHR 0x5C"
  using benc_alphabet [of c b] alphanumeric_graphic by (auto simp: char_class_defs graphic_def byte_def)

lemma benc_no_brace: "CHR ''{'' \<notin> set (benc b)"
  using benc_alphabet [of "CHR ''{''" b] by (auto simp: char_class_defs byte_def)

lemma benc_inj: "benc a = benc b \<longleftrightarrow> a = b"
  by (metis bdec_benc option.inject)

lemma benc_trim [simp]: "trim (benc b) = benc b"
  using benc_chars by (intro trim_graphic) blast

end

locale externals =
  hex_codec "hex_encode X" "hex_decode X" + sha256_fn "sha256 X" +
  base64_codec "b64_encode X" "b64_decode X"
  for X :: ext

section \<open>Reference hex\<close>

definition hex_digit :: "nat \<Rightarrow> char" where
  "hex_digit n = (if n < 10 then chr (48 + n) else chr (87 + n))"

definition hex_value :: "char \<Rightarrow> nat option" where
  "hex_value c =
     (if is_ascii_digit c then Some (byte c - 48)
      else if 97 \<le> byte c \<and> byte c \<le> 102 then Some (byte c - 87)
      else if 65 \<le> byte c \<and> byte c \<le> 70 then Some (byte c - 55) else None)"

fun ref_hex_encode :: "bytes \<Rightarrow> string" where
  "ref_hex_encode [] = []"
| "ref_hex_encode (c # s) =
     hex_digit (byte c div 16) # hex_digit (byte c mod 16) # ref_hex_encode s"

fun ref_hex_decode :: "string \<Rightarrow> bytes option" where
  "ref_hex_decode [] = Some []"
| "ref_hex_decode [c] = None"
| "ref_hex_decode (a # b # s) =
     (case (hex_value a, hex_value b, ref_hex_decode s) of
        (Some x, Some y, Some r) \<Rightarrow> Some (chr (16 * x + y) # r)
      | _ \<Rightarrow> None)"

lemma hex_value_digit [simp]: "n < 16 \<Longrightarrow> hex_value (hex_digit n) = Some n"
  by (auto simp: hex_value_def hex_digit_def is_ascii_digit_def)

lemma hex_digit_lower: "n < 16 \<Longrightarrow> is_ascii_hexdigit (hex_digit n) \<and> \<not> is_ascii_uppercase (hex_digit n)"
  by (auto simp: hex_digit_def char_class_defs)

lemma byte_div16 [simp]: "byte c div 16 < 16"
  using byte_less [of c] by linarith

lemma hex_value_lt: "hex_value c = Some n \<Longrightarrow> n < 16"
  by (auto simp: hex_value_def is_ascii_digit_def split: if_splits)

lemma hex_digit_value: "hex_value c = Some n \<Longrightarrow> hex_digit n = to_lower c"
  by (auto simp: hex_value_def hex_digit_def to_lower_def char_class_defs add.commute
      split: if_splits)

interpretation ref_hex: hex_codec ref_hex_encode ref_hex_decode
proof unfold_locales
  show dec_enc: "ref_hex_decode (ref_hex_encode b) = Some b" for b
    by (induction b) auto
  show "ref_hex_decode s = Some b \<Longrightarrow> ref_hex_encode b = to_ascii_lowercase s" for s b
  proof (induction s arbitrary: b rule: ref_hex_decode.induct)
    case (3 x y s)
    then obtain m n r where v: "hex_value x = Some m" "hex_value y = Some n"
      "ref_hex_decode s = Some r" and b: "b = chr (16 * m + n) # r"
      by (auto split: option.splits)
    have lt: "m < 16" "n < 16" using v hex_value_lt by auto
    with v have "byte (chr (16 * m + n)) = 16 * m + n" by simp
    with lt v b 3 show ?case by (simp add: hex_digit_value to_ascii_lowercase_def)
  qed (auto simp: to_ascii_lowercase_def)
  show "c \<in> set (ref_hex_encode b) \<Longrightarrow> is_ascii_hexdigit c \<and> \<not> is_ascii_uppercase c" for c b
    by (induction b) (use hex_digit_lower in auto)
  show "length (ref_hex_encode b) = 2 * length b" for b
    by (induction b) auto
qed

section \<open>Reference base64\<close>

definition b64_alphabet :: string where
  "b64_alphabet = ''ABCDEFGHIJKLMNOPQRSTUVWXYZabcdefghijklmnopqrstuvwxyz0123456789+/''"

definition b64_char :: "nat \<Rightarrow> char" where
  "b64_char n = b64_alphabet ! n"

definition b64_value :: "char \<Rightarrow> nat option" where
  "b64_value c = map_of (zip b64_alphabet [0..<64]) c"

fun ref_b64_encode :: "bytes \<Rightarrow> string" where
  "ref_b64_encode [] = []"
| "ref_b64_encode [a] =
     [b64_char (byte a div 4), b64_char (byte a mod 4 * 16), CHR ''='', CHR ''='']"
| "ref_b64_encode [a, b] =
     [b64_char (byte a div 4), b64_char (byte a mod 4 * 16 + byte b div 16),
      b64_char (byte b mod 16 * 4), CHR ''='']"
| "ref_b64_encode (a # b # c # s) =
     b64_char (byte a div 4) # b64_char (byte a mod 4 * 16 + byte b div 16)
     # b64_char (byte b mod 16 * 4 + byte c div 64) # b64_char (byte c mod 64) # ref_b64_encode s"

fun ref_b64_decode :: "string \<Rightarrow> bytes option" where
  "ref_b64_decode [] = Some []"
| "ref_b64_decode (p # q # r # s # rest) =
     (case (b64_value p, b64_value q) of
        (Some x, Some y) \<Rightarrow>
          (if r = CHR ''='' \<and> s = CHR ''='' \<and> rest = [] then
             (if y mod 16 = 0 then Some [chr (4 * x + y div 16)] else None)
           else case b64_value r of
             None \<Rightarrow> None
           | Some z \<Rightarrow>
             (if s = CHR ''='' \<and> rest = [] then
                (if z mod 4 = 0 then Some [chr (4 * x + y div 16), chr (y mod 16 * 16 + z div 4)]
                 else None)
              else case (b64_value s, ref_b64_decode rest) of
                (Some t, Some bs) \<Rightarrow>
                  Some (chr (4 * x + y div 16) # chr (y mod 16 * 16 + z div 4)
                        # chr (z mod 4 * 64 + t) # bs)
              | _ \<Rightarrow> None))
      | _ \<Rightarrow> None)"
| "ref_b64_decode _ = None"

lemma length_b64_alphabet: "length b64_alphabet = 64"
  by (simp add: b64_alphabet_def)

lemma distinct_b64_alphabet: "distinct b64_alphabet"
  by (simp add: b64_alphabet_def)

lemma b64_value_char [simp]: "n < 64 \<Longrightarrow> b64_value (b64_char n) = Some n"
  using map_of_zip_nth [of b64_alphabet "[0..<64]" n] length_b64_alphabet distinct_b64_alphabet
  by (simp add: b64_value_def b64_char_def)

lemma b64_char_in: "n < 64 \<Longrightarrow> b64_char n \<in> set b64_alphabet"
  by (simp add: b64_char_def length_b64_alphabet)

definition b64_letter :: "char \<Rightarrow> bool" where
  "b64_letter c \<longleftrightarrow> is_ascii_alphanumeric c \<or> c = CHR ''+'' \<or> c = CHR ''/''"

lemma b64_alphabet_letters: "list_all b64_letter b64_alphabet"
  by (simp add: b64_alphabet_def b64_letter_def char_class_defs byte_def)

lemma b64_letter_char: "n < 64 \<Longrightarrow> b64_letter (b64_char n)"
  using b64_alphabet_letters b64_char_in by (simp add: list_all_iff)

lemma b64_char_pad: "n < 64 \<Longrightarrow> b64_char n \<noteq> CHR ''=''"
  using b64_letter_char [of n] by (auto simp: b64_letter_def char_class_defs byte_def)

lemma b64_parts:
  "byte a div 4 < 64" "byte a mod 4 * 16 < 64" "byte a mod 4 * 16 + byte b div 16 < 64"
  "byte b mod 16 * 4 < 64" "byte b mod 16 * 4 + byte c div 64 < 64" "byte c mod 64 < 64"
proof -
  have "byte a < 256" "byte b < 256" "byte c < 256" by simp_all
  then show "byte a div 4 < 64" "byte a mod 4 * 16 < 64" "byte a mod 4 * 16 + byte b div 16 < 64"
    "byte b mod 16 * 4 < 64" "byte b mod 16 * 4 + byte c div 64 < 64" "byte c mod 64 < 64"
    by linarith+
qed

lemma b64_join:
  "chr (4 * (byte a div 4) + (byte a mod 4 * 16 + byte b div 16) div 16) = a"
  "chr (4 * (byte a div 4) + (byte a mod 4 * 16) div 16) = a"
  "chr ((byte a mod 4 * 16 + byte b div 16) mod 16 * 16 + (byte b mod 16 * 4 + byte c div 64) div 4) = b"
  "chr ((byte a mod 4 * 16 + byte b div 16) mod 16 * 16 + (byte b mod 16 * 4) div 4) = b"
  "chr ((byte b mod 16 * 4 + byte c div 64) mod 4 * 64 + byte c mod 64) = c"
proof -
  have lt: "byte b div 16 < 16" "byte c div 64 < 4"
    using byte_less [of b] byte_less [of c] by linarith+
  have e: "4 * (byte a div 4) + (byte a mod 4 * 16 + byte b div 16) div 16 = byte a"
    "4 * (byte a div 4) + (byte a mod 4 * 16) div 16 = byte a"
    "(byte a mod 4 * 16 + byte b div 16) mod 16 * 16 + (byte b mod 16 * 4 + byte c div 64) div 4 = byte b"
    "(byte a mod 4 * 16 + byte b div 16) mod 16 * 16 + (byte b mod 16 * 4) div 4 = byte b"
    "(byte b mod 16 * 4 + byte c div 64) mod 4 * 64 + byte c mod 64 = byte c"
    using lt by (simp_all add: mod_simps mult.commute)
  show "chr (4 * (byte a div 4) + (byte a mod 4 * 16 + byte b div 16) div 16) = a"
    "chr (4 * (byte a div 4) + (byte a mod 4 * 16) div 16) = a"
    "chr ((byte a mod 4 * 16 + byte b div 16) mod 16 * 16 + (byte b mod 16 * 4 + byte c div 64) div 4) = b"
    "chr ((byte a mod 4 * 16 + byte b div 16) mod 16 * 16 + (byte b mod 16 * 4) div 4) = b"
    "chr ((byte b mod 16 * 4 + byte c div 64) mod 4 * 64 + byte c mod 64) = c"
    unfolding e by simp_all
qed

lemma byte_div64: "byte c div 64 div 4 = 0" "byte c div 64 mod 4 = byte c div 64"
proof -
  have "byte c div 64 < 4" using byte_less [of c] by linarith
  then show "byte c div 64 div 4 = 0" "byte c div 64 mod 4 = byte c div 64" by simp_all
qed

interpretation ref_b64: base64_codec ref_b64_encode ref_b64_decode
proof unfold_locales
  show "ref_b64_decode (ref_b64_encode b) = Some b" for b
  proof (induction b rule: ref_b64_encode.induct)
    case (4 a b c s)
    show ?case using "4.IH" by (simp add: b64_parts b64_char_pad b64_join byte_div64)
  qed (simp_all add: b64_parts b64_char_pad b64_join)
  have "c \<in> set (ref_b64_encode b) \<Longrightarrow> b64_letter c \<or> c = CHR ''=''" for c b
  proof (induction b rule: ref_b64_encode.induct)
    case (4 x y z s)
    then show ?case by (auto simp: b64_parts b64_letter_char)
  qed (auto simp: b64_parts b64_letter_char)
  then show "c \<in> set (ref_b64_encode b) \<Longrightarrow> is_ascii_alphanumeric c \<or> c \<in> {CHR ''+'', CHR ''/'', CHR ''=''}" for c b
    unfolding b64_letter_def by blast
  show "length (ref_b64_encode b) = 4 * ((length b + 2) div 3)" for b
  proof (induction b rule: ref_b64_encode.induct)
    case (4 x y z s)
    have "(length (x # y # z # s) + 2) div 3 = Suc ((length s + 2) div 3)" by simp
    with 4 show ?case by simp
  qed simp_all
qed

section \<open>The reference instance\<close>

text \<open>
  The stand-in for SHA-256 keeps the first 32 bytes and pads with zeros: all that the
  contract asks is a function into 32 bytes.
\<close>

definition ref_sha :: "bytes \<Rightarrow> bytes" where
  "ref_sha b = take 32 (b @ replicate 32 (chr 0))"

definition ref_ext :: ext where
  "ref_ext = \<lparr> hex_encode = ref_hex_encode, hex_decode = ref_hex_decode, sha256 = ref_sha,
               b64_encode = ref_b64_encode, b64_decode = ref_b64_decode \<rparr>"

interpretation ref_sha_fn: sha256_fn ref_sha
  by unfold_locales (simp add: ref_sha_def)

interpretation ref_externals: externals ref_ext
  by (simp add: externals_def ref_ext_def ref_hex.hex_codec_axioms ref_sha_fn.sha256_fn_axioms
      ref_b64.base64_codec_axioms)

end
