(* ===== verification/Domain_Account.thy ===== *)
theory Domain_Account
  imports External
begin

text \<open>
  \<open>crates/domain/src/account.rs\<close> and \<open>error.rs\<close>: account and key identifiers, bearer
  secrets, the stored key record, key issue and the authorisation rule for issuing and
  revoking keys. The operating system's random source (\<open>getrandom\<close>) is the parameter \<open>rng\<close>,
  a computation over the world that yields the requested number of bytes or fails.
\<close>

section \<open>Domain errors\<close>

datatype domain_error =
    InvalidFunctionId string
  | InvalidVersionLabel string
  | InvalidContentHash string
  | InvalidEgressOrigin string
  | TooManyEgressOrigins nat
  | InvalidAccountId
  | InvalidKeyId
  | InvalidBearer
  | NotKeyHolder
  | Entropy

fun show_domain_error :: "domain_error \<Rightarrow> string" where
  "show_domain_error (InvalidFunctionId s) = ''invalid function id: '' @ s"
| "show_domain_error (InvalidVersionLabel s) = ''invalid version label: '' @ s"
| "show_domain_error (InvalidContentHash s) = ''invalid content hash: '' @ s"
| "show_domain_error (InvalidEgressOrigin s) = ''invalid egress origin: '' @ s"
| "show_domain_error (TooManyEgressOrigins n) = ''too many egress origins (max '' @ show_nat n @ '')''"
| "show_domain_error InvalidAccountId = ''invalid account id''"
| "show_domain_error InvalidKeyId = ''invalid key id''"
| "show_domain_error InvalidBearer = ''invalid bearer''"
| "show_domain_error NotKeyHolder = ''bearer is not a non-revoked key for this account''"
| "show_domain_error Entropy = ''entropy unavailable''"

section \<open>Identifiers, secrets, records\<close>

definition SECRET_PREFIX :: string where
  "SECRET_PREFIX = ''nfk_''"

definition SECRET_RANDOM_LEN :: nat where
  "SECRET_RANDOM_LEN = 32"

definition ID_LEN :: nat where
  "ID_LEN = 16"

datatype account_id = AccountId (account_id_bytes: bytes)
datatype key_id = KeyId (key_id_bytes: bytes)
datatype secret_hash = SecretHash (secret_hash_bytes: bytes)
datatype bearer_secret = BearerSecret (as_str: string)

record account =
  acc_id :: account_id
  acc_balance :: u64

record key_record =
  kr_secret_hash :: secret_hash
  kr_account_id :: account_id
  kr_key_id :: key_id
  kr_revoked :: bool
  kr_capped :: bool
  kr_cap_remaining :: "u64 option"

record key_meta =
  km_key_id :: key_id
  km_revoked :: bool
  km_capped :: bool
  km_cap_remaining :: "u64 option"

record new_key =
  nk_secret :: bearer_secret
  nk_record :: key_record

text \<open>The fixed-size arrays \<open>[u8; 16]\<close> and \<open>[u8; 32]\<close> inside the newtypes.\<close>

definition account_id_ok :: "account_id \<Rightarrow> bool" where
  "account_id_ok a \<longleftrightarrow> length (account_id_bytes a) = ID_LEN"

definition key_id_ok :: "key_id \<Rightarrow> bool" where
  "key_id_ok k \<longleftrightarrow> length (key_id_bytes k) = ID_LEN"

definition secret_hash_ok :: "secret_hash \<Rightarrow> bool" where
  "secret_hash_ok h \<longleftrightarrow> length (secret_hash_bytes h) = 32"

text \<open>The invariant of a stored key: sizes, and a cap counter exactly when capped.\<close>

definition key_record_ok :: "key_record \<Rightarrow> bool" where
  "key_record_ok k \<longleftrightarrow>
     secret_hash_ok (kr_secret_hash k) \<and> account_id_ok (kr_account_id k)
     \<and> key_id_ok (kr_key_id k) \<and> (kr_capped k \<longleftrightarrow> kr_cap_remaining k \<noteq> None)"

section \<open>Operations\<close>

type_synonym 'w rng = "nat \<Rightarrow> ('w, unit, bytes) io"

definition random_bytes :: "'w rng \<Rightarrow> nat \<Rightarrow> ('w, domain_error, bytes) io" where
  "random_bytes rng n = map_err_io (\<lambda>_. Entropy) (rng n)"

definition decode_fixed :: "ext \<Rightarrow> string \<Rightarrow> unit + bytes" where
  "decode_fixed X hex_str =
     bind_r (ok_or () (hex_decode X hex_str)) (\<lambda>b.
     if length b \<noteq> ID_LEN then Inl () else Inr b)"

definition account_id_generate :: "'w rng \<Rightarrow> ('w, domain_error, account_id) io" where
  "account_id_generate rng = bind_io (random_bytes rng ID_LEN) (\<lambda>b. ret (AccountId b))"

definition account_id_from_hex :: "ext \<Rightarrow> string \<Rightarrow> domain_error + account_id" where
  "account_id_from_hex X s =
     bind_r (map_err (\<lambda>_. InvalidAccountId) (decode_fixed X s)) (\<lambda>b. Inr (AccountId b))"

definition account_id_to_hex :: "ext \<Rightarrow> account_id \<Rightarrow> string" where
  "account_id_to_hex X a = hex_encode X (account_id_bytes a)"

definition account_open :: "'w rng \<Rightarrow> ('w, domain_error, account) io" where
  "account_open rng =
     bind_io (account_id_generate rng) (\<lambda>a. ret \<lparr> acc_id = a, acc_balance = 0 \<rparr>)"

definition key_id_generate :: "'w rng \<Rightarrow> ('w, domain_error, key_id) io" where
  "key_id_generate rng = bind_io (random_bytes rng ID_LEN) (\<lambda>b. ret (KeyId b))"

definition key_id_from_hex :: "ext \<Rightarrow> string \<Rightarrow> domain_error + key_id" where
  "key_id_from_hex X s =
     bind_r (map_err (\<lambda>_. InvalidKeyId) (decode_fixed X s)) (\<lambda>b. Inr (KeyId b))"

definition key_id_to_hex :: "ext \<Rightarrow> key_id \<Rightarrow> string" where
  "key_id_to_hex X k = hex_encode X (key_id_bytes k)"

definition secret_hash_of :: "ext \<Rightarrow> bearer_secret \<Rightarrow> secret_hash" where
  "secret_hash_of X secret = SecretHash (sha256 X (as_str secret))"

definition secret_hash_from_hex :: "ext \<Rightarrow> string \<Rightarrow> domain_error + secret_hash" where
  "secret_hash_from_hex X s =
     bind_r (ok_or InvalidBearer (hex_decode X s)) (\<lambda>b.
     if length b \<noteq> 32 then Inl InvalidBearer else Inr (SecretHash b))"

definition secret_hash_to_hex :: "ext \<Rightarrow> secret_hash \<Rightarrow> string" where
  "secret_hash_to_hex X h = hex_encode X (secret_hash_bytes h)"

definition bearer_generate :: "ext \<Rightarrow> 'w rng \<Rightarrow> ('w, domain_error, bearer_secret) io" where
  "bearer_generate X rng =
     bind_io (random_bytes rng SECRET_RANDOM_LEN) (\<lambda>raw.
     ret (BearerSecret (SECRET_PREFIX @ hex_encode X raw)))"

definition bearer_parse :: "string \<Rightarrow> domain_error + bearer_secret" where
  "bearer_parse raw =
     bind_r (ok_or InvalidBearer (strip_prefix raw SECRET_PREFIX)) (\<lambda>rest.
     if length rest \<noteq> SECRET_RANDOM_LEN * 2 \<or> \<not> (\<forall>c \<in> set rest. is_ascii_hexdigit c)
     then Inl InvalidBearer
     else Inr (BearerSecret (SECRET_PREFIX @ to_ascii_lowercase rest)))"

text \<open>The redacting \<open>Debug\<close> of the secret.\<close>

definition bearer_debug :: "bearer_secret \<Rightarrow> string" where
  "bearer_debug b = ''BearerSecret([redacted])''"

definition key_meta_from :: "key_record \<Rightarrow> key_meta" where
  "key_meta_from r =
     \<lparr> km_key_id = kr_key_id r, km_revoked = kr_revoked r, km_capped = kr_capped r,
       km_cap_remaining = kr_cap_remaining r \<rparr>"

definition new_key_issue ::
  "ext \<Rightarrow> 'w rng \<Rightarrow> account_id \<Rightarrow> u64 option \<Rightarrow> ('w, domain_error, new_key) io" where
  "new_key_issue X rng account spend_cap =
     bind_io (bearer_generate X rng) (\<lambda>secret.
     let (capped, cap_remaining) =
           (case spend_cap of Some remaining \<Rightarrow> (True, Some remaining) | None \<Rightarrow> (False, None)) in
     bind_io (key_id_generate rng) (\<lambda>kid.
     ret \<lparr> nk_secret = secret,
           nk_record = \<lparr> kr_secret_hash = secret_hash_of X secret, kr_account_id = account,
                         kr_key_id = kid, kr_revoked = False, kr_capped = capped,
                         kr_cap_remaining = cap_remaining \<rparr> \<rparr>))"

definition authorize_additional_key ::
  "account_id \<Rightarrow> key_record option \<Rightarrow> domain_error + unit" where
  "authorize_additional_key account presented =
     (case presented of
        Some key \<Rightarrow>
          if \<not> kr_revoked key \<and> \<not> kr_capped key \<and> kr_account_id key = account then Inr ()
          else Inl NotKeyHolder
      | None \<Rightarrow> Inl NotKeyHolder)"

section \<open>Lemmas\<close>

lemma authorize_additional_key_iff:
  "authorize_additional_key a p = Inr () \<longleftrightarrow>
     (\<exists>k. p = Some k \<and> \<not> kr_revoked k \<and> \<not> kr_capped k \<and> kr_account_id k = a)"
  by (simp add: authorize_additional_key_def split: option.splits)

lemma bearer_parse_Inr_iff:
  "bearer_parse raw = Inr b \<longleftrightarrow>
     (\<exists>rest. raw = SECRET_PREFIX @ rest \<and> length rest = 64
        \<and> (\<forall>c \<in> set rest. is_ascii_hexdigit c)
        \<and> b = BearerSecret (SECRET_PREFIX @ to_ascii_lowercase rest))"
  by (auto simp: bearer_parse_def bind_r_Inr_iff strip_prefix_Some_iff SECRET_RANDOM_LEN_def
      split: if_splits)

lemma bearer_parse_canonical:
  assumes "bearer_parse raw = Inr b"
  shows "bearer_parse (as_str b) = Inr b" "length (as_str b) = 68"
proof -
  obtain rest where r: "length rest = 64" "\<forall>c \<in> set rest. is_ascii_hexdigit c"
    "b = BearerSecret (SECRET_PREFIX @ to_ascii_lowercase rest)"
    using assms by (auto simp: bearer_parse_Inr_iff)
  then have "\<forall>c \<in> set (to_ascii_lowercase rest). is_ascii_hexdigit c"
    by (auto simp: to_ascii_lowercase_def)
  with r show "bearer_parse (as_str b) = Inr b" "length (as_str b) = 68"
    by (auto simp: bearer_parse_Inr_iff SECRET_PREFIX_def)
qed

text \<open>What the random source must do: \<open>getrandom::fill\<close> fills the whole buffer or fails.\<close>

locale rng_fills =
  fixes rng :: "'w rng"
  assumes rng_length: "rng n w = (Inr b, w') \<Longrightarrow> length b = n"
begin

lemma random_bytes_length: "random_bytes rng n w = (Inr b, w') \<Longrightarrow> length b = n"
  using rng_length by (auto simp: random_bytes_def map_err_io_iff)

lemma account_open_ok: "account_open rng w = (Inr a, w') \<Longrightarrow> account_id_ok (acc_id a) \<and> acc_balance a = 0"
  using random_bytes_length
  by (auto simp: account_open_def account_id_generate_def bind_io_Inr_iff account_id_ok_def)

end

context externals
begin

lemma id_hex_roundtrip:
  "account_id_ok a \<Longrightarrow> account_id_from_hex X (account_id_to_hex X a) = Inr a"
  "key_id_ok k \<Longrightarrow> key_id_from_hex X (key_id_to_hex X k) = Inr k"
  "secret_hash_ok h \<Longrightarrow> secret_hash_from_hex X (secret_hash_to_hex X h) = Inr h"
  by (simp_all add: account_id_from_hex_def account_id_to_hex_def key_id_from_hex_def
      key_id_to_hex_def secret_hash_from_hex_def secret_hash_to_hex_def decode_fixed_def
      hdec_henc account_id_ok_def key_id_ok_def secret_hash_ok_def)

lemma id_from_hex_ok:
  "account_id_from_hex X s = Inr a \<Longrightarrow> account_id_ok a \<and> account_id_to_hex X a = to_ascii_lowercase s"
  "key_id_from_hex X s = Inr k \<Longrightarrow> key_id_ok k \<and> key_id_to_hex X k = to_ascii_lowercase s"
  "secret_hash_from_hex X s = Inr h \<Longrightarrow> secret_hash_ok h \<and> secret_hash_to_hex X h = to_ascii_lowercase s"
  by (auto simp: account_id_from_hex_def account_id_to_hex_def key_id_from_hex_def
      key_id_to_hex_def secret_hash_from_hex_def secret_hash_to_hex_def decode_fixed_def
      bind_r_Inr_iff henc_hdec account_id_ok_def key_id_ok_def secret_hash_ok_def split: if_splits)

lemma id_to_hex_inj:
  "account_id_to_hex X a = account_id_to_hex X b \<longleftrightarrow> a = b"
  "key_id_to_hex X k = key_id_to_hex X l \<longleftrightarrow> k = l"
  "secret_hash_to_hex X h = secret_hash_to_hex X i \<longleftrightarrow> h = i"
  by (auto simp: account_id_to_hex_def key_id_to_hex_def secret_hash_to_hex_def henc_inj
      intro: account_id.expand key_id.expand secret_hash.expand)

lemma secret_hash_of_ok [simp]: "secret_hash_ok (secret_hash_of X s)"
  by (simp add: secret_hash_ok_def secret_hash_of_def sha_length)

lemma bearer_generate_parses:
  assumes "rng_fills rng" and "bearer_generate X rng w = (Inr b, w')"
  shows "bearer_parse (as_str b) = Inr b"
proof -
  obtain raw w1 where "random_bytes rng 32 w = (Inr raw, w1)"
    and b: "b = BearerSecret (SECRET_PREFIX @ hex_encode X raw)"
    using assms(2) by (auto simp: bearer_generate_def bind_io_Inr_iff SECRET_RANDOM_LEN_def)
  then have "length raw = 32" using rng_fills.random_bytes_length [OF assms(1)] by blast
  with b  show ?thesis using henc_chars by (auto simp: bearer_parse_Inr_iff henc_length)
qed

lemma new_key_issue_ok:
  assumes "rng_fills rng" and "account_id_ok a" and "new_key_issue X rng a cap w = (Inr nk, w')"
  shows "key_record_ok (nk_record nk)" "kr_account_id (nk_record nk) = a"
    "\<not> kr_revoked (nk_record nk)" "kr_cap_remaining (nk_record nk) = cap"
    "kr_secret_hash (nk_record nk) = secret_hash_of X (nk_secret nk)"
    "bearer_parse (as_str (nk_secret nk)) = Inr (nk_secret nk)"
  using assms rng_fills.random_bytes_length [OF assms(1)] bearer_generate_parses [OF assms(1)]
  by (auto simp: new_key_issue_def key_id_generate_def bind_io_Inr_iff key_record_ok_def
      key_id_ok_def split: option.splits)

end

end
