(* ===== verification/Domain_Function.thy ===== *)
theory Domain_Function
  imports Domain_Account
begin

text \<open>
  \<open>crates/domain/src/function.rs\<close>, \<open>limits.rs\<close>, \<open>publish.rs\<close> and \<open>invoke.rs\<close>: function ids,
  version labels, content hashes, the HTTPS origins a function may reach, the product limits
  and the request and response records. The lemmas give the normal form of an accepted
  origin, that it is a fixed point of the parser, and the exact behaviour of the allowlist
  loop.
\<close>

section \<open>Limits\<close>

definition MAX_WASM_BYTES :: nat where "MAX_WASM_BYTES = 2 * 1024 * 1024"
definition MAX_INVOKE_BODY_BYTES :: nat where "MAX_INVOKE_BODY_BYTES = 1024 * 1024"
definition MAX_GUEST_OUTPUT_BYTES :: nat where "MAX_GUEST_OUTPUT_BYTES = 1024 * 1024"
definition MAX_GUEST_MEMORY_BYTES :: nat where "MAX_GUEST_MEMORY_BYTES = 64 * 1024 * 1024"
definition INVOKE_TIMEOUT_ms :: nat where "INVOKE_TIMEOUT_ms = 15 * 1000"
definition EPOCH_TICK_ms :: nat where "EPOCH_TICK_ms = 10"
definition MAX_EGRESS_ALLOW :: nat where "MAX_EGRESS_ALLOW = 8"
definition MAX_HTTP_URL_BYTES :: nat where "MAX_HTTP_URL_BYTES = 2048"
definition MAX_HTTP_BODY_BYTES :: nat where "MAX_HTTP_BODY_BYTES = 256 * 1024"
definition HTTP_TIMEOUT_ms :: nat where "HTTP_TIMEOUT_ms = 3 * 1000"

section \<open>Egress origins\<close>

datatype egress_origin = EgressOrigin (origin_str: string)

definition is_ip_literal :: "string \<Rightarrow> bool" where
  "is_ip_literal host \<longleftrightarrow>
     (if contains_char host CHR '':'' then True
      else let parts = split_on CHR ''.'' host in
           if length parts \<noteq> 4 then False
           else list_all (\<lambda>p. parse_u8 p \<noteq> None) parts)"

definition host_char :: "char \<Rightarrow> bool" where
  "host_char c \<longleftrightarrow> is_ascii c \<and> (is_ascii_alphanumeric c \<or> c = CHR ''-'' \<or> c = CHR ''.'')"

definition validate_host :: "string \<Rightarrow> domain_error + unit" where
  "validate_host host =
     (if host = [] \<or> length host > 253 then Inl (InvalidEgressOrigin (''invalid host '' @ host))
      else if eq_ignore_ascii_case host ''localhost'' then
        Inl (InvalidEgressOrigin (''localhost not allowed: '' @ host))
      else if ends_with host ''.local'' then
        Inl (InvalidEgressOrigin (''.local host not allowed: '' @ host))
      else if is_ip_literal host then
        Inl (InvalidEgressOrigin (''IP literal not allowed: '' @ host))
      else if contains_str host ''..'' \<or> \<not> list_all host_char host then
        Inl (InvalidEgressOrigin (''invalid hostname '' @ host))
      else Inr ())"

definition nth_piece :: "nat \<Rightarrow> 'a list \<Rightarrow> 'a option" where
  "nth_piece n xs = (if n < length xs then Some (xs ! n) else None)"

definition egress_parse :: "string \<Rightarrow> domain_error + egress_origin" where
  "egress_parse raw =
     (let trimmed = trim raw in
      if trimmed = [] then Inl (InvalidEgressOrigin raw)
      else
        bind_r (ok_or (InvalidEgressOrigin (''expected https URL, got '' @ raw))
                  (nth_piece 2 (split_on CHR ''/'' trimmed))) (\<lambda>without_path.
        if \<not> starts_with trimmed ''https://'' then
          Inl (InvalidEgressOrigin (''only https origins allowed, got '' @ raw))
        else let authority = last (split_on CHR ''@'' without_path) in
        if contains_char without_path CHR ''@'' then
          Inl (InvalidEgressOrigin (''userinfo not allowed in '' @ raw))
        else
          (case split_on CHR '':'' authority of
             [h] \<Rightarrow> bind_r (validate_host h) (\<lambda>_. Inr (EgressOrigin (''https://'' @ h)))
           | [h, p] \<Rightarrow>
               (if list_all is_ascii_digit p \<and> p \<noteq> [] then
                  bind_r (ok_or (InvalidEgressOrigin (''invalid port in '' @ raw)) (parse_u16 p)) (\<lambda>port.
                  if port = 0 then Inl (InvalidEgressOrigin (''invalid port in '' @ raw))
                  else
                    let normalized = ''https://'' @ h @ '':'' @ show_nat port in
                    bind_r (validate_host h) (\<lambda>_. Inr (EgressOrigin normalized)))
                else Inl (InvalidEgressOrigin (''invalid host:port in '' @ raw)))
           | _ \<Rightarrow> Inl (InvalidEgressOrigin (''invalid host:port in '' @ raw)))))"

fun normalize_loop :: "egress_origin list \<Rightarrow> egress_origin list \<Rightarrow> domain_error + egress_origin list" where
  "normalize_loop out [] = Inr out"
| "normalize_loop out (origin # origins) =
     (if length out \<ge> MAX_EGRESS_ALLOW then Inl (TooManyEgressOrigins MAX_EGRESS_ALLOW)
      else if origin \<notin> set out then normalize_loop (out @ [origin]) origins
      else normalize_loop out origins)"

definition normalize_egress_allow :: "egress_origin list \<Rightarrow> domain_error + egress_origin list" where
  "normalize_egress_allow origins = normalize_loop [] origins"

section \<open>Function ids, labels, content hashes\<close>

datatype function_id = FunctionId (function_id_str: string)
datatype version_label = VersionLabel (label_str: string)
datatype content_hash = ContentHash (content_hash_bytes: bytes)

definition function_id_new :: "string \<Rightarrow> domain_error + function_id" where
  "function_id_new s =
     (if s = [] \<or> length s > 64
         \<or> \<not> list_all (\<lambda>c. is_ascii_alphanumeric c \<or> c = CHR ''-'' \<or> c = CHR ''_'') s
      then Inl (InvalidFunctionId s) else Inr (FunctionId s))"

definition version_label_new :: "string \<Rightarrow> domain_error + version_label" where
  "version_label_new s =
     (if s = [] \<or> length s > 64 then Inl (InvalidVersionLabel s) else Inr (VersionLabel s))"

definition latest :: version_label where
  "latest = VersionLabel ''latest''"

definition content_hash_ok :: "content_hash \<Rightarrow> bool" where
  "content_hash_ok h \<longleftrightarrow> length (content_hash_bytes h) = 32"

definition content_hash_from_bytes :: "ext \<Rightarrow> bytes \<Rightarrow> content_hash" where
  "content_hash_from_bytes X b = ContentHash (sha256 X b)"

definition content_hash_from_hex :: "ext \<Rightarrow> string \<Rightarrow> domain_error + content_hash" where
  "content_hash_from_hex X s =
     bind_r (ok_or (InvalidContentHash s) (hex_decode X s)) (\<lambda>b.
     if length b \<noteq> 32 then Inl (InvalidContentHash s) else Inr (ContentHash b))"

definition content_hash_to_hex :: "ext \<Rightarrow> content_hash \<Rightarrow> string" where
  "content_hash_to_hex X h = hex_encode X (content_hash_bytes h)"

record function_version =
  fv_id :: function_id
  fv_label :: version_label
  fv_content_hash :: content_hash
  fv_egress_allow :: "egress_origin list"

record publish_request =
  pq_function :: function_id
  pq_wasm :: bytes
  pq_egress_allow :: "egress_origin list"

datatype publish_status = Ready | Superseded

fun publish_status_str :: "publish_status \<Rightarrow> string" where
  "publish_status_str Ready = ''ready''"
| "publish_status_str Superseded = ''superseded''"

record publish_response =
  pr_function :: function_id
  pr_version :: version_label
  pr_content_hash :: content_hash
  pr_wasm_bytes :: nat
  pr_egress_allow :: "egress_origin list"
  pr_status :: publish_status

record invoke_request =
  iq_function :: function_id
  iq_version :: version_label
  iq_payload :: bytes

record invoke_response =
  ir_output :: bytes
  ir_content_hash :: content_hash

section \<open>Lemmas: hosts and origins\<close>

lemma host_char_facts:
  "host_char c \<Longrightarrow> graphic c \<and> c \<noteq> CHR ''/'' \<and> c \<noteq> CHR '':'' \<and> c \<noteq> CHR ''@'' \<and> is_ascii c"
  by (auto simp: host_char_def char_class_defs byte_def)

lemma digit_facts:
  "is_ascii_digit c \<Longrightarrow> graphic c \<and> c \<noteq> CHR ''/'' \<and> c \<noteq> CHR '':'' \<and> c \<noteq> CHR ''@''"
  by (auto simp: char_class_defs byte_def)

lemma validate_host_Inr_iff:
  "validate_host h = Inr u \<longleftrightarrow>
     h \<noteq> [] \<and> length h \<le> 253 \<and> \<not> eq_ignore_ascii_case h ''localhost'' \<and> \<not> ends_with h ''.local''
     \<and> \<not> is_ip_literal h \<and> \<not> contains_str h ''..'' \<and> (\<forall>c \<in> set h. host_char c)"
  by (auto simp: validate_host_def list_all_iff)

text \<open>The normal form of an origin: a valid host, and a port in canonical decimal if any.\<close>

definition origin_normal :: "egress_origin \<Rightarrow> bool" where
  "origin_normal e \<longleftrightarrow>
     (\<exists>h. validate_host h = Inr () \<and>
       (origin_str e = ''https://'' @ h
        \<or> (\<exists>port. 0 < port \<and> port < 2 ^ 16 \<and> origin_str e = ''https://'' @ h @ '':'' @ show_nat port)))"

lemma egress_parse_normal:
  assumes "egress_parse raw = Inr e"
  shows "origin_normal e"
  using assms parse_uint_less
  by (auto simp: egress_parse_def origin_normal_def Let_def bind_r_Inr_iff parse_u16_def
      split: if_splits list.splits; fastforce)

lemma split_https:
  assumes "CHR ''/'' \<notin> set hp"
  shows "split_on CHR ''/'' (''https://'' @ hp) = [''https:'', [], hp]"
  using split_on_no_sep [OF assms] by simp

lemma egress_parse_split:
  assumes "hp \<noteq> []" and "\<And>c. c \<in> set hp \<Longrightarrow> graphic c \<and> c \<noteq> CHR ''/'' \<and> c \<noteq> CHR ''@''"
  shows "trim (''https://'' @ hp) = ''https://'' @ hp"
    "nth_piece 2 (split_on CHR ''/'' (''https://'' @ hp)) = Some hp"
    "last (split_on CHR ''@'' hp) = hp" "\<not> contains_char hp CHR ''@''"
proof -
  show "trim (''https://'' @ hp) = ''https://'' @ hp"
    using assms by (intro trim_id) (simp add: graphic_def byte_def)
  show "nth_piece 2 (split_on CHR ''/'' (''https://'' @ hp)) = Some hp"
  proof -
    have nin: "CHR ''/'' \<notin> set hp" using assms(2) by blast
    show ?thesis unfolding split_https [OF nin] by (simp add: nth_piece_def)
  qed
  have nin: "CHR ''@'' \<notin> set hp" using assms(2) by blast
  show "last (split_on CHR ''@'' hp) = hp" "\<not> contains_char hp CHR ''@''"
    using nin by (simp_all add: contains_char_def split_on_no_sep)
qed

lemma egress_parse_host:
  assumes "validate_host h = Inr ()"
  shows "egress_parse (''https://'' @ h) = Inr (EgressOrigin (''https://'' @ h))"
proof -
  have h: "h \<noteq> []" "\<And>c. c \<in> set h \<Longrightarrow> graphic c \<and> c \<noteq> CHR ''/'' \<and> c \<noteq> CHR ''@''"
    "split_on CHR '':'' h = [h]"
    using assms host_char_facts by (auto simp: validate_host_Inr_iff intro!: split_on_no_sep)
  show ?thesis
    using assms h(3) starts_with_append [of "''https://''" h]
    by (simp add: egress_parse_def Let_def egress_parse_split [OF h(1,2), simplified] del: starts_with_append)
qed

lemma egress_parse_host_port:
  assumes "validate_host h = Inr ()" and "0 < port" and "port < 2 ^ 16"
  shows "egress_parse (''https://'' @ h @ '':'' @ show_nat port)
         = Inr (EgressOrigin (''https://'' @ h @ '':'' @ show_nat port))"
proof -
  let ?hp = "h @ '':'' @ show_nat port"
  have hp: "?hp \<noteq> []" "\<And>c. c \<in> set ?hp \<Longrightarrow> graphic c \<and> c \<noteq> CHR ''/'' \<and> c \<noteq> CHR ''@''"
    using assms host_char_facts show_nat_digits [THEN digit_facts]
    by (auto simp: validate_host_Inr_iff graphic_def byte_def)
  have "CHR '':'' \<notin> set h" "CHR '':'' \<notin> set (show_nat port)"
    using assms host_char_facts show_nat_digits [THEN digit_facts] by (auto simp: validate_host_Inr_iff)
  then have "split_on CHR '':'' ?hp = [h, show_nat port]"
    using split_on_append_sep [of "CHR '':''" h "show_nat port"] split_on_no_sep by simp
  moreover have "list_all is_ascii_digit (show_nat port)"
    using show_nat_digits by (auto simp: list_all_iff)
  moreover have "parse_u16 (show_nat port) = Some port"
    using assms by (simp add: parse_u16_def parse_show_nat)
  ultimately show ?thesis
    using assms starts_with_append [of "''https://''" ?hp]
    by (simp add: egress_parse_def Let_def egress_parse_split [OF hp, simplified] del: starts_with_append)
qed

lemma egress_parse_fixpoint: "origin_normal e \<Longrightarrow> egress_parse (origin_str e) = Inr e"
  unfolding origin_normal_def
  by (metis egress_parse_host egress_parse_host_port egress_origin.collapse)

section \<open>Lemmas: the allowlist\<close>

lemma normalize_loop_Inr:
  "normalize_loop out xs = Inr ys \<Longrightarrow> distinct out \<Longrightarrow> length out \<le> MAX_EGRESS_ALLOW \<Longrightarrow>
     distinct ys \<and> set ys = set out \<union> set xs \<and> length ys \<le> MAX_EGRESS_ALLOW \<and> take (length out) ys = out"
proof (induction out xs rule: normalize_loop.induct)
  case (2 out x xs)
  show ?case
  proof (cases "x \<in> set out")
    case False
    with 2 have *: "distinct ys \<and> set ys = set (out @ [x]) \<union> set xs \<and> length ys \<le> MAX_EGRESS_ALLOW
        \<and> take (length (out @ [x])) ys = out @ [x]"
      by (auto split: if_splits)
    then have "take (length out) ys = out"
      by (metis append_eq_conv_conj append_take_drop_id append.assoc)
    with * show ?thesis by auto
  qed (use 2 in \<open>auto split: if_splits\<close>)
qed auto

lemma normalize_loop_append:
  "distinct (out @ xs) \<Longrightarrow> length (out @ xs) \<le> MAX_EGRESS_ALLOW \<Longrightarrow> normalize_loop out xs = Inr (out @ xs)"
  by (induction xs arbitrary: out) auto

lemma normalize_loop_Inl:
  "normalize_loop out xs = Inl e \<Longrightarrow> distinct out \<Longrightarrow> length out \<le> MAX_EGRESS_ALLOW \<Longrightarrow>
     e = TooManyEgressOrigins MAX_EGRESS_ALLOW
     \<and> (\<exists>n < length xs. MAX_EGRESS_ALLOW \<le> card (set out \<union> set (take n xs)))"
proof (induction out xs rule: normalize_loop.induct)
  case (2 out x xs)
  consider "MAX_EGRESS_ALLOW \<le> length out" | "length out < MAX_EGRESS_ALLOW" "x \<notin> set out"
    | "length out < MAX_EGRESS_ALLOW" "x \<in> set out" by linarith
  then show ?case
  proof cases
    case 1
    with 2 show ?thesis by (auto simp: distinct_card intro!: exI [of _ 0])
  next
    case 2
    with "2.IH"(1) "2.prems" obtain n where "n < length xs"
      "MAX_EGRESS_ALLOW \<le> card (set (out @ [x]) \<union> set (take n xs))" and
      "e = TooManyEgressOrigins MAX_EGRESS_ALLOW" by auto
    then show ?thesis by (auto intro!: exI [of _ "Suc n"])
  next
    case 3
    with "2.IH"(2) "2.prems" obtain n where "n < length xs"
      "MAX_EGRESS_ALLOW \<le> card (set out \<union> set (take n xs))" and
      "e = TooManyEgressOrigins MAX_EGRESS_ALLOW" by auto
    with 3 show ?thesis by (auto intro!: exI [of _ "Suc n"] simp: insert_absorb)
  qed
qed simp

section \<open>Lemmas: ids and hashes\<close>

lemma function_id_new_Inr_iff:
  "function_id_new s = Inr f \<longleftrightarrow>
     f = FunctionId s \<and> s \<noteq> [] \<and> length s \<le> 64
     \<and> (\<forall>c \<in> set s. is_ascii_alphanumeric c \<or> c = CHR ''-'' \<or> c = CHR ''_'')"
  by (auto simp: function_id_new_def list_all_iff)

lemma content_hash_eq_iff: "ContentHash a = h \<longleftrightarrow> a = content_hash_bytes h"
  by (cases h) simp

context externals
begin

lemma content_hash_roundtrip:
  "content_hash_ok h \<Longrightarrow> content_hash_from_hex X (content_hash_to_hex X h) = Inr h"
  by (simp add: content_hash_from_hex_def content_hash_to_hex_def hdec_henc content_hash_ok_def)

lemma content_hash_from_hex_ok:
  "content_hash_from_hex X s = Inr h \<Longrightarrow> content_hash_ok h \<and> content_hash_to_hex X h = to_ascii_lowercase s"
  by (auto simp: content_hash_from_hex_def content_hash_to_hex_def bind_r_Inr_iff henc_hdec
      content_hash_ok_def split: if_splits)

lemma content_hash_to_hex_inj: "content_hash_to_hex X a = content_hash_to_hex X b \<longleftrightarrow> a = b"
  by (auto simp: content_hash_to_hex_def henc_inj intro: content_hash.expand)

lemma content_hash_from_bytes_ok [simp]: "content_hash_ok (content_hash_from_bytes X b)"
  by (simp add: content_hash_ok_def content_hash_from_bytes_def sha_length)

end

end
