(* ===== verification/Ports.thy ===== *)
theory Ports
  imports Domain_Function
begin

text \<open>
  \<open>crates/application/src/error.rs\<close> and \<open>ports/\<close>: the application error with its display,
  internal and public forms, the ledger's own error, and the traits the use cases call. A
  trait is a record of operations over the world \<open>'w\<close>; an adapter is a value of the record. The
  listing of the catalog pages through a table without bound, so it may also not return (\<open>None\<close>).
\<close>

section \<open>Errors\<close>

datatype app_error =
    Domain domain_error
  | NotFound string
  | Conflict string
  | ArtifactMissing string
  | HashMismatch string string
  | BadRequest string
  | Compile string
  | Storage string
  | Invoke string
  | Trap string
  | Timeout string
  | PayloadTooLarge string
  | Attestation string
  | Unauthorized
  | InsufficientCredits u64 u64 string "u64 option"
  | DeployMinimum u64 u64 string
  | PaymentChallenge u64 u64 string string string string

fun show_app_error :: "app_error \<Rightarrow> string" where
  "show_app_error (Domain e) = show_domain_error e"
| "show_app_error (NotFound s) = ''function not found: '' @ s"
| "show_app_error (Conflict s) = ''publish conflict: '' @ s"
| "show_app_error (ArtifactMissing s) = ''artifact missing for hash '' @ s"
| "show_app_error (HashMismatch expected actual) =
     ''artifact hash mismatch: expected '' @ expected @ '', got '' @ actual"
| "show_app_error (BadRequest s) = ''bad request: '' @ s"
| "show_app_error (Compile s) = ''compile failed: '' @ s"
| "show_app_error (Storage s) = ''storage: '' @ s"
| "show_app_error (Invoke s) = ''invoke failed: '' @ s"
| "show_app_error (Trap s) = ''guest trap: '' @ s"
| "show_app_error (Timeout s) = ''invoke timed out: '' @ s"
| "show_app_error (PayloadTooLarge s) = ''payload too large: '' @ s"
| "show_app_error (Attestation s) = ''attestation: '' @ s"
| "show_app_error Unauthorized = ''unauthorized''"
| "show_app_error (InsufficientCredits _ _ _ _) = ''insufficient invoke credits''"
| "show_app_error (DeployMinimum _ _ _) = ''balance below minimum deploy credits''"
| "show_app_error (PaymentChallenge _ _ _ _ _ _) = ''payment required''"

fun is_internal :: "app_error \<Rightarrow> bool" where
  "is_internal (Invoke _) = True"
| "is_internal (Trap _) = True"
| "is_internal (Storage _) = True"
| "is_internal (Attestation _) = True"
| "is_internal _ = False"

definition public_message :: "app_error \<Rightarrow> string" where
  "public_message e = (if is_internal e then ''internal error'' else show_app_error e)"

section \<open>The ledger port\<close>

datatype store_error =
    StoreUnauthorized
  | StoreNotFound
  | StoreInsufficient account_id u64 u64 "u64 option"
  | StoreStorage string

record debit_receipt =
  dr_secret_hash :: secret_hash
  dr_account_id :: account_id
  dr_cost :: u64
  dr_capped :: bool

datatype credit_outcome = Applied u64 | Replay u64

record 'w account_store =
  st_create :: "account \<Rightarrow> key_record \<Rightarrow> ('w, store_error, unit) io"
  st_put_key :: "key_record \<Rightarrow> ('w, store_error, unit) io"
  st_revoke :: "account_id \<Rightarrow> key_id \<Rightarrow> ('w, store_error, unit) io"
  st_key_by_hash :: "secret_hash \<Rightarrow> ('w, store_error, key_record option) io"
  st_account :: "account_id \<Rightarrow> ('w, store_error, account option) io"
  st_list_keys :: "account_id \<Rightarrow> ('w, store_error, key_meta list) io"
  st_debit :: "secret_hash \<Rightarrow> u64 \<Rightarrow> ('w, store_error, debit_receipt) io"
  st_refund :: "debit_receipt \<Rightarrow> ('w, store_error, unit) io"
  st_credited_balance :: "account_id \<Rightarrow> string \<Rightarrow> ('w, store_error, u64 option) io"
  st_credit :: "account_id \<Rightarrow> u64 \<Rightarrow> string \<Rightarrow> ('w, store_error, credit_outcome) io"

section \<open>The other ports\<close>

record payment_challenge =
  pc_invokes :: u64
  pc_amount :: u64
  pc_asset :: string
  pc_pay_to :: string
  pc_resource :: string
  pc_network :: string

record 'w credit_settler =
  cs_challenge :: "account_id \<Rightarrow> u64 \<Rightarrow> ('w, app_error, payment_challenge) io"
  cs_payment_nonce :: "u64 \<Rightarrow> string \<Rightarrow> ('w, app_error, string) io"
  cs_settle :: "account_id \<Rightarrow> u64 \<Rightarrow> string \<Rightarrow> ('w, app_error, string) io"

record 'w artifact_store =
  as_put :: "bytes \<Rightarrow> ('w, app_error, content_hash) io"
  as_get :: "content_hash \<Rightarrow> ('w, app_error, bytes) io"

record 'w function_catalog =
  fc_upsert :: "function_id \<Rightarrow> version_label \<Rightarrow> content_hash \<Rightarrow> u64 \<Rightarrow> egress_origin list
                \<Rightarrow> ('w, app_error, bool) io"
  fc_resolve :: "function_id \<Rightarrow> version_label \<Rightarrow> ('w, app_error, function_version) io"
  fc_list :: "'w \<Rightarrow> ((app_error + function_version list) \<times> 'w) option"

record run_outcome =
  ro_output :: bytes

record 'w function_runner =
  fr_validate :: "bytes \<Rightarrow> ('w, app_error, unit) io"
  fr_run :: "content_hash \<Rightarrow> bytes \<Rightarrow> bytes \<Rightarrow> egress_origin list \<Rightarrow> ('w, app_error, run_outcome) io"

record 'w publish_lock =
  pl_acquire :: "function_id \<Rightarrow> content_hash \<Rightarrow> u64 \<Rightarrow> ('w, app_error, unit) io"
  pl_release :: "function_id \<Rightarrow> content_hash \<Rightarrow> ('w, app_error, unit) io"

type_synonym 'w function_attestor = "bytes \<Rightarrow> bytes \<Rightarrow> ('w, app_error, bytes option) io"

section \<open>What a client may learn from an error\<close>

text \<open>
  Two internal errors are indistinguishable to the client, and only the four internal kinds
  are replaced.
\<close>

lemma public_message_internal: "is_internal e \<Longrightarrow> public_message e = ''internal error''"
  by (simp add: public_message_def)

lemma is_internal_iff:
  "is_internal e \<longleftrightarrow> (\<exists>s. e = Invoke s \<or> e = Trap s \<or> e = Storage s \<or> e = Attestation s)"
  by (cases e) auto

end
