(* ===== verification/Dynamo.thy ===== *)
theory Dynamo
  imports Ports "HOL-Library.AList"
begin

text \<open>
  Amazon DynamoDB as the program's adapters see it. Items and attribute values are the SDK's
  \<open>AttributeValue\<close> maps; a condition or update expression of the code is a value of \<open>cond\<close> or
  \<open>upd\<close>, the program builds it and the service evaluates it. The client is a record of the calls
  the code makes. The locale \<open>ddb_service\<close> is the documented contract, stated so that it also
  holds of an unreliable network and of concurrent writers' refusals: a call that reports
  success has committed atomically, one that reports a failed condition or a cancelled
  transaction has changed nothing, and any other error may or may not have committed.
  \<open>ddb_eventual\<close> adds what the default, eventually consistent, read returns: the item as it was
  in some committed state of the past. \<open>ddb_fresh\<close> adds fresh reads and no faults. The last part
  is a reference service with a fault script, on which the locales are interpreted and the
  witnesses run.
\<close>

section \<open>Items and expressions\<close>

datatype attr = AvS string | AvN string | AvBool bool | AvSs "string list"

type_synonym item = "string \<Rightarrow> attr option"
type_synonym pkey = "(string \<times> attr) list"
type_synonym tables = "string \<Rightarrow> pkey \<Rightarrow> item option"

datatype cond =
    AttributeExists string
  | AttributeNotExists string
  | AttrEq string attr
  | AttrGe string attr
  | AttrLe string attr
  | CondAnd cond cond
  | CondOr cond cond

text \<open>\<open>SET a = v\<close>, \<open>SET a = a + v\<close> and \<open>SET a = a - v\<close>.\<close>

datatype upd = SetTo string attr | SetPlus string attr | SetMinus string attr

datatype ddb_write =
    WPut string item cond
  | WUpdate string pkey upd cond
  | WDelete string pkey cond

datatype sdk_error = TransactionCanceled string | ConditionalCheckFailed string | OtherSdk string

fun show_sdk_error :: "sdk_error \<Rightarrow> string" where
  "show_sdk_error (TransactionCanceled s) = s"
| "show_sdk_error (ConditionalCheckFailed s) = s"
| "show_sdk_error (OtherSdk s) = s"

record 'w ddb_client =
  ddb_get :: "string \<Rightarrow> pkey \<Rightarrow> ('w, sdk_error, item option) io"
  ddb_query :: "string \<Rightarrow> string \<Rightarrow> string \<times> attr \<Rightarrow> cond option \<Rightarrow> ('w, sdk_error, item list) io"
  ddb_scan :: "string \<Rightarrow> pkey option \<Rightarrow> ('w, sdk_error, item list \<times> pkey option) io"
  ddb_put :: "string \<Rightarrow> item \<Rightarrow> cond \<Rightarrow> ('w, sdk_error, unit) io"
  ddb_update :: "string \<Rightarrow> pkey \<Rightarrow> upd \<Rightarrow> cond \<Rightarrow> ('w, sdk_error, unit) io"
  ddb_delete :: "string \<Rightarrow> pkey \<Rightarrow> cond \<Rightarrow> ('w, sdk_error, unit) io"
  ddb_transact :: "ddb_write list \<Rightarrow> ('w, sdk_error, unit) io"

section \<open>What an expression means\<close>

text \<open>Decimal integers, the only numbers the program stores; 38 digits is the service's limit.\<close>

fun dec_int :: "string \<Rightarrow> int option" where
  "dec_int [] = None"
| "dec_int (c # s) =
     (if c = CHR ''-'' then (if s = [] then None else map_option (\<lambda>n. - int n) (digits_val 0 s))
      else map_option int (digits_val 0 (c # s)))"

fun num_of :: "attr option \<Rightarrow> int option" where
  "num_of (Some (AvN s)) = dec_int s"
| "num_of _ = None"

definition num_fits :: "int \<Rightarrow> bool" where
  "num_fits i \<longleftrightarrow> - (10 ^ 38) < i \<and> i < 10 ^ 38"

fun cmp_num :: "(int \<Rightarrow> int \<Rightarrow> bool) \<Rightarrow> attr option \<Rightarrow> attr \<Rightarrow> bool" where
  "cmp_num rel a b =
     (case (num_of a, num_of (Some b)) of (Some x, Some y) \<Rightarrow> rel x y | _ \<Rightarrow> False)"

text \<open>An attribute of an item that is not there does not exist.\<close>

definition attr_at :: "item option \<Rightarrow> string \<Rightarrow> attr option" where
  "attr_at it a = (case it of None \<Rightarrow> None | Some i \<Rightarrow> i a)"

fun eval_cond :: "cond \<Rightarrow> item option \<Rightarrow> bool" where
  "eval_cond (AttributeExists a) it = (attr_at it a \<noteq> None)"
| "eval_cond (AttributeNotExists a) it = (attr_at it a = None)"
| "eval_cond (AttrEq a v) it = (attr_at it a = Some v)"
| "eval_cond (AttrGe a v) it = cmp_num (\<lambda>x y. x \<ge> y) (attr_at it a) v"
| "eval_cond (AttrLe a v) it = cmp_num (\<lambda>x y. x \<le> y) (attr_at it a) v"
| "eval_cond (CondAnd c d) it = (eval_cond c it \<and> eval_cond d it)"
| "eval_cond (CondOr c d) it = (eval_cond c it \<or> eval_cond d it)"

definition arith_set :: "(int \<Rightarrow> int \<Rightarrow> int) \<Rightarrow> string \<Rightarrow> attr \<Rightarrow> item \<Rightarrow> item option" where
  "arith_set f a v it =
     (case (num_of (it a), num_of (Some v)) of
        (Some x, Some y) \<Rightarrow> if num_fits (f x y) then Some (it(a \<mapsto> AvN (show_int (f x y)))) else None
      | _ \<Rightarrow> None)"

fun apply_upd :: "upd \<Rightarrow> item \<Rightarrow> item option" where
  "apply_upd (SetTo a v) it = Some (it(a \<mapsto> v))"
| "apply_upd (SetPlus a v) it = arith_set (\<lambda>x y. x + y) a v it"
| "apply_upd (SetMinus a v) it = arith_set (\<lambda>x y. x - y) a v it"

text \<open>
  The primary key of a put is read off the item with the table's key schema. A write is
  evaluated against the item at its key: \<open>None\<close> is a refusal, \<open>Some r\<close> leaves \<open>r\<close> there.
\<close>

definition key_of :: "(string \<Rightarrow> string list) \<Rightarrow> string \<Rightarrow> item \<Rightarrow> pkey" where
  "key_of schema t it = map (\<lambda>a. (a, the (it a))) (schema t)"

fun write_at :: "(string \<Rightarrow> string list) \<Rightarrow> ddb_write \<Rightarrow> string \<times> pkey" where
  "write_at schema (WPut t it c) = (t, key_of schema t it)"
| "write_at schema (WUpdate t k u c) = (t, k)"
| "write_at schema (WDelete t k c) = (t, k)"

definition item_or_key :: "pkey \<Rightarrow> item option \<Rightarrow> item" where
  "item_or_key k it = (case it of None \<Rightarrow> map_of k | Some i \<Rightarrow> i)"

fun write_result :: "ddb_write \<Rightarrow> item option \<Rightarrow> item option option" where
  "write_result (WPut t i c) it = (if eval_cond c it then Some (Some i) else None)"
| "write_result (WUpdate t k u c) it =
     (if eval_cond c it then map_option Some (apply_upd u (item_or_key k it)) else None)"
| "write_result (WDelete t k c) it = (if eval_cond c it then Some None else None)"

definition put_at :: "string \<times> pkey \<Rightarrow> item option \<Rightarrow> tables \<Rightarrow> tables" where
  "put_at tk r db = (\<lambda>t k. if (t, k) = tk then r else db t k)"

text \<open>
  A transaction: every condition is evaluated in the state before it; all of the writes
  happen or none does.
\<close>

fun commit_from :: "(string \<Rightarrow> string list) \<Rightarrow> tables \<Rightarrow> ddb_write list \<Rightarrow> tables \<Rightarrow> tables option" where
  "commit_from schema old [] db = Some db"
| "commit_from schema old (wr # ws) db =
     (let (t, k) = write_at schema wr in
      case write_result wr (old t k) of
        None \<Rightarrow> None
      | Some r \<Rightarrow> commit_from schema old ws (put_at (t, k) r db))"

definition commit :: "(string \<Rightarrow> string list) \<Rightarrow> ddb_write list \<Rightarrow> tables \<Rightarrow> tables option" where
  "commit schema ws db = commit_from schema db ws db"

section \<open>The contract\<close>

text \<open>What a write call may have done to the tables, given its result.\<close>

definition write_outcome ::
  "(string \<Rightarrow> string list) \<Rightarrow> ddb_write list \<Rightarrow> (sdk_error + unit) \<Rightarrow> tables \<Rightarrow> tables \<Rightarrow> bool" where
  "write_outcome schema ws r db db' \<longleftrightarrow>
     (case r of
        Inr _ \<Rightarrow> commit schema ws db = Some db'
      | Inl (OtherSdk _) \<Rightarrow> db' = db \<or> commit schema ws db = Some db'
      | Inl _ \<Rightarrow> db' = db)"

locale ddb_service =
  fixes C :: "'w ddb_client" and view :: "'w \<Rightarrow> tables" and schema :: "string \<Rightarrow> string list"
  assumes get_keeps: "keeps view (ddb_get C t k)"
    and query_keeps: "keeps view (ddb_query C t ix kc f)"
    and scan_keeps: "keeps view (ddb_scan C t st)"
    and put_outcome:
      "ddb_put C t i c w = (r, w') \<Longrightarrow> write_outcome schema [WPut t i c] r (view w) (view w')"
    and update_outcome:
      "ddb_update C t k u c w = (r, w') \<Longrightarrow> write_outcome schema [WUpdate t k u c] r (view w) (view w')"
    and delete_outcome:
      "ddb_delete C t k c w = (r, w') \<Longrightarrow> write_outcome schema [WDelete t k c] r (view w) (view w')"
    and transact_outcome:
      "ddb_transact C ws w = (r, w') \<Longrightarrow> write_outcome schema ws r (view w) (view w')"
    and single_not_cancelled:
      "ddb_put C t i c w \<noteq> (Inl (TransactionCanceled s), w')"
      "ddb_update C t k u c w \<noteq> (Inl (TransactionCanceled s), w')"
      "ddb_delete C t k c w \<noteq> (Inl (TransactionCanceled s), w')"
    and put_refused: "ddb_put C t i c w = (Inl (ConditionalCheckFailed s), w') \<Longrightarrow> commit schema [WPut t i c] (view w) = None"

text \<open>
  Eventually consistent reads: \<open>hist\<close> is the list of the states committed so far. Only a write
  that changes the tables extends it.
\<close>

locale ddb_eventual = ddb_service C view schema
  for C :: "'w ddb_client" and view schema +
  fixes hist :: "'w \<Rightarrow> tables list"
  assumes view_in_hist: "view w \<in> set (hist w)"
    and get_past: "ddb_get C t k w = (Inr v, w') \<Longrightarrow> \<exists>db \<in> set (hist w). db t k = v"
    and get_hist: "keeps hist (ddb_get C t k)"
    and query_hist: "keeps hist (ddb_query C t ix kc f)"
    and put_hist: "ddb_put C t i c w = (r, w') \<Longrightarrow> set (hist w') \<subseteq> insert (view w') (set (hist w))"
    and update_hist: "ddb_update C t k u c w = (r, w') \<Longrightarrow> set (hist w') \<subseteq> insert (view w') (set (hist w))"
    and delete_hist: "ddb_delete C t k c w = (r, w') \<Longrightarrow> set (hist w') \<subseteq> insert (view w') (set (hist w))"
    and transact_hist: "ddb_transact C ws w = (r, w') \<Longrightarrow> set (hist w') \<subseteq> insert (view w') (set (hist w))"

text \<open>
  \<open>calm\<close> is a stretch of time with no faults: reads are fresh, and a write commits exactly when
  it can.
\<close>

locale ddb_fresh = ddb_service C view schema
  for C :: "'w ddb_client" and view schema +
  fixes calm :: "'w \<Rightarrow> bool"
  assumes get_fresh: "calm w \<Longrightarrow> \<exists>w'. ddb_get C t k w = (Inr (view w t k), w') \<and> calm w'"
    and put_fresh: "calm w \<Longrightarrow> \<exists>r w'. ddb_put C t i c w = (r, w') \<and> calm w' \<and>
           (if commit schema [WPut t i c] (view w) = None then \<exists>s. r = Inl (ConditionalCheckFailed s) else r = Inr ())"
    and delete_fresh: "calm w \<Longrightarrow> \<exists>r w'. ddb_delete C t k c w = (r, w') \<and> calm w' \<and>
           (if commit schema [WDelete t k c] (view w) = None then \<exists>s. r = Inl (ConditionalCheckFailed s) else r = Inr ())"
    and transact_fresh: "calm w \<Longrightarrow> \<exists>r w'. ddb_transact C ws w = (r, w') \<and> calm w' \<and>
           (if commit schema ws (view w) = None then \<exists>s. r = Inl (TransactionCanceled s) else r = Inr ())"

section \<open>Lemmas on numbers and commits\<close>

lemma show_nat_hd: "\<exists>c s. show_nat n = c # s \<and> c \<noteq> CHR ''-''"
proof (cases "show_nat n")
  case (Cons c s)
  then have "is_ascii_digit c" using show_nat_digits [of c n] by simp
  then have "c \<noteq> CHR ''-''" by (auto simp: is_ascii_digit_def byte_def)
  with Cons show ?thesis by blast
qed simp

lemma dec_int_show_nat [simp]: "dec_int (show_nat n) = Some (int n)"
proof -
  obtain c s where cs: "show_nat n = c # s" "c \<noteq> CHR ''-''" using show_nat_hd by blast
  have "digits_val 0 (c # s) = Some n" using digits_val_show_nat [of n] cs by simp
  with cs show ?thesis by simp
qed

lemma dec_int_show_int [simp]: "dec_int (show_int i) = Some i"
  by (simp add: show_int_def digits_val_show_nat)

lemma dec_int_show_u64 [simp]: "dec_int (show_u64 v) = Some (uint v)"
  by (simp add: show_u64_def)

lemma num_fits_u64 [simp]: "num_fits (uint (v :: u64))"
proof -
  have "- (10 ^ 38) < (0 :: int)" by simp
  also have "(0 :: int) \<le> uint v" by simp
  finally have "- (10 ^ 38) < uint v" .
  moreover have "uint v < 2 ^ 64" using unsigned_less [of v, where 'a = int] by simp
  then have "uint v < 10 ^ 38" by simp
  ultimately show ?thesis by (simp add: num_fits_def)
qed

lemma arith_set_Some_iff:
  "arith_set f a v it = Some it' \<longleftrightarrow>
     (\<exists>x y. num_of (it a) = Some x \<and> num_of (Some v) = Some y \<and> num_fits (f x y)
        \<and> it' = it(a \<mapsto> AvN (show_int (f x y))))"
  by (auto simp: arith_set_def split: option.splits)

lemma put_at_apply:
  "put_at (t, k) r db t k = r"
  "(t', k') \<noteq> (t, k) \<Longrightarrow> put_at (t, k) r db t' k' = db t' k'"
  by (auto simp: put_at_def)

lemma put_at_other_table [simp]: "t' \<noteq> t \<Longrightarrow> put_at (t, k) r db t' = db t'"
  by (auto simp: put_at_def)

lemma commit_from_other:
  "commit_from schema old ws db = Some db' \<Longrightarrow> (\<And>wr. wr \<in> set ws \<Longrightarrow> fst (write_at schema wr) \<noteq> t) \<Longrightarrow> db' t = db t"
proof (induction ws arbitrary: db)
  case (Cons wr ws)
  obtain t' k where tk: "write_at schema wr = (t', k)" by fastforce
  then have "t' \<noteq> t" using Cons.prems(2) [of wr] by simp
  moreover obtain r where "commit_from schema old ws (put_at (t', k) r db) = Some db'"
    using Cons.prems(1) tk by (auto split: option.splits)
  ultimately show ?case using Cons.IH [of "put_at (t', k) r db"] Cons.prems(2) by simp
qed simp

text \<open>A write to other tables leaves a table alone, whatever its outcome.\<close>

lemma write_outcome_other:
  "write_outcome schema ws r db db' \<Longrightarrow> (\<And>wr. wr \<in> set ws \<Longrightarrow> fst (write_at schema wr) \<noteq> t) \<Longrightarrow> db' t = db t"
  by (auto simp: write_outcome_def commit_def dest: commit_from_other split: sum.splits sdk_error.splits)

lemma commit_one:
  "commit schema [wr] db = Some db' \<longleftrightarrow>
     (\<exists>r. write_result wr (db (fst (write_at schema wr)) (snd (write_at schema wr))) = Some r
        \<and> db' = put_at (write_at schema wr) r db)"
  by (auto simp: commit_def split: prod.splits option.splits)

lemma commit_two:
  "commit schema [wa, wb] db = Some db' \<longleftrightarrow>
     (\<exists>ra rb. write_result wa (db (fst (write_at schema wa)) (snd (write_at schema wa))) = Some ra
        \<and> write_result wb (db (fst (write_at schema wb)) (snd (write_at schema wb))) = Some rb
        \<and> db' = put_at (write_at schema wb) rb (put_at (write_at schema wa) ra db))"
  by (auto simp: commit_def split: prod.splits option.splits)

section \<open>A reference service\<close>

text \<open>
  The tables are an association list; every call consumes one entry of the fault script, an
  empty script meaning no fault: lose the request, lose the reply, cancel (another writer was
  there), or answer a read from a replica that is \<open>n + 1\<close> writes behind.
\<close>

datatype fault = Fine | LoseRequest | LoseReply | Cancel | StaleRead nat

type_synonym entries = "((string \<times> pkey) \<times> item) list"

record ref_db =
  rd_entries :: entries
  rd_past :: "entries list"
  rd_faults :: "fault list"

text \<open>
  The world of the witnesses: besides the tables a random source, a clock, the objects of the
  artifact bucket and the payments the facilitator has settled.
\<close>

record ref_world = ref_db +
  rw_random :: nat
  rw_clock_ms :: nat
  rw_objects :: "(string \<times> bytes) list"
  rw_settled :: "string list"
  rw_requests :: "string list"
  rw_modules :: "content_hash \<Rightarrow> bytes option"

definition tables_of :: "entries \<Rightarrow> tables" where
  "tables_of es = (\<lambda>t k. map_of es (t, k))"

definition ref_view :: "'a ref_db_scheme \<Rightarrow> tables" where
  "ref_view w = tables_of (rd_entries w)"

definition ref_hist :: "'a ref_db_scheme \<Rightarrow> tables list" where
  "ref_hist w = map tables_of (rd_entries w # rd_past w)"

definition next_fault :: "'a ref_db_scheme \<Rightarrow> fault \<times> 'a ref_db_scheme" where
  "next_fault w =
     (case rd_faults w of [] \<Rightarrow> (Fine, w) | f # fs \<Rightarrow> (f, w\<lparr>rd_faults := fs\<rparr>))"

definition set_entries :: "entries \<Rightarrow> 'a ref_db_scheme \<Rightarrow> 'a ref_db_scheme" where
  "set_entries es w = w\<lparr> rd_entries := es, rd_past := rd_entries w # rd_past w \<rparr>"

fun ref_apply ::
  "(string \<Rightarrow> string list) \<Rightarrow> tables \<Rightarrow> ddb_write list \<Rightarrow> entries \<Rightarrow> entries option" where
  "ref_apply schema old [] es = Some es"
| "ref_apply schema old (wr # ws) es =
     (let (t, k) = write_at schema wr in
      case write_result wr (old t k) of
        None \<Rightarrow> None
      | Some None \<Rightarrow> ref_apply schema old ws (AList.delete (t, k) es)
      | Some (Some i) \<Rightarrow> ref_apply schema old ws (AList.update (t, k) i es))"

definition ref_write ::
  "(string \<Rightarrow> string list) \<Rightarrow> sdk_error \<Rightarrow> ddb_write list \<Rightarrow> ('a ref_db_scheme, sdk_error, unit) io" where
  "ref_write schema refused ws w =
     (let (f, w1) = next_fault w;
          res = ref_apply schema (ref_view w1) ws (rd_entries w1) in
      case f of
        LoseRequest \<Rightarrow> (Inl (OtherSdk ''timeout''), w1)
      | LoseReply \<Rightarrow> (Inl (OtherSdk ''timeout''),
                      (case res of None \<Rightarrow> w1 | Some es \<Rightarrow> set_entries es w1))
      | Cancel \<Rightarrow> (Inl (case refused of TransactionCanceled s \<Rightarrow> refused | _ \<Rightarrow> OtherSdk ''throttled''), w1)
      | _ \<Rightarrow> (case res of None \<Rightarrow> (Inl refused, w1) | Some es \<Rightarrow> (Inr (), set_entries es w1)))"

definition ref_read :: "(entries \<Rightarrow> 'b) \<Rightarrow> ('a ref_db_scheme, sdk_error, 'b) io" where
  "ref_read f w =
     (case next_fault w of
        (LoseRequest, w1) \<Rightarrow> (Inl (OtherSdk ''timeout''), w1)
      | (LoseReply, w1) \<Rightarrow> (Inl (OtherSdk ''timeout''), w1)
      | (StaleRead n, w1) \<Rightarrow>
          (Inr (f (if n < length (rd_past w1) then rd_past w1 ! n else rd_entries w1)), w1)
      | (_, w1) \<Rightarrow> (Inr (f (rd_entries w1)), w1))"

definition ref_items :: "string \<Rightarrow> entries \<Rightarrow> item list" where
  "ref_items t es = map snd (filter (\<lambda>((t', k), i). t' = t) es)"

definition ref_client :: "(string \<Rightarrow> string list) \<Rightarrow> 'a ref_db_scheme ddb_client" where
  "ref_client schema =
     \<lparr> ddb_get = (\<lambda>t k. ref_read (\<lambda>es. map_of es (t, k))),
       ddb_query = (\<lambda>t ix kc f. ref_read
          (\<lambda>es. filter (\<lambda>i. i (fst kc) = Some (snd kc)
                          \<and> (case f of None \<Rightarrow> True | Some c \<Rightarrow> eval_cond c (Some i))) (ref_items t es))),
       ddb_scan = (\<lambda>t st. ref_read (\<lambda>es. (ref_items t es, None))),
       ddb_put = (\<lambda>t i c. ref_write schema (ConditionalCheckFailed ''condition'') [WPut t i c]),
       ddb_update = (\<lambda>t k u c. ref_write schema (ConditionalCheckFailed ''condition'') [WUpdate t k u c]),
       ddb_delete = (\<lambda>t k c. ref_write schema (ConditionalCheckFailed ''condition'') [WDelete t k c]),
       ddb_transact = (\<lambda>ws. ref_write schema (TransactionCanceled ''cancelled'') ws) \<rparr>"

lemma ref_apply_commit:
  "map_option tables_of (ref_apply schema old ws es) = commit_from schema old ws (tables_of es)"
proof (induction ws arbitrary: es)
  case (Cons wr ws)
  obtain t k where tk: "write_at schema wr = (t, k)" by fastforce
  have "tables_of (AList.delete (t, k) es) = put_at (t, k) None (tables_of es)"
    "\<And>i. tables_of (AList.update (t, k) i es) = put_at (t, k) (Some i) (tables_of es)"
    by (auto simp: tables_of_def put_at_def delete_conv update_conv fun_eq_iff)
  then show ?case using Cons.IH tk by (auto split: option.splits)
qed simp

lemma next_fault_keeps:
  "next_fault w = (f, w1) \<Longrightarrow>
     rd_entries w1 = rd_entries w \<and> rd_past w1 = rd_past w \<and> ref_view w1 = ref_view w \<and> ref_hist w1 = ref_hist w"
  by (auto simp: next_fault_def ref_view_def ref_hist_def split: list.splits)

lemma ref_apply_view:
  "ref_apply schema (ref_view w) ws (rd_entries w) = Some es
     \<Longrightarrow> commit schema ws (ref_view w) = Some (tables_of es)"
  "ref_apply schema (ref_view w) ws (rd_entries w) = None \<Longrightarrow> commit schema ws (ref_view w) = None"
  using ref_apply_commit [of schema "ref_view w" ws "rd_entries w"]
  by (auto simp: commit_def ref_view_def)

lemma set_entries_view [simp]:
  "ref_view (set_entries es w) = tables_of es"
  "set (ref_hist (set_entries es w)) = insert (tables_of es) (set (ref_hist w))"
  by (auto simp: set_entries_def ref_view_def ref_hist_def)

lemma ref_write_outcome:
  assumes "ref_write schema refused ws w = (r, w')" and "\<And>s. refused \<noteq> OtherSdk s"
  shows "write_outcome schema ws r (ref_view w) (ref_view w')"
proof -
  obtain f w1 where f: "next_fault w = (f, w1)" by fastforce
  then have v: "ref_view w1 = ref_view w" by (simp add: next_fault_keeps)
  have refused: "write_outcome schema ws (Inl refused) db db"
    "write_outcome schema ws (Inl (case refused of TransactionCanceled s \<Rightarrow> refused | _ \<Rightarrow> OtherSdk ''throttled'')) db db" for db
    using assms(2) by (cases refused; auto simp: write_outcome_def)+
  show ?thesis
  proof (cases "ref_apply schema (ref_view w1) ws (rd_entries w1)")
    case None
    with assms(1) f v refused show ?thesis
      by (cases f) (auto simp: ref_write_def Let_def write_outcome_def)
  next
    case (Some es)
    then have "commit schema ws (ref_view w) = Some (tables_of es)"
      using ref_apply_view(1) [of schema w1 ws es] v by simp
    with Some assms(1) f v refused show ?thesis
      by (cases f) (auto simp: ref_write_def Let_def write_outcome_def)
  qed
qed

lemma ref_write_refused:
  "ref_write schema refused ws w = (Inl e, w') \<Longrightarrow> e = refused \<or> (\<exists>s. e = OtherSdk s)"
  by (auto simp: ref_write_def Let_def split: prod.splits fault.splits option.splits sdk_error.splits)

lemma ref_write_condition:
  assumes "ref_write schema (ConditionalCheckFailed m) ws w = (Inl (ConditionalCheckFailed s), w')"
  shows "commit schema ws (ref_view w) = None"
proof -
  obtain f w1 where f: "next_fault w = (f, w1)" by fastforce
  with assms have "ref_apply schema (ref_view w1) ws (rd_entries w1) = None"
    by (cases f) (auto simp: ref_write_def Let_def split: option.splits)
  then show ?thesis using ref_apply_view(2) [of schema w1 ws] next_fault_keeps [OF f] by simp
qed

lemma ref_write_hist:
  "ref_write schema refused ws w = (r, w') \<Longrightarrow>
     set (ref_hist w') \<subseteq> insert (ref_view w') (set (ref_hist w))"
  by (auto simp: ref_write_def Let_def dest!: next_fault_keeps
      split: prod.splits fault.splits option.splits)

lemma ref_read_keeps: "keeps ref_view (ref_read f)" "keeps ref_hist (ref_read f)"
  by (rule keepsI, auto simp: ref_read_def dest!: next_fault_keeps split: prod.splits fault.splits)+

lemma ref_get_past:
  assumes "ref_read (\<lambda>es. map_of es (t, k)) w = (Inr v, w')"
  shows "\<exists>db \<in> set (ref_hist w). db t k = v"
proof -
  obtain f w1 where f: "next_fault w = (f, w1)" by fastforce
  have "\<exists>es \<in> set (rd_entries w # rd_past w). v = map_of es (t, k)"
    using assms f next_fault_keeps [OF f] by (cases f) (auto simp: ref_read_def split: if_splits)
  then show ?thesis by (auto simp: ref_hist_def tables_of_def)
qed

interpretation ref_ddb: ddb_eventual "ref_client schema" ref_view schema ref_hist
  for schema
proof unfold_locales
  show "ref_view w \<in> set (ref_hist w)" for w :: "'a ref_db_scheme"
    by (simp add: ref_view_def ref_hist_def)
qed (simp add: ref_client_def, erule ref_write_hist
    | fastforce simp: ref_client_def ref_read_keeps
        intro: ref_write_outcome ref_get_past dest: ref_write_refused ref_write_condition)+

lemma ref_write_calm:
  assumes "rd_faults w = []"
  shows "\<exists>r w'. ref_write schema refused ws w = (r, w') \<and> rd_faults w' = [] \<and>
     (if commit schema ws (ref_view w) = None then r = Inl refused else r = Inr ())"
  using assms ref_apply_view [of schema w ws]
  by (cases "ref_apply schema (ref_view w) ws (rd_entries w)")
    (auto simp: ref_write_def next_fault_def set_entries_def)

lemma ref_get_calm:
  "rd_faults w = [] \<Longrightarrow> ddb_get (ref_client schema) t k w = (Inr (ref_view w t k), w)"
  by (simp add: ref_client_def ref_read_def next_fault_def ref_view_def tables_of_def)

interpretation ref_ddb_fresh: ddb_fresh "ref_client schema" ref_view schema "\<lambda>w. rd_faults w = []"
  for schema
proof unfold_locales
  fix w :: "'a ref_db_scheme" and t k assume calm: "rd_faults w = []"
  show "\<exists>w'. ddb_get (ref_client schema) t k w = (Inr (ref_view w t k), w') \<and> rd_faults w' = []"
    using calm ref_get_calm [OF calm] by simp
next
  fix w :: "'a ref_db_scheme" and t i c assume "rd_faults w = []"
  from ref_write_calm [OF this, of schema "ConditionalCheckFailed ''condition''" "[WPut t i c]"]
  show "\<exists>r w'. ddb_put (ref_client schema) t i c w = (r, w') \<and> rd_faults w' = [] \<and>
     (if commit schema [WPut t i c] (ref_view w) = None then \<exists>s. r = Inl (ConditionalCheckFailed s) else r = Inr ())"
    by (auto simp: ref_client_def split: if_splits)
next
  fix w :: "'a ref_db_scheme" and t k c assume "rd_faults w = []"
  from ref_write_calm [OF this, of schema "ConditionalCheckFailed ''condition''" "[WDelete t k c]"]
  show "\<exists>r w'. ddb_delete (ref_client schema) t k c w = (r, w') \<and> rd_faults w' = [] \<and>
     (if commit schema [WDelete t k c] (ref_view w) = None then \<exists>s. r = Inl (ConditionalCheckFailed s) else r = Inr ())"
    by (auto simp: ref_client_def split: if_splits)
next
  fix w :: "'a ref_db_scheme" and ws assume "rd_faults w = []"
  from ref_write_calm [OF this, of schema "TransactionCanceled ''cancelled''" ws]
  show "\<exists>r w'. ddb_transact (ref_client schema) ws w = (r, w') \<and> rd_faults w' = [] \<and>
     (if commit schema ws (ref_view w) = None then \<exists>s. r = Inl (TransactionCanceled s) else r = Inr ())"
    by (auto simp: ref_client_def split: if_splits)
qed

end
