(* ===== verification/Account_Store.thy ===== *)
theory Account_Store
  imports Dynamo
begin

text \<open>
  \<open>crates/accounts/src/store.rs\<close>: the invoke-credit ledger on three DynamoDB tables. The
  definitions follow the file: item codecs, the admission check \<open>denial\<close>, and one definition
  per method of \<open>impl AccountStore for DynamoAccountStore\<close>. The \<open>build()\<close> calls of the SDK's
  builders fail only for a missing table name or item, which the code always sets, so they
  have no error branch here.
\<close>

section \<open>Attribute names and the store\<close>

definition ACCOUNT_ID :: string where "ACCOUNT_ID = ''account_id''"
definition BALANCE :: string where "BALANCE = ''balance''"
definition SECRET_HASH :: string where "SECRET_HASH = ''secret_hash''"
definition KEY_ID :: string where "KEY_ID = ''key_id''"
definition REVOKED :: string where "REVOKED = ''revoked''"
definition CAPPED :: string where "CAPPED = ''capped''"
definition CAP_REMAINING :: string where "CAP_REMAINING = ''cap_remaining''"
definition NONCE :: string where "NONCE = ''nonce''"
definition INVOKES :: string where "INVOKES = ''invokes''"
definition KEYS_GSI :: string where "KEYS_GSI = ''account_id_index''"

lemmas attr_names = ACCOUNT_ID_def BALANCE_def SECRET_HASH_def KEY_ID_def REVOKED_def CAPPED_def
  CAP_REMAINING_def NONCE_def INVOKES_def

record 'w account_db =
  adb_client :: "'w ddb_client"
  adb_accounts :: string
  adb_keys :: string
  adb_receipts :: string

section \<open>Codecs\<close>

definition av_n :: "u64 \<Rightarrow> attr" where
  "av_n value = AvN (show_u64 value)"

definition attr_s :: "item \<Rightarrow> string \<Rightarrow> store_error + string" where
  "attr_s item key =
     ok_or (StoreStorage (''item missing '' @ key))
       (case item key of Some (AvS s) \<Rightarrow> Some s | _ \<Rightarrow> None)"

definition attr_bool :: "item \<Rightarrow> string \<Rightarrow> store_error + bool" where
  "attr_bool item key =
     ok_or (StoreStorage (''item missing '' @ key))
       (case item key of Some (AvBool b) \<Rightarrow> Some b | _ \<Rightarrow> None)"

definition attr_u64 :: "item \<Rightarrow> string \<Rightarrow> store_error + u64" where
  "attr_u64 item key =
     bind_r (ok_or (StoreStorage (''item missing '' @ key))
               (case item key of Some (AvN s) \<Rightarrow> Some s | _ \<Rightarrow> None)) (\<lambda>s.
     ok_or (StoreStorage (''item '' @ key @ '' is not an integer'')) (parse_u64 s))"

definition key_item :: "ext \<Rightarrow> key_record \<Rightarrow> item" where
  "key_item X key =
     (let item = [SECRET_HASH \<mapsto> AvS (secret_hash_to_hex X (kr_secret_hash key)),
                  ACCOUNT_ID \<mapsto> AvS (account_id_to_hex X (kr_account_id key)),
                  KEY_ID \<mapsto> AvS (key_id_to_hex X (kr_key_id key)),
                  REVOKED \<mapsto> AvBool (kr_revoked key),
                  CAPPED \<mapsto> AvBool (kr_capped key)] in
      case kr_cap_remaining key of
        Some remaining \<Rightarrow> item(CAP_REMAINING \<mapsto> av_n remaining)
      | None \<Rightarrow> item)"

definition storage_of_domain :: "domain_error \<Rightarrow> store_error" where
  "storage_of_domain e = StoreStorage (show_domain_error e)"

definition key_from_item :: "ext \<Rightarrow> item \<Rightarrow> store_error + key_record" where
  "key_from_item X item =
     bind_r (attr_bool item CAPPED) (\<lambda>capped.
     let cap_remaining =
           (if capped then Some (case attr_u64 item CAP_REMAINING of Inr v \<Rightarrow> v | Inl _ \<Rightarrow> 0)
            else None) in
     bind_r (attr_s item SECRET_HASH) (\<lambda>hs.
     bind_r (map_err storage_of_domain (secret_hash_from_hex X hs)) (\<lambda>h.
     bind_r (attr_s item ACCOUNT_ID) (\<lambda>as.
     bind_r (map_err storage_of_domain (account_id_from_hex X as)) (\<lambda>a.
     bind_r (attr_s item KEY_ID) (\<lambda>ks.
     bind_r (map_err storage_of_domain (key_id_from_hex X ks)) (\<lambda>k.
     bind_r (attr_bool item REVOKED) (\<lambda>revoked.
     Inr \<lparr> kr_secret_hash = h, kr_account_id = a, kr_key_id = k, kr_revoked = revoked,
           kr_capped = capped, kr_cap_remaining = cap_remaining \<rparr>))))))))"

definition account_from_item :: "ext \<Rightarrow> item \<Rightarrow> store_error + account" where
  "account_from_item X item =
     bind_r (attr_s item ACCOUNT_ID) (\<lambda>as.
     bind_r (map_err storage_of_domain (account_id_from_hex X as)) (\<lambda>a.
     bind_r (attr_u64 item BALANCE) (\<lambda>b.
     Inr \<lparr> acc_id = a, acc_balance = b \<rparr>)))"

section \<open>Admission\<close>

definition denial :: "account \<Rightarrow> key_record \<Rightarrow> u64 \<Rightarrow> store_error option" where
  "denial account key cost =
     (let remaining = (case kr_cap_remaining key of Some v \<Rightarrow> v | None \<Rightarrow> 0);
          cap_short = (kr_capped key \<and> remaining < cost) in
      if acc_balance account < cost \<or> cap_short then
        Some (StoreInsufficient (acc_id account) (acc_balance account) cost
                (if kr_capped key then Some remaining else None))
      else None)"

definition transaction_cancelled :: "sdk_error \<Rightarrow> bool" where
  "transaction_cancelled err = (case err of TransactionCanceled _ \<Rightarrow> True | _ \<Rightarrow> False)"

definition storage_of_sdk :: "sdk_error \<Rightarrow> store_error" where
  "storage_of_sdk err = StoreStorage (show_sdk_error err)"

section \<open>The writes each method sends\<close>

definition account_pkey :: "ext \<Rightarrow> account_id \<Rightarrow> pkey" where
  "account_pkey X a = [(ACCOUNT_ID, AvS (account_id_to_hex X a))]"

definition key_pkey :: "ext \<Rightarrow> secret_hash \<Rightarrow> pkey" where
  "key_pkey X h = [(SECRET_HASH, AvS (secret_hash_to_hex X h))]"

definition account_item :: "ext \<Rightarrow> account \<Rightarrow> item" where
  "account_item X account =
     [ACCOUNT_ID \<mapsto> AvS (account_id_to_hex X (acc_id account)), BALANCE \<mapsto> av_n (acc_balance account)]"

definition put_key_write :: "ext \<Rightarrow> 'w account_db \<Rightarrow> key_record \<Rightarrow> ddb_write" where
  "put_key_write X S key = WPut (adb_keys S) (key_item X key) (AttributeNotExists SECRET_HASH)"

definition create_writes :: "ext \<Rightarrow> 'w account_db \<Rightarrow> account \<Rightarrow> key_record \<Rightarrow> ddb_write list" where
  "create_writes X S account key =
     [WPut (adb_accounts S) (account_item X account) (AttributeNotExists ACCOUNT_ID),
      put_key_write X S key]"

definition debit_writes ::
  "ext \<Rightarrow> 'w account_db \<Rightarrow> secret_hash \<Rightarrow> account_id \<Rightarrow> u64 \<Rightarrow> bool \<Rightarrow> ddb_write list" where
  "debit_writes X S h a cost capped =
     [WUpdate (adb_accounts S) (account_pkey X a) (SetMinus BALANCE (av_n cost))
        (AttrGe BALANCE (av_n cost)),
      (if capped then
         WUpdate (adb_keys S) (key_pkey X h) (SetMinus CAP_REMAINING (av_n cost))
           (CondAnd (CondAnd (AttrEq REVOKED (AvBool False)) (AttrEq CAPPED (AvBool True)))
              (AttrGe CAP_REMAINING (av_n cost)))
       else
         WUpdate (adb_keys S) (key_pkey X h) (SetTo REVOKED (AvBool False))
           (CondAnd (AttrEq REVOKED (AvBool False)) (AttrEq CAPPED (AvBool False))))]"

definition refund_writes :: "ext \<Rightarrow> 'w account_db \<Rightarrow> debit_receipt \<Rightarrow> ddb_write list" where
  "refund_writes X S receipt =
     (let account_update =
            WUpdate (adb_accounts S) (account_pkey X (dr_account_id receipt))
              (SetPlus BALANCE (av_n (dr_cost receipt))) (AttributeExists ACCOUNT_ID) in
      if \<not> dr_capped receipt then [account_update]
      else [account_update,
            WUpdate (adb_keys S) (key_pkey X (dr_secret_hash receipt))
              (SetPlus CAP_REMAINING (av_n (dr_cost receipt))) (AttrEq CAPPED (AvBool True))])"

definition receipt_item :: "ext \<Rightarrow> account_id \<Rightarrow> u64 \<Rightarrow> string \<Rightarrow> item" where
  "receipt_item X a invokes nonce =
     [NONCE \<mapsto> AvS nonce, ACCOUNT_ID \<mapsto> AvS (account_id_to_hex X a), INVOKES \<mapsto> av_n invokes]"

definition credit_writes ::
  "ext \<Rightarrow> 'w account_db \<Rightarrow> account_id \<Rightarrow> u64 \<Rightarrow> string \<Rightarrow> ddb_write list" where
  "credit_writes X S a invokes nonce =
     [WUpdate (adb_accounts S) (account_pkey X a) (SetPlus BALANCE (av_n invokes))
        (AttributeExists ACCOUNT_ID),
      WPut (adb_receipts S) (receipt_item X a invokes nonce) (AttributeNotExists NONCE)]"

definition revoke_write :: "ext \<Rightarrow> 'w account_db \<Rightarrow> account_id \<Rightarrow> string \<Rightarrow> ddb_write" where
  "revoke_write X S a hash =
     WUpdate (adb_keys S) [(SECRET_HASH, AvS hash)] (SetTo REVOKED (AvBool True))
       (AttrEq ACCOUNT_ID (AvS (account_id_to_hex X a)))"

section \<open>The methods\<close>

definition store_create ::
  "ext \<Rightarrow> 'w account_db \<Rightarrow> account \<Rightarrow> key_record \<Rightarrow> ('w, store_error, unit) io" where
  "store_create X S account key =
     map_err_io (\<lambda>err. if transaction_cancelled err then StoreStorage ''account or key already exists''
                       else storage_of_sdk err)
       (ddb_transact (adb_client S) (create_writes X S account key))"

definition store_put_key :: "ext \<Rightarrow> 'w account_db \<Rightarrow> key_record \<Rightarrow> ('w, store_error, unit) io" where
  "store_put_key X S key =
     map_err_io (\<lambda>err. case err of ConditionalCheckFailed _ \<Rightarrow> StoreStorage ''key already exists''
                       | _ \<Rightarrow> storage_of_sdk err)
       (ddb_put (adb_client S) (adb_keys S) (key_item X key) (AttributeNotExists SECRET_HASH))"

definition find_hash ::
  "ext \<Rightarrow> 'w account_db \<Rightarrow> account_id \<Rightarrow> key_id \<Rightarrow> ('w, store_error, string option) io" where
  "find_hash X S a k =
     bind_io (map_err_io storage_of_sdk
       (ddb_query (adb_client S) (adb_keys S) KEYS_GSI (ACCOUNT_ID, AvS (account_id_to_hex X a))
          (Some (AttrEq KEY_ID (AvS (key_id_to_hex X k)))))) (\<lambda>items.
     ret (map_option (\<lambda>i. case i SECRET_HASH of Some (AvS s) \<Rightarrow> s | _ \<Rightarrow> [])
            (find (\<lambda>i. case i SECRET_HASH of Some (AvS s) \<Rightarrow> True | _ \<Rightarrow> False) items)))"

definition store_revoke ::
  "ext \<Rightarrow> 'w account_db \<Rightarrow> account_id \<Rightarrow> key_id \<Rightarrow> ('w, store_error, unit) io" where
  "store_revoke X S a k =
     bind_io (find_hash X S a k) (\<lambda>found.
     case found of
       None \<Rightarrow> throw StoreNotFound
     | Some hash \<Rightarrow>
         map_err_io storage_of_sdk
           (ddb_update (adb_client S) (adb_keys S) [(SECRET_HASH, AvS hash)]
              (SetTo REVOKED (AvBool True)) (AttrEq ACCOUNT_ID (AvS (account_id_to_hex X a)))))"

definition store_key_by_hash ::
  "ext \<Rightarrow> 'w account_db \<Rightarrow> secret_hash \<Rightarrow> ('w, store_error, key_record option) io" where
  "store_key_by_hash X S h =
     bind_io (map_err_io storage_of_sdk (ddb_get (adb_client S) (adb_keys S) (key_pkey X h))) (\<lambda>out.
     case out of
       Some item \<Rightarrow> bind_io (lift_r (key_from_item X item)) (\<lambda>k. ret (Some k))
     | None \<Rightarrow> ret None)"

definition store_account ::
  "ext \<Rightarrow> 'w account_db \<Rightarrow> account_id \<Rightarrow> ('w, store_error, account option) io" where
  "store_account X S a =
     bind_io (map_err_io storage_of_sdk (ddb_get (adb_client S) (adb_accounts S) (account_pkey X a))) (\<lambda>out.
     case out of
       Some item \<Rightarrow> bind_io (lift_r (account_from_item X item)) (\<lambda>acc. ret (Some acc))
     | None \<Rightarrow> ret None)"

definition store_list_keys ::
  "ext \<Rightarrow> 'w account_db \<Rightarrow> account_id \<Rightarrow> ('w, store_error, key_meta list) io" where
  "store_list_keys X S a =
     bind_io (map_err_io storage_of_sdk
       (ddb_query (adb_client S) (adb_keys S) KEYS_GSI (ACCOUNT_ID, AvS (account_id_to_hex X a)) None)) (\<lambda>items.
     lift_r (collect_r (\<lambda>item. bind_r (key_from_item X item) (\<lambda>k. Inr (key_meta_from k))) items))"

definition store_balance_of ::
  "ext \<Rightarrow> 'w account_db \<Rightarrow> account_id \<Rightarrow> ('w, store_error, u64) io" where
  "store_balance_of X S a =
     bind_io (store_account X S a) (\<lambda>acc. lift_r (ok_or StoreNotFound (map_option acc_balance acc)))"

definition store_receipt_exists ::
  "'w account_db \<Rightarrow> string \<Rightarrow> ('w, store_error, bool) io" where
  "store_receipt_exists S nonce =
     bind_io (map_err_io storage_of_sdk
       (ddb_get (adb_client S) (adb_receipts S) [(NONCE, AvS nonce)])) (\<lambda>out. ret (out \<noteq> None))"

text \<open>What \<open>debit\<close> does when its transaction was cancelled: read again and say why.\<close>

definition store_debit_recheck ::
  "ext \<Rightarrow> 'w account_db \<Rightarrow> secret_hash \<Rightarrow> u64 \<Rightarrow> ('w, store_error, debit_receipt) io" where
  "store_debit_recheck X S h cost =
     bind_io (store_key_by_hash X S h) (\<lambda>found.
     bind_io (lift_r (ok_or StoreUnauthorized found)) (\<lambda>key.
     if kr_revoked key then throw StoreUnauthorized
     else
       bind_io (store_account X S (kr_account_id key)) (\<lambda>acc.
       bind_io (lift_r (ok_or (StoreStorage ''key has no account'') acc)) (\<lambda>account.
       case denial account key cost of
         Some denied \<Rightarrow> throw denied
       | None \<Rightarrow> throw (StoreStorage ''debit condition failed without an admission reason'')))))"

definition store_debit ::
  "ext \<Rightarrow> 'w account_db \<Rightarrow> secret_hash \<Rightarrow> u64 \<Rightarrow> ('w, store_error, debit_receipt) io" where
  "store_debit X S h cost =
     (if cost = 0 then
        throw (StoreStorage ''debit cost must be a positive number of invoke credits'')
      else
        bind_io (store_key_by_hash X S h) (\<lambda>found.
        case found of
          None \<Rightarrow> throw StoreUnauthorized
        | Some key \<Rightarrow>
          if kr_revoked key then throw StoreUnauthorized
          else
            bind_io (store_account X S (kr_account_id key)) (\<lambda>acc.
            case acc of
              None \<Rightarrow> throw (StoreStorage ''key has no account'')
            | Some account \<Rightarrow>
              (case denial account key cost of
                 Some denied \<Rightarrow> throw denied
               | None \<Rightarrow>
                 match_io (ddb_transact (adb_client S) (debit_writes X S h (acc_id account) cost (kr_capped key)))
                   (\<lambda>_. ret \<lparr> dr_secret_hash = h, dr_account_id = acc_id account, dr_cost = cost,
                              dr_capped = kr_capped key \<rparr>)
                   (\<lambda>err.
                     if \<not> transaction_cancelled err then throw (storage_of_sdk err)
                     else store_debit_recheck X S h cost)))))"

definition store_refund :: "ext \<Rightarrow> 'w account_db \<Rightarrow> debit_receipt \<Rightarrow> ('w, store_error, unit) io" where
  "store_refund X S receipt =
     map_err_io storage_of_sdk (ddb_transact (adb_client S) (refund_writes X S receipt))"

definition store_credited_balance ::
  "ext \<Rightarrow> 'w account_db \<Rightarrow> account_id \<Rightarrow> string \<Rightarrow> ('w, store_error, u64 option) io" where
  "store_credited_balance X S a nonce =
     bind_io (store_receipt_exists S nonce) (\<lambda>present.
     if \<not> present then ret None
     else bind_io (store_balance_of X S a) (\<lambda>b. ret (Some b)))"

definition store_credit ::
  "ext \<Rightarrow> 'w account_db \<Rightarrow> account_id \<Rightarrow> u64 \<Rightarrow> string \<Rightarrow> ('w, store_error, credit_outcome) io" where
  "store_credit X S a invokes nonce =
     (if invokes = 0 \<or> nonce = [] then
        throw (StoreStorage ''credit requires a positive invoke count and a nonce'')
      else
        match_io (ddb_transact (adb_client S) (credit_writes X S a invokes nonce))
          (\<lambda>_. bind_io (store_balance_of X S a) (\<lambda>balance. ret (Applied balance)))
          (\<lambda>err.
            if transaction_cancelled err then
              bind_io (store_receipt_exists S nonce) (\<lambda>present.
              if present then bind_io (store_balance_of X S a) (\<lambda>balance. ret (Replay balance))
              else throw StoreNotFound)
            else throw (storage_of_sdk err)))"

definition dynamo_account_store :: "ext \<Rightarrow> 'w account_db \<Rightarrow> 'w account_store" where
  "dynamo_account_store X S =
     \<lparr> st_create = store_create X S, st_put_key = store_put_key X S, st_revoke = store_revoke X S,
       st_key_by_hash = store_key_by_hash X S, st_account = store_account X S,
       st_list_keys = store_list_keys X S, st_debit = store_debit X S,
       st_refund = store_refund X S, st_credited_balance = store_credited_balance X S,
       st_credit = store_credit X S \<rparr>"

end
