(* ===== verification/Ledger.thy ===== *)
theory Ledger
  imports Account_Store
begin

text \<open>
  The abstract ledger the store implements, and the refinement. \<open>ledger_of\<close> reads balances,
  key states and receipts off the three tables; \<open>op_writes\<close> is the transaction each mutating
  method of the store sends and \<open>op_spec\<close> what it must do to the ledger. Concurrent callers are
  traces: each commits its transactions one after the other, so a history of the ledger is a
  list of operations, and the accounting theorems are inductions over it.
\<close>

section \<open>The abstract ledger\<close>

record ledger_key =
  lk_owner :: string
  lk_revoked :: bool
  lk_cap :: "int option"

record ledger =
  lg_balance :: "string \<Rightarrow> int option"
  lg_key :: "string \<Rightarrow> ledger_key option"
  lg_receipt :: "string \<Rightarrow> (string \<times> int) option"

datatype ledger_op =
    OpCreate account key_record
  | OpPutKey key_record
  | OpRevoke account_id string
  | OpDebit secret_hash account_id u64 bool
  | OpRefund debit_receipt
  | OpCredit account_id u64 string

fun op_writes :: "ext \<Rightarrow> 'w account_db \<Rightarrow> ledger_op \<Rightarrow> ddb_write list" where
  "op_writes X S (OpCreate account key) = create_writes X S account key"
| "op_writes X S (OpPutKey key) = [put_key_write X S key]"
| "op_writes X S (OpRevoke a hash) = [revoke_write X S a hash]"
| "op_writes X S (OpDebit h a cost capped) = debit_writes X S h a cost capped"
| "op_writes X S (OpRefund receipt) = refund_writes X S receipt"
| "op_writes X S (OpCredit a invokes nonce) = credit_writes X S a invokes nonce"

definition new_ledger_key :: "ext \<Rightarrow> key_record \<Rightarrow> ledger_key" where
  "new_ledger_key X k =
     \<lparr> lk_owner = account_id_to_hex X (kr_account_id k), lk_revoked = kr_revoked k,
       lk_cap = (if kr_capped k then map_option uint (kr_cap_remaining k) else None) \<rparr>"

text \<open>What each operation promises, in terms of the ledger alone.\<close>

fun op_spec :: "ext \<Rightarrow> ledger_op \<Rightarrow> ledger \<Rightarrow> ledger option" where
  "op_spec X (OpCreate account key) L =
     (let a = account_id_to_hex X (acc_id account); h = secret_hash_to_hex X (kr_secret_hash key) in
      if lg_balance L a = None \<and> lg_key L h = None then
        Some (L\<lparr> lg_balance := (lg_balance L)(a \<mapsto> uint (acc_balance account)),
                 lg_key := (lg_key L)(h \<mapsto> new_ledger_key X key) \<rparr>)
      else None)"
| "op_spec X (OpPutKey key) L =
     (let h = secret_hash_to_hex X (kr_secret_hash key) in
      if lg_key L h = None then Some (L\<lparr> lg_key := (lg_key L)(h \<mapsto> new_ledger_key X key) \<rparr>)
      else None)"
| "op_spec X (OpRevoke a h) L =
     (case lg_key L h of
        None \<Rightarrow> None
      | Some k \<Rightarrow>
          if lk_owner k = account_id_to_hex X a
          then Some (L\<lparr> lg_key := (lg_key L)(h \<mapsto> k\<lparr> lk_revoked := True \<rparr>) \<rparr>) else None)"
| "op_spec X (OpDebit hash acct cost capped) L =
     (let a = account_id_to_hex X acct; h = secret_hash_to_hex X hash in
      case (lg_balance L a, lg_key L h) of
        (Some b, Some k) \<Rightarrow>
          if uint cost \<le> b \<and> \<not> lk_revoked k
             \<and> (case lk_cap k of None \<Rightarrow> \<not> capped | Some c \<Rightarrow> capped \<and> uint cost \<le> c)
          then Some (L\<lparr> lg_balance := (lg_balance L)(a \<mapsto> b - uint cost),
                        lg_key := (lg_key L)(h \<mapsto> k\<lparr> lk_cap := map_option (\<lambda>c. c - uint cost) (lk_cap k) \<rparr>) \<rparr>)
          else None
      | _ \<Rightarrow> None)"
| "op_spec X (OpRefund r) L =
     (let a = account_id_to_hex X (dr_account_id r); h = secret_hash_to_hex X (dr_secret_hash r) in
      case lg_balance L a of
        None \<Rightarrow> None
      | Some b \<Rightarrow>
        (let L' = L\<lparr> lg_balance := (lg_balance L)(a \<mapsto> b + uint (dr_cost r)) \<rparr> in
         if \<not> dr_capped r then Some L'
         else case lg_key L h of
                None \<Rightarrow> None
              | Some k \<Rightarrow>
                (case lk_cap k of
                   None \<Rightarrow> None
                 | Some c \<Rightarrow> Some (L'\<lparr> lg_key := (lg_key L)(h \<mapsto> k\<lparr> lk_cap := Some (c + uint (dr_cost r)) \<rparr>) \<rparr>))))"
| "op_spec X (OpCredit acct invokes nonce) L =
     (let a = account_id_to_hex X acct in
      case (lg_balance L a, lg_receipt L nonce) of
        (Some b, None) \<Rightarrow>
          Some (L\<lparr> lg_balance := (lg_balance L)(a \<mapsto> b + uint invokes),
                   lg_receipt := (lg_receipt L)(nonce \<mapsto> (a, uint invokes)) \<rparr>)
      | _ \<Rightarrow> None)"

section \<open>Reading the ledger off the tables\<close>

fun str_of :: "attr option \<Rightarrow> string option" where
  "str_of (Some (AvS s)) = Some s"
| "str_of _ = None"

fun bool_of :: "attr option \<Rightarrow> bool option" where
  "bool_of (Some (AvBool b)) = Some b"
| "bool_of _ = None"

definition ledger_key_of :: "item \<Rightarrow> ledger_key" where
  "ledger_key_of it =
     \<lparr> lk_owner = (case str_of (it ACCOUNT_ID) of Some s \<Rightarrow> s | None \<Rightarrow> []),
       lk_revoked = (bool_of (it REVOKED) = Some True),
       lk_cap = (if bool_of (it CAPPED) = Some True then num_of (it CAP_REMAINING) else None) \<rparr>"

definition receipt_of :: "item \<Rightarrow> string \<times> int" where
  "receipt_of it =
     ((case str_of (it ACCOUNT_ID) of Some s \<Rightarrow> s | None \<Rightarrow> []),
      (case num_of (it INVOKES) of Some n \<Rightarrow> n | None \<Rightarrow> 0))"

definition ledger_of :: "'w account_db \<Rightarrow> tables \<Rightarrow> ledger" where
  "ledger_of S db =
     \<lparr> lg_balance = (\<lambda>a. case db (adb_accounts S) [(ACCOUNT_ID, AvS a)] of
                           None \<Rightarrow> None | Some it \<Rightarrow> num_of (it BALANCE)),
       lg_key = (\<lambda>h. map_option ledger_key_of (db (adb_keys S) [(SECRET_HASH, AvS h)])),
       lg_receipt = (\<lambda>n. map_option receipt_of (db (adb_receipts S) [(NONCE, AvS n)])) \<rparr>"

text \<open>
  The shape of the items the store writes, kept by every transaction: an item repeats its
  primary key, an account has a number, a key has its owner's id in lower-case hex, its two
  flags and, when capped, a number.
\<close>

definition account_shape :: "pkey \<Rightarrow> item \<Rightarrow> bool" where
  "account_shape k it \<longleftrightarrow>
     (\<exists>s. k = [(ACCOUNT_ID, AvS s)] \<and> it ACCOUNT_ID = Some (AvS s)) \<and> num_of (it BALANCE) \<noteq> None"

definition key_shape :: "pkey \<Rightarrow> item \<Rightarrow> bool" where
  "key_shape k it \<longleftrightarrow>
     (\<exists>s. k = [(SECRET_HASH, AvS s)] \<and> it SECRET_HASH = Some (AvS s))
     \<and> (\<exists>s. it ACCOUNT_ID = Some (AvS s) \<and> to_ascii_lowercase s = s) \<and> bool_of (it REVOKED) \<noteq> None
     \<and> bool_of (it CAPPED) \<noteq> None
     \<and> (bool_of (it CAPPED) = Some True \<longrightarrow> num_of (it CAP_REMAINING) \<noteq> None)"

definition tables_ok :: "'w account_db \<Rightarrow> tables \<Rightarrow> bool" where
  "tables_ok S db \<longleftrightarrow>
     (\<forall>k it. db (adb_accounts S) k = Some it \<longrightarrow> account_shape k it)
     \<and> (\<forall>k it. db (adb_keys S) k = Some it \<longrightarrow> key_shape k it)
     \<and> (\<forall>k it. db (adb_receipts S) k = Some it \<longrightarrow> it NONCE \<noteq> None)"

text \<open>The tables are three different ones, keyed as the struct's comment says.\<close>

definition store_schema :: "'w account_db \<Rightarrow> (string \<Rightarrow> string list) \<Rightarrow> bool" where
  "store_schema S schema \<longleftrightarrow>
     distinct [adb_accounts S, adb_keys S, adb_receipts S]
     \<and> schema (adb_accounts S) = [ACCOUNT_ID] \<and> schema (adb_keys S) = [SECRET_HASH]
     \<and> schema (adb_receipts S) = [NONCE]"

text \<open>Keys written by the store have a cap counter whenever they are capped.\<close>

fun op_ok :: "ledger_op \<Rightarrow> bool" where
  "op_ok (OpCreate account key) = (kr_capped key \<longrightarrow> kr_cap_remaining key \<noteq> None)"
| "op_ok (OpPutKey key) = (kr_capped key \<longrightarrow> kr_cap_remaining key \<noteq> None)"
| "op_ok _ = True"

section \<open>Refinement\<close>

lemma str_of_Some_iff [simp]: "str_of v = Some s \<longleftrightarrow> v = Some (AvS s)"
  by (cases v rule: str_of.cases) auto

lemma bool_of_Some_iff [simp]: "bool_of v = Some b \<longleftrightarrow> v = Some (AvBool b)"
  by (cases v rule: bool_of.cases) auto

lemma num_of_Some_iff: "num_of v = Some i \<longleftrightarrow> (\<exists>s. v = Some (AvN s) \<and> dec_int s = Some i)"
  by (cases v rule: num_of.cases) auto

lemma attr_names_neq [simp]:
  "ACCOUNT_ID \<noteq> BALANCE" "BALANCE \<noteq> ACCOUNT_ID" "SECRET_HASH \<noteq> ACCOUNT_ID" "ACCOUNT_ID \<noteq> SECRET_HASH"
  "SECRET_HASH \<noteq> REVOKED" "REVOKED \<noteq> SECRET_HASH" "SECRET_HASH \<noteq> CAPPED" "CAPPED \<noteq> SECRET_HASH"
  "SECRET_HASH \<noteq> CAP_REMAINING" "CAP_REMAINING \<noteq> SECRET_HASH" "SECRET_HASH \<noteq> KEY_ID" "KEY_ID \<noteq> SECRET_HASH"
  "ACCOUNT_ID \<noteq> REVOKED" "REVOKED \<noteq> ACCOUNT_ID" "ACCOUNT_ID \<noteq> CAPPED" "CAPPED \<noteq> ACCOUNT_ID"
  "ACCOUNT_ID \<noteq> CAP_REMAINING" "CAP_REMAINING \<noteq> ACCOUNT_ID" "ACCOUNT_ID \<noteq> KEY_ID" "KEY_ID \<noteq> ACCOUNT_ID"
  "REVOKED \<noteq> CAPPED" "CAPPED \<noteq> REVOKED" "REVOKED \<noteq> CAP_REMAINING" "CAP_REMAINING \<noteq> REVOKED"
  "CAPPED \<noteq> CAP_REMAINING" "CAP_REMAINING \<noteq> CAPPED" "KEY_ID \<noteq> REVOKED" "REVOKED \<noteq> KEY_ID"
  "KEY_ID \<noteq> CAPPED" "CAPPED \<noteq> KEY_ID" "KEY_ID \<noteq> CAP_REMAINING" "CAP_REMAINING \<noteq> KEY_ID"
  "NONCE \<noteq> ACCOUNT_ID" "ACCOUNT_ID \<noteq> NONCE" "NONCE \<noteq> INVOKES" "INVOKES \<noteq> NONCE"
  "INVOKES \<noteq> ACCOUNT_ID" "ACCOUNT_ID \<noteq> INVOKES"
  by (simp_all add: attr_names)

lemma key_item_attrs [simp]:
  "key_item X k SECRET_HASH = Some (AvS (secret_hash_to_hex X (kr_secret_hash k)))"
  "key_item X k ACCOUNT_ID = Some (AvS (account_id_to_hex X (kr_account_id k)))"
  "key_item X k KEY_ID = Some (AvS (key_id_to_hex X (kr_key_id k)))"
  "key_item X k REVOKED = Some (AvBool (kr_revoked k))"
  "key_item X k CAPPED = Some (AvBool (kr_capped k))"
  "key_item X k CAP_REMAINING = map_option av_n (kr_cap_remaining k)"
  by (auto simp: key_item_def Let_def split: option.splits)

lemma account_item_attrs [simp]:
  "account_item X a ACCOUNT_ID = Some (AvS (account_id_to_hex X (acc_id a)))"
  "account_item X a BALANCE = Some (av_n (acc_balance a))"
  by (simp_all add: account_item_def)

lemma receipt_item_attrs [simp]:
  "receipt_item X a v nn NONCE = Some (AvS nn)"
  "receipt_item X a v nn ACCOUNT_ID = Some (AvS (account_id_to_hex X a))"
  "receipt_item X a v nn INVOKES = Some (av_n v)"
  by (simp_all add: receipt_item_def)

lemma num_of_av_n [simp]: "num_of (Some (av_n v)) = Some (uint v)"
  by (simp add: av_n_def)

context externals
begin

lemma account_id_to_hex_lower [simp]:
  "to_ascii_lowercase (account_id_to_hex X a) = account_id_to_hex X a"
  by (simp add: account_id_to_hex_def)

end

lemma key_item_view:
  assumes "externals X" and "kr_capped k \<longrightarrow> kr_cap_remaining k \<noteq> None"
  shows "ledger_key_of (key_item X k) = new_ledger_key X k"
    "key_shape [(SECRET_HASH, AvS (secret_hash_to_hex X (kr_secret_hash k)))] (key_item X k)"
  using assms externals.account_id_to_hex_lower [OF assms(1)]
  by (auto simp: ledger_key_of_def new_ledger_key_def key_shape_def av_n_def)

lemma receipt_item_view: "receipt_of (receipt_item X a v nn) = (account_id_to_hex X a, uint v)"
  by (simp add: receipt_of_def del: num_of.simps)

lemma cmp_num_iff:
  "cmp_num rel a b \<longleftrightarrow> (\<exists>x y. num_of a = Some x \<and> num_of (Some b) = Some y \<and> rel x y)"
  by (auto split: option.splits)

lemmas commit_iffs = commit_one commit_two create_writes_def put_key_write_def revoke_write_def
  debit_writes_def refund_writes_def credit_writes_def key_of_def attr_at_def item_or_key_def
  account_pkey_def key_pkey_def arith_set_Some_iff cmp_num_iff

lemma ledger_of_put_account:
  "distinct [adb_accounts S, adb_keys S, adb_receipts S] \<Longrightarrow>
   ledger_of S (put_at (adb_accounts S, [(ACCOUNT_ID, AvS a)]) (Some it) db)
     = (ledger_of S db)\<lparr> lg_balance := (lg_balance (ledger_of S db))(a := num_of (it BALANCE)) \<rparr>"
  by (auto simp: ledger_of_def put_at_def fun_eq_iff)

lemma ledger_of_put_key:
  "distinct [adb_accounts S, adb_keys S, adb_receipts S] \<Longrightarrow>
   ledger_of S (put_at (adb_keys S, [(SECRET_HASH, AvS h)]) (Some it) db)
     = (ledger_of S db)\<lparr> lg_key := (lg_key (ledger_of S db))(h := Some (ledger_key_of it)) \<rparr>"
  by (auto simp: ledger_of_def put_at_def fun_eq_iff)

lemma ledger_of_put_receipt:
  "distinct [adb_accounts S, adb_keys S, adb_receipts S] \<Longrightarrow>
   ledger_of S (put_at (adb_receipts S, [(NONCE, AvS n)]) (Some it) db)
     = (ledger_of S db)\<lparr> lg_receipt := (lg_receipt (ledger_of S db))(n := Some (receipt_of it)) \<rparr>"
  by (auto simp: ledger_of_def put_at_def fun_eq_iff)

lemma tables_ok_put:
  "tables_ok S db \<Longrightarrow> distinct [adb_accounts S, adb_keys S, adb_receipts S] \<Longrightarrow>
   (t = adb_accounts S \<Longrightarrow> account_shape k it) \<Longrightarrow> (t = adb_keys S \<Longrightarrow> key_shape k it) \<Longrightarrow>
   (t = adb_receipts S \<Longrightarrow> it NONCE \<noteq> None) \<Longrightarrow> tables_ok S (put_at (t, k) (Some it) db)"
  by (auto simp: tables_ok_def put_at_def)

lemmas ledger_put = ledger_of_put_account ledger_of_put_key ledger_of_put_receipt

lemma refine_create:
  assumes "commit schema (create_writes X S account key) db = Some db'"
    and "store_schema S schema" and "tables_ok S db" and "op_ok (OpCreate account key)" and "externals X"
  shows "op_spec X (OpCreate account key) (ledger_of S db) = Some (ledger_of S db') \<and> tables_ok S db'"
proof -
  let ?a = "account_id_to_hex X (acc_id account)" and ?h = "secret_hash_to_hex X (kr_secret_hash key)"
  have d: "distinct [adb_accounts S, adb_keys S, adb_receipts S]"
    using assms(2) by (simp add: store_schema_def)
  have db': "db' = put_at (adb_keys S, [(SECRET_HASH, AvS ?h)]) (Some (key_item X key))
       (put_at (adb_accounts S, [(ACCOUNT_ID, AvS ?a)]) (Some (account_item X account)) db)"
    and none: "attr_at (db (adb_accounts S) [(ACCOUNT_ID, AvS ?a)]) ACCOUNT_ID = None"
      "attr_at (db (adb_keys S) [(SECRET_HASH, AvS ?h)]) SECRET_HASH = None"
    using assms(1,2) by (auto simp: commit_iffs store_schema_def split: if_splits)
  have fresh: "db (adb_accounts S) [(ACCOUNT_ID, AvS ?a)] = None" "db (adb_keys S) [(SECRET_HASH, AvS ?h)] = None"
    using none assms(3)
    by (fastforce simp: attr_at_def tables_ok_def account_shape_def key_shape_def split: option.splits)+
  have k: "ledger_key_of (key_item X key) = new_ledger_key X key"
    "key_shape [(SECRET_HASH, AvS ?h)] (key_item X key)"
    "account_shape [(ACCOUNT_ID, AvS ?a)] (account_item X account)"
    using key_item_view [OF assms(5)] assms(4) by (auto simp: account_shape_def)
  have ok: "tables_ok S db'"
    unfolding db' using d k assms(3) by (intro tables_ok_put) auto
  show ?thesis
    using fresh ok unfolding db' ledger_put [OF d] k(1) by (simp add: ledger_of_def Let_def)
qed

lemma refine_put_key:
  assumes "commit schema [put_key_write X S key] db = Some db'"
    and "store_schema S schema" and "tables_ok S db" and "op_ok (OpPutKey key)" and "externals X"
  shows "op_spec X (OpPutKey key) (ledger_of S db) = Some (ledger_of S db') \<and> tables_ok S db'"
proof -
  let ?h = "secret_hash_to_hex X (kr_secret_hash key)"
  have d: "distinct [adb_accounts S, adb_keys S, adb_receipts S]"
    using assms(2) by (simp add: store_schema_def)
  have db': "db' = put_at (adb_keys S, [(SECRET_HASH, AvS ?h)]) (Some (key_item X key)) db"
    and none: "attr_at (db (adb_keys S) [(SECRET_HASH, AvS ?h)]) SECRET_HASH = None"
    using assms(1,2) by (auto simp: commit_iffs store_schema_def split: if_splits)
  have fresh: "db (adb_keys S) [(SECRET_HASH, AvS ?h)] = None"
    using none assms(3) by (fastforce simp: attr_at_def tables_ok_def key_shape_def split: option.splits)
  have k: "ledger_key_of (key_item X key) = new_ledger_key X key"
    "key_shape [(SECRET_HASH, AvS ?h)] (key_item X key)"
    using key_item_view [OF assms(5)] assms(4) by auto
  have ok: "tables_ok S db'" unfolding db' using d k assms(3) by (intro tables_ok_put) auto
  show ?thesis using fresh ok unfolding db' ledger_put [OF d] k(1) by (simp add: ledger_of_def Let_def)
qed

text \<open>What the ledger sees of an item that is there.\<close>

lemma ledger_of_sel:
  "db (adb_accounts S) [(ACCOUNT_ID, AvS a)] = Some it \<Longrightarrow> lg_balance (ledger_of S db) a = num_of (it BALANCE)"
  "db (adb_accounts S) [(ACCOUNT_ID, AvS a)] = None \<Longrightarrow> lg_balance (ledger_of S db) a = None"
  "lg_key (ledger_of S db) h = map_option ledger_key_of (db (adb_keys S) [(SECRET_HASH, AvS h)])"
  "lg_receipt (ledger_of S db) n = map_option receipt_of (db (adb_receipts S) [(NONCE, AvS n)])"
  by (simp_all add: ledger_of_def)

lemma refine_revoke:
  assumes "commit schema [revoke_write X S a h] db = Some db'"
    and "store_schema S schema" and "tables_ok S db"
  shows "op_spec X (OpRevoke a h) (ledger_of S db) = Some (ledger_of S db') \<and> tables_ok S db'"
proof -
  have d: "distinct [adb_accounts S, adb_keys S, adb_receipts S]"
    using assms(2) by (simp add: store_schema_def)
  obtain it where it: "db (adb_keys S) [(SECRET_HASH, AvS h)] = Some it"
    "it ACCOUNT_ID = Some (AvS (account_id_to_hex X a))"
    "db' = put_at (adb_keys S, [(SECRET_HASH, AvS h)]) (Some (it(REVOKED \<mapsto> AvBool True))) db"
    using assms(1) by (auto simp: commit_iffs split: if_splits option.splits)
  have "key_shape [(SECRET_HASH, AvS h)] it" using it(1) assms(3) by (auto simp: tables_ok_def)
  then have "key_shape [(SECRET_HASH, AvS h)] (it(REVOKED \<mapsto> AvBool True))" by (auto simp: key_shape_def)
  then have ok: "tables_ok S db'" unfolding it(3) using d assms(3) by (intro tables_ok_put) auto
  have k: "ledger_key_of (it(REVOKED \<mapsto> AvBool True)) = (ledger_key_of it)\<lparr> lk_revoked := True \<rparr>"
    "lk_owner (ledger_key_of it) = account_id_to_hex X a"
    using it(2) by (simp_all add: ledger_key_of_def)
  show ?thesis using it(1) ok unfolding it(3) ledger_put [OF d] k(1) by (simp add: ledger_of_sel k)
qed

lemma refine_debit:
  assumes "commit schema (debit_writes X S h a cost capped) db = Some db'"
    and "store_schema S schema" and "tables_ok S db"
  shows "op_spec X (OpDebit h a cost capped) (ledger_of S db) = Some (ledger_of S db') \<and> tables_ok S db'"
proof -
  let ?a = "account_id_to_hex X a" and ?h = "secret_hash_to_hex X h"
  have d: "distinct [adb_accounts S, adb_keys S, adb_receipts S]"
    using assms(2) by (simp add: store_schema_def)
  obtain ia b where ia: "db (adb_accounts S) [(ACCOUNT_ID, AvS ?a)] = Some ia"
      "num_of (ia BALANCE) = Some b" "uint cost \<le> b"
    and r: "\<exists>ik ik'. db (adb_keys S) [(SECRET_HASH, AvS ?h)] = Some ik
      \<and> ik REVOKED = Some (AvBool False) \<and> ik CAPPED = Some (AvBool capped)
      \<and> (capped \<longrightarrow> (\<exists>c. num_of (ik CAP_REMAINING) = Some c \<and> uint cost \<le> c
             \<and> ik' = ik(CAP_REMAINING \<mapsto> AvN (show_int (c - uint cost)))))
      \<and> (\<not> capped \<longrightarrow> ik' = ik(REVOKED \<mapsto> AvBool False))
      \<and> db' = put_at (adb_keys S, [(SECRET_HASH, AvS ?h)]) (Some ik')
           (put_at (adb_accounts S, [(ACCOUNT_ID, AvS ?a)]) (Some (ia(BALANCE \<mapsto> AvN (show_int (b - uint cost))))) db)"
    using assms(1) by (auto simp: commit_iffs split: if_splits option.splits)
  obtain ik ik' where ik: "db (adb_keys S) [(SECRET_HASH, AvS ?h)] = Some ik"
      "ik REVOKED = Some (AvBool False)" "ik CAPPED = Some (AvBool capped)"
      "capped \<longrightarrow> (\<exists>c. num_of (ik CAP_REMAINING) = Some c \<and> uint cost \<le> c
             \<and> ik' = ik(CAP_REMAINING \<mapsto> AvN (show_int (c - uint cost))))"
      "\<not> capped \<longrightarrow> ik' = ik(REVOKED \<mapsto> AvBool False)"
    and db': "db' = put_at (adb_keys S, [(SECRET_HASH, AvS ?h)]) (Some ik')
           (put_at (adb_accounts S, [(ACCOUNT_ID, AvS ?a)]) (Some (ia(BALANCE \<mapsto> AvN (show_int (b - uint cost))))) db)"
    using r by blast
  have shape: "account_shape [(ACCOUNT_ID, AvS ?a)] ia" "key_shape [(SECRET_HASH, AvS ?h)] ik" using ia(1) ik(1) assms(3) by (auto simp: tables_ok_def)
  have shape': "account_shape [(ACCOUNT_ID, AvS ?a)] (ia(BALANCE \<mapsto> AvN (show_int (b - uint cost))))"
    "key_shape [(SECRET_HASH, AvS ?h)] ik'"
    using shape ik(2-5) by (auto simp: account_shape_def key_shape_def)
  have ok: "tables_ok S db'" unfolding db' using d shape' assms(3) by (intro tables_ok_put) auto
  have k: "ledger_key_of ik' = (ledger_key_of ik)\<lparr> lk_cap := map_option (\<lambda>c. c - uint cost) (lk_cap (ledger_key_of ik)) \<rparr>"
    "\<not> lk_revoked (ledger_key_of ik)"
    "case lk_cap (ledger_key_of ik) of None \<Rightarrow> \<not> capped | Some c \<Rightarrow> capped \<and> uint cost \<le> c"
    using ik(2-5) by (cases capped; auto simp: ledger_key_of_def)+
  show ?thesis
    using ia ik(1) ok k(2,3) unfolding db' ledger_put [OF d] k(1)
    by (simp add: ledger_of_sel Let_def)
qed

lemma refine_refund:
  assumes "commit schema (refund_writes X S rc) db = Some db'"
    and "store_schema S schema" and "tables_ok S db"
  shows "op_spec X (OpRefund rc) (ledger_of S db) = Some (ledger_of S db') \<and> tables_ok S db'"
proof -
  let ?a = "account_id_to_hex X (dr_account_id rc)" and ?h = "secret_hash_to_hex X (dr_secret_hash rc)"
  let ?ia' = "\<lambda>ia b. ia(BALANCE \<mapsto> AvN (show_int (b + uint (dr_cost rc))))"
  have d: "distinct [adb_accounts S, adb_keys S, adb_receipts S]"
    using assms(2) by (simp add: store_schema_def)
  have "\<exists>ia. db (adb_accounts S) [(ACCOUNT_ID, AvS ?a)] = Some ia"
    using assms(1) by (auto simp: commit_iffs Let_def split: if_splits option.splits)
  then obtain ia where ia: "db (adb_accounts S) [(ACCOUNT_ID, AvS ?a)] = Some ia" ..
  with assms(3) have sh: "account_shape [(ACCOUNT_ID, AvS ?a)] ia" by (auto simp: tables_ok_def)
  then obtain b where b: "num_of (ia BALANCE) = Some b" by (auto simp: account_shape_def)
  let ?db1 = "put_at (adb_accounts S, [(ACCOUNT_ID, AvS ?a)]) (Some (?ia' ia b)) db"
  have "account_shape [(ACCOUNT_ID, AvS ?a)] (?ia' ia b)" using sh by (auto simp: account_shape_def)
  then have ok1: "tables_ok S ?db1" using d assms(3) by (intro tables_ok_put) auto
  show ?thesis
  proof (cases "dr_capped rc")
    case False
    then have "db' = ?db1"
      using assms(1) ia b by (auto simp: commit_iffs Let_def split: if_splits)
    then show ?thesis using ia b ok1 False ledger_put [OF d] by (simp add: ledger_of_sel Let_def)
  next
    case True
    then obtain ik where ik: "db (adb_keys S) [(SECRET_HASH, AvS ?h)] = Some ik" "ik CAPPED = Some (AvBool True)"
      using assms(1) by (auto simp: commit_iffs Let_def split: if_splits option.splits)
    with assms(3) have shk: "key_shape [(SECRET_HASH, AvS ?h)] ik" by (auto simp: tables_ok_def)
    then obtain c where c: "num_of (ik CAP_REMAINING) = Some c" using ik by (auto simp: key_shape_def)
    let ?ik' = "ik(CAP_REMAINING \<mapsto> AvN (show_int (c + uint (dr_cost rc))))"
    have db': "db' = put_at (adb_keys S, [(SECRET_HASH, AvS ?h)]) (Some ?ik') ?db1"
      using assms(1) ia b ik c True by (auto simp: commit_iffs Let_def split: if_splits)
    have "key_shape [(SECRET_HASH, AvS ?h)] ?ik'" using shk by (auto simp: key_shape_def)
    with d have ok: "tables_ok S db'" unfolding db' by - (rule tables_ok_put [OF ok1 d], auto)
    have k: "ledger_key_of ?ik' = (ledger_key_of ik)\<lparr> lk_cap := Some (c + uint (dr_cost rc)) \<rparr>"
      "lk_cap (ledger_key_of ik) = Some c"
      using ik(2) c by (simp_all add: ledger_key_of_def)
    show ?thesis
      using ia b ik(1) ok k(2) True unfolding db' ledger_put [OF d] k(1)
      by (simp add: ledger_of_sel Let_def)
  qed
qed

lemma refine_credit:
  assumes "commit schema (credit_writes X S a v nn) db = Some db'"
    and "store_schema S schema" and "tables_ok S db"
  shows "op_spec X (OpCredit a v nn) (ledger_of S db) = Some (ledger_of S db') \<and> tables_ok S db'"
proof -
  let ?a = "account_id_to_hex X a"
  have d: "distinct [adb_accounts S, adb_keys S, adb_receipts S]" and sc: "schema (adb_receipts S) = [NONCE]"
    using assms(2) by (simp_all add: store_schema_def)
  obtain ia b where ia: "db (adb_accounts S) [(ACCOUNT_ID, AvS ?a)] = Some ia" "num_of (ia BALANCE) = Some b"
    and none: "attr_at (db (adb_receipts S) [(NONCE, AvS nn)]) NONCE = None"
    and db': "db' = put_at (adb_receipts S, [(NONCE, AvS nn)]) (Some (receipt_item X a v nn))
       (put_at (adb_accounts S, [(ACCOUNT_ID, AvS ?a)]) (Some (ia(BALANCE \<mapsto> AvN (show_int (b + uint v))))) db)"
    using assms(1) sc by (auto simp: commit_iffs split: if_splits option.splits)
  have fresh: "db (adb_receipts S) [(NONCE, AvS nn)] = None"
    using none assms(3) by (fastforce simp: attr_at_def tables_ok_def split: option.splits)
  have "account_shape [(ACCOUNT_ID, AvS ?a)] ia" using ia(1) assms(3) by (auto simp: tables_ok_def)
  then have "account_shape [(ACCOUNT_ID, AvS ?a)] (ia(BALANCE \<mapsto> AvN (show_int (b + uint v))))"
    by (auto simp: account_shape_def)
  then have ok: "tables_ok S db'" unfolding db' using d assms(3) by (intro tables_ok_put) auto
  show ?thesis
    using ia fresh ok unfolding db' ledger_put [OF d] receipt_item_view
    by (simp add: ledger_of_sel Let_def)
qed

theorem store_refines:
  assumes "commit schema (op_writes X S op) db = Some db'"
    and "store_schema S schema" and "tables_ok S db" and "op_ok op" and "externals X"
  shows "op_spec X op (ledger_of S db) = Some (ledger_of S db') \<and> tables_ok S db'"
  using assms refine_create refine_put_key refine_revoke refine_debit refine_refund refine_credit
  by (cases op) (simp_all del: op_spec.simps op_ok.simps)

section \<open>Histories\<close>

text \<open>
  A history of the tables: the transactions that concurrent callers committed, in commit
  order, with what each was for.
\<close>

inductive ledger_steps ::
  "ext \<Rightarrow> 'w account_db \<Rightarrow> (string \<Rightarrow> string list) \<Rightarrow> tables \<Rightarrow> ledger_op list \<Rightarrow> tables \<Rightarrow> bool"
  for X :: ext and S :: "'w account_db" and schema :: "string \<Rightarrow> string list" where
  no_step: "ledger_steps X S schema db [] db"
| one_step: "\<lbrakk> op_ok op; commit schema (op_writes X S op) db = Some db1; ledger_steps X S schema db1 ops db2 \<rbrakk>
    \<Longrightarrow> ledger_steps X S schema db (op # ops) db2"

inductive_cases ledger_steps_NilE: "ledger_steps X S schema db [] db'"
inductive_cases ledger_steps_ConsE: "ledger_steps X S schema db (op # ops) db'"

fun ledger_run :: "ext \<Rightarrow> ledger_op list \<Rightarrow> ledger \<Rightarrow> ledger option" where
  "ledger_run X [] L = Some L"
| "ledger_run X (op # ops) L = (case op_spec X op L of None \<Rightarrow> None | Some L' \<Rightarrow> ledger_run X ops L')"

lemma ledger_steps_run:
  "ledger_steps X S schema db ops db' \<Longrightarrow> externals X \<Longrightarrow> store_schema S schema \<Longrightarrow> tables_ok S db \<Longrightarrow>
     ledger_run X ops (ledger_of S db) = Some (ledger_of S db') \<and> tables_ok S db'"
proof (induction rule: ledger_steps.induct)
  case (one_step op db db1 ops db2)
  with store_refines [of schema X S op db db1] show ?case by simp
qed simp

text \<open>What a history adds to the balance of the account with hex id \<open>a\<close>, kind by kind.\<close>

fun credited :: "ext \<Rightarrow> string \<Rightarrow> ledger_op \<Rightarrow> int" where
  "credited X a (OpCredit acct v nn) = (if account_id_to_hex X acct = a then uint v else 0)"
| "credited X a (OpCreate acc k) = (if account_id_to_hex X (acc_id acc) = a then uint (acc_balance acc) else 0)"
| "credited X a _ = 0"

fun debited :: "ext \<Rightarrow> string \<Rightarrow> ledger_op \<Rightarrow> int" where
  "debited X a (OpDebit h acct cost capped) = (if account_id_to_hex X acct = a then uint cost else 0)"
| "debited X a _ = 0"

fun refunded :: "ext \<Rightarrow> string \<Rightarrow> ledger_op \<Rightarrow> int" where
  "refunded X a (OpRefund rc) = (if account_id_to_hex X (dr_account_id rc) = a then uint (dr_cost rc) else 0)"
| "refunded X a _ = 0"

fun op_nonce :: "ledger_op \<Rightarrow> string option" where
  "op_nonce (OpCredit a v nn) = Some nn"
| "op_nonce _ = None"

definition credit_nonces :: "ledger_op list \<Rightarrow> string list" where
  "credit_nonces ops = map the (filter (\<lambda>n. n \<noteq> None) (map op_nonce ops))"

definition total :: "(ledger_op \<Rightarrow> int) \<Rightarrow> ledger_op list \<Rightarrow> int" where
  "total f ops = sum_list (map f ops)"

definition balance_or_0 :: "ledger \<Rightarrow> string \<Rightarrow> int" where
  "balance_or_0 L a = (case lg_balance L a of None \<Rightarrow> 0 | Some b \<Rightarrow> b)"

lemma total_simps [simp]: "total f [] = 0" "total f (op # ops) = f op + total f ops"
  by (simp_all add: total_def)

lemma credit_nonces_simps [simp]:
  "credit_nonces [] = []"
  "credit_nonces (op # ops) = (case op_nonce op of None \<Rightarrow> credit_nonces ops | Some n \<Rightarrow> n # credit_nonces ops)"
  by (simp_all add: credit_nonces_def split: option.splits)

lemma op_spec_balance:
  "op_spec X op L = Some L' \<Longrightarrow>
     balance_or_0 L' a = balance_or_0 L a + credited X a op - debited X a op + refunded X a op"
  by (cases op) (auto simp: balance_or_0_def Let_def split: if_splits option.splits)

lemma ledger_run_balance:
  "ledger_run X ops L = Some L' \<Longrightarrow>
     balance_or_0 L' a = balance_or_0 L a + total (credited X a) ops - total (debited X a) ops
                         + total (refunded X a) ops"
  by (induction ops arbitrary: L) (auto split: option.splits dest: op_spec_balance [of X _ _ _ a])

definition solvent :: "ledger \<Rightarrow> bool" where
  "solvent L \<longleftrightarrow>
     (\<forall>a b. lg_balance L a = Some b \<longrightarrow> 0 \<le> b) \<and> (\<forall>h k c. lg_key L h = Some k \<and> lk_cap k = Some c \<longrightarrow> 0 \<le> c)"

lemma op_spec_solvent: "op_spec X op L = Some L' \<Longrightarrow> solvent L \<Longrightarrow> solvent L'"
  by (cases op)
    (fastforce simp: solvent_def new_ledger_key_def Let_def split: if_splits option.splits)+

lemma ledger_run_solvent: "ledger_run X ops L = Some L' \<Longrightarrow> solvent L \<Longrightarrow> solvent L'"
  by (induction ops arbitrary: L) (auto split: option.splits dest: op_spec_solvent)

lemma op_spec_receipts:
  "op_spec X op L = Some L' \<Longrightarrow>
     dom (lg_receipt L') = dom (lg_receipt L) \<union> set_option (op_nonce op)
     \<and> set_option (op_nonce op) \<inter> dom (lg_receipt L) = {}"
  by (cases op) (auto simp: Let_def split: if_splits option.splits)

lemma ledger_run_nonces:
  "ledger_run X ops L = Some L' \<Longrightarrow>
     distinct (credit_nonces ops) \<and> set (credit_nonces ops) \<inter> dom (lg_receipt L) = {}
     \<and> dom (lg_receipt L') = dom (lg_receipt L) \<union> set (credit_nonces ops)"
proof (induction ops arbitrary: L)
  case (Cons op ops)
  then obtain L1 where L1: "op_spec X op L = Some L1" "ledger_run X ops L1 = Some L'"
    by (auto split: option.splits)
  show ?case using Cons.IH [OF L1(2)] op_spec_receipts [OF L1(1)] by (cases "op_nonce op") auto
qed simp

text \<open>A revoked key stays revoked and is never debited again.\<close>

definition revoked_at :: "string \<Rightarrow> ledger \<Rightarrow> bool" where
  "revoked_at h L \<longleftrightarrow> (\<exists>k. lg_key L h = Some k \<and> lk_revoked k)"

fun debits_key :: "ext \<Rightarrow> string \<Rightarrow> ledger_op \<Rightarrow> bool" where
  "debits_key X h (OpDebit hash a cost capped) = (secret_hash_to_hex X hash = h)"
| "debits_key X h _ = False"

lemma op_spec_revoked:
  "op_spec X op L = Some L' \<Longrightarrow> revoked_at h L \<Longrightarrow> revoked_at h L' \<and> \<not> debits_key X h op"
  by (cases op) (auto simp: revoked_at_def Let_def split: if_splits option.splits)

lemma ledger_run_revoked:
  "ledger_run X ops L = Some L' \<Longrightarrow> revoked_at h L \<Longrightarrow>
     revoked_at h L' \<and> (\<forall>op \<in> set ops. \<not> debits_key X h op)"
  by (induction ops arbitrary: L) (auto split: option.splits dest: op_spec_revoked [of X _ _ _ h])

text \<open>The owner of a key never changes.\<close>

lemma op_spec_owner:
  "op_spec X op L = Some L' \<Longrightarrow> lg_key L h = Some k \<Longrightarrow>
     \<exists>k'. lg_key L' h = Some k' \<and> lk_owner k' = lk_owner k \<and> (lk_cap k' = None \<longleftrightarrow> lk_cap k = None)"
  by (cases op) (auto simp: Let_def split: if_splits option.splits)

text \<open>\<open>once\<close>: the ledger is as it was, or the one operation was applied.\<close>

definition once :: "ext \<Rightarrow> ledger_op \<Rightarrow> ledger \<Rightarrow> ledger \<Rightarrow> bool" where
  "once X op L L' \<longleftrightarrow> L' = L \<or> op_spec X op L = Some L'"

lemma once_stop: "nn \<in> dom (lg_receipt L) \<Longrightarrow> op_spec X (OpCredit a v nn) L = None"
  by (auto simp: Let_def split: option.splits)

lemma once_receipt: "op_spec X (OpCredit a v nn) L = Some L' \<Longrightarrow> nn \<in> dom (lg_receipt L')"
  using op_spec_receipts [of X "OpCredit a v nn" L L'] by simp

lemma once_trans:
  "once X (OpCredit a v nn) L L1 \<Longrightarrow> once X (OpCredit a v nn) L1 L2 \<Longrightarrow> once X (OpCredit a v nn) L L2"
  unfolding once_def using once_stop once_receipt by (metis option.distinct(1))

text \<open>From here on the specification is used through these lemmas.\<close>

declare op_spec.simps [simp del]

end
