(* ===== verification/Account_Ledger.thy ===== *)
theory Account_Ledger
  imports Ledger
begin

text \<open>
  The contract of the port \<open>AccountStore\<close> (\<open>crates/application/src/ports/account_store.rs\<close>)
  as the locale \<open>account_ledger\<close>, and the proof that the DynamoDB store meets it on a service
  with eventually consistent reads, lost requests and lost replies. The use cases are proved
  against the locale.
\<close>

section \<open>The contract\<close>

locale account_ledger =
  fixes X :: ext and st :: "'w account_store" and led :: "'w \<Rightarrow> ledger" and inv :: "'w \<Rightarrow> bool"
  assumes key_by_hash_reads: "inv w \<Longrightarrow> st_key_by_hash st h w = (r, w') \<Longrightarrow> led w' = led w \<and> inv w'"
    and account_reads: "inv w \<Longrightarrow> st_account st a w = (r2, w') \<Longrightarrow> led w' = led w \<and> inv w'"
    and list_keys_reads: "inv w \<Longrightarrow> st_list_keys st a w = (r3, w') \<Longrightarrow> led w' = led w \<and> inv w'"
    and credited_balance_reads:
      "inv w \<Longrightarrow> st_credited_balance st a nn w = (r4, w') \<Longrightarrow>
         led w' = led w \<and> inv w' \<and> (\<forall>b. r4 = Inr (Some b) \<longrightarrow> nn \<in> dom (lg_receipt (led w)))"
    and key_by_hash_owner:
      "inv w \<Longrightarrow> st_key_by_hash st h w = (Inr (Some k), w') \<Longrightarrow>
         \<exists>lk. lg_key (led w) (secret_hash_to_hex X h) = Some lk
              \<and> lk_owner lk = account_id_to_hex X (kr_account_id k) \<and> (lk_cap lk = None \<longleftrightarrow> \<not> kr_capped k)"
    and account_same: "inv w \<Longrightarrow> st_account st a w = (Inr (Some acc), w') \<Longrightarrow> acc_id acc = a"
    and create_law:
      "inv w \<Longrightarrow> op_ok (OpCreate acc k) \<Longrightarrow> st_create st acc k w = (r5, w') \<Longrightarrow>
         inv w' \<and> once X (OpCreate acc k) (led w) (led w')
         \<and> (r5 = Inr () \<longrightarrow> op_spec X (OpCreate acc k) (led w) = Some (led w'))"
    and put_key_law:
      "inv w \<Longrightarrow> op_ok (OpPutKey k) \<Longrightarrow> st_put_key st k w = (r5, w') \<Longrightarrow>
         inv w' \<and> once X (OpPutKey k) (led w) (led w')
         \<and> (r5 = Inr () \<longrightarrow> op_spec X (OpPutKey k) (led w) = Some (led w'))"
    and revoke_law:
      "inv w \<Longrightarrow> st_revoke st a kid w = (r5, w') \<Longrightarrow>
         inv w' \<and> (led w' = led w \<or> (\<exists>h. op_spec X (OpRevoke a h) (led w) = Some (led w')))
         \<and> (r5 = Inr () \<longrightarrow> (\<exists>h. op_spec X (OpRevoke a h) (led w) = Some (led w')))"
    and debit_law:
      "inv w \<Longrightarrow> st_debit st h cost w = (r6, w') \<Longrightarrow>
         inv w' \<and>
         (case r6 of
            Inr rc \<Rightarrow> cost \<noteq> 0 \<and> dr_secret_hash rc = h \<and> dr_cost rc = cost
              \<and> op_spec X (OpDebit h (dr_account_id rc) cost (dr_capped rc)) (led w) = Some (led w')
              \<and> (\<exists>lk. lg_key (led w) (secret_hash_to_hex X h) = Some lk
                      \<and> lk_owner lk = account_id_to_hex X (dr_account_id rc))
          | Inl e \<Rightarrow> led w' = led w
              \<or> (\<exists>a c s. e = StoreStorage s \<and> op_spec X (OpDebit h a cost c) (led w) = Some (led w')))"
    and refund_law:
      "inv w \<Longrightarrow> st_refund st rc w = (r5, w') \<Longrightarrow>
         inv w' \<and> once X (OpRefund rc) (led w) (led w')
         \<and> (r5 = Inr () \<longrightarrow> op_spec X (OpRefund rc) (led w) = Some (led w'))"
    and credit_law:
      "inv w \<Longrightarrow> st_credit st a v nn w = (r7, w') \<Longrightarrow>
         inv w' \<and> once X (OpCredit a v nn) (led w) (led w')
         \<and> (\<forall>b. r7 = Inr (Applied b) \<longrightarrow> op_spec X (OpCredit a v nn) (led w) = Some (led w'))
         \<and> (\<forall>b. r7 = Inr (Replay b) \<longrightarrow> led w' = led w \<and> nn \<in> dom (lg_receipt (led w)))"

section \<open>The DynamoDB store: what each method does to the tables\<close>

text \<open>
  The invariant: the committed tables have the store's shape, and what is permanent in a past
  state (receipts, owners of keys, whether a key is capped) is still there now.
\<close>

definition ledger_older :: "'w account_db \<Rightarrow> tables \<Rightarrow> tables \<Rightarrow> bool" where
  "ledger_older S old db \<longleftrightarrow>
     tables_ok S old \<and> dom (lg_receipt (ledger_of S old)) \<subseteq> dom (lg_receipt (ledger_of S db))
     \<and> (\<forall>h k. lg_key (ledger_of S old) h = Some k \<longrightarrow>
          (\<exists>k'. lg_key (ledger_of S db) h = Some k' \<and> lk_owner k' = lk_owner k
                \<and> (lk_cap k' = None \<longleftrightarrow> lk_cap k = None)))"

definition store_invariant ::
  "'w account_db \<Rightarrow> ('w \<Rightarrow> tables) \<Rightarrow> ('w \<Rightarrow> tables list) \<Rightarrow> 'w \<Rightarrow> bool" where
  "store_invariant S view hist w \<longleftrightarrow> (\<forall>old \<in> set (hist w). ledger_older S old (view w))"

locale dynamo_store =
  ddb: ddb_eventual "adb_client S" view schema hist + ext: externals X
  for S :: "'w account_db" and view schema hist and X +
  assumes schema_ok: "store_schema S schema"
begin

abbreviation older :: "tables \<Rightarrow> tables \<Rightarrow> bool" where
  "older \<equiv> ledger_older S"

abbreviation store_inv :: "'w \<Rightarrow> bool" where
  "store_inv \<equiv> store_invariant S view hist"

lemmas older_def = ledger_older_def [of S]
lemmas store_inv_def = store_invariant_def [of S view hist]

abbreviation led :: "'w \<Rightarrow> ledger" where
  "led w \<equiv> ledger_of S (view w)"

lemma store_inv_tables: "store_inv w \<Longrightarrow> tables_ok S (view w)"
  using ddb.view_in_hist by (auto simp: store_inv_def older_def)

lemma older_step:
  assumes "older old db" and "op_spec X op (ledger_of S db) = Some (ledger_of S db')"
  shows "older old db'"
  unfolding older_def
proof (intro conjI allI impI)
  show "tables_ok S old" using assms(1) by (simp add: older_def)
  show "dom (lg_receipt (ledger_of S old)) \<subseteq> dom (lg_receipt (ledger_of S db'))"
    using assms(1) op_spec_receipts [OF assms(2)] by (auto simp: older_def)
  fix h k assume "lg_key (ledger_of S old) h = Some k"
  then obtain k1 where "lg_key (ledger_of S db) h = Some k1" "lk_owner k1 = lk_owner k"
    "lk_cap k1 = None \<longleftrightarrow> lk_cap k = None" using assms(1) unfolding older_def by metis
  with op_spec_owner [OF assms(2), of h k1]
  show "\<exists>k'. lg_key (ledger_of S db') h = Some k' \<and> lk_owner k' = lk_owner k
             \<and> (lk_cap k' = None \<longleftrightarrow> lk_cap k = None)" by auto
qed

lemma older_refl: "tables_ok S db \<Longrightarrow> older db db"
  by (simp add: older_def)

text \<open>A call that left the tables alone, or committed one operation, keeps the invariant.\<close>

lemma inv_same:
  assumes "store_inv w" and "view w' = view w" and "set (hist w') \<subseteq> insert (view w') (set (hist w))"
  shows "store_inv w'"
  using assms older_refl [OF store_inv_tables] by (auto simp: store_inv_def)

lemma inv_commit:
  assumes "store_inv w" and "commit schema (op_writes X S op) (view w) = Some (view w')"
    and "op_ok op" and "set (hist w') \<subseteq> insert (view w') (set (hist w))"
  shows "store_inv w' \<and> op_spec X op (led w) = Some (led w')"
proof -
  have ref: "op_spec X op (led w) = Some (led w')" "tables_ok S (view w')"
    using store_refines [OF assms(2) schema_ok store_inv_tables [OF assms(1)] assms(3) ext.externals_axioms]
    by auto
  have "older old (view w')" if "old \<in> set (hist w')" for old
    using that assms(1,4) older_step [OF _ ref(1)] older_refl [OF ref(2)] by (auto simp: store_inv_def)
  then show ?thesis using ref by (auto simp: store_inv_def)
qed

lemma inv_outcome:
  assumes "store_inv w" and "write_outcome schema (op_writes X S op) r (view w) (view w')"
    and "op_ok op" and "set (hist w') \<subseteq> insert (view w') (set (hist w))"
  shows "store_inv w' \<and> once X op (led w) (led w') \<and> (r = Inr () \<longrightarrow> op_spec X op (led w) = Some (led w'))
     \<and> (\<forall>s. r = Inl (TransactionCanceled s) \<longrightarrow> led w' = led w)"
proof -
  have same: "view w' = view w \<Longrightarrow> store_inv w'" using inv_same [OF assms(1) _ assms(4)] .
  have com: "commit schema (op_writes X S op) (view w) = Some (view w') \<Longrightarrow>
      store_inv w' \<and> op_spec X op (led w) = Some (led w')"
    using inv_commit [OF assms(1) _ assms(3,4)] .
  show ?thesis
  proof (cases r)
    case (Inl e)
    with assms(2) same com show ?thesis by (cases e) (auto simp: once_def write_outcome_def)
  next
    case (Inr u)
    with assms(2) com show ?thesis by (auto simp: once_def write_outcome_def)
  qed
qed

section \<open>Reads\<close>

lemma reads_keep:
  assumes "keeps view m" and "keeps hist m" and "store_inv w" and "m w = (r, w')"
  shows "led w' = led w \<and> store_inv w' \<and> view w' = view w \<and> hist w' = hist w"
  using assms keepsD [OF assms(1,4)] keepsD [OF assms(2,4)] by (auto simp: store_inv_def)

lemma get_keeps2: "keeps view (ddb_get (adb_client S) t k)" "keeps hist (ddb_get (adb_client S) t k)"
  by (simp_all add: ddb.get_keeps ddb.get_hist)

lemma key_by_hash_keeps: "keeps view (store_key_by_hash X S h)" "keeps hist (store_key_by_hash X S h)"
  unfolding store_key_by_hash_def
  by (auto intro!: keeps_bind keeps_map_err get_keeps2 split: option.split)

lemma account_keeps: "keeps view (store_account X S a)" "keeps hist (store_account X S a)"
  unfolding store_account_def
  by (auto intro!: keeps_bind keeps_map_err get_keeps2 split: option.split)

lemma balance_of_keeps: "keeps view (store_balance_of X S a)" "keeps hist (store_balance_of X S a)"
  unfolding store_balance_of_def by (auto intro!: keeps_bind account_keeps)

lemma receipt_exists_keeps: "keeps view (store_receipt_exists S nn)" "keeps hist (store_receipt_exists S nn)"
  unfolding store_receipt_exists_def by (auto intro!: keeps_bind keeps_map_err get_keeps2)

lemma credited_balance_keeps:
  "keeps view (store_credited_balance X S a nn)" "keeps hist (store_credited_balance X S a nn)"
  unfolding store_credited_balance_def
  by (auto intro!: keeps_bind receipt_exists_keeps balance_of_keeps)

lemma list_keys_keeps: "keeps view (store_list_keys X S a)" "keeps hist (store_list_keys X S a)"
  unfolding store_list_keys_def
  by (auto intro!: keeps_bind keeps_map_err ddb.query_keeps ddb.query_hist)

lemma find_hash_keeps: "keeps view (find_hash X S a k)" "keeps hist (find_hash X S a k)"
  unfolding find_hash_def
  by (auto intro!: keeps_bind keeps_map_err ddb.query_keeps ddb.query_hist)

lemma receipt_exists_past:
  assumes "store_inv w" and "store_receipt_exists S nn w = (Inr True, w')"
  shows "nn \<in> dom (lg_receipt (led w))"
proof -
  obtain it w1 where "ddb_get (adb_client S) (adb_receipts S) [(NONCE, AvS nn)] w = (Inr (Some it), w1)"
    using assms(2) by (auto simp: store_receipt_exists_def bind_io_Inr_iff map_err_io_iff)
  then obtain old where "old \<in> set (hist w)" "old (adb_receipts S) [(NONCE, AvS nn)] = Some it"
    using ddb.get_past by blast
  then have "older old (view w)" "nn \<in> dom (lg_receipt (ledger_of S old))"
    using assms(1) by (auto simp: store_inv_def ledger_of_sel)
  then show ?thesis by (auto simp: older_def)
qed

lemma key_by_hash_past:
  assumes "store_inv w" and "store_key_by_hash X S h w = (Inr (Some k), w')"
  shows "\<exists>lk. lg_key (led w) (secret_hash_to_hex X h) = Some lk
              \<and> lk_owner lk = account_id_to_hex X (kr_account_id k) \<and> (lk_cap lk = None \<longleftrightarrow> \<not> kr_capped k)"
proof -
  obtain it w1 where it: "ddb_get (adb_client S) (adb_keys S) (key_pkey X h) w = (Inr (Some it), w1)"
    "key_from_item X it = Inr k"
    using assms(2) by (auto simp: store_key_by_hash_def bind_io_Inr_iff map_err_io_iff split: option.splits)
  then obtain old where old: "old \<in> set (hist w)"
    "old (adb_keys S) [(SECRET_HASH, AvS (secret_hash_to_hex X h))] = Some it"
    using ddb.get_past by (fastforce simp: key_pkey_def)
  then have o: "older old (view w)" using assms(1) by (auto simp: store_inv_def)
  then have sh: "key_shape [(SECRET_HASH, AvS (secret_hash_to_hex X h))] it"
    using old(2) by (auto simp: older_def tables_ok_def)
  obtain s where s: "it ACCOUNT_ID = Some (AvS s)" "account_id_from_hex X s = Inr (kr_account_id k)"
    and capped: "it CAPPED = Some (AvBool (kr_capped k))"
    using it(2) by (auto simp: key_from_item_def bind_r_Inr_iff attr_s_def attr_bool_def Let_def
        split: option.splits attr.splits)
  have "account_id_to_hex X (kr_account_id k) = s"
    using ext.id_from_hex_ok(1) [OF s(2)] sh s(1) by (auto simp: key_shape_def)
  then have "lk_owner (ledger_key_of it) = account_id_to_hex X (kr_account_id k)"
    "lk_cap (ledger_key_of it) = None \<longleftrightarrow> \<not> kr_capped k"
    using s(1) capped sh by (auto simp: ledger_key_of_def key_shape_def)
  moreover have "lg_key (ledger_of S old) (secret_hash_to_hex X h) = Some (ledger_key_of it)"
    using old(2) by (simp add: ledger_of_sel)
  ultimately show ?thesis using o unfolding older_def by metis
qed

lemma account_past:
  assumes "store_inv w" and "store_account X S a w = (Inr (Some acc), w')"
  shows "acc_id acc = a"
proof -
  obtain it w1 where it: "ddb_get (adb_client S) (adb_accounts S) (account_pkey X a) w = (Inr (Some it), w1)"
    "account_from_item X it = Inr acc"
    using assms(2) by (auto simp: store_account_def bind_io_Inr_iff map_err_io_iff split: option.splits)
  then obtain old where old: "old \<in> set (hist w)"
    "old (adb_accounts S) [(ACCOUNT_ID, AvS (account_id_to_hex X a))] = Some it"
    using ddb.get_past by (fastforce simp: account_pkey_def)
  then have "tables_ok S old" using assms(1) by (auto simp: store_inv_def older_def)
  then have s: "it ACCOUNT_ID = Some (AvS (account_id_to_hex X a))"
    using old(2) by (auto simp: tables_ok_def account_shape_def)
  then have "account_id_from_hex X (account_id_to_hex X a) = Inr (acc_id acc)"
    using it(2) by (auto simp: account_from_item_def bind_r_Inr_iff attr_s_def)
  then have "account_id_to_hex X (acc_id acc) = account_id_to_hex X a"
    using ext.id_from_hex_ok(1) by simp
  then show ?thesis by (simp add: ext.id_to_hex_inj)
qed

section \<open>Writes\<close>

lemma transact_law:
  assumes "store_inv w" and "ddb_transact (adb_client S) (op_writes X S op) w = (r, w')" and "op_ok op"
  shows "store_inv w' \<and> once X op (led w) (led w') \<and> (r = Inr () \<longrightarrow> op_spec X op (led w) = Some (led w'))
     \<and> (\<forall>s. r = Inl (TransactionCanceled s) \<longrightarrow> led w' = led w)"
  using inv_outcome [OF assms(1) ddb.transact_outcome [OF assms(2)] assms(3) ddb.transact_hist [OF assms(2)]] .

lemma create_law:
  assumes "store_inv w" and "op_ok (OpCreate acc k)" and "store_create X S acc k w = (r, w')"
  shows "store_inv w' \<and> once X (OpCreate acc k) (led w) (led w')
     \<and> (r = Inr () \<longrightarrow> op_spec X (OpCreate acc k) (led w) = Some (led w'))"
  using assms transact_law [of w "OpCreate acc k"]
  by (auto simp: store_create_def map_err_io_iff)

lemma refund_law:
  assumes "store_inv w" and "store_refund X S rc w = (r, w')"
  shows "store_inv w' \<and> once X (OpRefund rc) (led w) (led w')
     \<and> (r = Inr () \<longrightarrow> op_spec X (OpRefund rc) (led w) = Some (led w'))"
  using assms transact_law [of w "OpRefund rc"]
  by (auto simp: store_refund_def map_err_io_iff)

lemma put_key_law:
  assumes "store_inv w" and "op_ok (OpPutKey k)" and "store_put_key X S k w = (r, w')"
  shows "store_inv w' \<and> once X (OpPutKey k) (led w) (led w')
     \<and> (r = Inr () \<longrightarrow> op_spec X (OpPutKey k) (led w) = Some (led w'))"
proof -
  obtain r0 where p: "ddb_put (adb_client S) (adb_keys S) (key_item X k) (AttributeNotExists SECRET_HASH) w = (r0, w')"
    "r = Inr () \<longleftrightarrow> r0 = Inr ()"
    using assms(3) by (auto simp: store_put_key_def map_err_io_iff)
  have "write_outcome schema (op_writes X S (OpPutKey k)) r0 (view w) (view w')"
    using ddb.put_outcome [OF p(1)] by (simp add: put_key_write_def)
  from inv_outcome [OF assms(1) this assms(2) ddb.put_hist [OF p(1)]] p(2) show ?thesis by blast
qed

lemma revoke_law:
  assumes "store_inv w" and "store_revoke X S a kid w = (r, w')"
  shows "store_inv w' \<and> (led w' = led w \<or> (\<exists>h. op_spec X (OpRevoke a h) (led w) = Some (led w')))
     \<and> (r = Inr () \<longrightarrow> (\<exists>h. op_spec X (OpRevoke a h) (led w) = Some (led w')))"
proof -
  obtain r1 w1 where f: "find_hash X S a kid w = (r1, w1)" by fastforce
  have w1: "led w1 = led w" "store_inv w1"
    using reads_keep [OF find_hash_keeps assms(1) f] by auto
  consider "r \<noteq> Inr ()" "w' = w1" | h r0 where
    "ddb_update (adb_client S) (adb_keys S) [(SECRET_HASH, AvS h)] (SetTo REVOKED (AvBool True))
       (AttrEq ACCOUNT_ID (AvS (account_id_to_hex X a))) w1 = (r0, w')" "r = Inr () \<longleftrightarrow> r0 = Inr ()"
    using assms(2) f
    by (cases r1) (auto simp: store_revoke_def bind_io_step map_err_io_iff split: option.splits)
  then show ?thesis
  proof cases
    case 1
    with w1 show ?thesis by simp
  next
    case 2
    have "write_outcome schema (op_writes X S (OpRevoke a h)) r0 (view w1) (view w')"
      using ddb.update_outcome [OF 2(1)] by (simp add: revoke_write_def)
    from inv_outcome [OF w1(2) this _ ddb.update_hist [OF 2(1)]] 2(2) w1(1) show ?thesis
      by (auto simp: once_def)
  qed
qed

lemma credit_law:
  assumes "store_inv w" and "store_credit X S a v nn w = (r, w')"
  shows "store_inv w' \<and> once X (OpCredit a v nn) (led w) (led w')
     \<and> (\<forall>b. r = Inr (Applied b) \<longrightarrow> op_spec X (OpCredit a v nn) (led w) = Some (led w'))
     \<and> (\<forall>b. r = Inr (Replay b) \<longrightarrow> led w' = led w \<and> nn \<in> dom (lg_receipt (led w)))"
proof (cases "v = 0 \<or> nn = []")
  case True
  with assms show ?thesis by (auto simp: store_credit_def once_def)
next
  case False
  obtain r1 w1 where t: "ddb_transact (adb_client S) (credit_writes X S a v nn) w = (r1, w1)" by fastforce
  have law: "store_inv w1" "once X (OpCredit a v nn) (led w) (led w1)"
    "r1 = Inr () \<longrightarrow> op_spec X (OpCredit a v nn) (led w) = Some (led w1)"
    "\<forall>s. r1 = Inl (TransactionCanceled s) \<longrightarrow> led w1 = led w"
    using transact_law [of w "OpCredit a v nn" r1 w1] assms(1) t by (simp_all)
  show ?thesis
  proof (cases r1)
    case (Inr u)
    then have "bind_io (store_balance_of X S a) (\<lambda>b. ret (Applied b)) w1 = (r, w')"
      using assms(2) False t by (simp add: store_credit_def match_io_step)
    then obtain r2 where "store_balance_of X S a w1 = (r2, w')" "\<forall>b. r \<noteq> Inr (Replay b)"
      by (auto simp: bind_io_def split: prod.splits sum.splits)
    with reads_keep [OF balance_of_keeps law(1)] law Inr show ?thesis by simp
  next
    case (Inl e)
    show ?thesis
    proof (cases "transaction_cancelled e")
      case False
      with Inl assms(2) \<open>\<not> (v = 0 \<or> nn = [])\<close> t have "w' = w1" "\<exists>e. r = Inl e"
        by (auto simp: store_credit_def match_io_step)
      with law show ?thesis by auto
    next
      case True
      then obtain s where s: "e = TransactionCanceled s" by (auto simp: transaction_cancelled_def split: sdk_error.splits)
      then have same: "led w1 = led w" using law(4) Inl by simp
      let ?k = "\<lambda>present. if present then bind_io (store_balance_of X S a) (\<lambda>b. ret (Replay b)) else throw StoreNotFound"
      have run: "bind_io (store_receipt_exists S nn) ?k w1 = (r, w')"
        using assms(2) \<open>\<not> (v = 0 \<or> nn = [])\<close> t Inl True by (simp add: store_credit_def match_io_step)
      have "keeps view (bind_io (store_receipt_exists S nn) ?k)" "keeps hist (bind_io (store_receipt_exists S nn) ?k)"
        by (auto intro!: keeps_bind receipt_exists_keeps balance_of_keeps)
      from reads_keep [OF this law(1) run] same have w': "led w' = led w" "store_inv w'" by auto
      have "nn \<in> dom (lg_receipt (led w))" "\<forall>b. r \<noteq> Inr (Applied b)" if "r = Inr rr" for rr
        using run that receipt_exists_past [OF law(1)] same
        by (auto simp: bind_io_Inr_iff split: if_splits)
      with w' show ?thesis by (cases r) (auto simp: once_def)
    qed
  qed
qed

text \<open>After a cancelled debit the store only reads, to find the reason.\<close>

lemma debit_recheck_keeps:
  "keeps view (store_debit_recheck X S h cost)" "keeps hist (store_debit_recheck X S h cost)"
  unfolding store_debit_recheck_def
  by (auto intro!: keeps_bind key_by_hash_keeps account_keeps split: option.split)

lemma debit_recheck_fails: "store_debit_recheck X S h cost w \<noteq> (Inr rc, w')"
  by (auto simp: store_debit_recheck_def bind_io_Inr_iff split: if_splits option.splits)

lemma debit_law:
  assumes "store_inv w" and "store_debit X S h cost w = (r, w')"
  shows "store_inv w' \<and>
     (case r of
        Inr rc \<Rightarrow> cost \<noteq> 0 \<and> dr_secret_hash rc = h \<and> dr_cost rc = cost
          \<and> op_spec X (OpDebit h (dr_account_id rc) cost (dr_capped rc)) (led w) = Some (led w')
          \<and> (\<exists>lk. lg_key (led w) (secret_hash_to_hex X h) = Some lk
                  \<and> lk_owner lk = account_id_to_hex X (dr_account_id rc))
      | Inl e \<Rightarrow> led w' = led w
          \<or> (\<exists>a c s. e = StoreStorage s \<and> op_spec X (OpDebit h a cost c) (led w) = Some (led w')))"
proof (cases "cost = 0")
  case True
  with assms show ?thesis by (auto simp: store_debit_def)
next
  case cost: False
  obtain r1 w1 where k: "store_key_by_hash X S h w = (r1, w1)" by fastforce
  have w1: "led w1 = led w" "store_inv w1" using reads_keep [OF key_by_hash_keeps assms(1) k] by auto
  show ?thesis
  proof (cases "\<exists>key. r1 = Inr (Some key) \<and> \<not> kr_revoked key")
    case False
    with cost assms(2) k have "w' = w1" "\<exists>e. r = Inl e"
      by (cases r1; force simp: store_debit_def bind_io_step split: option.splits if_splits)+
    with w1 show ?thesis by auto
  next
    case True
    then obtain key where key: "r1 = Inr (Some key)" "\<not> kr_revoked key" by blast
    obtain r2 w2 where a: "store_account X S (kr_account_id key) w1 = (r2, w2)" by fastforce
    have w2: "led w2 = led w" "store_inv w2" using reads_keep [OF account_keeps w1(2) a] w1(1) by auto
    show ?thesis
    proof (cases "\<exists>acc. r2 = Inr (Some acc) \<and> denial acc key cost = None")
      case False
      with cost assms(2) k key a have "w' = w2" "\<exists>e. r = Inl e"
        by (cases r2; force simp: store_debit_def bind_io_step split: option.splits if_splits)+
      with w2 show ?thesis by auto
    next
      case True
      then obtain acc where acc: "r2 = Inr (Some acc)" "denial acc key cost = None" by blast
      have id: "acc_id acc = kr_account_id key" using account_past w1(2) a acc(1) by blast
      let ?op = "OpDebit h (acc_id acc) cost (kr_capped key)"
      obtain r3 w3 where t: "ddb_transact (adb_client S) (op_writes X S ?op) w2 = (r3, w3)" by fastforce
      have law: "store_inv w3" "once X ?op (led w) (led w3)"
        "r3 = Inr () \<longrightarrow> op_spec X ?op (led w) = Some (led w3)"
        "\<forall>s. r3 = Inl (TransactionCanceled s) \<longrightarrow> led w3 = led w"
        using transact_law [OF w2(2) t] w2(1) by (simp_all del: op_writes.simps)
      have res: "(r, w') = (case r3 of
          Inr _ \<Rightarrow> (Inr \<lparr> dr_secret_hash = h, dr_account_id = acc_id acc, dr_cost = cost, dr_capped = kr_capped key \<rparr>, w3)
        | Inl e \<Rightarrow> if transaction_cancelled e then store_debit_recheck X S h cost w3 else (Inl (storage_of_sdk e), w3))"
        using cost assms(2) k key a acc t
        by (cases r3) (auto simp: store_debit_def bind_io_step match_io_step)
      show ?thesis
      proof (cases r3)
        case (Inr u)
        have "\<exists>lk. lg_key (led w) (secret_hash_to_hex X h) = Some lk
                   \<and> lk_owner lk = account_id_to_hex X (acc_id acc)"
          using key_by_hash_past [OF assms(1)] k key(1) id by metis
        with Inr res law cost show ?thesis by simp
      next
        case (Inl e)
        show ?thesis
        proof (cases "transaction_cancelled e")
          case True
          then have "led w3 = led w" using law(4) Inl
            by (auto simp: transaction_cancelled_def split: sdk_error.splits)
          moreover have rc: "store_debit_recheck X S h cost w3 = (r, w')" using res Inl True by simp
          ultimately show ?thesis
            using reads_keep [OF debit_recheck_keeps law(1) rc] debit_recheck_fails rc
            by (cases r) auto
        next
          case False
          with res Inl law show ?thesis
            by (auto simp: once_def storage_of_sdk_def)
        qed
      qed
    qed
  qed
qed

lemma store_reads:
  "store_inv w \<Longrightarrow> store_key_by_hash X S h w = (r1, w') \<Longrightarrow> led w' = led w \<and> store_inv w'"
  "store_inv w \<Longrightarrow> store_account X S a w = (r2, w') \<Longrightarrow> led w' = led w \<and> store_inv w'"
  "store_inv w \<Longrightarrow> store_list_keys X S a w = (r3, w') \<Longrightarrow> led w' = led w \<and> store_inv w'"
  using reads_keep [OF key_by_hash_keeps] reads_keep [OF account_keeps] reads_keep [OF list_keys_keeps]
  by blast+

lemma credited_balance_law:
  assumes "store_inv w" and "store_credited_balance X S a nn w = (r, w')"
  shows "led w' = led w \<and> store_inv w' \<and> (\<forall>b. r = Inr (Some b) \<longrightarrow> nn \<in> dom (lg_receipt (led w)))"
proof -
  have "nn \<in> dom (lg_receipt (led w))" if "r = Inr (Some b)" for b
    using assms(2) that receipt_exists_past [OF assms(1)]
    by (auto simp: store_credited_balance_def bind_io_Inr_iff split: if_splits)
  with reads_keep [OF credited_balance_keeps assms] show ?thesis by blast
qed

lemma dynamo_is_ledger: "account_ledger X (dynamo_account_store X S) led store_inv"
  by (rule account_ledger.intro; unfold dynamo_account_store_def account_store.simps;
      rule store_reads credited_balance_law key_by_hash_past account_past create_law put_key_law revoke_law
        debit_law refund_law credit_law; assumption)

end

sublocale dynamo_store \<subseteq> ledger:
  account_ledger X "dynamo_account_store X S" "\<lambda>w. ledger_of S (view w)" "store_invariant S view hist"
  by (rule dynamo_is_ledger)

section \<open>The reference service as a store\<close>

definition ref_schema :: "string \<Rightarrow> string list" where
  "ref_schema t =
     (if t = ''accounts'' then [ACCOUNT_ID] else if t = ''keys'' then [SECRET_HASH]
      else if t = ''receipts'' then [NONCE] else if t = ''catalog'' then [''fn_id'', ''label''] else [''fn_id''])"

definition ref_store :: "ref_world account_db" where
  "ref_store = \<lparr> adb_client = ref_client ref_schema, adb_accounts = ''accounts'', adb_keys = ''keys'',
                 adb_receipts = ''receipts'' \<rparr>"

interpretation ref_store: dynamo_store ref_store ref_view ref_schema ref_hist ref_ext
proof -
  have s: "adb_client ref_store = ref_client ref_schema" by (simp add: ref_store_def)
  show "dynamo_store ref_store ref_view ref_schema ref_hist ref_ext"
    unfolding dynamo_store_def dynamo_store_axioms_def s
    by (simp add: ref_ddb.ddb_eventual_axioms ref_externals.externals_axioms)
      (simp add: store_schema_def ref_store_def ref_schema_def)
qed

end
