(* ===== verification/Store_Fresh.thy ===== *)
theory Store_Fresh
  imports Account_Ledger
begin

text \<open>
  The item codecs of the store are inverse to each other, and when the service is calm \<open>debit\<close>
  decides exactly by the admission rule: a revoked key is refused, a short balance or cap is
  reported with its numbers, and otherwise the debit succeeds.
\<close>

section \<open>Codecs\<close>

lemma attr_u64_av_n [simp]: "it a = Some (av_n v) \<Longrightarrow> attr_u64 it a = Inr v"
  by (simp add: attr_u64_def av_n_def)

context externals
begin

lemma key_item_roundtrip: "key_record_ok k \<Longrightarrow> key_from_item X (key_item X k) = Inr k"
  by (cases "kr_cap_remaining k")
    (auto simp: key_from_item_def attr_bool_def attr_s_def key_record_ok_def id_hex_roundtrip Let_def)

lemma account_item_roundtrip: "account_id_ok (acc_id a) \<Longrightarrow> account_from_item X (account_item X a) = Inr a"
  by (simp add: account_from_item_def attr_s_def id_hex_roundtrip)

end

section \<open>Arithmetic of stored numbers\<close>

lemma show_int_uint [simp]: "show_int (uint v) = show_u64 v"
  by (simp add: show_int_def show_u64_def)

lemma uint_diff: "c \<le> b \<Longrightarrow> uint b - uint c = uint (b - c)"
  by (simp add: uint_minus_simple_alt)

lemma show_int_diff: "c \<le> b \<Longrightarrow> AvN (show_int (uint b - uint c)) = av_n (b - c)"
  by (simp add: uint_diff av_n_def)

lemma num_fits_diff: "c \<le> b \<Longrightarrow> num_fits (uint b - uint (c :: u64))"
  by (simp add: uint_diff)

section \<open>debit on a calm service\<close>

definition debited_key :: "u64 \<Rightarrow> key_record \<Rightarrow> key_record" where
  "debited_key cost k = k\<lparr> kr_cap_remaining := map_option (\<lambda>c. c - cost) (kr_cap_remaining k) \<rparr>"

lemma denial_None_iff:
  "key_record_ok k \<Longrightarrow> denial acc k cost = None \<longleftrightarrow>
     cost \<le> acc_balance acc \<and> (\<forall>c. kr_cap_remaining k = Some c \<longrightarrow> cost \<le> c)"
  by (cases "kr_cap_remaining k") (auto simp: denial_def Let_def key_record_ok_def)

lemma denial_Some:
  "denial acc k cost = Some e \<Longrightarrow>
     \<exists>cap. e = StoreInsufficient (acc_id acc) (acc_balance acc) cost cap \<and> (cap = None \<longleftrightarrow> \<not> kr_capped k)"
  by (auto simp: denial_def Let_def split: if_splits)

lemma debit_commit:
  assumes "db (adb_accounts S) (account_pkey X (acc_id acc)) = Some (account_item X acc)"
    and "db (adb_keys S) (key_pkey X (kr_secret_hash k)) = Some (key_item X k)"
    and "key_record_ok k" and "\<not> kr_revoked k" and "denial acc k cost = None"
  shows "commit schema (debit_writes X S (kr_secret_hash k) (acc_id acc) cost (kr_capped k)) db =
    Some (put_at (adb_keys S, key_pkey X (kr_secret_hash k)) (Some (key_item X (debited_key cost k)))
           (put_at (adb_accounts S, account_pkey X (acc_id acc))
              (Some (account_item X (acc\<lparr> acc_balance := acc_balance acc - cost \<rparr>))) db))"
proof -
  have le: "cost \<le> acc_balance acc" "\<And>c. kr_cap_remaining k = Some c \<Longrightarrow> cost \<le> c"
    using assms(5) denial_None_iff [OF assms(3)] by auto
  have acc': "(account_item X acc)(BALANCE \<mapsto> av_n (acc_balance acc - cost))
      = account_item X (acc\<lparr> acc_balance := acc_balance acc - cost \<rparr>)"
    by (auto simp: account_item_def)
  show ?thesis
  proof (cases "kr_cap_remaining k")
    case None
    then have nc: "\<not> kr_capped k" using assms(3) by (simp add: key_record_ok_def)
    have k': "(key_item X k)(REVOKED \<mapsto> AvBool False) = key_item X (debited_key cost k)"
      using None assms(4) by (auto simp: key_item_def debited_key_def Let_def)
    show ?thesis
      using assms(1,2,4) le(1) nc acc' k'
      by (simp add: commit_two debit_writes_def attr_at_def item_or_key_def arith_set_def show_int_diff
          num_fits_diff word_le_def)
  next
    case (Some c)
    then have cc: "kr_capped k" using assms(3) by (simp add: key_record_ok_def)
    have k': "(key_item X k)(CAP_REMAINING \<mapsto> av_n (c - cost)) = key_item X (debited_key cost k)"
      using Some by (auto simp: key_item_def debited_key_def Let_def)
    show ?thesis
      using assms(1,2,4) le(1) le(2) [OF Some] cc acc' k' Some
      by (simp add: commit_two debit_writes_def attr_at_def item_or_key_def arith_set_def show_int_diff
          num_fits_diff word_le_def)
  qed
qed

locale calm_store = dynamo_store S view schema hist X + calm: ddb_fresh "adb_client S" view schema calm
  for S :: "'w account_db" and view schema hist X and calm :: "'w \<Rightarrow> bool"
begin

lemma calm_key:
  assumes "calm w" and "view w (adb_keys S) (key_pkey X h) = Some (key_item X k)" and "key_record_ok k"
  shows "\<exists>w'. store_key_by_hash X S h w = (Inr (Some k), w') \<and> calm w' \<and> view w' = view w"
  using calm.get_fresh [OF assms(1), of "adb_keys S" "key_pkey X h"] assms(2,3) keepsD [OF get_keeps2(1)]
  by (fastforce simp: store_key_by_hash_def bind_io_def map_err_io_def ext.key_item_roundtrip)

lemma calm_account:
  assumes "calm w" and "view w (adb_accounts S) (account_pkey X a) = Some (account_item X acc)"
    and "account_id_ok (acc_id acc)"
  shows "\<exists>w'. store_account X S a w = (Inr (Some acc), w') \<and> calm w' \<and> view w' = view w"
  using calm.get_fresh [OF assms(1), of "adb_accounts S" "account_pkey X a"] assms(2,3) keepsD [OF get_keeps2(1)]
  by (fastforce simp: store_account_def bind_io_def map_err_io_def ext.account_item_roundtrip)

lemma calm_no_key:
  assumes "calm w" and "view w (adb_keys S) (key_pkey X h) = None"
  shows "\<exists>w'. store_key_by_hash X S h w = (Inr None, w') \<and> calm w' \<and> view w' = view w"
  using calm.get_fresh [OF assms(1), of "adb_keys S" "key_pkey X h"] assms(2) keepsD [OF get_keeps2(1)]
  by (fastforce simp: store_key_by_hash_def bind_io_def map_err_io_def)

lemma debit_decides:
  assumes "calm w" and "cost \<noteq> 0"
    and acc: "view w (adb_accounts S) (account_pkey X (acc_id acc)) = Some (account_item X acc)"
    and key: "view w (adb_keys S) (key_pkey X (kr_secret_hash k)) = Some (key_item X k)"
    and ok: "key_record_ok k" "kr_account_id k = acc_id acc"
  shows "\<exists>w'. calm w' \<and> store_debit X S (kr_secret_hash k) cost w =
    (if kr_revoked k then (Inl StoreUnauthorized, w')
     else case denial acc k cost of
       Some e \<Rightarrow> (Inl e, w')
     | None \<Rightarrow> (Inr \<lparr> dr_secret_hash = kr_secret_hash k, dr_account_id = acc_id acc, dr_cost = cost,
                     dr_capped = kr_capped k \<rparr>, w'))
    \<and> (if kr_revoked k \<or> denial acc k cost \<noteq> None then view w' = view w
       else view w' (adb_accounts S) (account_pkey X (acc_id acc))
              = Some (account_item X (acc\<lparr> acc_balance := acc_balance acc - cost \<rparr>))
          \<and> view w' (adb_keys S) (key_pkey X (kr_secret_hash k)) = Some (key_item X (debited_key cost k)))"
proof -
  obtain w1 where w1: "store_key_by_hash X S (kr_secret_hash k) w = (Inr (Some k), w1)" "calm w1" "view w1 = view w"
    using calm_key [OF assms(1) key ok(1)] by blast
  have aok: "account_id_ok (acc_id acc)" using ok by (simp add: key_record_ok_def)
  obtain w2 where w2: "store_account X S (acc_id acc) w1 = (Inr (Some acc), w2)" "calm w2" "view w2 = view w"
    using calm_account [OF w1(2) _ aok] acc w1(3) by auto
  show ?thesis
  proof (cases "kr_revoked k \<or> denial acc k cost \<noteq> None")
    case True
    with assms(2) w1 w2 ok(2) show ?thesis
      by (auto simp: store_debit_def bind_io_step split: option.splits)
  next
    case False
    then have cm: "commit schema (debit_writes X S (kr_secret_hash k) (acc_id acc) cost (kr_capped k)) (view w2) =
      Some (put_at (adb_keys S, key_pkey X (kr_secret_hash k)) (Some (key_item X (debited_key cost k)))
           (put_at (adb_accounts S, account_pkey X (acc_id acc))
              (Some (account_item X (acc\<lparr> acc_balance := acc_balance acc - cost \<rparr>))) (view w2)))"
      (is "_ = Some ?db") using debit_commit acc key ok w2(3) by auto
    then obtain w3 where w3: "ddb_transact (adb_client S)
        (debit_writes X S (kr_secret_hash k) (acc_id acc) cost (kr_capped k)) w2 = (Inr (), w3)" "calm w3"
      using calm.transact_fresh [OF w2(2), of "debit_writes X S (kr_secret_hash k) (acc_id acc) cost (kr_capped k)"]
      by auto
    have "view w3 = ?db" using ddb.transact_outcome [OF w3(1)] cm by (simp add: write_outcome_def)
    moreover have "adb_accounts S \<noteq> adb_keys S" using schema_ok by (simp add: store_schema_def)
    ultimately have "view w3 (adb_accounts S) (account_pkey X (acc_id acc))
              = Some (account_item X (acc\<lparr> acc_balance := acc_balance acc - cost \<rparr>))"
      "view w3 (adb_keys S) (key_pkey X (kr_secret_hash k)) = Some (key_item X (debited_key cost k))"
      by (simp_all add: put_at_def)
    with False assms(2) w1 w2 w3 ok(2) show ?thesis
      by (auto simp: store_debit_def bind_io_step match_io_step)
  qed
qed

end

interpretation ref_calm_store: calm_store ref_store ref_view ref_schema ref_hist ref_ext "\<lambda>w. rd_faults w = []"
proof -
  have s: "adb_client ref_store = ref_client ref_schema" by (simp add: ref_store_def)
  show "calm_store ref_store ref_view ref_schema ref_hist ref_ext (\<lambda>w. rd_faults w = [])"
    unfolding calm_store_def s
    by (simp add: ref_store.dynamo_store_axioms ref_ddb_fresh.ddb_fresh_axioms)
qed

end
