(* ===== verification/Catalog.thy ===== *)
theory Catalog
  imports Dynamo
begin

text \<open>
  \<open>crates/catalog/src/function_catalog.rs\<close>: the function catalog as DynamoDB rows
  \<open>(fn_id, label)\<close> pointing at a content hash and an egress policy, each with the generation
  (\<open>queued_at_ms\<close>) that wrote it.
\<close>

definition ATTR_FN_ID :: string where "ATTR_FN_ID = ''fn_id''"
definition ATTR_LABEL :: string where "ATTR_LABEL = ''label''"
definition ATTR_HASH :: string where "ATTR_HASH = ''content_hash''"
definition ATTR_QUEUED_AT :: string where "ATTR_QUEUED_AT = ''queued_at_ms''"
definition ATTR_EGRESS_ALLOW :: string where "ATTR_EGRESS_ALLOW = ''egress_allow''"

lemmas catalog_attrs = ATTR_FN_ID_def ATTR_LABEL_def ATTR_HASH_def ATTR_QUEUED_AT_def ATTR_EGRESS_ALLOW_def

record 'w catalog_db =
  cd_client :: "'w ddb_client"
  cd_table :: string

definition catalog_pkey :: "function_id \<Rightarrow> version_label \<Rightarrow> pkey" where
  "catalog_pkey f label = [(ATTR_FN_ID, AvS (function_id_str f)), (ATTR_LABEL, AvS (label_str label))]"

definition catalog_item ::
  "ext \<Rightarrow> function_id \<Rightarrow> version_label \<Rightarrow> content_hash \<Rightarrow> u64 \<Rightarrow> egress_origin list \<Rightarrow> item" where
  "catalog_item X f label hash queued_at_ms egress_allow =
     (let item = [ATTR_FN_ID \<mapsto> AvS (function_id_str f), ATTR_LABEL \<mapsto> AvS (label_str label),
                  ATTR_HASH \<mapsto> AvS (content_hash_to_hex X hash),
                  ATTR_QUEUED_AT \<mapsto> AvN (show_u64 queued_at_ms)] in
      if egress_allow \<noteq> [] then item(ATTR_EGRESS_ALLOW \<mapsto> AvSs (map origin_str egress_allow)) else item)"

definition upsert_cond :: "u64 \<Rightarrow> cond" where
  "upsert_cond queued_at_ms =
     CondOr (AttributeNotExists ATTR_QUEUED_AT) (AttrLe ATTR_QUEUED_AT (AvN (show_u64 queued_at_ms)))"

definition catalog_upsert ::
  "ext \<Rightarrow> 'w catalog_db \<Rightarrow> function_id \<Rightarrow> version_label \<Rightarrow> content_hash \<Rightarrow> u64 \<Rightarrow> egress_origin list
     \<Rightarrow> ('w, app_error, bool) io" where
  "catalog_upsert X D f label hash queued_at_ms egress_allow =
     match_io (ddb_put (cd_client D) (cd_table D) (catalog_item X f label hash queued_at_ms egress_allow)
                 (upsert_cond queued_at_ms))
       (\<lambda>_. ret True)
       (\<lambda>err. case err of
          ConditionalCheckFailed _ \<Rightarrow> ret False
        | _ \<Rightarrow> throw (Storage (show_sdk_error err)))"

definition cat_attr_s :: "item \<Rightarrow> string \<Rightarrow> app_error + string" where
  "cat_attr_s item key =
     ok_or (Storage (''catalog item missing '' @ key)) (case item key of Some (AvS s) \<Rightarrow> Some s | _ \<Rightarrow> None)"

definition version_from_item :: "ext \<Rightarrow> item \<Rightarrow> app_error + function_version" where
  "version_from_item X item =
     bind_r (cat_attr_s item ATTR_FN_ID) (\<lambda>fs.
     bind_r (map_err Domain (function_id_new fs)) (\<lambda>f.
     bind_r (cat_attr_s item ATTR_LABEL) (\<lambda>ls.
     bind_r (map_err Domain (version_label_new ls)) (\<lambda>label.
     bind_r (cat_attr_s item ATTR_HASH) (\<lambda>hs.
     bind_r (map_err Domain (content_hash_from_hex X hs)) (\<lambda>hash.
     bind_r (case item ATTR_EGRESS_ALLOW of
               Some (AvSs ss) \<Rightarrow> collect_r (\<lambda>s. map_err Domain (egress_parse s)) ss
             | _ \<Rightarrow> Inr []) (\<lambda>egress_allow.
     Inr \<lparr> fv_id = f, fv_label = label, fv_content_hash = hash, fv_egress_allow = egress_allow \<rparr>)))))))"

definition catalog_resolve ::
  "ext \<Rightarrow> 'w catalog_db \<Rightarrow> function_id \<Rightarrow> version_label \<Rightarrow> ('w, app_error, function_version) io" where
  "catalog_resolve X D f label =
     bind_io (map_err_io (\<lambda>e. Storage (show_sdk_error e))
       (ddb_get (cd_client D) (cd_table D) (catalog_pkey f label))) (\<lambda>out.
     case out of
       None \<Rightarrow> throw (NotFound (function_id_str f @ ''@'' @ label_str label))
     | Some item \<Rightarrow> lift_r (version_from_item X item))"

text \<open>
  The scan loop of \<open>list\<close> goes on while the service returns a non-empty last key, so whether it
  ends is up to the service: \<open>None\<close> is not returning.
\<close>

partial_function (option) catalog_list_from ::
  "ext \<Rightarrow> 'w catalog_db \<Rightarrow> pkey option \<Rightarrow> function_version list \<Rightarrow> 'w
     \<Rightarrow> ((app_error + function_version list) \<times> 'w) option" where
  "catalog_list_from X D start_key out w =
     (case ddb_scan (cd_client D) (cd_table D) start_key w of
        (Inl e, w') \<Rightarrow> Some (Inl (Storage (show_sdk_error e)), w')
      | (Inr (items, last_key), w') \<Rightarrow>
          (case collect_r (version_from_item X) items of
             Inl e \<Rightarrow> Some (Inl e, w')
           | Inr vs \<Rightarrow>
               (case last_key of
                  Some k \<Rightarrow>
                    if k \<noteq> [] then catalog_list_from X D (Some k) (out @ vs) w'
                    else Some (Inr (out @ vs), w')
                | None \<Rightarrow> Some (Inr (out @ vs), w'))))"

definition catalog_list ::
  "ext \<Rightarrow> 'w catalog_db \<Rightarrow> 'w \<Rightarrow> ((app_error + function_version list) \<times> 'w) option" where
  "catalog_list X D = catalog_list_from X D None []"

definition dynamo_catalog :: "ext \<Rightarrow> 'w catalog_db \<Rightarrow> 'w function_catalog" where
  "dynamo_catalog X D =
     \<lparr> fc_upsert = catalog_upsert X D, fc_resolve = catalog_resolve X D, fc_list = catalog_list X D \<rparr>"

section \<open>Rows\<close>

text \<open>The generation stored in a row.\<close>

definition generation :: "'w catalog_db \<Rightarrow> tables \<Rightarrow> function_id \<Rightarrow> version_label \<Rightarrow> int option" where
  "generation D db f label = num_of (attr_at (db (cd_table D) (catalog_pkey f label)) ATTR_QUEUED_AT)"

lemma catalog_item_attrs [simp]:
  "catalog_item X f label h q eg ATTR_FN_ID = Some (AvS (function_id_str f))"
  "catalog_item X f label h q eg ATTR_LABEL = Some (AvS (label_str label))"
  "catalog_item X f label h q eg ATTR_HASH = Some (AvS (content_hash_to_hex X h))"
  "catalog_item X f label h q eg ATTR_QUEUED_AT = Some (AvN (show_u64 q))"
  "catalog_item X f label h q eg ATTR_EGRESS_ALLOW = (if eg = [] then None else Some (AvSs (map origin_str eg)))"
  by (simp_all add: catalog_item_def Let_def catalog_attrs)

definition version_label_ok :: "version_label \<Rightarrow> bool" where
  "version_label_ok l \<longleftrightarrow> label_str l \<noteq> [] \<and> length (label_str l) \<le> 64"

definition version_ok :: "function_version \<Rightarrow> bool" where
  "version_ok v \<longleftrightarrow>
     function_id_new (function_id_str (fv_id v)) = Inr (fv_id v) \<and> version_label_ok (fv_label v)
     \<and> content_hash_ok (fv_content_hash v) \<and> (\<forall>e \<in> set (fv_egress_allow v). origin_normal e)"

lemma version_read_back:
  assumes "externals X" and "version_ok v"
  shows "version_from_item X (catalog_item X (fv_id v) (fv_label v) (fv_content_hash v) q (fv_egress_allow v)) = Inr v"
proof -
  have "collect_r (\<lambda>s. map_err Domain (egress_parse s)) (map origin_str (fv_egress_allow v)) = Inr (fv_egress_allow v)"
    using assms(2) egress_parse_fixpoint by (intro collect_r_map) (auto simp: version_ok_def)
  then show ?thesis
    using assms externals.content_hash_roundtrip [OF assms(1)]
    by (auto simp: version_from_item_def cat_attr_s_def version_ok_def version_label_ok_def version_label_new_def)
qed

lemma version_from_item_ok:
  assumes "externals X" and "version_from_item X it = Inr v"
  shows "version_ok v"
proof -
  obtain fs ls hs where p: "function_id_new fs = Inr (fv_id v)" "version_label_new ls = Inr (fv_label v)"
    "content_hash_from_hex X hs = Inr (fv_content_hash v)"
    using assms(2) by (auto simp: version_from_item_def bind_r_Inr_iff)
  have "origin_normal e" if "e \<in> set (fv_egress_allow v)" for e
    using assms(2) that collect_r_Inr_set egress_parse_normal
    by (fastforce simp: version_from_item_def bind_r_Inr_iff split: option.splits attr.splits)
  with p externals.content_hash_from_hex_ok [OF assms(1) p(3)] show ?thesis
    by (cases "fv_label v") (auto simp: version_ok_def version_label_ok_def version_label_new_def
        function_id_new_Inr_iff split: if_splits)
qed

section \<open>What upsert and resolve do to the table\<close>

locale catalog_service = ddb_service "cd_client D" view schema
  for D :: "'w catalog_db" and view schema +
  assumes catalog_schema: "schema (cd_table D) = [ATTR_FN_ID, ATTR_LABEL]"
begin

lemma upsert_commit:
  "commit schema [WPut (cd_table D) (catalog_item X f label h q eg) (upsert_cond q)] db = Some db' \<longleftrightarrow>
     (attr_at (db (cd_table D) (catalog_pkey f label)) ATTR_QUEUED_AT = None
       \<or> (\<exists>g. generation D db f label = Some g \<and> g \<le> uint q))
     \<and> db' = put_at (cd_table D, catalog_pkey f label) (Some (catalog_item X f label h q eg)) db"
  by (auto simp: commit_one key_of_def catalog_schema catalog_pkey_def upsert_cond_def generation_def
      split: option.splits)

lemma upsert_law:
  assumes "catalog_upsert X D f label h q eg w = (r, w')"
  shows "(view w' = view w \<or>
      (attr_at (view w (cd_table D) (catalog_pkey f label)) ATTR_QUEUED_AT = None
       \<or> (\<exists>g. generation D (view w) f label = Some g \<and> g \<le> uint q))
      \<and> view w' = put_at (cd_table D, catalog_pkey f label) (Some (catalog_item X f label h q eg)) (view w))
    \<and> (r = Inr True \<longrightarrow>
      (attr_at (view w (cd_table D) (catalog_pkey f label)) ATTR_QUEUED_AT = None
       \<or> (\<exists>g. generation D (view w) f label = Some g \<and> g \<le> uint q))
      \<and> view w' = put_at (cd_table D, catalog_pkey f label) (Some (catalog_item X f label h q eg)) (view w))
    \<and> (r = Inr False \<longrightarrow> view w' = view w
         \<and> (\<exists>a. attr_at (view w (cd_table D) (catalog_pkey f label)) ATTR_QUEUED_AT = Some a)
         \<and> (\<forall>g. generation D (view w) f label = Some g \<longrightarrow> uint q < g))"
proof -
  obtain r1 where p: "ddb_put (cd_client D) (cd_table D) (catalog_item X f label h q eg) (upsert_cond q) w = (r1, w')"
    "r = (case r1 of Inr _ \<Rightarrow> Inr True | Inl (ConditionalCheckFailed _) \<Rightarrow> Inr False
          | Inl e \<Rightarrow> Inl (Storage (show_sdk_error e)))"
    using assms by (auto simp: catalog_upsert_def match_io_def split: prod.splits sum.splits sdk_error.splits)
  have "(\<exists>a. attr_at (view w (cd_table D) (catalog_pkey f label)) ATTR_QUEUED_AT = Some a)
      \<and> (\<forall>g. generation D (view w) f label = Some g \<longrightarrow> uint q < g)" if superseded: "r = Inr False"
  proof -
    obtain s where "r1 = Inl (ConditionalCheckFailed s)" using p(2) superseded by (auto split: sum.splits sdk_error.splits)
    with put_refused p(1) have "commit schema [WPut (cd_table D) (catalog_item X f label h q eg) (upsert_cond q)] (view w) = None"
      by blast
    then show ?thesis
      using upsert_commit [of X f label h q eg "view w"]
      by (cases "attr_at (view w (cd_table D) (catalog_pkey f label)) ATTR_QUEUED_AT") (auto simp: not_le)
  qed
  with put_outcome [OF p(1)] p(2) show ?thesis
    by (auto simp: write_outcome_def upsert_commit split: sum.splits sdk_error.splits)
qed

lemma generation_put:
  "generation D (put_at (cd_table D, catalog_pkey f label) (Some (catalog_item X f label h q eg)) db) f' label' =
     (if f' = f \<and> label' = label then Some (uint q) else generation D db f' label')"
  by (auto simp: generation_def put_at_def catalog_pkey_def attr_at_def
      intro: function_id.expand version_label.expand)

lemma generation_monotone:
  assumes "catalog_upsert X D f label h q eg w = (r, w')" and "generation D (view w) f' label' = Some g"
  shows "\<exists>g'. generation D (view w') f' label' = Some g' \<and> g \<le> g'"
proof -
  have "attr_at (view w (cd_table D) (catalog_pkey f label)) ATTR_QUEUED_AT \<noteq> None"
    if "f' = f" "label' = label"
    using assms(2) that unfolding generation_def
    by (cases "attr_at (view w (cd_table D) (catalog_pkey f label)) ATTR_QUEUED_AT") auto
  with upsert_law [OF assms(1)] assms(2) show ?thesis by (auto simp: generation_put)
qed

lemma resolve_keeps: "keeps view (catalog_resolve X D f label)"
  unfolding catalog_resolve_def by (auto intro!: get_keeps split: option.split)

lemma upsert_other_table:
  assumes "catalog_upsert X D f label h q eg w = (r, w')" and "t \<noteq> cd_table D"
  shows "view w' t = view w t"
  using upsert_law [OF assms(1)] assms(2) by auto

end

locale calm_catalog = catalog_service D view schema + calm: ddb_fresh "cd_client D" view schema calm
  for D :: "'w catalog_db" and view schema and calm :: "'w \<Rightarrow> bool"
begin

text \<open>
  On a calm service the upsert is applied exactly when no newer generation is stored, and a
  resolve right after it returns the version just written.
\<close>

lemma upsert_decides:
  assumes "calm w" and "\<And>it. view w (cd_table D) (catalog_pkey f label) = Some it \<Longrightarrow> num_of (it ATTR_QUEUED_AT) \<noteq> None"
  shows "\<exists>w'. calm w' \<and> catalog_upsert X D f label h q eg w =
     (Inr (case generation D (view w) f label of None \<Rightarrow> True | Some g \<Rightarrow> g \<le> uint q), w')"
proof -
  have gen: "attr_at (view w (cd_table D) (catalog_pkey f label)) ATTR_QUEUED_AT = None
      \<longleftrightarrow> generation D (view w) f label = None"
    using assms(2) by (force simp: attr_at_def generation_def split: option.splits)
  obtain r w' where p: "ddb_put (cd_client D) (cd_table D) (catalog_item X f label h q eg) (upsert_cond q) w = (r, w')"
    "calm w'" "if commit schema [WPut (cd_table D) (catalog_item X f label h q eg) (upsert_cond q)] (view w) = None
       then \<exists>s. r = Inl (ConditionalCheckFailed s) else r = Inr ()"
    using calm.put_fresh [OF assms(1)] by blast
  have c: "commit schema [WPut (cd_table D) (catalog_item X f label h q eg) (upsert_cond q)] (view w) = None
     \<longleftrightarrow> (case generation D (view w) f label of None \<Rightarrow> False | Some g \<Rightarrow> uint q < g)"
  proof -
    have "(\<exists>db'. commit schema [WPut (cd_table D) (catalog_item X f label h q eg) (upsert_cond q)] (view w) = Some db')
      \<longleftrightarrow> (case generation D (view w) f label of None \<Rightarrow> True | Some g \<Rightarrow> g \<le> uint q)"
      using gen by (cases "generation D (view w) f label") (auto simp: upsert_commit)
    then show ?thesis by (auto simp: not_le split: option.splits)
  qed
  show ?thesis
    using p c by (cases "generation D (view w) f label")
      (auto simp: catalog_upsert_def match_io_def split: if_splits)
qed

lemma upsert_resolve:
  assumes "externals X" and "version_ok v" and "calm w"
    and "catalog_upsert X D (fv_id v) (fv_label v) (fv_content_hash v) q (fv_egress_allow v) w = (Inr True, w1)"
    and "calm w1"
  shows "fst (catalog_resolve X D (fv_id v) (fv_label v) w1) = Inr v"
proof -
  have v1: "view w1 (cd_table D) (catalog_pkey (fv_id v) (fv_label v))
      = Some (catalog_item X (fv_id v) (fv_label v) (fv_content_hash v) q (fv_egress_allow v))"
    using upsert_law [OF assms(4)] by (simp add: put_at_apply)
  then show ?thesis
    using calm.get_fresh [OF assms(5), of "cd_table D" "catalog_pkey (fv_id v) (fv_label v)"]
      version_read_back [OF assms(1,2)]
    by (auto simp: catalog_resolve_def bind_io_def map_err_io_def)
qed

end

end
