(* ===== verification/Artifacts.thy ===== *)
theory Artifacts
  imports Ports
begin

text \<open>
  \<open>crates/artifacts/src/s3.rs\<close>: the artifact store on one S3 bucket. The S3 client is a
  parameter; nothing is assumed of it, so that what \<open>get\<close> promises holds of a bucket that
  returns anything. The locale \<open>verified_artifacts\<close> is the contract of the port
  \<open>ArtifactStore\<close> that the invoke path relies on.
\<close>

section \<open>The client\<close>

text \<open>
  An SDK error is a service error, which may be \<open>NoSuchKey\<close>, or another failure with the raw
  response's status if there was one. A reply has the announced content length and a body whose
  collection may fail.
\<close>

datatype s3_error = S3Service bool string | S3Other "nat option" string

fun show_s3_error :: "s3_error \<Rightarrow> string" where
  "show_s3_error (S3Service _ s) = s"
| "show_s3_error (S3Other _ s) = s"

record s3_object =
  so_content_length :: "int option"
  so_body :: "string + bytes"

record 'w s3_client =
  s3_get_object :: "string \<Rightarrow> string \<Rightarrow> ('w, s3_error, s3_object) io"
  s3_put_object :: "string \<Rightarrow> string \<Rightarrow> bytes \<Rightarrow> ('w, s3_error, unit) io"

section \<open>The store\<close>

record 'w s3_artifacts =
  s3_client :: "'w s3_client"
  s3_bucket :: string
  s3_prefix :: string

definition s3_artifacts_new :: "'w s3_client \<Rightarrow> string \<Rightarrow> string \<Rightarrow> 'w s3_artifacts" where
  "s3_artifacts_new client bucket prefix =
     \<lparr> s3_client = client, s3_bucket = bucket, s3_prefix = trim_matches CHR ''/'' prefix \<rparr>"

definition is_missing_object :: "s3_error \<Rightarrow> bool" where
  "is_missing_object err =
     (case err of
        S3Service no_such_key _ \<Rightarrow> no_such_key
      | S3Other status _ \<Rightarrow> status = Some 404)"

definition wasm_key :: "ext \<Rightarrow> 'w s3_artifacts \<Rightarrow> content_hash \<Rightarrow> string" where
  "wasm_key X A hash = s3_prefix A @ ''/'' @ content_hash_to_hex X hash @ ''.wasm''"

definition object_too_large :: "string \<Rightarrow> string \<Rightarrow> nat \<Rightarrow> app_error" where
  "object_too_large key len max_bytes =
     PayloadTooLarge (''object '' @ key @ '' is '' @ len @ '' bytes (max '' @ show_nat max_bytes @ '')'')"

definition get_object ::
  "ext \<Rightarrow> 'w s3_artifacts \<Rightarrow> string \<Rightarrow> content_hash \<Rightarrow> nat \<Rightarrow> ('w, app_error, bytes) io" where
  "get_object X A key hash max_bytes =
     match_io (s3_get_object (s3_client A) (s3_bucket A) key)
       (\<lambda>out.
         let collect =
           bind_r (map_err Storage (so_body out)) (\<lambda>b.
           if length b > max_bytes then Inl (object_too_large key (show_nat (length b)) max_bytes)
           else Inr b) in
         case so_content_length out of
           Some len \<Rightarrow>
             if len < 0 then throw (Storage (''negative content-length for '' @ key))
             else if len > int max_bytes then throw (object_too_large key (show_nat (nat len)) max_bytes)
             else lift_r collect
         | None \<Rightarrow> lift_r collect)
       (\<lambda>err.
         if is_missing_object err then throw (ArtifactMissing (content_hash_to_hex X hash))
         else throw (Storage (show_s3_error err)))"

definition put_object :: "'w s3_artifacts \<Rightarrow> string \<Rightarrow> bytes \<Rightarrow> ('w, app_error, unit) io" where
  "put_object A key b =
     map_err_io (\<lambda>e. Storage (show_s3_error e)) (s3_put_object (s3_client A) (s3_bucket A) key b)"

definition s3_put :: "ext \<Rightarrow> 'w s3_artifacts \<Rightarrow> bytes \<Rightarrow> ('w, app_error, content_hash) io" where
  "s3_put X A wasm =
     (let hash = content_hash_from_bytes X wasm in
      bind_io (put_object A (wasm_key X A hash) wasm) (\<lambda>_. ret hash))"

definition s3_get :: "ext \<Rightarrow> 'w s3_artifacts \<Rightarrow> content_hash \<Rightarrow> ('w, app_error, bytes) io" where
  "s3_get X A hash =
     bind_io (get_object X A (wasm_key X A hash) hash MAX_WASM_BYTES) (\<lambda>b.
     let actual = content_hash_from_bytes X b in
     if actual \<noteq> hash then
       throw (HashMismatch (content_hash_to_hex X hash) (content_hash_to_hex X actual))
     else ret b)"

definition s3_artifact_store :: "ext \<Rightarrow> 'w s3_artifacts \<Rightarrow> 'w artifact_store" where
  "s3_artifact_store X A = \<lparr> as_put = s3_put X A, as_get = s3_get X A \<rparr>"

section \<open>The contract of the port\<close>

locale verified_artifacts =
  fixes X :: ext and st :: "'w artifact_store"
  assumes get_verified:
      "as_get st h w = (Inr b, w') \<Longrightarrow> content_hash_from_bytes X b = h \<and> length b \<le> MAX_WASM_BYTES"
    and put_hash: "as_put st b w = (Inr h, w') \<Longrightarrow> h = content_hash_from_bytes X b"

lemma get_object_bound:
  "get_object X A key h mx w = (Inr b, w') \<Longrightarrow> length b \<le> mx"
  by (auto simp: get_object_def match_io_def Let_def bind_r_Inr_iff split: prod.splits sum.splits option.splits if_splits)

interpretation s3: verified_artifacts X "s3_artifact_store X A" for X A
  by unfold_locales
    (auto simp: s3_artifact_store_def s3_get_def s3_put_def bind_io_Inr_iff Let_def
      dest: get_object_bound split: if_splits)

section \<open>Round trip\<close>

text \<open>
  A bucket that behaves as S3 documents: a successful put is what the next get of the key
  returns. The view is the bucket's content.
\<close>

locale bucket_store =
  fixes C :: "'w s3_client" and objects :: "'w \<Rightarrow> string \<Rightarrow> string \<Rightarrow> bytes option"
  assumes put_stores: "s3_put_object C bucket key b w = (Inr (), w') \<Longrightarrow> objects w' bucket key = Some b"
    and get_returns:
      "objects w bucket key = Some b \<Longrightarrow> s3_get_object C bucket key w = (Inr out, w') \<Longrightarrow>
         so_body out = Inr b \<and> (so_content_length out = Some (int (length b)) \<or> so_content_length out = None)"
begin

lemma put_then_get:
  assumes "s3_client A = C" and "s3_put X A b w = (Inr h, w1)" and "length b \<le> MAX_WASM_BYTES"
    and "s3_get_object C (s3_bucket A) (wasm_key X A h) w1 = (Inr out, w2)"
  shows "s3_get X A h w1 = (Inr b, w2)"
proof -
  have h: "h = content_hash_from_bytes X b" "objects w1 (s3_bucket A) (wasm_key X A h) = Some b"
    using assms(1,2) put_stores
    by (auto simp: s3_put_def put_object_def bind_io_Inr_iff map_err_io_iff Let_def)
  from get_returns [OF h(2) assms(4)] assms(1,3,4) h(1)
  show ?thesis
    by (auto simp: s3_get_def get_object_def match_io_step bind_io_def Let_def)
qed

end

end
