(* ===== verification/Ref_World.thy ===== *)
theory Ref_World
  imports Store_Fresh Catalog Artifacts
begin

text \<open>
  The demo states of the reference world \<open>ref_world\<close>, on which every external party of the program
  runs. They are the
  concrete inputs of the witnesses: one account with 5 credits and one key capped at 4, and two
  published functions, \<open>echo\<close> and \<open>fetch\<close>, the second with one allowed origin.
\<close>

definition ref_rng :: "ref_world rng" where
  "ref_rng n w = (Inr (replicate n (chr (rw_random w mod 256))), w\<lparr> rw_random := rw_random w + 1 \<rparr>)"

interpretation ref_rng: rng_fills ref_rng
  by unfold_locales (auto simp: ref_rng_def)

definition empty_world :: ref_world where
  "empty_world = \<lparr> rd_entries = [], rd_past = [], rd_faults = [], rw_random = 0,
                   rw_clock_ms = 1700000000000, rw_objects = [], rw_settled = [],
                   rw_requests = [], rw_modules = (\<lambda>_. None) \<rparr>"

definition demo_account :: account where
  "demo_account = \<lparr> acc_id = AccountId (replicate 16 (CHR 0x01)), acc_balance = 5 \<rparr>"

definition demo_secret :: bearer_secret where
  "demo_secret = BearerSecret (SECRET_PREFIX @ replicate 64 (CHR ''0''))"

definition demo_hash :: secret_hash where
  "demo_hash = secret_hash_of ref_ext demo_secret"

definition demo_key :: key_record where
  "demo_key = \<lparr> kr_secret_hash = demo_hash, kr_account_id = acc_id demo_account,
                kr_key_id = KeyId (replicate 16 (CHR 0x03)),
                kr_revoked = False, kr_capped = True, kr_cap_remaining = Some 4 \<rparr>"

definition echo_version :: function_version where
  "echo_version = \<lparr> fv_id = FunctionId ''echo'', fv_label = latest,
     fv_content_hash = content_hash_from_bytes ref_ext ''echo'', fv_egress_allow = [] \<rparr>"

definition fetch_version :: function_version where
  "fetch_version = \<lparr> fv_id = FunctionId ''fetch'', fv_label = latest,
     fv_content_hash = content_hash_from_bytes ref_ext ''fetch'',
     fv_egress_allow = [EgressOrigin ''https://a.io''] \<rparr>"

definition demo_row :: "function_version \<Rightarrow> item" where
  "demo_row v = catalog_item ref_ext (fv_id v) (fv_label v) (fv_content_hash v) 1 (fv_egress_allow v)"

definition demo_object :: "bytes \<Rightarrow> string \<times> bytes" where
  "demo_object b = (''wasm/'' @ content_hash_to_hex ref_ext (content_hash_from_bytes ref_ext b) @ ''.wasm'', b)"

definition demo_entries :: entries where
  "demo_entries =
     [((''accounts'', account_pkey ref_ext (acc_id demo_account)), account_item ref_ext demo_account),
      ((''keys'', key_pkey ref_ext demo_hash), key_item ref_ext demo_key),
      ((''catalog'', catalog_pkey (FunctionId ''echo'') latest), demo_row echo_version),
      ((''catalog'', catalog_pkey (FunctionId ''fetch'') latest), demo_row fetch_version)]"

definition demo_world :: ref_world where
  "demo_world = empty_world\<lparr> rd_entries := demo_entries, rw_objects := [demo_object ''echo'', demo_object ''fetch''] \<rparr>"

text \<open>The demo world with a fault script.\<close>

definition demo_faulty :: "fault list \<Rightarrow> ref_world" where
  "demo_faulty fs = demo_world\<lparr> rd_faults := fs \<rparr>"

lemma demo_view:
  "ref_view (demo_faulty fs) ''accounts'' k =
     (if k = account_pkey ref_ext (acc_id demo_account) then Some (account_item ref_ext demo_account) else None)"
  "ref_view (demo_faulty fs) ''keys'' k =
     (if k = key_pkey ref_ext demo_hash then Some (key_item ref_ext demo_key) else None)"
  "ref_view (demo_faulty fs) ''receipts'' k = None"
  "ref_view (demo_faulty fs) ''catalog'' k =
     (if k = catalog_pkey (FunctionId ''echo'') latest then Some (demo_row echo_version)
      else if k = catalog_pkey (FunctionId ''fetch'') latest then Some (demo_row fetch_version) else None)"
  "ref_view (demo_faulty fs) ''locks'' k = None"
  by (auto simp: demo_faulty_def demo_world_def demo_entries_def ref_view_def tables_of_def)

lemma demo_world_faulty: "demo_world = demo_faulty []"
  by (simp add: demo_faulty_def demo_world_def empty_world_def)

lemma demo_key_facts [simp]:
  "key_record_ok demo_key" "\<not> kr_revoked demo_key" "kr_capped demo_key"
  "kr_secret_hash demo_key = demo_hash" "kr_account_id demo_key = acc_id demo_account"
  "kr_cap_remaining demo_key = Some 4" "acc_balance demo_account = 5"
  "account_id_ok (acc_id demo_account)"
  using ref_externals.secret_hash_of_ok [of demo_secret]
  by (simp_all add: demo_key_def demo_hash_def demo_account_def key_record_ok_def secret_hash_ok_def
      account_id_ok_def key_id_ok_def ID_LEN_def)

lemma ref_store_tables [simp]:
  "adb_accounts ref_store = ''accounts''" "adb_keys ref_store = ''keys''"
  "adb_receipts ref_store = ''receipts''" "adb_client ref_store = ref_client ref_schema"
  by (simp_all add: ref_store_def)

lemma demo_tables_ok: "tables_ok ref_store (ref_view (demo_faulty fs))"
proof -
  have "account_shape (account_pkey ref_ext (acc_id demo_account)) (account_item ref_ext demo_account)"
    by (simp add: account_shape_def account_pkey_def)
  moreover have "key_shape (key_pkey ref_ext demo_hash) (key_item ref_ext demo_key)"
    using key_item_view(2) [OF ref_externals.externals_axioms, of demo_key] by (simp add: key_pkey_def)
  ultimately show ?thesis by (simp add: tables_ok_def demo_view)
qed

lemma demo_invariant: "store_invariant ref_store ref_view ref_hist (demo_faulty fs)"
proof -
  have "ref_hist (demo_faulty fs) = [ref_view (demo_faulty fs)]"
    by (simp add: ref_hist_def ref_view_def demo_faulty_def demo_world_def empty_world_def)
  then show ?thesis
    using ref_store.older_refl [OF demo_tables_ok] by (simp add: store_invariant_def)
qed

text \<open>The ledger of a reference world.\<close>

abbreviation ref_ledger :: "ref_world \<Rightarrow> ledger" where
  "ref_ledger w \<equiv> ledger_of (ref_store :: ref_world account_db) (ref_view w)"

abbreviation demo_hex :: string where
  "demo_hex \<equiv> account_id_to_hex ref_ext (acc_id demo_account)"

abbreviation demo_hash_hex :: string where
  "demo_hash_hex \<equiv> secret_hash_to_hex ref_ext demo_hash"

lemma demo_ledger:
  "lg_balance (ref_ledger (demo_faulty fs)) demo_hex = Some 5"
  "\<exists>k. lg_key (ref_ledger (demo_faulty fs)) demo_hash_hex = Some k
       \<and> lk_cap k = Some 4 \<and> \<not> lk_revoked k \<and> lk_owner k = demo_hex"
  "lg_receipt (ref_ledger (demo_faulty fs)) = (\<lambda>_. None)"
  using key_item_view(1) [OF ref_externals.externals_axioms, of demo_key]
  by (auto simp: ledger_of_def demo_view account_pkey_def key_pkey_def new_ledger_key_def
      simp del: num_of.simps)

text \<open>A debit of 3 on the calm demo world succeeds.\<close>

lemma demo_debit:
  "\<exists>w'. rd_faults w' = [] \<and> store_debit ref_ext ref_store demo_hash 3 demo_world =
     (Inr \<lparr> dr_secret_hash = demo_hash, dr_account_id = acc_id demo_account, dr_cost = 3, dr_capped = True \<rparr>, w')"
proof -
  have "denial demo_account demo_key 3 = None" by (simp add: denial_None_iff)
  then show ?thesis
    using ref_calm_store.debit_decides [of demo_world 3 demo_account demo_key]
    by (auto simp: demo_world_faulty demo_view) (auto simp: demo_faulty_def)
qed

section \<open>A demo history\<close>

text \<open>A credit, then a revocation, then another credit, committed on the demo tables.\<close>

definition demo_credit :: "string \<Rightarrow> ledger_op" where
  "demo_credit nn = OpCredit (acc_id demo_account) 7 nn"

definition demo_revoke :: ledger_op where
  "demo_revoke = OpRevoke (acc_id demo_account) demo_hash_hex"

lemma demo_schema: "store_schema ref_store ref_schema"
  by (simp add: store_schema_def ref_schema_def)

lemma credit_commits:
  assumes "db ''accounts'' (account_pkey ref_ext (acc_id demo_account)) = Some it"
    and "it ACCOUNT_ID \<noteq> None" and "num_of (it BALANCE) = Some b" and "0 \<le> b" and "b < 1000"
    and "db ''receipts'' [(NONCE, AvS nn)] = None"
  shows "commit ref_schema (op_writes ref_ext ref_store (demo_credit nn)) db =
    Some (put_at (''receipts'', [(NONCE, AvS nn)]) (Some (receipt_item ref_ext (acc_id demo_account) 7 nn))
       (put_at (''accounts'', account_pkey ref_ext (acc_id demo_account)) (Some (it(BALANCE \<mapsto> AvN (show_int (b + 7))))) db))"
  using assms
  by (simp add: demo_credit_def credit_writes_def commit_two attr_at_def item_or_key_def key_of_def
      ref_schema_def arith_set_def num_fits_def)

lemma revoke_commits:
  assumes "db ''keys'' (key_pkey ref_ext demo_hash) = Some (key_item ref_ext demo_key)"
  shows "commit ref_schema (op_writes ref_ext ref_store demo_revoke) db =
    Some (put_at (''keys'', key_pkey ref_ext demo_hash)
            (Some ((key_item ref_ext demo_key)(REVOKED \<mapsto> AvBool True))) db)"
  using assms by (simp add: demo_revoke_def revoke_write_def commit_one attr_at_def item_or_key_def key_pkey_def)

lemma demo_history:
  "\<exists>db. ledger_steps ref_ext ref_store ref_schema (ref_view demo_world)
     [demo_credit ''n1'', demo_revoke] db"
proof -
  let ?db0 = "ref_view demo_world"
  let ?db1 = "put_at (''receipts'', [(NONCE, AvS ''n1'')]) (Some (receipt_item ref_ext (acc_id demo_account) 7 ''n1''))
       (put_at (''accounts'', account_pkey ref_ext (acc_id demo_account))
         (Some ((account_item ref_ext demo_account)(BALANCE \<mapsto> AvN (show_int (5 + 7))))) ?db0)"
  have c1: "commit ref_schema (op_writes ref_ext ref_store (demo_credit ''n1'')) ?db0 = Some ?db1"
    by (rule credit_commits) (simp_all add: demo_world_faulty demo_view)
  have k: "?db1 ''keys'' (key_pkey ref_ext demo_hash) = Some (key_item ref_ext demo_key)"
    by (simp add: demo_world_faulty demo_view)
  obtain db2 where c2: "commit ref_schema (op_writes ref_ext ref_store demo_revoke) ?db1 = Some db2"
    using revoke_commits [where db = ?db1] k by blast
  have "op_ok (demo_credit ''n1'')" "op_ok demo_revoke" by (simp_all add: demo_credit_def demo_revoke_def)
  with c1 c2 show ?thesis by (blast intro: ledger_steps.intros)
qed

lemma demo_revoked_history:
  "\<exists>db db'. tables_ok ref_store db \<and> revoked_at demo_hash_hex (ledger_of ref_store db)
     \<and> ledger_steps ref_ext ref_store ref_schema db [demo_credit ''n1''] db'"
proof -
  let ?db0 = "ref_view demo_world"
  have ok0: "tables_ok ref_store ?db0" unfolding demo_world_faulty by (rule demo_tables_ok)
  define db1 where "db1 = put_at (''keys'', key_pkey ref_ext demo_hash)
            (Some ((key_item ref_ext demo_key)(REVOKED \<mapsto> AvBool True))) ?db0"
  have c1: "commit ref_schema (op_writes ref_ext ref_store demo_revoke) ?db0 = Some db1"
    unfolding db1_def by (rule revoke_commits) (simp add: demo_world_faulty demo_view)
  have same: "db1 ''accounts'' = ?db0 ''accounts''" "db1 ''receipts'' = ?db0 ''receipts''"
    by (simp_all add: db1_def)
  have ref: "op_spec ref_ext demo_revoke (ledger_of ref_store ?db0) = Some (ledger_of ref_store db1)"
    "tables_ok ref_store db1"
    using store_refines [OF c1 demo_schema ok0 _ ref_externals.externals_axioms]
    by (auto simp: demo_revoke_def)
  have "revoked_at demo_hash_hex (ledger_of ref_store db1)"
    using ref(1) by (auto simp: demo_revoke_def revoked_at_def op_spec.simps dest!: sym [of _ "ledger_of ref_store db1"]
        split: option.splits if_splits)
  moreover have "\<exists>db2. commit ref_schema (op_writes ref_ext ref_store (demo_credit ''n1'')) db1 = Some db2"
    by (rule exI, rule credit_commits [where it = "account_item ref_ext demo_account" and b = 5])
      (simp_all add: same demo_world_faulty demo_view)
  moreover have "op_ok (demo_credit ''n1'')" by (simp add: demo_credit_def)
  ultimately show ?thesis using ref(2) by (blast intro: ledger_steps.intros)
qed

lemma demo_solvent: "solvent (ref_ledger demo_world)"
proof -
  have "lg_balance (ref_ledger demo_world) a = (if a = demo_hex then Some 5 else None)" for a
    by (simp add: ledger_of_def demo_world_faulty demo_view account_pkey_def)
  moreover have "lk_cap k = Some 4" if "lg_key (ref_ledger demo_world) h = Some k" for h k
    using that demo_ledger(2) [of "[]"]
    by (auto simp: demo_world_faulty ledger_of_def demo_view key_pkey_def split: if_splits)
  ultimately show ?thesis by (auto simp: solvent_def split: if_splits)
qed

text \<open>A world in which the payment with nonce \<open>n1\<close> has been credited.\<close>

lemma demo_credited_world:
  "\<exists>w. store_invariant ref_store ref_view ref_hist (w :: ref_world) \<and> rd_faults w = []
     \<and> ''n1'' \<in> dom (lg_receipt (ref_ledger w))"
proof -
  have inv: "store_invariant ref_store ref_view ref_hist demo_world"
    unfolding demo_world_faulty by (rule demo_invariant)
  have calm: "rd_faults demo_world = []" by (simp add: demo_world_def empty_world_def)
  let ?ws = "op_writes ref_ext (ref_store :: ref_world account_db) (demo_credit ''n1'')"
  obtain r w where t: "ddb_transact (ref_client ref_schema) ?ws demo_world = (r, w)" "rd_faults w = []"
    "if commit ref_schema ?ws (ref_view demo_world) = None then \<exists>s. r = Inl (TransactionCanceled s) else r = Inr ()"
    using ref_ddb_fresh.transact_fresh [OF calm] by blast
  have "\<exists>db. commit ref_schema ?ws (ref_view demo_world) = Some db"
    by (rule exI, rule credit_commits [where it = "account_item ref_ext demo_account" and b = 5])
      (simp_all add: demo_world_faulty demo_view)
  then have "commit ref_schema ?ws (ref_view demo_world) \<noteq> None" by simp
  with t have "r = Inr ()" by simp
  have law: "store_invariant ref_store ref_view ref_hist w"
    "op_spec ref_ext (demo_credit ''n1'') (ref_ledger demo_world) = Some (ref_ledger w)"
    using ref_store.transact_law [OF inv, of "demo_credit ''n1''" r w] t(1) \<open>r = Inr ()\<close>
    by (auto simp: demo_credit_def)
  have "''n1'' \<in> dom (lg_receipt (ref_ledger w))"
    using op_spec_receipts [OF law(2)] by (simp add: demo_credit_def)
  with law(1) t(2) show ?thesis by blast
qed

end
