(* ===== verification/Store_Properties.thy ===== *)
theory Store_Properties
  imports Ref_World
begin

text \<open>
  The properties of the invoke-credit ledger: exact debits, payments credited once, and the
  accounting of every interleaving of callers. Each is followed by a witness on the reference
  world.
\<close>

section \<open>One call\<close>

text \<open>
  C1: A debit that reports success, on a service with stale reads and lost messages, has taken
  exactly the cost off the balance of the account that owns the key and, for a capped key, off
  its cap. The balance and the cap were large enough, the key was not revoked when the
  transaction committed, and nothing else in the ledger changed.
\<close>

theorem debit_exact:
  assumes "dynamo_store S view schema hist X" and "store_invariant S view hist w"
    and "store_debit X S h cost w = (Inr rc, w')"
  shows "\<exists>b k. let L = ledger_of S (view w); a = account_id_to_hex X (dr_account_id rc);
                 hh = secret_hash_to_hex X h in
      0 < uint cost \<and> lg_balance L a = Some b \<and> uint cost \<le> b
      \<and> lg_key L hh = Some k \<and> lk_owner k = a \<and> \<not> lk_revoked k \<and> (dr_capped rc \<longleftrightarrow> lk_cap k \<noteq> None)
      \<and> (\<forall>c. lk_cap k = Some c \<longrightarrow> uint cost \<le> c)
      \<and> ledger_of S (view w') = L\<lparr> lg_balance := (lg_balance L)(a \<mapsto> b - uint cost),
           lg_key := (lg_key L)(hh \<mapsto> k\<lparr> lk_cap := map_option (\<lambda>c. c - uint cost) (lk_cap k) \<rparr>) \<rparr>"
proof -
  have law: "cost \<noteq> 0"
    "op_spec X (OpDebit h (dr_account_id rc) cost (dr_capped rc)) (ledger_of S (view w)) = Some (ledger_of S (view w'))"
    "\<exists>lk. lg_key (ledger_of S (view w)) (secret_hash_to_hex X h) = Some lk
          \<and> lk_owner lk = account_id_to_hex X (dr_account_id rc)"
    using dynamo_store.debit_law [OF assms] by auto
  have "uint cost \<noteq> 0" using law(1) by (simp add: uint_0_iff)
  then have "0 < uint cost" by (simp add: order.strict_iff_order)
  with law(2,3) show ?thesis by (auto simp: Let_def op_spec.simps split: option.splits if_splits)
qed

theorem debit_exact_witness:
  "\<exists>w'. rd_faults w' = [] \<and>
     lg_balance (ref_ledger w') demo_hex = Some 2 \<and>
     map_option lk_cap (lg_key (ref_ledger w') demo_hash_hex) = Some (Some 1)"
proof -
  obtain w' where w': "rd_faults w' = []" "store_debit ref_ext ref_store demo_hash 3 demo_world =
     (Inr \<lparr> dr_secret_hash = demo_hash, dr_account_id = acc_id demo_account, dr_cost = 3, dr_capped = True \<rparr>, w')"
    using demo_debit by blast
  have inv: "store_invariant ref_store ref_view ref_hist demo_world"
    unfolding demo_world_faulty by (rule demo_invariant)
  show ?thesis
    using w'(1) debit_exact [OF ref_store.dynamo_store_axioms inv w'(2)] demo_ledger(1,2) [of "[]"]
    by (intro exI [of _ w']) (auto simp: Let_def demo_world_faulty [symmetric])
qed

text \<open>
  C22: A debit that reports an error has left the ledger as it was, unless the reply to its
  transaction was lost: then the error is a storage error and the debit may have been applied,
  once. In particular no refusal (unauthorized, insufficient) ever takes credits.
\<close>

theorem debit_error:
  assumes "dynamo_store S view schema hist X" and "store_invariant S view hist w"
    and "store_debit X S h cost w = (Inl e, w')"
  shows "ledger_of S (view w') = ledger_of S (view w)
     \<or> (\<exists>a capped msg. e = StoreStorage msg
          \<and> op_spec X (OpDebit h a cost capped) (ledger_of S (view w)) = Some (ledger_of S (view w')))"
  using dynamo_store.debit_law [OF assms] by auto

theorem debit_error_witness:
  "\<exists>e w'. store_debit ref_ext ref_store demo_hash 0 (demo_faulty []) = (Inl e, w')
     \<and> ref_ledger w' = ref_ledger (demo_faulty [])"
proof -
  have run: "store_debit ref_ext ref_store demo_hash 0 (demo_faulty []) =
      (Inl (StoreStorage ''debit cost must be a positive number of invoke credits''), demo_faulty [])"
    by (simp add: store_debit_def)
  from debit_error [OF ref_store.dynamo_store_axioms demo_invariant run] run show ?thesis by auto
qed

text \<open>
  Once a payment nonce has a receipt, no call of \<open>credit\<close> with that nonce changes the ledger,
  whatever account and amount it names, whatever faults happen and however often it is called.
\<close>

lemma credit_replay:
  assumes "dynamo_store S view schema hist X" and "store_invariant S view hist w"
    and "nn \<in> dom (lg_receipt (ledger_of S (view w)))" and "store_credit X S a v nn w = (r, w')"
  shows "ledger_of S (view w') = ledger_of S (view w) \<and> store_invariant S view hist w'
     \<and> (\<forall>b. r \<noteq> Inr (Applied b))"
  using dynamo_store.credit_law [OF assms(1,2,4)] assms(3)
  by (auto simp: once_def Let_def op_spec.simps split: option.splits)

text \<open>
  C3: A first credit, retried after any answer, adds the invokes at most once: over the two calls
  the ledger changes by one application of the credit or not at all, and when either call
  reports success the payment has its receipt.
\<close>

theorem credit_at_most_once:
  assumes "dynamo_store S view schema hist X" and "store_invariant S view hist w"
    and "store_credit X S a v nn w = (r1, w1)" and "store_credit X S a v nn w1 = (r2, w2)"
  shows "once X (OpCredit a v nn) (ledger_of S (view w)) (ledger_of S (view w2))
     \<and> ((\<exists>o1. r1 = Inr o1) \<or> (\<exists>o2. r2 = Inr o2) \<longrightarrow> nn \<in> dom (lg_receipt (ledger_of S (view w2))))"
proof -
  have l1: "store_invariant S view hist w1" "once X (OpCredit a v nn) (ledger_of S (view w)) (ledger_of S (view w1))"
    "\<forall>b. r1 = Inr (Applied b) \<longrightarrow> op_spec X (OpCredit a v nn) (ledger_of S (view w)) = Some (ledger_of S (view w1))"
    "\<forall>b. r1 = Inr (Replay b) \<longrightarrow> ledger_of S (view w1) = ledger_of S (view w) \<and> nn \<in> dom (lg_receipt (ledger_of S (view w)))"
    using dynamo_store.credit_law [OF assms(1,2,3)] by blast+
  have l2: "once X (OpCredit a v nn) (ledger_of S (view w1)) (ledger_of S (view w2))"
    "\<forall>b. r2 = Inr (Applied b) \<longrightarrow> op_spec X (OpCredit a v nn) (ledger_of S (view w1)) = Some (ledger_of S (view w2))"
    "\<forall>b. r2 = Inr (Replay b) \<longrightarrow> ledger_of S (view w2) = ledger_of S (view w1) \<and> nn \<in> dom (lg_receipt (ledger_of S (view w1)))"
    using dynamo_store.credit_law [OF assms(1) l1(1) assms(4)] by blast+
  have once2: "once X (OpCredit a v nn) (ledger_of S (view w)) (ledger_of S (view w2))"
    by (rule once_trans [OF l1(2) l2(1)])
  have r1: "nn \<in> dom (lg_receipt (ledger_of S (view w1)))" if "r1 = Inr o1" for o1
    using that l1(3,4) once_receipt by (cases o1) (blast | simp)+
  have r2: "nn \<in> dom (lg_receipt (ledger_of S (view w2)))" if "r2 = Inr o2" for o2
    using that l2(2,3) once_receipt by (cases o2) (blast | simp)+
  show ?thesis
    using once2 r1 r2 l2(1) once_stop unfolding once_def by (metis option.distinct(1))
qed

text \<open>The concrete run loses the reply to the first credit, which was applied, and retries.\<close>

theorem credit_at_most_once_witness:
  "\<exists>r1 w1 r2 w2. store_credit ref_ext ref_store (acc_id demo_account) 7 ''nonce'' (demo_faulty [LoseReply]) = (r1, w1)
     \<and> store_credit ref_ext ref_store (acc_id demo_account) 7 ''nonce'' w1 = (r2, w2)
     \<and> once ref_ext (OpCredit (acc_id demo_account) 7 ''nonce'')
         (ref_ledger (demo_faulty [LoseReply])) (ref_ledger w2)"
proof -
  obtain r1 w1 where c1: "store_credit ref_ext ref_store (acc_id demo_account) 7 ''nonce'' (demo_faulty [LoseReply]) = (r1, w1)"
    by fastforce
  obtain r2 w2 where c2: "store_credit ref_ext ref_store (acc_id demo_account) 7 ''nonce'' w1 = (r2, w2)"
    by fastforce
  from c1 c2 credit_at_most_once [OF ref_store.dynamo_store_axioms demo_invariant c1 c2] show ?thesis by blast
qed

text \<open>
  C21: On a calm service \<open>debit\<close> decides exactly by the admission rule: a revoked key is refused, a
  balance or cap under the cost is reported with the account, its balance and the remaining
  cap, both without touching the tables, and every other debit succeeds, leaving the account
  item and the key item of the debited amounts.
\<close>

theorem debit_decision:
  assumes "calm_store S view schema hist X calm" and "calm w" and "cost \<noteq> 0"
    and "view w (adb_accounts S) (account_pkey X (acc_id acc)) = Some (account_item X acc)"
    and "view w (adb_keys S) (key_pkey X (kr_secret_hash k)) = Some (key_item X k)"
    and "key_record_ok k" and "kr_account_id k = acc_id acc"
  shows "\<exists>r w'. store_debit X S (kr_secret_hash k) cost w = (r, w') \<and>
    (if kr_revoked k then r = Inl StoreUnauthorized \<and> view w' = view w
     else if acc_balance acc < cost \<or> (\<exists>c. kr_cap_remaining k = Some c \<and> c < cost)
     then r = Inl (StoreInsufficient (acc_id acc) (acc_balance acc) cost (kr_cap_remaining k)) \<and> view w' = view w
     else (\<exists>rc. r = Inr rc)
       \<and> view w' (adb_accounts S) (account_pkey X (acc_id acc))
           = Some (account_item X (acc\<lparr> acc_balance := acc_balance acc - cost \<rparr>))
       \<and> view w' (adb_keys S) (key_pkey X (kr_secret_hash k)) = Some (key_item X (debited_key cost k)))"
proof -
  obtain w' where *: "store_debit X S (kr_secret_hash k) cost w =
    (if kr_revoked k then (Inl StoreUnauthorized, w')
     else case denial acc k cost of
       Some e \<Rightarrow> (Inl e, w')
     | None \<Rightarrow> (Inr \<lparr> dr_secret_hash = kr_secret_hash k, dr_account_id = acc_id acc, dr_cost = cost,
                     dr_capped = kr_capped k \<rparr>, w'))"
    "if kr_revoked k \<or> denial acc k cost \<noteq> None then view w' = view w
     else view w' (adb_accounts S) (account_pkey X (acc_id acc))
              = Some (account_item X (acc\<lparr> acc_balance := acc_balance acc - cost \<rparr>))
          \<and> view w' (adb_keys S) (key_pkey X (kr_secret_hash k)) = Some (key_item X (debited_key cost k))"
    using calm_store.debit_decides [OF assms] by blast
  have denial: "denial acc k cost =
     (if acc_balance acc < cost \<or> (\<exists>c. kr_cap_remaining k = Some c \<and> c < cost)
      then Some (StoreInsufficient (acc_id acc) (acc_balance acc) cost (kr_cap_remaining k)) else None)"
    using assms(6) by (cases "kr_cap_remaining k") (auto simp: denial_def Let_def key_record_ok_def)
  show ?thesis
    using * unfolding denial by (cases "kr_revoked k") (auto split: if_splits)
qed

theorem debit_decision_witness:
  "\<exists>w'. store_debit ref_ext ref_store demo_hash 5 demo_world =
     (Inl (StoreInsufficient (acc_id demo_account) 5 5 (Some 4)), w')"
  using debit_decision [OF ref_calm_store.calm_store_axioms, of demo_world 5 demo_account demo_key]
  by (auto simp: demo_world_faulty demo_view) (auto simp: demo_faulty_def demo_world_def empty_world_def)

text \<open>What the store writes for a key is read back as the same key.\<close>

lemma key_item_read_back:
  assumes "externals X" and "key_record_ok k"
  shows "key_from_item X (key_item X k) = Inr k"
  using externals.key_item_roundtrip assms by blast

section \<open>Every interleaving of callers\<close>

text \<open>
  C18: The transactions of the store implement the abstract ledger: any sequence of them, from
  any number of concurrent callers, takes the tables through a run of the ledger's
  specification and keeps the shape of the items.
\<close>

theorem store_refines_ledger:
  assumes "externals X" and "store_schema S schema" and "tables_ok S db"
    and "ledger_steps X S schema db ops db'"
  shows "ledger_run X ops (ledger_of S db) = Some (ledger_of S db') \<and> tables_ok S db'"
  using ledger_steps_run assms by blast

theorem store_refines_ledger_witness:
  "\<exists>db. ledger_run ref_ext [demo_credit ''n1'', demo_revoke] (ref_ledger demo_world)
     = Some (ledger_of (ref_store :: ref_world account_db) db)"
proof -
  obtain db where h: "ledger_steps ref_ext ref_store ref_schema (ref_view demo_world) [demo_credit ''n1'', demo_revoke] db"
    using demo_history by blast
  have ok: "tables_ok ref_store (ref_view demo_world)"
    unfolding demo_world_faulty by (rule demo_tables_ok)
  from store_refines_ledger [OF ref_externals.externals_axioms demo_schema ok h] show ?thesis by blast
qed

text \<open>
  C2: Accounting without overdraft. Over any interleaving of callers the balance of an account
  moves by exactly the credits minus the debits plus the refunds that were committed for it, and no
  payment nonce is credited twice: the nonces credited are exactly the receipts added. If no balance
  and no spending cap is negative, none ever becomes negative, whatever callers debit concurrently.
\<close>

theorem balance_accounting:
  assumes "externals X" and "store_schema S schema" and "tables_ok S db"
    and "ledger_steps X S schema db ops db'"
  shows "balance_or_0 (ledger_of S db') a = balance_or_0 (ledger_of S db) a
     + total (credited X a) ops - total (debited X a) ops + total (refunded X a) ops
    \<and> distinct (credit_nonces ops) \<and> set (credit_nonces ops) \<inter> dom (lg_receipt (ledger_of S db)) = {}
    \<and> dom (lg_receipt (ledger_of S db')) = dom (lg_receipt (ledger_of S db)) \<union> set (credit_nonces ops)
    \<and> (solvent (ledger_of S db) \<longrightarrow> solvent (ledger_of S db'))"
  using ledger_run_balance ledger_run_nonces ledger_run_solvent ledger_steps_run [OF assms(4,1,2,3)] by blast

theorem balance_accounting_witness:
  "\<exists>db. balance_or_0 (ledger_of (ref_store :: ref_world account_db) db) demo_hex = 12
     \<and> dom (lg_receipt (ledger_of (ref_store :: ref_world account_db) db)) = {''n1''}
     \<and> solvent (ledger_of (ref_store :: ref_world account_db) db)"
proof -
  obtain db where h: "ledger_steps ref_ext ref_store ref_schema (ref_view demo_world) [demo_credit ''n1'', demo_revoke] db"
    using demo_history by blast
  have ok: "tables_ok ref_store (ref_view demo_world)"
    unfolding demo_world_faulty by (rule demo_tables_ok)
  note acc = balance_accounting [OF ref_externals.externals_axioms demo_schema ok h, of demo_hex]
  then have balance: "balance_or_0 (ledger_of (ref_store :: ref_world account_db) db) demo_hex = 12
      \<and> dom (lg_receipt (ledger_of (ref_store :: ref_world account_db) db)) = {''n1''}"
    using demo_ledger(1,3) [of "[]"]
    by (simp add: balance_or_0_def demo_world_faulty demo_credit_def demo_revoke_def)
  from acc demo_solvent have "solvent (ledger_of (ref_store :: ref_world account_db) db)" by simp
  with balance show ?thesis by blast
qed

text \<open>
  C27: A revoked key stays revoked, and no debit of it commits afterwards, whatever was read
  before the revocation.
\<close>

theorem revoked_key_is_dead:
  assumes "externals X" and "store_schema S schema" and "tables_ok S db"
    and "ledger_steps X S schema db ops db'" and "revoked_at h (ledger_of S db)"
  shows "revoked_at h (ledger_of S db') \<and> (\<forall>op \<in> set ops. \<not> debits_key X h op)"
  using ledger_run_revoked ledger_steps_run [OF assms(4,1,2,3)] assms(5) by blast

theorem revoked_key_is_dead_witness:
  "\<exists>db. revoked_at demo_hash_hex (ledger_of (ref_store :: ref_world account_db) db)"
proof -
  obtain db db' where h: "tables_ok ref_store db"
    "revoked_at demo_hash_hex (ledger_of (ref_store :: ref_world account_db) db)"
    "ledger_steps ref_ext (ref_store :: ref_world account_db) ref_schema db [demo_credit ''n1''] db'"
    using demo_revoked_history by blast
  from revoked_key_is_dead [OF ref_externals.externals_axioms demo_schema h(1,3,2)] show ?thesis by blast
qed

section \<open>What the stores hand out\<close>

lemma key_from_item_ok:
  assumes "externals X" and "key_from_item X it = Inr k"
  shows "key_record_ok k"
  using assms externals.id_from_hex_ok [OF assms(1)]
  by (auto simp: key_from_item_def key_record_ok_def bind_r_Inr_iff map_err_Inr_iff Let_def split: if_splits)

text \<open>
  C26: Whatever the tables hold, rows of other programs included, the stores hand out only
  well-formed records: an account has a 16-byte id, a key has a 32-byte secret hash and 16-byte ids and
  a remaining cap exactly when it is capped, and a function version has a valid name, a label,
  a 32-byte content hash and origins in normal form. A malformed row is an error, never a record.
\<close>

theorem stored_records_typed:
  assumes "externals X"
  shows "(store_account X S a w = (Inr (Some acc), w') \<longrightarrow> account_id_ok (acc_id acc))
    \<and> (store_key_by_hash X S h w = (Inr (Some k), w') \<longrightarrow> key_record_ok k)
    \<and> (store_list_keys X S a w = (Inr ms, w') \<longrightarrow> (\<forall>m \<in> set ms. key_id_ok (km_key_id m) \<and> (km_capped m \<longleftrightarrow> km_cap_remaining m \<noteq> None)))
    \<and> (catalog_resolve X D f l w = (Inr v, w') \<longrightarrow> version_ok v)"
proof (intro conjI impI ballI)
  show "account_id_ok (acc_id acc)" if "store_account X S a w = (Inr (Some acc), w')"
    using that externals.id_from_hex_ok(1) [OF assms]
    by (auto simp: store_account_def account_from_item_def bind_io_Inr_iff map_err_io_iff bind_r_Inr_iff map_err_Inr_iff
        split: option.splits)
  show "key_record_ok k" if "store_key_by_hash X S h w = (Inr (Some k), w')"
    using that key_from_item_ok [OF assms]
    by (auto simp: store_key_by_hash_def bind_io_Inr_iff map_err_io_iff bind_r_Inr_iff map_err_Inr_iff split: option.splits)
  assume "store_list_keys X S a w = (Inr ms, w')"
  then obtain items where "collect_r (\<lambda>item. bind_r (key_from_item X item) (\<lambda>k. Inr (key_meta_from k))) items = Inr ms"
    by (auto simp: store_list_keys_def bind_io_Inr_iff)
  moreover fix m assume "m \<in> set ms"
  ultimately obtain item k where "key_from_item X item = Inr k" "m = key_meta_from k"
    by (auto simp: bind_r_Inr_iff dest!: collect_r_Inr_set)
  then show "key_id_ok (km_key_id m)" "km_capped m = (km_cap_remaining m \<noteq> None)"
    using key_from_item_ok [OF assms] by (auto simp: key_record_ok_def key_meta_from_def)
next
  show "version_ok v" if "catalog_resolve X D f l w = (Inr v, w')"
    using that version_from_item_ok [OF assms]
    by (auto simp: catalog_resolve_def bind_io_Inr_iff map_err_io_iff split: option.splits)
qed

theorem stored_records_typed_witness:
  "\<exists>w' k. store_key_by_hash ref_ext ref_store demo_hash demo_world = (Inr (Some k), w') \<and> key_record_ok k"
proof -
  have calm: "rd_faults demo_world = []" by (simp add: demo_world_def empty_world_def)
  have k: "store_key_by_hash ref_ext ref_store demo_hash demo_world = (Inr (Some demo_key), demo_world)"
    using calm demo_view(2) [of "[]"]
    by (simp add: store_key_by_hash_def bind_io_def map_err_io_def ref_get_calm demo_world_faulty [symmetric]
        ref_externals.key_item_roundtrip)
  have "key_record_ok demo_key"
    by (rule stored_records_typed [OF ref_externals.externals_axioms, THEN conjunct2, THEN conjunct1, THEN mp, OF k])
  with k show ?thesis by blast
qed

end
