(* ===== verification/Accounts.thy ===== *)
theory Accounts
  imports Ref_World
begin

text \<open>
  \<open>crates/application/src/usecases/accounts.rs\<close>: opening accounts, issuing and revoking keys,
  reading an account, and buying credits. The use case runs on any \<open>AccountStore\<close> and any
  \<open>CreditSettler\<close>; the locale \<open>accounts_env\<close> puts together the ledger's contract and the fact
  that the random source and the settler do not write the ledger.
\<close>

section \<open>The use case\<close>

definition CREDIT_ATTEMPTS :: nat where
  "CREDIT_ATTEMPTS = 3"

record created_account =
  ca_account_id :: account_id
  ca_key_id :: key_id
  ca_secret :: bearer_secret
  ca_balance :: u64

record issued_key =
  ik_key_id :: key_id
  ik_secret :: bearer_secret

record account_view =
  av_account_id :: account_id
  av_balance :: u64
  av_keys :: "key_meta list"

record 'w accounts =
  ac_store :: "'w account_store"
  ac_settler :: "'w credit_settler"
  ac_credit_base :: string

definition accounts_new :: "'w account_store \<Rightarrow> 'w credit_settler \<Rightarrow> string \<Rightarrow> 'w accounts" where
  "accounts_new st settler base =
     \<lparr> ac_store = st, ac_settler = settler, ac_credit_base = trim_end_matches CHR ''/'' base \<rparr>"

fun outcome_balance :: "credit_outcome \<Rightarrow> u64" where
  "outcome_balance (Applied b) = b"
| "outcome_balance (Replay b) = b"

text \<open>\<open>impl From<StoreError> for AppError\<close>.\<close>

fun app_of_store :: "ext \<Rightarrow> store_error \<Rightarrow> app_error" where
  "app_of_store X StoreUnauthorized = Unauthorized"
| "app_of_store X StoreNotFound = NotFound ''account''"
| "app_of_store X (StoreInsufficient a balance cost cap) =
     InsufficientCredits cost balance (''/accounts/'' @ account_id_to_hex X a @ ''/credit'') cap"
| "app_of_store X (StoreStorage msg) = Storage msg"

definition accounts_create :: "ext \<Rightarrow> 'w rng \<Rightarrow> 'w accounts \<Rightarrow> ('w, app_error, created_account) io" where
  "accounts_create X rng A =
     bind_io (map_err_io Domain (account_open rng)) (\<lambda>account.
     bind_io (map_err_io Domain (new_key_issue X rng (acc_id account) None)) (\<lambda>issued.
     bind_io (map_err_io (app_of_store X) (st_create (ac_store A) account (nk_record issued))) (\<lambda>_.
     ret \<lparr> ca_account_id = acc_id account, ca_key_id = kr_key_id (nk_record issued),
           ca_secret = nk_secret issued, ca_balance = 0 \<rparr>)))"

definition presented_key ::
  "ext \<Rightarrow> 'w accounts \<Rightarrow> bearer_secret option \<Rightarrow> ('w, app_error, key_record option) io" where
  "presented_key X A bearer =
     (case bearer of
        None \<Rightarrow> ret None
      | Some secret \<Rightarrow> map_err_io (app_of_store X) (st_key_by_hash (ac_store A) (secret_hash_of X secret)))"

definition accounts_issue_key ::
  "ext \<Rightarrow> 'w rng \<Rightarrow> 'w accounts \<Rightarrow> account_id \<Rightarrow> bearer_secret option \<Rightarrow> u64 option
     \<Rightarrow> ('w, app_error, issued_key) io" where
  "accounts_issue_key X rng A a bearer spend_cap =
     bind_io (presented_key X A bearer) (\<lambda>presented.
     bind_io (lift_r (map_err (\<lambda>_. Unauthorized) (authorize_additional_key a presented))) (\<lambda>_.
     bind_io (map_err_io Domain (new_key_issue X rng a spend_cap)) (\<lambda>issued.
     bind_io (map_err_io (app_of_store X) (st_put_key (ac_store A) (nk_record issued))) (\<lambda>_.
     ret \<lparr> ik_key_id = kr_key_id (nk_record issued), ik_secret = nk_secret issued \<rparr>))))"

definition accounts_revoke ::
  "ext \<Rightarrow> 'w accounts \<Rightarrow> account_id \<Rightarrow> key_id \<Rightarrow> bearer_secret option \<Rightarrow> ('w, app_error, unit) io" where
  "accounts_revoke X A a kid bearer =
     bind_io (presented_key X A bearer) (\<lambda>presented.
     bind_io (lift_r (map_err (\<lambda>_. Unauthorized) (authorize_additional_key a presented))) (\<lambda>_.
     bind_io (map_err_io (app_of_store X) (st_account (ac_store A) a)) (\<lambda>before.
     bind_io (map_err_io (app_of_store X) (st_revoke (ac_store A) a kid)) (\<lambda>_.
     bind_io (map_err_io (app_of_store X) (st_account (ac_store A) a)) (\<lambda>after.
     if map_option acc_balance before \<noteq> map_option acc_balance after
     then throw (Storage ''revoke changed the invoke-credit balance'') else ret ())))))"

definition accounts_read :: "ext \<Rightarrow> 'w accounts \<Rightarrow> bearer_secret \<Rightarrow> ('w, app_error, account_view) io" where
  "accounts_read X A bearer =
     bind_io (presented_key X A (Some bearer)) (\<lambda>presented.
     bind_io (lift_r (ok_or Unauthorized presented)) (\<lambda>key.
     if kr_revoked key then throw Unauthorized
     else
       bind_io (map_err_io (app_of_store X) (st_account (ac_store A) (kr_account_id key))) (\<lambda>found.
       bind_io (lift_r (ok_or (NotFound (account_id_to_hex X (kr_account_id key))) found)) (\<lambda>account.
       bind_io (map_err_io (app_of_store X) (st_list_keys (ac_store A) (kr_account_id key))) (\<lambda>keys.
       ret \<lparr> av_account_id = acc_id account, av_balance = acc_balance account, av_keys = keys \<rparr>)))))"

text \<open>
  The retry loop of \<open>credit_settled\<close>: storage errors are retried while fewer than
  \<open>CREDIT_ATTEMPTS\<close> attempts have been made.
\<close>

function credit_loop ::
  "ext \<Rightarrow> 'w accounts \<Rightarrow> account_id \<Rightarrow> u64 \<Rightarrow> string \<Rightarrow> nat \<Rightarrow> ('w, app_error, u64) io" where
  "credit_loop X A a invokes nonce attempt w =
     (case st_credit (ac_store A) a invokes nonce w of
        (Inr outcome, w') \<Rightarrow> (Inr (outcome_balance outcome), w')
      | (Inl (StoreStorage msg), w') \<Rightarrow>
          if attempt + 1 < CREDIT_ATTEMPTS then credit_loop X A a invokes nonce (attempt + 1) w'
          else (Inl (app_of_store X (StoreStorage msg)), w')
      | (Inl err, w') \<Rightarrow> (Inl (app_of_store X err), w'))"
  by pat_completeness auto
termination
  by (relation "measure (\<lambda>(X, A, a, invokes, nonce, attempt, w). CREDIT_ATTEMPTS - attempt)") auto

declare credit_loop.simps [simp del]

definition credit_settled ::
  "ext \<Rightarrow> 'w accounts \<Rightarrow> account_id \<Rightarrow> u64 \<Rightarrow> string \<Rightarrow> ('w, app_error, u64) io" where
  "credit_settled X A a invokes nonce = credit_loop X A a invokes nonce 0"

definition accounts_credit ::
  "ext \<Rightarrow> 'w accounts \<Rightarrow> account_id \<Rightarrow> u64 \<Rightarrow> string option \<Rightarrow> ('w, app_error, u64) io" where
  "accounts_credit X A a invokes payment_header =
     (if invokes = 0 then throw (BadRequest ''invokes must be a positive number'')
      else case (case payment_header of Some h \<Rightarrow> if h \<noteq> [] then Some h else None | None \<Rightarrow> None) of
        None \<Rightarrow>
          bind_io (cs_challenge (ac_settler A) a invokes) (\<lambda>c.
          throw (PaymentChallenge (pc_invokes c) (pc_amount c) (pc_asset c) (pc_pay_to c)
                   (pc_resource c) (pc_network c)))
      | Some header \<Rightarrow>
          bind_io (cs_payment_nonce (ac_settler A) invokes header) (\<lambda>nonce.
          bind_io (map_err_io (app_of_store X) (st_credited_balance (ac_store A) a nonce)) (\<lambda>credited.
          case credited of
            Some balance \<Rightarrow> ret balance
          | None \<Rightarrow>
              bind_io (cs_settle (ac_settler A) a invokes header) (\<lambda>nonce.
              credit_settled X A a invokes nonce))))"

definition credit_url :: "ext \<Rightarrow> 'w accounts \<Rightarrow> account_id \<Rightarrow> string" where
  "credit_url X A a = ac_credit_base A @ ''/accounts/'' @ account_id_to_hex X a @ ''/credit''"

text \<open>
  The attempts of the loop: every one but the last ended in a storage error, the last one gives the
  answer, and a storage error is the answer of the last allowed attempt only.
\<close>

lemma credit_loop_attempts:
  "credit_loop X A a v nn attempt w = (r, w') \<Longrightarrow> attempt < 3 \<Longrightarrow>
     \<exists>n ws r1. attempt + n < 3 \<and> ws 0 = w
       \<and> (\<forall>i < n. \<exists>msg. st_credit (ac_store A) a v nn (ws i) = (Inl (StoreStorage msg), ws (Suc i)))
       \<and> st_credit (ac_store A) a v nn (ws n) = (r1, w')
       \<and> r = (case r1 of Inr out \<Rightarrow> Inr (outcome_balance out) | Inl e \<Rightarrow> Inl (app_of_store X e))
       \<and> ((\<exists>msg. r1 = Inl (StoreStorage msg)) \<longrightarrow> attempt + n = 2)"
proof (induction "3 - attempt" arbitrary: attempt w rule: less_induct)
  case less
  obtain r1 w1 where c: "st_credit (ac_store A) a v nn w = (r1, w1)" by fastforce
  show ?case
  proof (cases "\<exists>msg. r1 = Inl (StoreStorage msg) \<and> attempt + 1 < 3")
    case True
    then have "credit_loop X A a v nn (attempt + 1) w1 = (r, w')"
      using less.prems(1) c by (auto simp: credit_loop.simps [of X A a v nn attempt] CREDIT_ATTEMPTS_def)
    moreover have "3 - (attempt + 1) < 3 - attempt" "attempt + 1 < 3" using True by auto
    ultimately obtain n ws r2 where n: "attempt + 1 + n < 3" "ws 0 = w1"
      "\<forall>i < n. \<exists>msg. st_credit (ac_store A) a v nn (ws i) = (Inl (StoreStorage msg), ws (Suc i))"
      "st_credit (ac_store A) a v nn (ws n) = (r2, w')"
      "r = (case r2 of Inr out \<Rightarrow> Inr (outcome_balance out) | Inl e \<Rightarrow> Inl (app_of_store X e))"
      "(\<exists>msg. r2 = Inl (StoreStorage msg)) \<longrightarrow> attempt + 1 + n = 2"
      using less.hyps by blast
    let ?ws = "case_nat w ws"
    have "\<exists>msg. st_credit (ac_store A) a v nn (?ws i) = (Inl (StoreStorage msg), ?ws (Suc i))" if "i < Suc n" for i
      using that n(2,3) c True by (cases i) auto
    with n show ?thesis by (intro exI [of _ "Suc n"] exI [of _ ?ws] exI [of _ r2]) auto
  next
    case False
    then have "r = (case r1 of Inr out \<Rightarrow> Inr (outcome_balance out) | Inl e \<Rightarrow> Inl (app_of_store X e)) \<and> w' = w1"
      using less.prems(1) c
      by (auto simp: credit_loop.simps [of X A a v nn attempt] CREDIT_ATTEMPTS_def split: sum.splits store_error.splits if_splits)
    with False c less.prems(2) show ?thesis
      by (intro exI [of _ 0] exI [of _ "\<lambda>_. w"] exI [of _ r1]) auto
  qed
qed

text \<open>
  Who may manage the keys of an account: the presenter of a secret whose key the store reads as
  unrevoked, and which in the ledger is an uncapped key of the account.
\<close>

definition manages ::
  "ext \<Rightarrow> 'w accounts \<Rightarrow> ('w \<Rightarrow> ledger) \<Rightarrow> account_id \<Rightarrow> bearer_secret option \<Rightarrow> 'w \<Rightarrow> bool" where
  "manages X A led a bearer w \<longleftrightarrow>
     (\<exists>secret k w1 lk. bearer = Some secret
        \<and> st_key_by_hash (ac_store A) (secret_hash_of X secret) w = (Inr (Some k), w1) \<and> \<not> kr_revoked k
        \<and> lg_key (led w) (secret_hash_to_hex X (secret_hash_of X secret)) = Some lk
        \<and> lk_owner lk = account_id_to_hex X a \<and> lk_cap lk = None)"

section \<open>The environment\<close>

locale accounts_env =
  led: account_ledger X "ac_store A" led inv + rng: rng_fills rng + ext: externals X
  for X :: ext and A :: "'w accounts" and led :: "'w \<Rightarrow> ledger" and inv :: "'w \<Rightarrow> bool" and rng :: "'w rng" +
  assumes rng_frame: "frames inv led (rng n)"
    and challenge_frame: "frames inv led (cs_challenge (ac_settler A) a v)"
    and nonce_frame: "frames inv led (cs_payment_nonce (ac_settler A) v hdr)"
    and settle_frame: "frames inv led (cs_settle (ac_settler A) a v hdr)"
begin

lemma random_bytes_frame: "frames inv led (random_bytes rng n)"
  unfolding random_bytes_def by (rule frames_map_err, rule rng_frame)

lemma account_open_frame: "frames inv led (account_open rng)"
  unfolding account_open_def account_id_generate_def by (auto intro!: random_bytes_frame)

lemma new_key_frame: "frames inv led (new_key_issue X rng a cap)"
  unfolding new_key_issue_def bearer_generate_def key_id_generate_def
  by (auto intro!: random_bytes_frame frames_bind split: option.split)

lemma presented_frame: "frames inv led (presented_key X A bearer)"
  unfolding presented_key_def
  using led.key_by_hash_reads by (auto intro!: framesI [of inv "st_key_by_hash _ _"] split: option.split)

text \<open>A presented bearer that may act for \<open>a\<close> is one that manages it.\<close>

lemma presented_owner:
  assumes "inv w" and "presented_key X A bearer w = (Inr presented, w')"
    and "authorize_additional_key a presented = Inr ()"
  shows "manages X A led a bearer w"
proof -
  obtain k where k: "presented = Some k" "\<not> kr_revoked k" "\<not> kr_capped k" "kr_account_id k = a"
    using assms(3) by (auto simp: authorize_additional_key_iff)
  with assms(2) obtain secret where s: "bearer = Some secret"
    "st_key_by_hash (ac_store A) (secret_hash_of X secret) w = (Inr (Some k), w')"
    by (auto simp: presented_key_def map_err_io_iff split: option.splits)
  with led.key_by_hash_owner [OF assms(1) s(2)] k show ?thesis by (auto simp: manages_def)
qed

section \<open>Buying credits\<close>

lemma credit_step:
  assumes "inv w" and "st_credit (ac_store A) a v nn w = (r, w')"
  shows "inv w' \<and> once X (OpCredit a v nn) (led w) (led w')
     \<and> (\<forall>out. r = Inr out \<longrightarrow> nn \<in> dom (lg_receipt (led w')))"
proof -
  have "nn \<in> dom (lg_receipt (led w'))" if "r = Inr out" for out
  proof (cases out)
    case (Applied b)
    with led.credit_law [OF assms] that show ?thesis using once_receipt by blast
  next
    case (Replay b)
    with led.credit_law [OF assms] that show ?thesis by simp
  qed
  with led.credit_law [OF assms] show ?thesis by blast
qed

lemma credit_loop_law:
  "inv w \<Longrightarrow> credit_loop X A a v nn attempt w = (r, w') \<Longrightarrow>
     inv w' \<and> once X (OpCredit a v nn) (led w) (led w')
     \<and> (\<forall>b. r = Inr b \<longrightarrow> nn \<in> dom (lg_receipt (led w')))"
proof (induction "CREDIT_ATTEMPTS - attempt" arbitrary: attempt w rule: less_induct)
  case less
  obtain r1 w1 where c: "st_credit (ac_store A) a v nn w = (r1, w1)" by fastforce
  note step = credit_step [OF less.prems(1) c]
  show ?case
  proof (cases "\<exists>msg. r1 = Inl (StoreStorage msg) \<and> attempt + 1 < CREDIT_ATTEMPTS")
    case True
    then have run: "credit_loop X A a v nn (attempt + 1) w1 = (r, w')"
      and lt: "CREDIT_ATTEMPTS - (attempt + 1) < CREDIT_ATTEMPTS - attempt"
      using less.prems(2) c by (auto simp: credit_loop.simps [of X A a v nn attempt])
    have "inv w1" using step by blast
    from less.hyps [OF lt this run] step show ?thesis using once_trans by blast
  next
    case False
    then have "w' = w1" "(\<exists>b. r = Inr b) \<longrightarrow> (\<exists>out. r1 = Inr out)"
      using less.prems(2) c
      by (auto simp: credit_loop.simps [of X A a v nn attempt] split: sum.splits store_error.splits if_splits)
    with step show ?thesis by blast
  qed
qed

lemma credit_law:
  assumes "inv w" and "accounts_credit X A a v hdr w = (r, w')"
  shows "inv w' \<and>
     (led w' = led w \<and> (\<forall>b. r = Inr b \<longrightarrow>
          (\<exists>h nn w1. hdr = Some h \<and> cs_payment_nonce (ac_settler A) v h w = (Inr nn, w1)
             \<and> st_credited_balance (ac_store A) a nn w1 = (Inr (Some b), w') \<and> nn \<in> dom (lg_receipt (led w'))))
      \<or> (\<exists>h nn w1 w2 nn' w3. hdr = Some h \<and> cs_payment_nonce (ac_settler A) v h w = (Inr nn, w1)
           \<and> st_credited_balance (ac_store A) a nn w1 = (Inr None, w2)
           \<and> cs_settle (ac_settler A) a v h w2 = (Inr nn', w3) \<and> credit_settled X A a v nn' w3 = (r, w')
           \<and> once X (OpCredit a v nn') (led w) (led w')
           \<and> (\<forall>b. r = Inr b \<longrightarrow> nn' \<in> dom (lg_receipt (led w')))))"
proof (cases "v \<noteq> 0 \<and> (\<exists>h. hdr = Some h \<and> h \<noteq> [])")
  case False
  have "frames inv led (accounts_credit X A a v hdr) \<and> (\<forall>b. r \<noteq> Inr b)"
  proof
    show "frames inv led (accounts_credit X A a v hdr)"
      using False by (cases hdr) (auto simp: accounts_credit_def intro!: challenge_frame)
    show "\<forall>b. r \<noteq> Inr b"
      using False assms(2) by (cases hdr) (auto simp: accounts_credit_def bind_io_Inr_iff split: if_splits)
  qed
  then have "led w' = led w \<and> inv w'" "\<forall>b. r \<noteq> Inr b" using framesD assms by metis+
  then show ?thesis by blast
next
  case True
  then obtain h where h: "hdr = Some h" "h \<noteq> []" "v \<noteq> 0" by blast
  obtain r1 w1 where n: "cs_payment_nonce (ac_settler A) v h w = (r1, w1)" by fastforce
  have w1: "led w1 = led w" "inv w1" using framesD [OF nonce_frame assms(1) n] by auto
  show ?thesis
  proof (cases r1)
    case (Inl e)
    with assms(2) h n w1 show ?thesis by (auto simp: accounts_credit_def bind_io_step)
  next
    case nn: (Inr nn)
    obtain r2 w2 where cb: "st_credited_balance (ac_store A) a nn w1 = (r2, w2)" by fastforce
    have w2: "led w2 = led w" "inv w2" "\<forall>b. r2 = Inr (Some b) \<longrightarrow> nn \<in> dom (lg_receipt (led w))"
      using led.credited_balance_reads [OF w1(2) cb] w1(1) by auto
    have rest: "(r, w') = (case r2 of
        Inl e \<Rightarrow> (Inl (app_of_store X e), w2)
      | Inr (Some b) \<Rightarrow> (Inr b, w2)
      | Inr None \<Rightarrow> bind_io (cs_settle (ac_settler A) a v h) (\<lambda>nn. credit_settled X A a v nn) w2)"
      using assms(2) h n nn cb
      by (auto simp: accounts_credit_def bind_io_step map_err_io_step split: sum.splits option.splits)
    show ?thesis
    proof (cases "r2 = Inr None")
      case False
      with rest w2 h(1) n nn cb show ?thesis by (auto split: sum.splits option.splits)
    next
      case True
      obtain r3 w3 where st: "cs_settle (ac_settler A) a v h w2 = (r3, w3)" by fastforce
      have w3: "led w3 = led w" "inv w3" using framesD [OF settle_frame w2(2) st] w2(1) by auto
      show ?thesis
      proof (cases r3)
        case (Inl e)
        with rest True st w3 show ?thesis by (auto simp: bind_io_step)
      next
        case (Inr nn2)
        then have run: "credit_settled X A a v nn2 w3 = (r, w')"
          using rest True st by (simp add: bind_io_step)
        note law = credit_loop_law [OF w3(2) run [unfolded credit_settled_def]]
        have "hdr = Some h \<and> cs_payment_nonce (ac_settler A) v h w = (Inr nn, w1)
           \<and> st_credited_balance (ac_store A) a nn w1 = (Inr None, w2)
           \<and> cs_settle (ac_settler A) a v h w2 = (Inr nn2, w3) \<and> credit_settled X A a v nn2 w3 = (r, w')
           \<and> once X (OpCredit a v nn2) (led w) (led w')
           \<and> (\<forall>b. r = Inr b \<longrightarrow> nn2 \<in> dom (lg_receipt (led w')))"
          using law w3(1) h(1) n nn cb True st Inr run by simp
        with law show ?thesis by blast
      qed
    qed
  qed
qed

section \<open>Keys\<close>

lemma issue_key_law:
  assumes "inv w" and "account_id_ok a" and "accounts_issue_key X rng A a bearer cap w = (r, w')"
  shows "inv w' \<and> (led w' = led w \<and> (\<forall>ik. r \<noteq> Inr ik) \<or>
     manages X A led a bearer w
     \<and> (\<exists>k. op_spec X (OpPutKey k) (led w) = Some (led w')
          \<and> key_record_ok k \<and> kr_account_id k = a \<and> kr_cap_remaining k = cap \<and> \<not> kr_revoked k
          \<and> (\<forall>ik. r = Inr ik \<longrightarrow> kr_secret_hash k = secret_hash_of X (ik_secret ik) \<and> kr_key_id k = ik_key_id ik)))"
proof -
  obtain r1 w1 where p: "presented_key X A bearer w = (r1, w1)" by fastforce
  have w1: "led w1 = led w" "inv w1" using framesD [OF presented_frame assms(1) p] by auto
  show ?thesis
  proof (cases "\<exists>pr. r1 = Inr pr \<and> authorize_additional_key a pr = Inr ()")
    case False
    then have "w' = w1 \<and> (\<exists>e. r = Inl e)"
      using assms(3) p by (cases r1; cases "authorize_additional_key a (projr r1)")
        (auto simp: accounts_issue_key_def bind_io_step)
    with w1 show ?thesis by auto
  next
    case True
    then obtain pr where pr: "r1 = Inr pr" "authorize_additional_key a pr = Inr ()" by blast
    have own: "manages X A led a bearer w"
      using presented_owner [OF assms(1)] p pr by blast
    obtain r2 w2 where n: "new_key_issue X rng a cap w1 = (r2, w2)" by fastforce
    have w2: "led w2 = led w" "inv w2" using framesD [OF new_key_frame w1(2) n] w1(1) by auto
    show ?thesis
    proof (cases r2)
      case (Inl e)
      with assms(3) p pr n w2 show ?thesis
        by (auto simp: accounts_issue_key_def bind_io_step map_err_io_step)
    next
      case (Inr nk)
      note ok = ext.new_key_issue_ok [OF rng.rng_fills_axioms assms(2) n [unfolded Inr]]
      obtain r3 w3 where pk: "st_put_key (ac_store A) (nk_record nk) w2 = (r3, w3)" by fastforce
      have opok: "op_ok (OpPutKey (nk_record nk))" using ok(1) by (simp add: key_record_ok_def)
      note law = led.put_key_law [OF w2(2) opok pk]
      have "w' = w3" "\<forall>ik. r = Inr ik \<longrightarrow> r3 = Inr () \<and> ik_secret ik = nk_secret nk \<and> ik_key_id ik = kr_key_id (nk_record nk)"
        using assms(3) p pr n Inr pk
        by (cases r3; auto simp: accounts_issue_key_def bind_io_step map_err_io_step)+
      with law own ok w2(1) show ?thesis unfolding once_def by metis
    qed
  qed
qed

lemma revoke_law:
  assumes "inv w" and "accounts_revoke X A a kid bearer w = (r, w')"
  shows "inv w' \<and> (led w' = led w \<and> r \<noteq> Inr () \<or>
     manages X A led a bearer w \<and> (\<exists>h. op_spec X (OpRevoke a h) (led w) = Some (led w')))"
proof -
  obtain r1 w1 where p: "presented_key X A bearer w = (r1, w1)" by fastforce
  have w1: "led w1 = led w" "inv w1" using framesD [OF presented_frame assms(1) p] by auto
  show ?thesis
  proof (cases "\<exists>pr. r1 = Inr pr \<and> authorize_additional_key a pr = Inr ()")
    case False
    then have "w' = w1 \<and> (\<exists>e. r = Inl e)"
      using assms(2) p by (cases r1; cases "authorize_additional_key a (projr r1)")
        (auto simp: accounts_revoke_def bind_io_step)
    with w1 show ?thesis by auto
  next
    case True
    then obtain pr where pr: "r1 = Inr pr" "authorize_additional_key a pr = Inr ()" by blast
    have own: "manages X A led a bearer w"
      using presented_owner [OF assms(1)] p pr by blast
    obtain r2 w2 where b: "st_account (ac_store A) a w1 = (r2, w2)" by fastforce
    have w2: "led w2 = led w" "inv w2" using led.account_reads [OF w1(2) b] w1(1) by auto
    show ?thesis
    proof (cases r2)
      case (Inl e)
      with assms(2) p pr b w2 show ?thesis
        by (auto simp: accounts_revoke_def bind_io_step map_err_io_step)
    next
      case (Inr before)
      obtain r3 w3 where rv: "st_revoke (ac_store A) a kid w2 = (r3, w3)" by fastforce
      note law = led.revoke_law [OF w2(2) rv]
      obtain r4 w4 where af: "st_account (ac_store A) a w3 = (r4, w4)" by fastforce
      have w4: "led w4 = led w3" "inv w4" using led.account_reads [OF _ af] law by auto
      have "(w' = w3 \<or> w' = w4) \<and> (r = Inr () \<longrightarrow> r3 = Inr ())"
        using assms(2) p pr b Inr rv af
        by (cases r3; cases r4) (auto simp: accounts_revoke_def bind_io_step map_err_io_step split: if_splits)
      with law w4 w2(1) own show ?thesis by metis
    qed
  qed
qed

end

end
