(* ===== verification/Json.thy ===== *)
theory Json
  imports Rust_Str
begin

text \<open>
  \<open>serde_json::Value\<close> as the program inspects it: the value tree with the accessors \<open>get\<close>,
  \<open>as_str\<close>, \<open>as_bool\<close> and \<open>as_u64\<close>. Parsing and printing JSON text is the crate's work and a
  parameter of the definitions that use it: a record of \<open>to_vec\<close> and \<open>from_slice\<close>, whose contract
  is the locale \<open>json_codec\<close>. A document keeps its fields in the order of the text, repeated names
  included; in a \<open>Value\<close> the last field of a name counts. The order of the fields the program
  writes is not observed.
\<close>

datatype json_number = JPos u64 | JNeg int | JFloat string

datatype json =
    JNull
  | JBool bool
  | JNumber json_number
  | JString string
  | JArray "json list"
  | JObject "(string \<times> json) list"

fun json_get :: "string \<Rightarrow> json \<Rightarrow> json option" where
  "json_get k (JObject fields) = map_of (rev fields) k"
| "json_get k _ = None"

fun json_as_str :: "json \<Rightarrow> string option" where
  "json_as_str (JString s) = Some s"
| "json_as_str _ = None"

fun json_as_bool :: "json \<Rightarrow> bool option" where
  "json_as_bool (JBool b) = Some b"
| "json_as_bool _ = None"

fun json_as_u64 :: "json \<Rightarrow> u64 option" where
  "json_as_u64 (JNumber (JPos n)) = Some n"
| "json_as_u64 _ = None"

fun json_as_array :: "json \<Rightarrow> json list option" where
  "json_as_array (JArray xs) = Some xs"
| "json_as_array _ = None"

section \<open>The text\<close>

record json_text =
  jt_to_vec :: "json \<Rightarrow> string + bytes"
  jt_from_slice :: "bytes \<Rightarrow> string + json"
  jt_shape_error :: "string \<Rightarrow> json \<Rightarrow> string"

text \<open>
  The documents that come back unchanged: the strings are UTF-8, as every Rust string is, and
  no number is a float, whose text need not be read back exactly.
\<close>

fun json_ok :: "json \<Rightarrow> bool" where
  "json_ok (JNumber (JPos _)) = True"
| "json_ok (JNumber (JNeg i)) = (i < 0)"
| "json_ok (JNumber (JFloat _)) = False"
| "json_ok (JString s) = utf8_valid s"
| "json_ok (JArray xs) = list_all json_ok xs"
| "json_ok (JObject kvs) = list_all (\<lambda>(k, v). utf8_valid k \<and> json_ok v) kvs"
| "json_ok _ = True"

locale json_codec =
  fixes J :: json_text
  assumes to_vec_total: "json_ok j \<Longrightarrow> \<exists>b. jt_to_vec J j = Inr b"
    and from_to: "json_ok j \<Longrightarrow> jt_to_vec J j = Inr b \<Longrightarrow> jt_from_slice J b = Inr j"
    and to_vec_utf8: "json_ok j \<Longrightarrow> jt_to_vec J j = Inr b \<Longrightarrow> utf8_valid b"

end
