(* ===== verification/Payments.thy ===== *)
theory Payments
  imports Ref_World Json
begin

text \<open>
  \<open>crates/payments/src/lib.rs\<close> and \<open>settler.rs\<close>: the local x402 \<open>exact\<close> check of a payment and
  its settlement through a facilitator. The facilitator's HTTP endpoint, the clock, the JSON
  parser and the texts of decoding errors are parameters.
\<close>

section \<open>The local check\<close>

datatype payment_error =
    PayInvalid string
  | PayAmount u64 u64
  | PayRecipient
  | PayAsset
  | PayExpired
  | PayNonce
  | PaySettle string

fun show_payment_error :: "payment_error \<Rightarrow> string" where
  "show_payment_error (PayInvalid s) = ''invalid payment: '' @ s"
| "show_payment_error (PayAmount got expected) =
     ''payment amount '' @ show_u64 got @ '' does not equal '' @ show_u64 expected @ '' atomic USDC''"
| "show_payment_error PayRecipient = ''payment recipient does not match the platform''"
| "show_payment_error PayAsset = ''payment asset does not match USDC''"
| "show_payment_error PayExpired = ''payment expired''"
| "show_payment_error PayNonce = ''payment nonce missing''"
| "show_payment_error (PaySettle s) = ''settle failed: '' @ s"

definition due_usdc :: "u64 \<Rightarrow> u64 \<Rightarrow> payment_error + u64" where
  "due_usdc invokes usdc_per_invoke =
     ok_or (PayInvalid ''USDC amount overflow'') (checked_mul_u64 invokes usdc_per_invoke)"

record exact_authorization =
  ea_value :: u64
  ea_asset :: string
  ea_pay_to :: string
  ea_valid_before :: u64
  ea_nonce :: string

record exact_requirements =
  er_amount :: u64
  er_asset :: string
  er_pay_to :: string

definition eq_addr :: "string \<Rightarrow> string \<Rightarrow> bool" where
  "eq_addr left right = eq_ignore_ascii_case (trim left) (trim right)"

definition check_exact :: "exact_authorization \<Rightarrow> exact_requirements \<Rightarrow> u64 \<Rightarrow> payment_error + unit" where
  "check_exact auth expected now_unix =
     (if trim (ea_nonce auth) = [] then Inl PayNonce
      else if ea_valid_before auth \<le> now_unix then Inl PayExpired
      else if \<not> eq_addr (ea_asset auth) (er_asset expected) then Inl PayAsset
      else if \<not> eq_addr (ea_pay_to auth) (er_pay_to expected) then Inl PayRecipient
      else if ea_value auth \<noteq> er_amount expected then Inl (PayAmount (ea_value auth) (er_amount expected))
      else Inr ())"

definition apply_after_settle :: "('w, 'e, unit) io \<Rightarrow> 'e + 'a \<Rightarrow> ('w, 'e, 'a) io" where
  "apply_after_settle settle credit = bind_io settle (\<lambda>_. lift_r credit)"

section \<open>Parsing a payment header\<close>

record json_ext =
  jx_parse :: "string \<Rightarrow> string + json"
  jx_b64_error :: "string \<Rightarrow> string"
  jx_utf8_error :: "bytes \<Rightarrow> string"

definition json_str :: "json option \<Rightarrow> string option" where
  "json_str v = (case v of None \<Rightarrow> None | Some j \<Rightarrow> json_as_str j)"

definition json_u64 :: "json option \<Rightarrow> u64 option" where
  "json_u64 v =
     (case v of
        None \<Rightarrow> None
      | Some (JString s) \<Rightarrow> parse_u64 s
      | Some (JNumber n) \<Rightarrow> json_as_u64 (JNumber n)
      | Some _ \<Rightarrow> None)"

definition parse_payment :: "ext \<Rightarrow> json_ext \<Rightarrow> string \<Rightarrow> payment_error + exact_authorization" where
  "parse_payment X J header =
     (let raw = trim header in
      bind_r (if starts_with raw ''{'' then Inr raw
              else
                bind_r (ok_or (PayInvalid (''payment is not base64: '' @ jx_b64_error J raw)) (b64_decode X raw)) (\<lambda>b.
                if utf8_valid b then Inr b
                else Inl (PayInvalid (''payment is not utf-8: '' @ jx_utf8_error J b)))) (\<lambda>text.
      bind_r (map_err (\<lambda>e. PayInvalid (''payment json: '' @ e)) (jx_parse J text)) (\<lambda>value.
      bind_r (ok_or (PayInvalid ''missing payload.authorization'')
                (case json_get ''payload'' value of None \<Rightarrow> None | Some p \<Rightarrow> json_get ''authorization'' p)) (\<lambda>auth.
      bind_r (ok_or (PayInvalid ''authorization.value'') (json_u64 (json_get ''value'' auth))) (\<lambda>value_units.
      bind_r (ok_or (PayInvalid ''authorization.to'') (json_str (json_get ''to'' auth))) (\<lambda>pay_to.
      bind_r (ok_or (PayInvalid ''authorization.validBefore'') (json_u64 (json_get ''validBefore'' auth))) (\<lambda>valid_before.
      bind_r (ok_or (PayInvalid ''authorization.nonce'') (json_str (json_get ''nonce'' auth))) (\<lambda>nonce.
      bind_r (ok_or (PayInvalid ''missing asset'')
                (case json_str (json_get ''asset'' value) of
                   Some s \<Rightarrow> Some s | None \<Rightarrow> json_str (json_get ''asset'' auth))) (\<lambda>asset.
      let scheme = (case json_str (json_get ''scheme'' value) of Some s \<Rightarrow> s | None \<Rightarrow> []) in
      if scheme \<noteq> ''exact'' then Inl (PayInvalid (''scheme '' @ scheme @ '' is not exact''))
      else Inr \<lparr> ea_value = value_units, ea_asset = asset, ea_pay_to = pay_to,
                 ea_valid_before = valid_before, ea_nonce = nonce \<rparr>)))))))))"

section \<open>The facilitator\<close>

text \<open>\<open>Facilitator::settle_exact(header, requirements, network, resource)\<close>.\<close>

type_synonym 'w facilitator =
  "string \<Rightarrow> exact_requirements \<Rightarrow> string \<Rightarrow> string \<Rightarrow> ('w, payment_error, unit) io"

record http_reply =
  hr_status :: nat
  hr_status_text :: string
  hr_json :: "string + json"

record 'w http_facilitator =
  hf_post :: "string \<Rightarrow> json \<Rightarrow> ('w, string, http_reply) io"
  hf_base_url :: string

definition settle_body :: "string \<Rightarrow> exact_requirements \<Rightarrow> string \<Rightarrow> string \<Rightarrow> json" where
  "settle_body payment_header requirements network resource =
     JObject
       [(''x402Version'', JNumber (JPos 1)),
        (''paymentHeader'', JString payment_header),
        (''paymentRequirements'',
          JObject [(''scheme'', JString ''exact''), (''network'', JString network),
                   (''maxAmountRequired'', JString (show_u64 (er_amount requirements))),
                   (''payTo'', JString (er_pay_to requirements)),
                   (''asset'', JString (er_asset requirements)),
                   (''resource'', JString resource)])]"

definition http_settle_exact :: "'w http_facilitator \<Rightarrow> 'w facilitator" where
  "http_settle_exact F payment_header requirements network resource =
     bind_io (map_err_io PaySettle
       (hf_post F (hf_base_url F @ ''/settle'') (settle_body payment_header requirements network resource))) (\<lambda>response.
     if \<not> (200 \<le> hr_status response \<and> hr_status response < 300) then
       throw (PaySettle (''facilitator status '' @ hr_status_text response))
     else
       bind_io (lift_r (map_err PaySettle (hr_json response))) (\<lambda>parsed.
       if (case json_get ''success'' parsed of None \<Rightarrow> None | Some v \<Rightarrow> json_as_bool v) \<noteq> Some True then
         throw (PaySettle
           (case (case json_get ''errorReason'' parsed of None \<Rightarrow> None | Some v \<Rightarrow> json_as_str v) of
              Some s \<Rightarrow> s | None \<Rightarrow> ''facilitator rejected the payment''))
       else ret ()))"

section \<open>The settler\<close>

record 'w x402_settler =
  xs_facilitator :: "'w facilitator"
  xs_usdc_per_invoke :: u64
  xs_asset :: string
  xs_pay_to :: string
  xs_network :: string
  xs_credit_base :: string
  xs_now :: "'w \<Rightarrow> u64 \<times> 'w"

definition x402_settler_new ::
  "'w facilitator \<Rightarrow> u64 \<Rightarrow> string \<Rightarrow> string \<Rightarrow> string \<Rightarrow> string \<Rightarrow> ('w \<Rightarrow> u64 \<times> 'w) \<Rightarrow> 'w x402_settler" where
  "x402_settler_new facilitator usdc_per_invoke asset pay_to network credit_base now =
     \<lparr> xs_facilitator = facilitator, xs_usdc_per_invoke = usdc_per_invoke, xs_asset = asset,
       xs_pay_to = pay_to, xs_network = network,
       xs_credit_base = trim_end_matches CHR ''/'' credit_base, xs_now = now \<rparr>"

definition requirements :: "'w x402_settler \<Rightarrow> u64 \<Rightarrow> payment_error + exact_requirements" where
  "requirements P invokes =
     bind_r (due_usdc invokes (xs_usdc_per_invoke P)) (\<lambda>amount.
     Inr \<lparr> er_amount = amount, er_asset = xs_asset P, er_pay_to = xs_pay_to P \<rparr>)"

definition resource :: "ext \<Rightarrow> 'w x402_settler \<Rightarrow> account_id \<Rightarrow> string" where
  "resource X P a = xs_credit_base P @ ''/accounts/'' @ account_id_to_hex X a @ ''/credit''"

fun payment_to_app :: "payment_error \<Rightarrow> app_error" where
  "payment_to_app (PaySettle msg) = Storage (''x402 settle: '' @ msg)"
| "payment_to_app other = BadRequest (show_payment_error other)"

definition read_clock :: "('w \<Rightarrow> u64 \<times> 'w) \<Rightarrow> ('w, 'e, u64) io" where
  "read_clock now = (\<lambda>w. case now w of (t, w') \<Rightarrow> (Inr t, w'))"

definition x402_challenge ::
  "ext \<Rightarrow> 'w x402_settler \<Rightarrow> account_id \<Rightarrow> u64 \<Rightarrow> ('w, app_error, payment_challenge) io" where
  "x402_challenge X P a invokes =
     bind_io (lift_r (map_err payment_to_app (requirements P invokes))) (\<lambda>r.
     ret \<lparr> pc_invokes = invokes, pc_amount = er_amount r, pc_asset = er_asset r, pc_pay_to = er_pay_to r,
           pc_resource = resource X P a, pc_network = xs_network P \<rparr>)"

definition x402_payment_nonce ::
  "ext \<Rightarrow> json_ext \<Rightarrow> 'w x402_settler \<Rightarrow> u64 \<Rightarrow> string \<Rightarrow> ('w, app_error, string) io" where
  "x402_payment_nonce X J P invokes payment_header =
     bind_io (lift_r (map_err payment_to_app (requirements P invokes))) (\<lambda>r.
     bind_io (lift_r (map_err payment_to_app (parse_payment X J payment_header))) (\<lambda>auth.
     bind_io (read_clock (xs_now P)) (\<lambda>now.
     bind_io (lift_r (map_err payment_to_app (check_exact auth r now))) (\<lambda>_.
     ret (ea_nonce auth)))))"

definition x402_settle ::
  "ext \<Rightarrow> json_ext \<Rightarrow> 'w x402_settler \<Rightarrow> account_id \<Rightarrow> u64 \<Rightarrow> string \<Rightarrow> ('w, app_error, string) io" where
  "x402_settle X J P a invokes payment_header =
     bind_io (lift_r (map_err payment_to_app (requirements P invokes))) (\<lambda>r.
     bind_io (x402_payment_nonce X J P invokes payment_header) (\<lambda>nonce.
     map_err_io payment_to_app
       (apply_after_settle (xs_facilitator P payment_header r (xs_network P) (resource X P a)) (Inr nonce))))"

definition x402_credit_settler :: "ext \<Rightarrow> json_ext \<Rightarrow> 'w x402_settler \<Rightarrow> 'w credit_settler" where
  "x402_credit_settler X J P =
     \<lparr> cs_challenge = x402_challenge X P, cs_payment_nonce = x402_payment_nonce X J P,
       cs_settle = x402_settle X J P \<rparr>"

section \<open>Lemmas\<close>

lemma due_usdc_Inr: "due_usdc invokes price = Inr amount \<Longrightarrow> unat amount = unat invokes * unat price"
  by (simp add: due_usdc_def checked_mul_u64_Some)

lemma due_usdc_Inl:
  "due_usdc invokes price = Inl e \<longleftrightarrow> 2 ^ 64 \<le> unat invokes * unat price \<and> e = PayInvalid ''USDC amount overflow''"
  by (auto simp: due_usdc_def ok_or_Inl_iff checked_mul_u64_def)

lemma requirements_Inr:
  "requirements P invokes = Inr r \<longleftrightarrow>
     (\<exists>amount. due_usdc invokes (xs_usdc_per_invoke P) = Inr amount
        \<and> r = \<lparr> er_amount = amount, er_asset = xs_asset P, er_pay_to = xs_pay_to P \<rparr>)"
  by (auto simp: requirements_def bind_r_Inr_iff)

lemma check_exact_Inr_iff:
  "check_exact auth r now = Inr u \<longleftrightarrow>
     trim (ea_nonce auth) \<noteq> [] \<and> now < ea_valid_before auth \<and> eq_addr (ea_asset auth) (er_asset r)
     \<and> eq_addr (ea_pay_to auth) (er_pay_to r) \<and> ea_value auth = er_amount r"
  by (auto simp: check_exact_def not_le)

lemma parse_payment_exact:
  assumes "parse_payment X J header = Inr auth"
  shows "\<exists>src j. jx_parse J src = Inr j \<and> json_get ''scheme'' j = Some (JString ''exact'')"
proof -
  obtain src j where src: "jx_parse J src = Inr j"
    "(case json_str (json_get ''scheme'' j) of Some s \<Rightarrow> s | None \<Rightarrow> []) = ''exact''"
    using assms by (auto simp: parse_payment_def Let_def bind_r_Inr_iff split: if_splits)
  then have "json_str (json_get ''scheme'' j) = Some ''exact''" by (auto split: option.splits)
  then have "json_get ''scheme'' j = Some (JString ''exact'')"
    by (auto simp: json_str_def elim!: json_as_str.elims split: option.splits)
  with src(1) show ?thesis by blast
qed

lemma payment_nonce_Inr:
  "x402_payment_nonce X J P invokes header w = (Inr nonce, w') \<longleftrightarrow>
     (\<exists>r auth now. requirements P invokes = Inr r \<and> parse_payment X J header = Inr auth
        \<and> xs_now P w = (now, w') \<and> check_exact auth r now = Inr () \<and> nonce = ea_nonce auth)"
  by (auto simp: x402_payment_nonce_def bind_io_Inr_iff read_clock_def split: prod.splits)

lemma settle_Inr:
  "x402_settle X J P a invokes header w = (Inr nonce, w') \<Longrightarrow>
     \<exists>r w1. requirements P invokes = Inr r \<and> x402_payment_nonce X J P invokes header w = (Inr nonce, w1)
        \<and> xs_facilitator P header r (xs_network P) (resource X P a) w1 = (Inr (), w')"
  by (auto simp: x402_settle_def apply_after_settle_def bind_io_Inr_iff map_err_io_iff)

lemma read_clock_frames:
  "(\<And>w. P w \<Longrightarrow> v (snd (now w)) = v w \<and> P (snd (now w))) \<Longrightarrow> frames P v (read_clock now)"
  by (auto simp: read_clock_def frames_def split: prod.splits) (metis snd_conv)+

text \<open>The settler leaves alone whatever the clock and the facilitator leave alone.\<close>

lemma settler_frames:
  assumes "\<And>w. P w \<Longrightarrow> v (snd (xs_now S w)) = v w \<and> P (snd (xs_now S w))"
    and "\<And>h r n rs. frames P v (xs_facilitator S h r n rs)"
  shows "frames P v (x402_challenge X S a n)" "frames P v (x402_payment_nonce X J S n hdr)"
    "frames P v (x402_settle X J S a n hdr)"
proof -
  show nonce: "frames P v (x402_payment_nonce X J S n hdr)"
    unfolding x402_payment_nonce_def by (intro frames_bind frames_ret read_clock_frames assms(1))
  show "frames P v (x402_challenge X S a n)" unfolding x402_challenge_def by (intro frames_bind frames_ret)
  show "frames P v (x402_settle X J S a n hdr)"
    unfolding x402_settle_def apply_after_settle_def by (intro frames_bind frames_ret frames_map_err nonce assms(2))
qed

section \<open>The settler on the reference world\<close>

text \<open>
  The reference facilitator accepts a payment header once, like a chain that refuses a spent
  authorization; the reference JSON parser knows one payment.
\<close>

definition ref_facilitator :: "ref_world facilitator" where
  "ref_facilitator header r network rs w =
     (if header \<in> set (rw_settled w) then (Inl (PaySettle ''authorization used''), w)
      else (Inr (), w\<lparr> rw_settled := header # rw_settled w \<rparr>))"

definition demo_payment :: json where
  "demo_payment =
     JObject [(''scheme'', JString ''exact''), (''asset'', JString ''0xUSDC''),
       (''payload'', JObject [(''authorization'',
          JObject [(''value'', JString ''7000''), (''to'', JString ''0xPlatform''),
                   (''validBefore'', JNumber (JPos 2000000000)), (''nonce'', JString ''n1'')])])]"

definition ref_json :: json_ext where
  "ref_json = \<lparr> jx_parse = (\<lambda>s. if s = ''{demo}'' then Inr demo_payment else Inl ''eof''),
                jx_b64_error = (\<lambda>s. ''invalid''), jx_utf8_error = (\<lambda>b. ''invalid'') \<rparr>"

definition ref_settler :: "ref_world x402_settler" where
  "ref_settler = x402_settler_new ref_facilitator 1000 ''0xusdc'' ''0xplatform'' ''base'' ''https://api/''
     (\<lambda>w. (of_nat (rw_clock_ms w div 1000), w))"

lemma ref_settler_frames:
  "frames (store_invariant ref_store ref_view ref_hist) (\<lambda>w. ref_ledger w) (x402_challenge X ref_settler a n)"
  "frames (store_invariant ref_store ref_view ref_hist) (\<lambda>w. ref_ledger w) (x402_payment_nonce X J ref_settler n hdr)"
  "frames (store_invariant ref_store ref_view ref_hist) (\<lambda>w. ref_ledger w) (x402_settle X J ref_settler a n hdr)"
proof -
  have fac: "frames (store_invariant ref_store ref_view ref_hist) (\<lambda>w. ref_ledger w)
      (xs_facilitator ref_settler h r nw rs)" for h r nw rs
    by (rule framesI) (auto simp: ref_settler_def x402_settler_new_def ref_facilitator_def store_invariant_def
        ref_view_def ref_hist_def split: if_splits)
  have now: "xs_now ref_settler w = (of_nat (rw_clock_ms w div 1000), w)" for w
    by (simp add: ref_settler_def x402_settler_new_def)
  show "frames (store_invariant ref_store ref_view ref_hist) (\<lambda>w. ref_ledger w) (x402_challenge X ref_settler a n)"
    "frames (store_invariant ref_store ref_view ref_hist) (\<lambda>w. ref_ledger w) (x402_payment_nonce X J ref_settler n hdr)"
    "frames (store_invariant ref_store ref_view ref_hist) (\<lambda>w. ref_ledger w) (x402_settle X J ref_settler a n hdr)"
    using settler_frames [where S = ref_settler, OF _ fac] now by auto
qed

lemma ref_rng_frames: "frames (store_invariant ref_store ref_view ref_hist) (\<lambda>w. ref_ledger w) (ref_rng n)"
  by (rule framesI) (auto simp: ref_rng_def store_invariant_def ref_view_def ref_hist_def)

end
