(* ===== verification/Accounts_Properties.thy ===== *)
theory Accounts_Properties
  imports Accounts Payments
begin

text \<open>
  The use case of \<open>Accounts\<close> runs on the DynamoDB store and the x402 settler: the interpretation
  on the reference world, and the properties of buying credits and of managing keys.
\<close>

definition ref_accounts :: "ref_world accounts" where
  "ref_accounts = accounts_new (dynamo_account_store ref_ext ref_store)
     (x402_credit_settler ref_ext ref_json ref_settler) ''https://api''"

interpretation ref_accounts: accounts_env ref_ext ref_accounts "\<lambda>w. ref_ledger w"
    "store_invariant ref_store ref_view ref_hist" ref_rng
proof -
  have sel: "ac_store ref_accounts = dynamo_account_store ref_ext ref_store"
    "ac_settler ref_accounts = x402_credit_settler ref_ext ref_json ref_settler"
    by (simp_all add: ref_accounts_def accounts_new_def)
  show "accounts_env ref_ext ref_accounts (\<lambda>w. ref_ledger w) (store_invariant ref_store ref_view ref_hist) ref_rng"
    unfolding accounts_env_def accounts_env_axioms_def sel
    by (simp add: ref_store.dynamo_is_ledger ref_rng.rng_fills_axioms ref_externals.externals_axioms
        x402_credit_settler_def ref_settler_frames ref_rng_frames)
qed

section \<open>Payments\<close>

text \<open>
  C17: A settled payment is the payment that was asked for: \<open>settle\<close> returns a nonce only when the
  header parses as an \<open>exact\<close> payment with that nonce, for exactly \<open>invokes\<close> times the price
  (computed without overflow), in the platform's asset to the platform's address, not expired
  at the clock's reading, and the facilitator accepted this header for these requirements.
\<close>

theorem settle_sound:
  assumes "x402_settle X J P a invokes header w = (Inr nonce, w')"
  shows "\<exists>auth r now w1. parse_payment X J header = Inr auth \<and> ea_nonce auth = nonce \<and> trim nonce \<noteq> []
     \<and> unat (ea_value auth) = unat invokes * unat (xs_usdc_per_invoke P)
     \<and> eq_addr (ea_asset auth) (xs_asset P) \<and> eq_addr (ea_pay_to auth) (xs_pay_to P)
     \<and> xs_now P w = (now, w1) \<and> now < ea_valid_before auth
     \<and> er_amount r = ea_value auth \<and> er_asset r = xs_asset P \<and> er_pay_to r = xs_pay_to P
     \<and> xs_facilitator P header r (xs_network P) (resource X P a) w1 = (Inr (), w')"
proof -
  obtain r w1 where r: "requirements P invokes = Inr r"
    "x402_payment_nonce X J P invokes header w = (Inr nonce, w1)"
    "xs_facilitator P header r (xs_network P) (resource X P a) w1 = (Inr (), w')"
    using settle_Inr [OF assms] by blast
  obtain auth now where n: "parse_payment X J header = Inr auth" "xs_now P w = (now, w1)"
    "check_exact auth r now = Inr ()" "nonce = ea_nonce auth"
    using r(1,2) by (auto simp: payment_nonce_Inr)
  obtain amount where am: "due_usdc invokes (xs_usdc_per_invoke P) = Inr amount"
    "r = \<lparr> er_amount = amount, er_asset = xs_asset P, er_pay_to = xs_pay_to P \<rparr>"
    using r(1) by (auto simp: requirements_Inr)
  have "trim nonce \<noteq> []" "now < ea_valid_before auth" "eq_addr (ea_asset auth) (xs_asset P)"
    "eq_addr (ea_pay_to auth) (xs_pay_to P)" "ea_value auth = amount"
    using n(3,4) am(2) by (auto simp: check_exact_Inr_iff)
  moreover have "unat amount = unat invokes * unat (xs_usdc_per_invoke P)" by (rule due_usdc_Inr [OF am(1)])
  ultimately show ?thesis
    using n r(3) am(2) by (intro exI [of _ auth] exI [of _ r] exI [of _ now] exI [of _ w1]) simp
qed

lemma demo_payment_nonce:
  shows "rw_clock_ms w = 1700000000000 \<Longrightarrow>
      x402_payment_nonce ref_ext ref_json ref_settler 7 ''{demo}'' w = (Inr ''n1'', w)"
    and demo_parsed: "parse_payment ref_ext ref_json ''{demo}'' = Inr \<lparr> ea_value = 7000, ea_asset = ''0xUSDC'',
      ea_pay_to = ''0xPlatform'', ea_valid_before = 2000000000, ea_nonce = ''n1'' \<rparr>"
    and demo_required: "requirements ref_settler 7 = Inr \<lparr> er_amount = 7000, er_asset = ''0xusdc'', er_pay_to = ''0xplatform'' \<rparr>"
proof -
  have g: "trim ''{demo}'' = ''{demo}''" "trim ''n1'' = ''n1''" "trim ''0xUSDC'' = ''0xUSDC''"
    "trim ''0xusdc'' = ''0xusdc''" "trim ''0xPlatform'' = ''0xPlatform''" "trim ''0xplatform'' = ''0xplatform''"
    by (rule trim_graphic; auto simp: graphic_def byte_def)+
  have v: "parse_u64 ''7000'' = Some 7000"
    by (simp add: parse_u64_def parse_uint_def strip_prefix_def starts_with_def is_ascii_digit_def byte_def)
  show p: "parse_payment ref_ext ref_json ''{demo}'' = Inr \<lparr> ea_value = 7000, ea_asset = ''0xUSDC'',
      ea_pay_to = ''0xPlatform'', ea_valid_before = 2000000000, ea_nonce = ''n1'' \<rparr>"
    by (simp add: parse_payment_def g starts_with_def ref_json_def demo_payment_def json_u64_def json_str_def v)
  have e: "eq_addr ''0xUSDC'' ''0xusdc''" "eq_addr ''0xPlatform'' ''0xplatform''"
    unfolding eq_addr_def g by code_simp+
  show r: "requirements ref_settler 7 = Inr \<lparr> er_amount = 7000, er_asset = ''0xusdc'', er_pay_to = ''0xplatform'' \<rparr>"
    by (simp add: requirements_def due_usdc_def checked_mul_u64_def ref_settler_def x402_settler_new_def)
  have t: "xs_now ref_settler w = (1700000000, w)"
    if "rw_clock_ms w = 1700000000000"
    using that by (simp add: ref_settler_def x402_settler_new_def)
  have c: "check_exact \<lparr> ea_value = 7000, ea_asset = ''0xUSDC'', ea_pay_to = ''0xPlatform'',
      ea_valid_before = 2000000000, ea_nonce = ''n1'' \<rparr>
      \<lparr> er_amount = 7000, er_asset = ''0xusdc'', er_pay_to = ''0xplatform'' \<rparr> 1700000000 = Inr ()"
    by (simp add: check_exact_def g e)
  show "x402_payment_nonce ref_ext ref_json ref_settler 7 ''{demo}'' w = (Inr ''n1'', w)"
    if "rw_clock_ms w = 1700000000000"
    using p r t [OF that] c by (auto simp: payment_nonce_Inr)
qed

lemma demo_settle_in:
  assumes "rw_clock_ms w = 1700000000000" and "rw_settled w = []"
  shows "x402_settle ref_ext ref_json ref_settler a 7 ''{demo}'' w = (Inr ''n1'', w\<lparr> rw_settled := [''{demo}''] \<rparr>)"
  using demo_payment_nonce(1) [OF assms(1)] demo_required assms(2)
  by (simp add: x402_settle_def bind_io_step apply_after_settle_def map_err_io_def)
    (simp add: ref_settler_def x402_settler_new_def ref_facilitator_def bind_io_def)

lemma demo_settle:
  "\<exists>w'. x402_settle ref_ext ref_json ref_settler a 7 ''{demo}'' demo_world = (Inr ''n1'', w')"
  using demo_settle_in [of demo_world a] by (simp add: demo_world_def empty_world_def)

theorem settle_sound_witness:
  "\<exists>auth. parse_payment ref_ext ref_json ''{demo}'' = Inr auth \<and> unat (ea_value auth) = 7000"
proof -
  obtain w' where s: "x402_settle ref_ext ref_json ref_settler (acc_id demo_account) 7 ''{demo}'' demo_world = (Inr ''n1'', w')"
    using demo_settle by blast
  have "unat (7 :: u64) * unat (xs_usdc_per_invoke ref_settler) = 7000"
    by (simp add: ref_settler_def x402_settler_new_def)
  with settle_sound [OF s] show ?thesis by auto
qed

text \<open>
  A payment that fails the local check never reaches the facilitator: the answer is a client
  error and the only effect is at most the reading of the clock.
\<close>

lemma bad_payment_not_settled:
  assumes "\<And>auth r. parse_payment X J header = Inr auth \<Longrightarrow> requirements P invokes = Inr r \<Longrightarrow>
             check_exact auth r (fst (xs_now P w)) \<noteq> Inr ()"
  shows "(\<exists>msg. fst (x402_settle X J P a invokes header w) = Inl (BadRequest msg))
    \<and> snd (x402_settle X J P a invokes header w) \<in> {w, snd (xs_now P w)}"
proof -
  have bad: "\<exists>msg. payment_to_app e = BadRequest msg" if "\<And>s. e \<noteq> PaySettle s" for e
    using that by (cases e) auto
  show ?thesis
  proof (cases "requirements P invokes")
    case (Inl e)
    then have "\<And>s. e \<noteq> PaySettle s" by (auto simp: requirements_def bind_r_Inl_iff due_usdc_Inl)
    from bad [OF this] Inl show ?thesis by (auto simp: x402_settle_def)
  next
    case (Inr r)
    show ?thesis
    proof (cases "parse_payment X J header")
      case (Inl e)
      then have "\<And>s. e \<noteq> PaySettle s"
        by (auto simp: parse_payment_def Let_def bind_r_Inl_iff map_err_Inl_iff ok_or_Inl_iff split: if_splits)
      then obtain msg where msg: "payment_to_app e = BadRequest msg" using bad by blast
      have "x402_payment_nonce X J P invokes header w = (Inl (BadRequest msg), w)"
        using Inl Inr msg by (simp add: x402_payment_nonce_def)
      then show ?thesis using Inr by (simp add: x402_settle_def bind_io_step)
    next
      case auth: (Inr auth)
      obtain now w1 where t: "xs_now P w = (now, w1)" by fastforce
      then obtain e where e: "check_exact auth r now = Inl e"
        using assms [OF auth Inr] by (cases "check_exact auth r now") auto
      then have "\<And>s. e \<noteq> PaySettle s" by (auto simp: check_exact_def split: if_splits)
      then obtain msg where msg: "payment_to_app e = BadRequest msg" using bad by blast
      have "x402_payment_nonce X J P invokes header w = (Inl (BadRequest msg), w1)"
        using Inr auth t e msg by (simp add: x402_payment_nonce_def read_clock_def bind_io_def)
      then have "x402_settle X J P a invokes header w = (Inl (BadRequest msg), w1)"
        using Inr by (simp add: x402_settle_def bind_io_step)
      with t show ?thesis by simp
    qed
  qed
qed

section \<open>Buying credits\<close>

text \<open>
  C24: A call of \<open>credit\<close> changes the ledger by at most one credit, of the requested number of
  invokes to the requested account, under the nonce of the payment in the header, and only after
  three steps of this very call: the payment passed the local check, the store had no receipt of it,
  and the facilitator settled it. When the call reports a balance, a payment header was presented
  and the payment in it has a receipt. This holds with storage errors, retries and lost replies.
\<close>

theorem credit_only_after_settle:
  assumes "accounts_env X A led good rng" and "good w" and "ac_settler A = x402_credit_settler X J P"
    and "accounts_credit X A a v hdr w = (r, w')"
  shows "(led w' = led w \<or>
       (\<exists>h auth w1 w2 w3. hdr = Some h \<and> parse_payment X J h = Inr auth
          \<and> x402_payment_nonce X J P v h w = (Inr (ea_nonce auth), w1)
          \<and> st_credited_balance (ac_store A) a (ea_nonce auth) w1 = (Inr None, w2)
          \<and> x402_settle X J P a v h w2 = (Inr (ea_nonce auth), w3)
          \<and> op_spec X (OpCredit a v (ea_nonce auth)) (led w) = Some (led w')))
     \<and> (\<forall>b. r = Inr b \<longrightarrow> (\<exists>h auth. hdr = Some h \<and> parse_payment X J h = Inr auth
          \<and> ea_nonce auth \<in> dom (lg_receipt (led w'))))"
proof -
  have sel: "cs_payment_nonce (ac_settler A) = x402_payment_nonce X J P" "cs_settle (ac_settler A) = x402_settle X J P"
    by (simp_all add: assms(3) x402_credit_settler_def)
  have same: "nn = ea_nonce auth" if "x402_payment_nonce X J P v h w0 = (Inr nn, w1)" "parse_payment X J h = Inr auth"
    for nn h auth w0 w1 using that by (auto simp: payment_nonce_Inr)
  have parsed: "\<exists>auth. parse_payment X J h = Inr auth \<and> nn = ea_nonce auth"
    if "x402_payment_nonce X J P v h w0 = (Inr nn, w1)" for nn h w0 w1 using that by (auto simp: payment_nonce_Inr)
  from accounts_env.credit_law [OF assms(1,2,4), unfolded sel] show ?thesis
  proof (elim conjE disjE exE)
    assume "led w' = led w" and "\<forall>b. r = Inr b \<longrightarrow> (\<exists>h nn w1. hdr = Some h
        \<and> x402_payment_nonce X J P v h w = (Inr nn, w1) \<and> st_credited_balance (ac_store A) a nn w1 = (Inr (Some b), w')
        \<and> nn \<in> dom (lg_receipt (led w')))"
    moreover from this have "\<forall>b. r = Inr b \<longrightarrow> (\<exists>h auth. hdr = Some h \<and> parse_payment X J h = Inr auth
        \<and> ea_nonce auth \<in> dom (lg_receipt (led w')))" by (metis parsed)
    ultimately show ?thesis by simp
  next
    fix h nn w1 w2 nn' w3
    assume c: "hdr = Some h" "x402_payment_nonce X J P v h w = (Inr nn, w1)"
      "st_credited_balance (ac_store A) a nn w1 = (Inr None, w2)" "x402_settle X J P a v h w2 = (Inr nn', w3)"
      "once X (OpCredit a v nn') (led w) (led w')" "\<forall>b. r = Inr b \<longrightarrow> nn' \<in> dom (lg_receipt (led w'))"
    obtain auth where a: "parse_payment X J h = Inr auth" "nn = ea_nonce auth" using parsed [OF c(2)] by blast
    have n': "nn' = ea_nonce auth" using settle_Inr [OF c(4)] same [OF _ a(1)] by blast
    from c a show ?thesis unfolding n' once_def by blast
  qed
qed

text \<open>
  A purchase of 7 invokes in the reference world, in which the reply to the committed transaction is
  lost and the retry finds the receipt.
\<close>

lemma lost_reply:
  assumes "rd_faults w = LoseReply # fs" and "commit schema ws (ref_view w) = Some db"
  shows "\<exists>w'. ddb_transact (ref_client schema) ws (w :: ref_world) = (Inl (OtherSdk ''timeout''), w')
     \<and> ref_view w' = db \<and> rd_faults w' = fs"
proof -
  obtain es where es: "ref_apply schema (ref_view w) ws (rd_entries w) = Some es" "tables_of es = db"
    using ref_apply_view(2) [of schema w ws] ref_apply_view(1) [of schema w ws] assms(2)
    by (cases "ref_apply schema (ref_view w) ws (rd_entries w)") auto
  have "ref_view (w\<lparr> rd_faults := fs \<rparr>) = ref_view w" by (simp add: ref_view_def)
  then show ?thesis
    using assms(1) es by (simp add: ref_client_def ref_write_def next_fault_def Let_def) (simp add: set_entries_def)
qed

lemma lost_request:
  assumes "rd_faults w = LoseRequest # fs"
  shows "ddb_transact (ref_client schema) ws (w :: ref_world) = (Inl (OtherSdk ''timeout''), w\<lparr> rd_faults := fs \<rparr>)"
  using assms by (simp add: ref_client_def ref_write_def next_fault_def Let_def)

abbreviation demo_writes :: "ddb_write list" where
  "demo_writes \<equiv> credit_writes ref_ext (ref_store :: ref_world account_db) (acc_id demo_account) 7 ''n1''"

text \<open>The tables after the purchase, and the answer of the attempt that finds its receipt.\<close>

definition bought :: tables where
  "bought = put_at (''receipts'', [(NONCE, AvS ''n1'')]) (Some (receipt_item ref_ext (acc_id demo_account) 7 ''n1''))
     (put_at (''accounts'', account_pkey ref_ext (acc_id demo_account))
        (Some (account_item ref_ext (demo_account\<lparr> acc_balance := 12 \<rparr>))) (ref_view demo_world))"

lemma demo_buys: "commit ref_schema demo_writes (ref_view (demo_faulty fs)) = Some bought"
proof -
  have "(account_item ref_ext demo_account)(BALANCE \<mapsto> AvN (show_int (5 + 7)))
      = account_item ref_ext (demo_account\<lparr> acc_balance := 12 \<rparr>)"
    by (auto simp: account_item_def av_n_def show_int_def show_u64_def)
  moreover have "ref_view (demo_faulty fs) = ref_view demo_world" by (simp add: demo_faulty_def ref_view_def)
  moreover have "commit ref_schema demo_writes (ref_view (demo_faulty fs)) =
    Some (put_at (''receipts'', [(NONCE, AvS ''n1'')]) (Some (receipt_item ref_ext (acc_id demo_account) 7 ''n1''))
       (put_at (''accounts'', account_pkey ref_ext (acc_id demo_account))
          (Some ((account_item ref_ext demo_account)(BALANCE \<mapsto> AvN (show_int (5 + 7))))) (ref_view (demo_faulty fs))))"
    by (rule credit_commits [where db = "ref_view (demo_faulty fs)" and nn = "''n1''", simplified demo_credit_def op_writes.simps])
      (simp_all add: demo_view)
  ultimately show ?thesis by (simp add: bought_def)
qed

lemma demo_replayed:
  assumes "ref_view w = bought" and "rd_faults w = []"
  shows "\<exists>w'. store_credit ref_ext ref_store (acc_id demo_account) 7 ''n1'' (w :: ref_world) = (Inr (Replay 12), w')"
proof -
  have none: "commit ref_schema demo_writes (ref_view w) = None"
  proof (rule ccontr)
    assume "commit ref_schema demo_writes (ref_view w) \<noteq> None"
    then obtain db where "commit ref_schema demo_writes bought = Some db" using assms(1) by auto
    then have "attr_at (bought ''receipts'' [(NONCE, AvS ''n1'')]) NONCE = None"
      by (auto simp: credit_writes_def commit_two key_of_def ref_schema_def receipt_item_def split: if_splits)
    then show False by (simp add: bought_def put_at_def attr_at_def receipt_item_def)
  qed
  obtain s w1 where t: "ddb_transact (ref_client ref_schema) demo_writes w = (Inl (TransactionCanceled s), w1)" "rd_faults w1 = []"
    using ref_ddb_fresh.transact_fresh [OF assms(2), of ref_schema demo_writes] none by auto
  have v1: "ref_view w1 = bought"
    using ref_ddb.transact_outcome [OF t(1)] assms(1) by (simp add: write_outcome_def)
  obtain w2 where g: "ddb_get (ref_client ref_schema) ''receipts'' [(NONCE, AvS ''n1'')] w1
      = (Inr (ref_view w1 ''receipts'' [(NONCE, AvS ''n1'')]), w2)" "rd_faults w2 = []"
    using ref_ddb_fresh.get_fresh [OF t(2)] by blast
  have v2: "ref_view w2 = bought" using keepsD [OF ref_ddb.get_keeps g(1)] v1 by simp
  have "ref_view w2 ''accounts'' (account_pkey ref_ext (acc_id (demo_account\<lparr> acc_balance := 12 \<rparr>)))
      = Some (account_item ref_ext (demo_account\<lparr> acc_balance := 12 \<rparr>))"
    by (simp add: v2 bought_def put_at_def)
  then obtain w3 where "store_account ref_ext ref_store (acc_id demo_account) w2 = (Inr (Some (demo_account\<lparr> acc_balance := 12 \<rparr>)), w3)"
    using ref_calm_store.calm_account [OF g(2), of "acc_id demo_account" "demo_account\<lparr> acc_balance := 12 \<rparr>"] by auto
  then show ?thesis
    using t g v1 by (simp add: store_credit_def match_io_def bind_io_def store_receipt_exists_def store_balance_of_def
        map_err_io_def transaction_cancelled_def bought_def put_at_def)
qed

lemma lost_attempt:
  assumes "ref_view w = ref_view demo_world" and "rd_faults w = LoseReply # fs"
  shows "\<exists>w'. store_credit ref_ext ref_store (acc_id demo_account) 7 ''n1'' (w :: ref_world)
      = (Inl (StoreStorage (show_sdk_error (OtherSdk ''timeout''))), w') \<and> ref_view w' = bought \<and> rd_faults w' = fs"
proof -
  have "commit ref_schema demo_writes (ref_view w) = Some bought"
    using demo_buys [of "[]"] by (simp add: assms(1) demo_world_faulty)
  from lost_reply [OF assms(2) this] show ?thesis
    by (auto simp: store_credit_def match_io_def transaction_cancelled_def storage_of_sdk_def)
qed

lemma lost_credit_request:
  assumes "rd_faults w = LoseRequest # fs"
  shows "store_credit ref_ext ref_store (acc_id demo_account) 7 ''n1'' (w :: ref_world)
      = (Inl (StoreStorage (show_sdk_error (OtherSdk ''timeout''))), w\<lparr> rd_faults := fs \<rparr>)"
  by (simp add: store_credit_def match_io_def lost_request [OF assms] transaction_cancelled_def storage_of_sdk_def)

lemma demo_credits:
  assumes "ref_view w = ref_view demo_world" and "rd_faults w = LoseReply # fs" and "fs = [] \<or> fs = [LoseRequest]"
  shows "\<exists>w'. credit_settled ref_ext ref_accounts (acc_id demo_account) 7 ''n1'' (w :: ref_world) = (Inr 12, w')"
proof -
  have sel: "st_credit (ac_store ref_accounts) = store_credit ref_ext ref_store"
    by (simp add: ref_accounts_def accounts_new_def dynamo_account_store_def)
  note loop = credit_loop.simps [of ref_ext ref_accounts, unfolded sel]
  obtain w1 where w1: "store_credit ref_ext ref_store (acc_id demo_account) 7 ''n1'' w
      = (Inl (StoreStorage (show_sdk_error (OtherSdk ''timeout''))), w1)" "ref_view w1 = bought" "rd_faults w1 = fs"
    using lost_attempt [OF assms(1,2)] by blast
  have again: "\<exists>w'. credit_loop ref_ext ref_accounts (acc_id demo_account) 7 ''n1'' n w2 = (Inr 12, w')"
    if "ref_view w2 = bought" "rd_faults w2 = []" for n and w2 :: ref_world
    using demo_replayed [OF that] by (auto simp: loop [of _ _ _ n])
  show ?thesis
  proof (cases "fs = []")
    case True
    with again [OF w1(2), of 1] w1 show ?thesis by (simp add: credit_settled_def loop [of _ _ _ 0] CREDIT_ATTEMPTS_def)
  next
    case False
    then have f: "rd_faults w1 = [LoseRequest]" using assms(3) w1(3) by simp
    have v: "ref_view (w1\<lparr> rd_faults := [] \<rparr>) = bought" using w1(2) by (simp add: ref_view_def)
    show ?thesis
      using again [OF v, of 2] w1(1) lost_credit_request [OF f]
      by (simp add: credit_settled_def loop [of _ _ _ 0] loop [of _ _ _ "Suc 0"] CREDIT_ATTEMPTS_def numeral_2_eq_2)
  qed
qed

lemma demo_purchase:
  "\<exists>w'. accounts_credit ref_ext ref_accounts (acc_id demo_account) 7 (Some ''{demo}'') (demo_faulty [Fine, LoseReply]) = (Inr 12, w')"
proof -
  let ?w = "demo_faulty [Fine, LoseReply]" and ?w1 = "demo_faulty [LoseReply]"
  have clock: "rw_clock_ms (demo_faulty fs) = 1700000000000" "rw_settled (demo_faulty fs) = []" for fs
    by (simp_all add: demo_faulty_def demo_world_def empty_world_def)
  have sel: "cs_payment_nonce (ac_settler ref_accounts) = x402_payment_nonce ref_ext ref_json ref_settler"
    "cs_settle (ac_settler ref_accounts) = x402_settle ref_ext ref_json ref_settler"
    "st_credited_balance (ac_store ref_accounts) = store_credited_balance ref_ext ref_store"
    by (simp_all add: ref_accounts_def accounts_new_def x402_credit_settler_def dynamo_account_store_def)
  have "map_of (rd_entries (demo_faulty fs)) (''receipts'', k) = None" for fs k
    using demo_view(3) [of fs k] by (simp add: ref_view_def tables_of_def)
  then have cb: "store_credited_balance ref_ext ref_store (acc_id demo_account) ''n1'' ?w = (Inr None, ?w1)"
    by (simp add: store_credited_balance_def store_receipt_exists_def bind_io_def map_err_io_def ref_client_def ref_read_def
        next_fault_def) (simp add: demo_faulty_def)
  let ?w2 = "?w1\<lparr> rw_settled := [''{demo}''] \<rparr>"
  obtain w' where "credit_settled ref_ext ref_accounts (acc_id demo_account) 7 ''n1'' ?w2 = (Inr 12, w')"
    using demo_credits [of ?w2 "[]"] by (auto simp: ref_view_def demo_faulty_def)
  then show ?thesis
    by (simp add: accounts_credit_def bind_io_def map_err_io_def sel demo_payment_nonce(1) [OF clock(1)] cb
        demo_settle_in [OF clock])
qed

theorem credit_only_after_settle_witness:
  "\<exists>w'. accounts_credit ref_ext ref_accounts (acc_id demo_account) 7 (Some ''{demo}'') (demo_faulty [Fine, LoseReply]) = (Inr 12, w')
     \<and> op_spec ref_ext (OpCredit (acc_id demo_account) 7 ''n1'') (ref_ledger (demo_faulty [Fine, LoseReply])) = Some (ref_ledger w')
     \<and> ''n1'' \<in> dom (lg_receipt (ref_ledger w'))"
proof -
  let ?w = "demo_faulty [Fine, LoseReply]"
  obtain w' where run: "accounts_credit ref_ext ref_accounts (acc_id demo_account) 7 (Some ''{demo}'') ?w = (Inr 12, w')"
    using demo_purchase by blast
  have settler: "ac_settler ref_accounts = x402_credit_settler ref_ext ref_json ref_settler"
    by (simp add: ref_accounts_def accounts_new_def)
  have clock: "rw_clock_ms ?w = 1700000000000" by (simp add: demo_faulty_def demo_world_def empty_world_def)
  note law = credit_only_after_settle [OF ref_accounts.accounts_env_axioms demo_invariant settler run]
  have rec: "''n1'' \<in> dom (lg_receipt (ref_ledger w'))" using law demo_parsed by auto
  then have "ref_ledger w' \<noteq> ref_ledger ?w" using demo_ledger(3) by auto
  then have "op_spec ref_ext (OpCredit (acc_id demo_account) 7 ''n1'') (ref_ledger ?w) = Some (ref_ledger w')"
    using law demo_parsed by auto
  with run rec show ?thesis by blast
qed

text \<open>
  C25: The retry loop of a settled payment makes one to three attempts of the same credit. Every
  attempt but the last ended in a storage error, the next one starts where it left off, and the last
  one gives the answer: its balance, or its error. A storage error is the answer only of the third
  attempt. Over all attempts the credit is applied at most once, and a success means the payment has
  its receipt.
\<close>

theorem settled_credit_applied_once:
  assumes "accounts_env X A led good rng" and "good w" and "credit_settled X A a v nn w = (r, w')"
  shows "(\<exists>n ws r1. n < 3 \<and> ws 0 = w
       \<and> (\<forall>i < n. \<exists>msg. st_credit (ac_store A) a v nn (ws i) = (Inl (StoreStorage msg), ws (Suc i)))
       \<and> st_credit (ac_store A) a v nn (ws n) = (r1, w')
       \<and> r = (case r1 of Inr out \<Rightarrow> Inr (outcome_balance out) | Inl e \<Rightarrow> Inl (app_of_store X e))
       \<and> ((\<exists>msg. r1 = Inl (StoreStorage msg)) \<longrightarrow> n = 2))
     \<and> once X (OpCredit a v nn) (led w) (led w') \<and> (\<forall>b. r = Inr b \<longrightarrow> nn \<in> dom (lg_receipt (led w')))"
  using accounts_env.credit_loop_law [OF assms(1,2)] credit_loop_attempts [of X A a v nn 0 w r w'] assms(3)
  by (simp add: credit_settled_def)

text \<open>
  The reply of the first attempt is lost, the request of the second, and the third finds the receipt.
\<close>

theorem settled_credit_applied_once_witness:
  "\<exists>w'. credit_settled ref_ext ref_accounts (acc_id demo_account) 7 ''n1'' (demo_faulty [LoseReply, LoseRequest]) = (Inr 12, w')
     \<and> once ref_ext (OpCredit (acc_id demo_account) 7 ''n1'')
         (ref_ledger (demo_faulty [LoseReply, LoseRequest])) (ref_ledger w') \<and> ''n1'' \<in> dom (lg_receipt (ref_ledger w'))"
proof -
  let ?w = "demo_faulty [LoseReply, LoseRequest]"
  have "ref_view ?w = ref_view demo_world" "rd_faults ?w = [LoseReply, LoseRequest]"
    by (simp_all add: demo_faulty_def ref_view_def)
  then obtain w' where c: "credit_settled ref_ext ref_accounts (acc_id demo_account) 7 ''n1'' ?w = (Inr 12, w')"
    using demo_credits by blast
  from settled_credit_applied_once [OF ref_accounts.accounts_env_axioms demo_invariant c] c show ?thesis by blast
qed

section \<open>Keys\<close>

text \<open>
  C28: When issuing a key changes the ledger or succeeds, the caller presented the secret of an
  uncapped key of the same account, which the store read as unrevoked, and the whole change is one
  new entry among the keys: it belongs to the account, is not revoked and has the requested cap, and
  on success its hash is that of the returned secret. Balances, receipts and all other keys are as
  before, also when an error is reported.
\<close>

theorem issue_key_authorised:
  assumes "accounts_env X A led good rng" and "good w" and "account_id_ok a"
    and "accounts_issue_key X rng A a bearer cap w = (r, w')"
    and "led w' \<noteq> led w \<or> (\<exists>ik. r = Inr ik)"
  shows "manages X A led a bearer w
    \<and> (\<exists>h k. lg_key (led w) h = None \<and> led w' = (led w)\<lparr> lg_key := (lg_key (led w))(h \<mapsto> k) \<rparr>
         \<and> lk_owner k = account_id_to_hex X a \<and> \<not> lk_revoked k \<and> lk_cap k = map_option uint cap
         \<and> (\<forall>ik. r = Inr ik \<longrightarrow> h = secret_hash_to_hex X (secret_hash_of X (ik_secret ik))))"
proof -
  have neg: "(led w' = led w \<and> (\<forall>ik. r \<noteq> Inr ik)) = False" using assms(5) by blast
  obtain k where m: "manages X A led a bearer w" and op: "op_spec X (OpPutKey k) (led w) = Some (led w')"
    and k: "key_record_ok k" "kr_account_id k = a" "kr_cap_remaining k = cap" "\<not> kr_revoked k"
      "\<forall>ik. r = Inr ik \<longrightarrow> kr_secret_hash k = secret_hash_of X (ik_secret ik)"
    using accounts_env.issue_key_law [OF assms(1-4), THEN conjunct2, unfolded neg simp_thms] by (elim conjE exE) simp
  have "lg_key (led w) (secret_hash_to_hex X (kr_secret_hash k)) = None"
    "led w' = (led w)\<lparr> lg_key := (lg_key (led w))(secret_hash_to_hex X (kr_secret_hash k) \<mapsto> new_ledger_key X k) \<rparr>"
    using op by (auto simp: op_spec.simps Let_def split: if_splits)
  moreover have "lk_owner (new_ledger_key X k) = account_id_to_hex X a" "\<not> lk_revoked (new_ledger_key X k)"
    "lk_cap (new_ledger_key X k) = map_option uint cap"
    using k by (auto simp: new_ledger_key_def key_record_ok_def)
  moreover have "\<forall>ik. r = Inr ik \<longrightarrow> secret_hash_to_hex X (kr_secret_hash k) = secret_hash_to_hex X (secret_hash_of X (ik_secret ik))"
    using k(5) by simp
  ultimately show ?thesis using m
    by (intro conjI exI [of _ "secret_hash_to_hex X (kr_secret_hash k)"] exI [of _ "new_ledger_key X k"])
qed

lemma drawn_fresh:
  "secret_hash_of ref_ext (BearerSecret (SECRET_PREFIX @ hex_encode ref_ext (replicate 32 (chr 1)))) \<noteq> demo_hash"
proof
  let ?e = "ref_hex_encode (replicate 32 (chr 1))"
  assume "secret_hash_of ref_ext (BearerSecret (SECRET_PREFIX @ hex_encode ref_ext (replicate 32 (chr 1)))) = demo_hash"
  then have "ref_sha (SECRET_PREFIX @ ?e) = ref_sha (SECRET_PREFIX @ replicate 64 (CHR ''0''))"
    by (simp add: demo_hash_def secret_hash_of_def ref_ext_def demo_secret_def)
  then have "ref_sha (SECRET_PREFIX @ ?e) ! 5 = ref_sha (SECRET_PREFIX @ replicate 64 (CHR ''0'')) ! 5" by simp
  moreover have "length ?e = 64" using ref_hex.henc_length [of "replicate 32 (chr 1)"] by simp
  ultimately have "?e ! 1 = CHR ''0''"
    by (simp add: ref_sha_def SECRET_PREFIX_def nth_append)
  moreover have "replicate 32 (chr 1) = chr 1 # replicate 31 (chr 1)" by (simp add: numeral_eq_Suc)
  then have "?e ! 1 = hex_digit 1" by simp
  ultimately have "byte (CHR ''0'') = byte (hex_digit 1)" by simp
  then show False by (simp add: hex_digit_def) (simp add: byte_def)
qed

text \<open>The demo world with the demo key uncapped.\<close>

definition open_key :: key_record where
  "open_key = demo_key\<lparr> kr_capped := False, kr_cap_remaining := None \<rparr>"

definition open_world :: ref_world where
  "open_world = demo_world\<lparr> rd_entries := AList.update (''keys'', key_pkey ref_ext demo_hash) (key_item ref_ext open_key)
     demo_entries, rw_random := 1 \<rparr>"

lemma open_key_facts [simp]:
  "key_record_ok open_key" "\<not> kr_revoked open_key" "\<not> kr_capped open_key" "kr_secret_hash open_key = demo_hash"
  "kr_account_id open_key = acc_id demo_account" "kr_cap_remaining open_key = None"
  using demo_key_facts(1) by (simp_all add: open_key_def demo_key_def key_record_ok_def)

lemma open_view: "ref_view open_world = put_at (''keys'', key_pkey ref_ext demo_hash) (Some (key_item ref_ext open_key)) (ref_view demo_world)"
  by (auto simp: open_world_def ref_view_def tables_of_def put_at_def update_conv demo_world_def fun_eq_iff)

lemma open_world_fields [simp]: "rd_faults open_world = []" "rd_past open_world = []" "rw_random open_world = 1"
  by (simp_all add: open_world_def demo_world_def empty_world_def)

lemma open_invariant: "store_invariant ref_store ref_view ref_hist open_world"
proof -
  have "key_shape (key_pkey ref_ext demo_hash) (key_item ref_ext open_key)"
    using key_item_view(2) [OF ref_externals.externals_axioms, of open_key] by (simp add: key_pkey_def)
  moreover have "tables_ok ref_store (ref_view demo_world)" unfolding demo_world_faulty by (rule demo_tables_ok)
  ultimately have "tables_ok ref_store (ref_view open_world)"
    by (auto simp: tables_ok_def open_view put_at_def split: if_splits)
  from ref_store.older_refl [OF this] show ?thesis by (simp add: store_invariant_def ref_hist_def ref_view_def)
qed

lemma open_presented: "presented_key ref_ext ref_accounts (Some demo_secret) open_world = (Inr (Some open_key), open_world)"
proof -
  have "ref_view open_world ''keys'' (key_pkey ref_ext demo_hash) = Some (key_item ref_ext open_key)"
    by (simp add: open_view put_at_def)
  then have "store_key_by_hash ref_ext ref_store demo_hash open_world = (Inr (Some open_key), open_world)"
    by (simp add: store_key_by_hash_def bind_io_def map_err_io_def ref_get_calm ref_externals.key_item_roundtrip)
  moreover have "st_key_by_hash (ac_store ref_accounts) = store_key_by_hash ref_ext ref_store"
    by (simp add: ref_accounts_def accounts_new_def dynamo_account_store_def)
  ultimately show ?thesis by (simp add: presented_key_def map_err_io_def demo_hash_def)
qed

lemma open_authorised: "authorize_additional_key (acc_id demo_account) (Some open_key) = Inr ()"
  by (simp add: authorize_additional_key_iff)

lemma open_issues:
  "\<exists>ik w'. accounts_issue_key ref_ext ref_rng ref_accounts (acc_id demo_account) (Some demo_secret) (Some 3) open_world = (Inr ik, w')"
proof -
  define drawn where "drawn = BearerSecret (SECRET_PREFIX @ hex_encode ref_ext (replicate 32 (chr 1)))"
  obtain nk w2 where n: "new_key_issue ref_ext ref_rng (acc_id demo_account) (Some 3) open_world = (Inr nk, w2)"
    "kr_secret_hash (nk_record nk) = secret_hash_of ref_ext drawn" "rd_faults w2 = []" "ref_view w2 = ref_view open_world"
    by (simp add: new_key_issue_def bearer_generate_def key_id_generate_def random_bytes_def bind_io_def
        map_err_io_def ref_rng_def SECRET_RANDOM_LEN_def ref_view_def drawn_def)
  have fresh: "secret_hash_of ref_ext drawn \<noteq> demo_hash" by (rule drawn_fresh [folded drawn_def])
  have "ref_view w2 ''keys'' (key_pkey ref_ext (secret_hash_of ref_ext drawn)) = None"
    using fresh ref_externals.id_to_hex_inj by (auto simp: n(4) open_view put_at_def demo_world_faulty demo_view key_pkey_def)
  then have "commit ref_schema [WPut ''keys'' (key_item ref_ext (nk_record nk)) (AttributeNotExists SECRET_HASH)] (ref_view w2) \<noteq> None"
    by (simp add: commit_one key_of_def ref_schema_def attr_at_def n(2) key_pkey_def)
  then obtain w3 where "store_put_key ref_ext ref_store (nk_record nk) w2 = (Inr (), w3)"
    using ref_ddb_fresh.put_fresh [OF n(3), of ref_schema "''keys''" "key_item ref_ext (nk_record nk)" "AttributeNotExists SECRET_HASH"]
    by (auto simp: store_put_key_def map_err_io_def)
  moreover have "st_put_key (ac_store ref_accounts) = store_put_key ref_ext ref_store"
    by (simp add: ref_accounts_def accounts_new_def dynamo_account_store_def)
  ultimately show ?thesis
    using n(1) by (simp add: accounts_issue_key_def bind_io_def map_err_io_def open_presented open_authorised)
qed

theorem issue_key_authorised_witness:
  "\<exists>ik w'. accounts_issue_key ref_ext ref_rng ref_accounts (acc_id demo_account) (Some demo_secret) (Some 3) open_world = (Inr ik, w')
     \<and> manages ref_ext ref_accounts (\<lambda>w. ref_ledger w) (acc_id demo_account) (Some demo_secret) open_world
     \<and> lg_balance (ref_ledger w') = lg_balance (ref_ledger open_world)
     \<and> (\<exists>k. lg_key (ref_ledger w') (secret_hash_to_hex ref_ext (secret_hash_of ref_ext (ik_secret ik))) = Some k
           \<and> lk_owner k = demo_hex \<and> lk_cap k = Some 3)"
proof -
  obtain ik w' where run: "accounts_issue_key ref_ext ref_rng ref_accounts (acc_id demo_account) (Some demo_secret) (Some 3) open_world = (Inr ik, w')"
    using open_issues by blast
  from issue_key_authorised [OF ref_accounts.accounts_env_axioms open_invariant demo_key_facts(8) run] run show ?thesis
    by auto
qed

text \<open>
  C29: When a revocation changes the ledger or succeeds, the caller presented the secret of an
  uncapped key of the same account, which the store read as unrevoked, and the whole change is that
  one key of that account is now revoked, with its cap as before. Balances, receipts and all other
  keys are as before. This covers the errors reported after the key was revoked.
\<close>

theorem revoke_authorised:
  assumes "accounts_env X A led good rng" and "good w"
    and "accounts_revoke X A a kid bearer w = (r, w')" and "led w' \<noteq> led w \<or> r = Inr ()"
  shows "manages X A led a bearer w
    \<and> (\<exists>h k. lg_key (led w) h = Some k \<and> lk_owner k = account_id_to_hex X a
         \<and> led w' = (led w)\<lparr> lg_key := (lg_key (led w))(h \<mapsto> k\<lparr> lk_revoked := True \<rparr>) \<rparr>)"
proof -
  obtain h where "manages X A led a bearer w" and op: "op_spec X (OpRevoke a h) (led w) = Some (led w')"
    using accounts_env.revoke_law [OF assms(1-3)] assms(4) by blast
  moreover have "\<exists>k. lg_key (led w) h = Some k \<and> lk_owner k = account_id_to_hex X a
      \<and> led w' = (led w)\<lparr> lg_key := (lg_key (led w))(h \<mapsto> k\<lparr> lk_revoked := True \<rparr>) \<rparr>"
    using op by (auto simp: op_spec.simps split: option.splits if_splits)
  ultimately show ?thesis by blast
qed

lemma calm_write:
  assumes "rd_faults w = []" and "commit schema ws (ref_view w) = Some db"
  shows "\<exists>w'. ref_write schema refused ws (w :: ref_world) = (Inr (), w') \<and> ref_view w' = db \<and> rd_faults w' = []"
proof -
  obtain es where es: "ref_apply schema (ref_view w) ws (rd_entries w) = Some es" "tables_of es = db"
    using ref_apply_view(2) [of schema w ws] ref_apply_view(1) [of schema w ws] assms(2)
    by (cases "ref_apply schema (ref_view w) ws (rd_entries w)") auto
  then show ?thesis
    using assms(1) by (simp add: ref_write_def next_fault_def Let_def) (simp add: set_entries_def)
qed

lemma open_revokes:
  "\<exists>w'. accounts_revoke ref_ext ref_accounts (acc_id demo_account) (kr_key_id open_key) (Some demo_secret) open_world = (Inr (), w')"
proof -
  have "ref_items ''keys'' (rd_entries open_world) = [key_item ref_ext open_key]"
    by (simp add: ref_items_def open_world_def demo_entries_def)
  then have found: "find_hash ref_ext ref_store (acc_id demo_account) (kr_key_id open_key) open_world = (Inr (Some demo_hash_hex), open_world)"
    by (simp add: find_hash_def bind_io_def map_err_io_def) (simp add: ref_client_def ref_read_def next_fault_def attr_at_def)
  have "ref_view open_world ''keys'' [(SECRET_HASH, AvS demo_hash_hex)] = Some (key_item ref_ext open_key)"
    by (simp add: open_view put_at_def key_pkey_def)
  then obtain db where db0: "commit ref_schema [WUpdate ''keys'' [(SECRET_HASH, AvS demo_hash_hex)] (SetTo REVOKED (AvBool True))
      (AttrEq ACCOUNT_ID (AvS demo_hex))] (ref_view open_world) = Some db"
      and db: "db ''accounts'' = ref_view open_world ''accounts''"
    by (simp add: commit_one attr_at_def put_at_def)
  obtain w2 where "ref_write ref_schema (ConditionalCheckFailed ''condition'') [WUpdate ''keys'' [(SECRET_HASH, AvS demo_hash_hex)]
      (SetTo REVOKED (AvBool True)) (AttrEq ACCOUNT_ID (AvS demo_hex))] open_world = (Inr (), w2)" "ref_view w2 = db" "rd_faults w2 = []"
    using calm_write [OF _ db0] by (metis open_world_fields(1))
  with found have w2: "store_revoke ref_ext ref_store (acc_id demo_account) (kr_key_id open_key) open_world = (Inr (), w2)"
    "ref_view w2 = db" "rd_faults w2 = []"
    by (simp_all add: store_revoke_def bind_io_def map_err_io_def ref_client_def)
  have "ref_view open_world ''accounts'' (account_pkey ref_ext (acc_id demo_account)) = Some (account_item ref_ext demo_account)"
    by (simp add: open_view put_at_def demo_world_faulty demo_view)
  then have acc: "store_account ref_ext ref_store (acc_id demo_account) open_world = (Inr (Some demo_account), open_world)"
    "store_account ref_ext ref_store (acc_id demo_account) w2 = (Inr (Some demo_account), w2)"
    by (simp_all add: store_account_def bind_io_def map_err_io_def ref_get_calm w2(2,3) db ref_externals.account_item_roundtrip)
  have "st_account (ac_store ref_accounts) = store_account ref_ext ref_store" "st_revoke (ac_store ref_accounts) = store_revoke ref_ext ref_store"
    by (simp_all add: ref_accounts_def accounts_new_def dynamo_account_store_def)
  then show ?thesis
    using w2(1) by (simp add: accounts_revoke_def bind_io_def map_err_io_def open_presented open_authorised acc)
qed

theorem revoke_authorised_witness:
  "\<exists>w'. accounts_revoke ref_ext ref_accounts (acc_id demo_account) (kr_key_id open_key) (Some demo_secret) open_world = (Inr (), w')
     \<and> manages ref_ext ref_accounts (\<lambda>w. ref_ledger w) (acc_id demo_account) (Some demo_secret) open_world
     \<and> lg_balance (ref_ledger w') = lg_balance (ref_ledger open_world)
     \<and> (\<exists>h k. lg_key (ref_ledger open_world) h = Some k \<and> revoked_at h (ref_ledger w'))"
proof -
  obtain w' where run: "accounts_revoke ref_ext ref_accounts (acc_id demo_account) (kr_key_id open_key) (Some demo_secret) open_world = (Inr (), w')"
    using open_revokes by blast
  from revoke_authorised [OF ref_accounts.accounts_env_axioms open_invariant run] run show ?thesis
    by (auto simp: revoked_at_def)
qed

end
