(* ===== verification/Http_Host.thy ===== *)
theory Http_Host
  imports Ports Json
begin

text \<open>
  \<open>crates/executor/src/http_host.rs\<close>: the outbound HTTP client behind the guest's import
  \<open>nitrum.http_get\<close>. The HTTP agent (\<open>ureq\<close>) and \<open>serde_json\<close> are parameters. The lemmas say
  when a request leaves the host at all, and what comes back from one.
\<close>

section \<open>Result codes\<close>

definition ERR_BAD_ARGS :: i32 where "ERR_BAD_ARGS = - 1"
definition ERR_DENIED :: i32 where "ERR_DENIED = - 2"
definition ERR_TIMEOUT :: i32 where "ERR_TIMEOUT = - 3"
definition ERR_TOO_LARGE :: i32 where "ERR_TOO_LARGE = - 4"
definition ERR_TRANSPORT :: i32 where "ERR_TRANSPORT = - 5"

lemmas error_codes = ERR_BAD_ARGS_def ERR_DENIED_def ERR_TIMEOUT_def ERR_TOO_LARGE_def ERR_TRANSPORT_def

record http_response =
  rsp_status :: u16
  rsp_body :: bytes

datatype http_get_error = HttpDenied | HttpTimeout | HttpTooLarge | HttpTransport string

fun http_error_code :: "http_get_error \<Rightarrow> i32" where
  "http_error_code HttpDenied = ERR_DENIED"
| "http_error_code HttpTimeout = ERR_TIMEOUT"
| "http_error_code HttpTooLarge = ERR_TOO_LARGE"
| "http_error_code (HttpTransport _) = ERR_TRANSPORT"

text \<open>The trait \<open>HttpClient\<close>: \<open>get(url, allow)\<close>.\<close>

type_synonym 'w http_client =
  "string \<Rightarrow> egress_origin list \<Rightarrow> ('w, http_get_error, http_response) io"

section \<open>The client\<close>

definition is_allowed :: "string \<Rightarrow> egress_origin list \<Rightarrow> bool" where
  "is_allowed url allow =
     (if allow = [] then False
      else case egress_parse url of
        Inl _ \<Rightarrow> False
      | Inr origin \<Rightarrow> list_ex (\<lambda>a. origin_str a = origin_str origin) allow)"

text \<open>
  The agent is built with a timeout and a redirect limit and then asked for a URL. Its answer is
  a status and a reader: the bytes it delivers and the error, if any, that ends them.
\<close>

record agent_response =
  ag_status :: u16
  ag_bytes :: bytes
  ag_failure :: "string option"

type_synonym 'w http_agent = "nat \<Rightarrow> nat \<Rightarrow> string \<Rightarrow> ('w, string, agent_response) io"

text \<open>\<open>reader.take(limit).read_to_end(..)\<close>: the failure is seen only when it comes before the limit.\<close>

definition read_take :: "nat \<Rightarrow> agent_response \<Rightarrow> string + bytes" where
  "read_take limit r =
     (if limit \<le> length (ag_bytes r) then Inr (take limit (ag_bytes r))
      else case ag_failure r of None \<Rightarrow> Inr (ag_bytes r) | Some e \<Rightarrow> Inl e)"

definition ureq_get :: "'w http_agent \<Rightarrow> 'w http_client" where
  "ureq_get agent url allow =
     (if \<not> is_allowed url allow then throw HttpDenied
      else
        bind_io (map_err_io
          (\<lambda>msg. if contains_str (to_ascii_lowercase msg) ''timeout'' then HttpTimeout else HttpTransport msg)
          (agent HTTP_TIMEOUT_ms 0 url)) (\<lambda>response.
        bind_io (lift_r (map_err HttpTransport (read_take (MAX_HTTP_BODY_BYTES + 1) response))) (\<lambda>body.
        if length body > MAX_HTTP_BODY_BYTES then throw HttpTooLarge
        else ret \<lparr> rsp_status = ag_status response, rsp_body = body \<rparr>)))"

definition stub_get :: "http_get_error + http_response \<Rightarrow> 'w http_client" where
  "stub_get response url allow = (if \<not> is_allowed url allow then throw HttpDenied else lift_r response)"

section \<open>The envelope\<close>

definition http_envelope :: "ext \<Rightarrow> http_response \<Rightarrow> json" where
  "http_envelope X res =
     JObject [(''status'', JNumber (JPos (ucast (rsp_status res)))),
              (''body_base64'', JString (b64_encode X (rsp_body res)))]"

definition encode_http_envelope :: "ext \<Rightarrow> json_text \<Rightarrow> http_response \<Rightarrow> unit + bytes" where
  "encode_http_envelope X J res = map_err (\<lambda>_. ()) (jt_to_vec J (http_envelope X res))"

definition fetch_url ::
  "ext \<Rightarrow> json_text \<Rightarrow> 'w http_client \<Rightarrow> string \<Rightarrow> egress_origin list \<Rightarrow> ('w, i32, bytes) io" where
  "fetch_url X J client url allow =
     (if length url > MAX_HTTP_URL_BYTES then throw ERR_BAD_ARGS
      else match_io (client url allow)
        (\<lambda>res. lift_r (map_err (\<lambda>_. ERR_TRANSPORT) (encode_http_envelope X J res)))
        (\<lambda>e. throw (http_error_code e)))"

section \<open>When a request leaves the host\<close>

lemma origin_str_inj: "origin_str a = origin_str b \<longleftrightarrow> a = b"
  using egress_origin.expand by blast

lemma is_allowed_iff: "is_allowed url allow \<longleftrightarrow> (\<exists>origin \<in> set allow. egress_parse url = Inr origin)"
  by (auto simp: is_allowed_def list_ex_iff origin_str_inj split: sum.splits)

lemma is_allowed_normal: "is_allowed url allow \<Longrightarrow> \<exists>origin \<in> set allow. origin_normal origin"
  using egress_parse_normal by (auto simp: is_allowed_iff)

text \<open>
  \<open>P\<close> is whatever every allowed request keeps: a run of the client from a world satisfying it
  ends in one, because no other request is made.
\<close>

lemma ureq_confined:
  assumes "\<And>w r w'. is_allowed url allow \<Longrightarrow> P w \<Longrightarrow> agent HTTP_TIMEOUT_ms 0 url w = (r, w') \<Longrightarrow> P w'"
    and "P w" and "ureq_get agent url allow w = (r, w')"
  shows "P w'"
  using assms
  by (auto simp: ureq_get_def bind_io_def map_err_io_def split: if_splits prod.splits sum.splits)

lemma fetch_confined:
  assumes "\<And>w r w'. P w \<Longrightarrow> client url allow w = (r, w') \<Longrightarrow> P w'"
    and "P w" and "fetch_url X J client url allow w = (r, w')"
  shows "P w'"
  using assms by (auto simp: fetch_url_def match_io_def split: if_splits prod.splits sum.splits)

lemma ureq_denied: "\<not> is_allowed url allow \<Longrightarrow> ureq_get agent url allow w = (Inl HttpDenied, w)"
  by (simp add: ureq_get_def)

lemma ureq_ok:
  assumes "ureq_get agent url allow w = (Inr res, w')"
  shows "is_allowed url allow \<and> length (rsp_body res) \<le> MAX_HTTP_BODY_BYTES
    \<and> (\<exists>a. agent HTTP_TIMEOUT_ms 0 url w = (Inr a, w') \<and> rsp_status res = ag_status a
         \<and> ag_bytes a = rsp_body res \<and> ag_failure a = None)"
proof -
  obtain a b where a: "is_allowed url allow" "agent HTTP_TIMEOUT_ms 0 url w = (Inr a, w')"
    "read_take (MAX_HTTP_BODY_BYTES + 1) a = Inr b" "length b \<le> MAX_HTTP_BODY_BYTES"
    "res = \<lparr> rsp_status = ag_status a, rsp_body = b \<rparr>"
    using assms by (auto simp: ureq_get_def bind_io_Inr_iff map_err_io_iff split: if_splits)
  have "\<not> MAX_HTTP_BODY_BYTES + 1 \<le> length (ag_bytes a)"
  proof
    assume "MAX_HTTP_BODY_BYTES + 1 \<le> length (ag_bytes a)"
    with a(3) have "length b = MAX_HTTP_BODY_BYTES + 1" by (auto simp: read_take_def)
    with a(4) show False by simp
  qed
  with a(3) have "b = ag_bytes a" "ag_failure a = None" by (auto simp: read_take_def split: option.splits)
  with a show ?thesis by auto
qed

lemma error_code_negative: "sint (http_error_code e) < 0" "sint ERR_BAD_ARGS < 0" "sint ERR_TOO_LARGE < 0"
  by (cases e) (simp_all add: error_codes)

lemma fetch_error_negative: "fetch_url X J client url allow w = (Inl code, w') \<Longrightarrow> sint code < 0"
  by (auto simp: fetch_url_def match_io_def error_code_negative map_err_Inl_iff
      split: if_splits prod.splits sum.splits) (simp_all add: error_codes)

end
