(* ===== verification/Wasm_Abi.thy ===== *)
theory Wasm_Abi
  imports Ports
begin

text \<open>
  The two ABI checks of \<open>crates/executor/src/wasmtime_runner.rs\<close>: \<open>assert_abi_bytes\<close>, which
  walks the sections of the \<open>.wasm\<close> file at publish time, and \<open>assert_abi\<close>, which inspects
  the compiled module before an invoke. The section parser (\<open>wasmparser\<close>) and the compiled
  module (\<open>wasmtime\<close>) are third-party: the first is a parameter that yields the payloads, the
  second a record of its exports and imports with their types resolved.
\<close>

section \<open>What the parser yields\<close>

datatype val_type = I32 | OtherVal string

record func_type =
  ft_params :: "val_type list"
  ft_results :: "val_type list"

datatype external_kind = KFunc | KFuncExact | KMemory | KOther string

datatype type_ref = RFunc nat | RFuncExact nat | ROther string

type_synonym wasm_import = "string \<times> string \<times> type_ref"
type_synonym wasm_export = "string \<times> external_kind \<times> nat"

text \<open>
  Each section reader yields results; a type is \<open>Some\<close> when it is a function type. \<open>text_of\<close>
  are the renderings the error messages use.
\<close>

datatype payload =
    TypeSection "(string + func_type option list) list"
  | ImportSection "(string + wasm_import) list"
  | FunctionSection "(string + nat) list"
  | ExportSection "(string + wasm_export) list"
  | OtherPayload

record wasm_text =
  wt_kind :: "external_kind \<Rightarrow> string"
  wt_ref :: "type_ref \<Rightarrow> string"
  wt_func :: "func_type \<Rightarrow> string"

record wasm_sections =
  ws_types :: "func_type option list"
  ws_funcs :: "nat list"
  ws_exports :: "wasm_export list"
  ws_imports :: "wasm_import list"

definition no_sections :: wasm_sections where
  "no_sections = \<lparr> ws_types = [], ws_funcs = [], ws_exports = [], ws_imports = [] \<rparr>"

section \<open>The publish-time check\<close>

fun func_ref :: "type_ref \<Rightarrow> nat option" where
  "func_ref (RFunc i) = Some i"
| "func_ref (RFuncExact i) = Some i"
| "func_ref (ROther _) = None"

fun add_payload :: "wasm_sections \<Rightarrow> payload \<Rightarrow> app_error + wasm_sections" where
  "add_payload S (TypeSection groups) =
     bind_r (map_err Compile (collect_r (\<lambda>g. g) groups)) (\<lambda>gs.
     Inr (S\<lparr> ws_types := ws_types S @ concat gs \<rparr>))"
| "add_payload S (ImportSection imports) =
     bind_r (map_err Compile (collect_r (\<lambda>i. i) imports)) (\<lambda>is.
     Inr (S\<lparr> ws_funcs := ws_funcs S @ List.map_filter (\<lambda>(m, n, ty). func_ref ty) is,
             ws_imports := ws_imports S @ is \<rparr>))"
| "add_payload S (FunctionSection idxs) =
     bind_r (map_err Compile (collect_r (\<lambda>i. i) idxs)) (\<lambda>is.
     Inr (S\<lparr> ws_funcs := ws_funcs S @ is \<rparr>))"
| "add_payload S (ExportSection exports) =
     bind_r (map_err Compile (collect_r (\<lambda>e. e) exports)) (\<lambda>es.
     Inr (S\<lparr> ws_exports := ws_exports S @ es \<rparr>))"
| "add_payload S OtherPayload = Inr S"

fun add_payloads :: "wasm_sections \<Rightarrow> (string + payload) list \<Rightarrow> app_error + wasm_sections" where
  "add_payloads S [] = Inr S"
| "add_payloads S (p # ps) =
     bind_r (map_err Compile p) (\<lambda>payload. bind_r (add_payload S payload) (\<lambda>S'. add_payloads S' ps))"

definition invoke_sig :: "func_type \<Rightarrow> bool" where
  "invoke_sig ty \<longleftrightarrow> ft_params ty = [I32, I32] \<and> ft_results ty = [I32]"

definition http_get_sig :: "func_type \<Rightarrow> bool" where
  "http_get_sig ty \<longleftrightarrow> ft_params ty = [I32, I32, I32, I32] \<and> ft_results ty = [I32]"

definition type_at :: "wasm_sections \<Rightarrow> nat \<Rightarrow> func_type option" where
  "type_at S i = (if i < length (ws_types S) then ws_types S ! i else None)"

fun check_exports ::
  "wasm_text \<Rightarrow> wasm_sections \<Rightarrow> bool \<Rightarrow> bool \<Rightarrow> wasm_export list \<Rightarrow> app_error + bool \<times> bool" where
  "check_exports T S saw_memory saw_invoke [] = Inr (saw_memory, saw_invoke)"
| "check_exports T S saw_memory saw_invoke ((name, kind, index) # es) =
     (if name = ''memory'' then
        (if kind \<noteq> KMemory then
           Inl (Compile (''export `memory` must be a memory, got '' @ wt_kind T kind))
         else check_exports T S True saw_invoke es)
      else if name = ''invoke'' then
        (if kind \<noteq> KFunc \<and> kind \<noteq> KFuncExact then
           Inl (Compile (''export `invoke` must be a function, got '' @ wt_kind T kind))
         else if \<not> index < length (ws_funcs S) then
           Inl (Compile (''export `invoke` references missing func '' @ show_nat index))
         else
           (case type_at S (ws_funcs S ! index) of
              None \<Rightarrow> Inl (Compile (''export `invoke` references missing type '' @ show_nat (ws_funcs S ! index)))
            | Some ty \<Rightarrow>
                if \<not> invoke_sig ty then
                  Inl (Compile (''export `invoke` must be (i32, i32) -> i32, got '' @ wt_func T ty))
                else check_exports T S saw_memory True es))
      else check_exports T S saw_memory saw_invoke es)"

fun check_imports :: "wasm_text \<Rightarrow> wasm_sections \<Rightarrow> wasm_import list \<Rightarrow> app_error + unit" where
  "check_imports T S [] = Inr ()"
| "check_imports T S ((module_name, field, ty) # is) =
     (if module_name = ''nitrum'' \<and> field = ''http_get'' then
        (case func_ref ty of
           None \<Rightarrow> Inl (Compile (''import `nitrum.http_get` must be a function, got '' @ wt_ref T ty))
         | Some type_idx \<Rightarrow>
             (case type_at S type_idx of
                None \<Rightarrow> Inl (Compile (''import `nitrum.http_get` references missing type '' @ show_nat type_idx))
              | Some func_ty \<Rightarrow>
                  if \<not> http_get_sig func_ty then
                    Inl (Compile (''import `nitrum.http_get` must be (i32, i32, i32, i32) -> i32, got ''
                                  @ wt_func T func_ty))
                  else check_imports T S is))
      else Inl (Compile (''unsupported import `'' @ module_name @ ''.'' @ field @ ''`'')))"

definition check_sections :: "wasm_text \<Rightarrow> wasm_sections \<Rightarrow> app_error + unit" where
  "check_sections T S =
     bind_r (check_exports T S False False (ws_exports S)) (\<lambda>(saw_memory, saw_invoke).
     if \<not> saw_memory then Inl (Compile ''module missing export `memory`'')
     else if \<not> saw_invoke then Inl (Compile ''module missing export `invoke`'')
     else check_imports T S (ws_imports S))"

definition assert_abi_bytes ::
  "(bytes \<Rightarrow> (string + payload) list) \<Rightarrow> wasm_text \<Rightarrow> bytes \<Rightarrow> app_error + unit" where
  "assert_abi_bytes parse_all T wasm =
     bind_r (add_payloads no_sections (parse_all wasm)) (\<lambda>S. check_sections T S)"

section \<open>The check of the compiled module\<close>

datatype extern_type = EFunc func_type | EMemory | EOther string

record wasm_module =
  wm_exports :: "string \<Rightarrow> extern_type option"
  wm_imports :: "(string \<times> string \<times> extern_type) list"

fun show_extern :: "wasm_text \<Rightarrow> extern_type \<Rightarrow> string" where
  "show_extern T (EFunc ty) = wt_func T ty"
| "show_extern T EMemory = ''memory''"
| "show_extern T (EOther s) = s"

fun abi_imports :: "wasm_text \<Rightarrow> (string \<times> string \<times> extern_type) list \<Rightarrow> app_error + unit" where
  "abi_imports T [] = Inr ()"
| "abi_imports T ((module_name, field, ty) # is) =
     (if module_name = ''nitrum'' \<and> field = ''http_get'' then
        (case ty of
           EFunc f \<Rightarrow>
             if \<not> http_get_sig f then
               Inl (Compile (''import `nitrum.http_get` must be (i32, i32, i32, i32) -> i32, got '' @ wt_func T f))
             else abi_imports T is
         | other \<Rightarrow> Inl (Compile (''import `nitrum.http_get` must be a function, got '' @ show_extern T other)))
      else Inl (Compile (''unsupported import `'' @ module_name @ ''.'' @ field @ ''`'')))"

definition assert_abi :: "wasm_text \<Rightarrow> wasm_module \<Rightarrow> app_error + unit" where
  "assert_abi T M =
     bind_r (case wm_exports M ''memory'' of
               Some EMemory \<Rightarrow> Inr ()
             | Some other \<Rightarrow> Inl (Compile (''export `memory` must be a memory, got '' @ show_extern T other))
             | None \<Rightarrow> Inl (Compile ''module missing export `memory`'')) (\<lambda>_.
     bind_r (case wm_exports M ''invoke'' of
               Some (EFunc ty) \<Rightarrow>
                 if \<not> invoke_sig ty then
                   Inl (Compile (''export `invoke` must be (i32, i32) -> i32, got '' @ wt_func T ty))
                 else Inr ()
             | Some other \<Rightarrow> Inl (Compile (''export `invoke` must be a function, got '' @ show_extern T other))
             | None \<Rightarrow> Inl (Compile ''module missing export `invoke`'')) (\<lambda>_.
     abi_imports T (wm_imports M)))"

section \<open>Files and modules\<close>

text \<open>
  What the WebAssembly specification says a file is, and what a compiled module says of itself. This
  is the language of the assumption about \<open>wasmparser\<close> and \<open>wasmtime\<close>: the parser yields the sections
  in their order, each at most once; an index of a function counts the imported functions first and
  then the file's own; a module's exports and imports are those of the file, with their types looked
  up. None of it is code of the repository.
\<close>

record wasm_file =
  wf_types :: "func_type option list"
  wf_imports :: "wasm_import list"
  wf_funcs :: "nat list"
  wf_exports :: "wasm_export list"

definition optional_section :: "bool \<Rightarrow> payload \<Rightarrow> (string + payload) list" where
  "optional_section present p = (if present then [Inr p] else [])"

definition yields :: "(string + payload) list \<Rightarrow> wasm_file \<Rightarrow> bool" where
  "yields ps F \<longleftrightarrow>
     (\<exists>groups t i f e.
        filter (\<lambda>p. p \<noteq> Inr OtherPayload) ps =
          optional_section t (TypeSection (map Inr groups)) @ optional_section i (ImportSection (map Inr (wf_imports F)))
          @ optional_section f (FunctionSection (map Inr (wf_funcs F))) @ optional_section e (ExportSection (map Inr (wf_exports F)))
        \<and> wf_types F = (if t then concat groups else []) \<and> (i \<or> wf_imports F = []) \<and> (f \<or> wf_funcs F = [])
        \<and> (e \<or> wf_exports F = []))"

fun imported_type :: "wasm_import \<Rightarrow> nat list" where
  "imported_type (m, n, RFunc i) = [i]"
| "imported_type (m, n, RFuncExact i) = [i]"
| "imported_type (m, n, ROther s) = []"

definition function_space :: "wasm_file \<Rightarrow> nat list" where
  "function_space F = concat (map imported_type (wf_imports F)) @ wf_funcs F"

definition file_type :: "wasm_file \<Rightarrow> nat \<Rightarrow> func_type option" where
  "file_type F i = (if i < length (wf_types F) then wf_types F ! i else None)"

text \<open>Validity: export names are distinct, and indices of functions and of their types exist.\<close>

definition valid_file :: "wasm_file \<Rightarrow> bool" where
  "valid_file F \<longleftrightarrow>
     distinct (map fst (wf_exports F))
     \<and> (\<forall>(n, k, i) \<in> set (wf_exports F). k = KFunc \<or> k = KFuncExact \<longrightarrow> i < length (function_space F))
     \<and> (\<forall>t \<in> set (function_space F). file_type F t \<noteq> None)"

fun exported_as :: "wasm_file \<Rightarrow> external_kind \<Rightarrow> nat \<Rightarrow> extern_type \<Rightarrow> bool" where
  "exported_as F KMemory i t = (t = EMemory)"
| "exported_as F (KOther s) i t = (\<exists>s. t = EOther s)"
| "exported_as F _ i t = (\<exists>ty. t = EFunc ty \<and> file_type F (function_space F ! i) = Some ty)"

fun imported_as :: "wasm_file \<Rightarrow> type_ref \<Rightarrow> extern_type \<Rightarrow> bool" where
  "imported_as F (ROther s) t = (\<forall>ty. t \<noteq> EFunc ty)"
| "imported_as F (RFunc i) t = (\<exists>ty. t = EFunc ty \<and> file_type F i = Some ty)"
| "imported_as F (RFuncExact i) t = (\<exists>ty. t = EFunc ty \<and> file_type F i = Some ty)"

definition describes :: "wasm_module \<Rightarrow> wasm_file \<Rightarrow> bool" where
  "describes M F \<longleftrightarrow>
     (\<forall>n. wm_exports M n = None \<longrightarrow> n \<notin> fst ` set (wf_exports F))
     \<and> (\<forall>n t. wm_exports M n = Some t \<longrightarrow> (\<exists>k i. (n, k, i) \<in> set (wf_exports F) \<and> exported_as F k i t))
     \<and> list_all2 (\<lambda>(m, n, ty) (m', n', t). m' = m \<and> n' = n \<and> imported_as F ty t) (wf_imports F) (wm_imports M)"

section \<open>The two checks agree\<close>

text \<open>The scan collects exactly the file.\<close>

definition scanned :: "wasm_file \<Rightarrow> wasm_sections" where
  "scanned F = \<lparr> ws_types = wf_types F, ws_funcs = function_space F, ws_exports = wf_exports F, ws_imports = wf_imports F \<rparr>"

lemma collect_map_Inr [simp]: "collect_r (\<lambda>x. x) (map Inr xs) = Inr xs"
  by (induction xs) auto

lemma func_ref_imported: "List.map_filter (\<lambda>(m, n, ty). func_ref ty) is = concat (map imported_type is)"
proof (induction "is")
  case (Cons x xs)
  obtain m n ty where x: "x = (m, n, ty)" by (cases x)
  show ?case using Cons x by (cases ty) (simp_all add: List.map_filter_simps)
qed (simp add: List.map_filter_simps)

lemma add_payloads_skip: "add_payloads S (filter (\<lambda>p. p \<noteq> Inr OtherPayload) ps) = add_payloads S ps"
proof (induction ps arbitrary: S)
  case (Cons p ps)
  then show ?case by (cases p) (auto simp: bind_r_def split: sum.split)
qed simp

lemma scan_collects: "yields ps F \<Longrightarrow> add_payloads no_sections ps = Inr (scanned F)"
  unfolding yields_def
  by (subst add_payloads_skip [symmetric], elim exE conjE)
    (auto simp: optional_section_def no_sections_def scanned_def function_space_def func_ref_imported split: if_splits)

lemma type_at_scanned [simp]: "type_at (scanned F) = file_type F"
  by (rule ext) (simp add: type_at_def file_type_def scanned_def)

lemma imports_agree:
  assumes "list_all2 (\<lambda>(m, n, ty) (m', n', t). m' = m \<and> n' = n \<and> imported_as F ty t) is js"
  shows "check_imports T (scanned F) is = Inr () \<longleftrightarrow> abi_imports T js = Inr ()"
  using assms
proof (induction rule: list_all2_induct)
  case (Cons x xs y ys)
  obtain m n ty t where x: "x = (m, n, ty)" "y = (m, n, t)" and t: "imported_as F ty t"
    using Cons.hyps(1) by (cases x; cases y) auto
  show ?case using Cons.IH t unfolding x by (cases ty; cases t) auto
qed simp

text \<open>What the scan of the exports establishes.\<close>

definition good_invoke :: "wasm_file \<Rightarrow> external_kind \<Rightarrow> nat \<Rightarrow> bool" where
  "good_invoke F kind i \<longleftrightarrow>
     (kind = KFunc \<or> kind = KFuncExact) \<and> i < length (function_space F)
     \<and> (\<exists>ty. file_type F (function_space F ! i) = Some ty \<and> invoke_sig ty)"

lemma check_exports_iff:
  "check_exports T (scanned F) m v es = Inr (m', v') \<longleftrightarrow>
     (\<forall>(n, k, i) \<in> set es. (n = ''memory'' \<longrightarrow> k = KMemory) \<and> (n = ''invoke'' \<longrightarrow> good_invoke F k i))
     \<and> (m' \<longleftrightarrow> m \<or> ''memory'' \<in> fst ` set es) \<and> (v' \<longleftrightarrow> v \<or> ''invoke'' \<in> fst ` set es)"
proof (induction es arbitrary: m v)
  case (Cons e es)
  obtain n k i where e: "e = (n, k, i)" by (cases e)
  have [simp]: "ws_funcs (scanned F) = function_space F" by (simp add: scanned_def)
  show ?case
    by (auto simp: e Cons.IH good_invoke_def split: option.splits)
qed auto

lemma export_unique:
  "valid_file F \<Longrightarrow> (n, k, i) \<in> set (wf_exports F) \<Longrightarrow> (n, k', i') \<in> set (wf_exports F) \<Longrightarrow> k' = k \<and> i' = i"
  unfolding valid_file_def by (metis eq_key_imp_eq_value prod.inject)

lemma export_all:
  assumes "valid_file F"
  shows "n \<in> fst ` set (wf_exports F) \<and> (\<forall>(m, k, i) \<in> set (wf_exports F). m = n \<longrightarrow> P k i)
     \<longleftrightarrow> (\<exists>k i. (n, k, i) \<in> set (wf_exports F) \<and> P k i)"
proof
  assume "n \<in> fst ` set (wf_exports F) \<and> (\<forall>(m, k, i) \<in> set (wf_exports F). m = n \<longrightarrow> P k i)"
  moreover then obtain k i where "(n, k, i) \<in> set (wf_exports F)" by auto
  ultimately show "\<exists>k i. (n, k, i) \<in> set (wf_exports F) \<and> P k i" by blast
next
  assume "\<exists>k i. (n, k, i) \<in> set (wf_exports F) \<and> P k i"
  then obtain k i where ki: "(n, k, i) \<in> set (wf_exports F)" "P k i" by blast
  have "P k' i'" if "(n, k', i') \<in> set (wf_exports F)" for k' i'
    using export_unique [OF assms ki(1) that] ki(2) by simp
  moreover have "n \<in> fst ` set (wf_exports F)" using ki(1) by force
  ultimately show "n \<in> fst ` set (wf_exports F) \<and> (\<forall>(m, k, i) \<in> set (wf_exports F). m = n \<longrightarrow> P k i)" by blast
qed

lemma function_typed:
  assumes "valid_file F" and "(n, k, i) \<in> set (wf_exports F)" and "k = KFunc \<or> k = KFuncExact"
  shows "i < length (function_space F) \<and> (\<exists>ty. file_type F (function_space F ! i) = Some ty)"
proof -
  have i: "i < length (function_space F)" using assms unfolding valid_file_def by blast
  then have "file_type F (function_space F ! i) \<noteq> None" using assms(1) nth_mem unfolding valid_file_def by blast
  with i show ?thesis by blast
qed

lemma described:
  assumes "describes M F" and "wm_exports M n = Some t"
  shows "\<exists>k i. (n, k, i) \<in> set (wf_exports F) \<and> exported_as F k i t"
  using assms unfolding describes_def by blast

lemma describes_export:
  assumes "describes M F" and "valid_file F" and "(n, k, i) \<in> set (wf_exports F)"
  shows "\<exists>t. wm_exports M n = Some t \<and> exported_as F k i t"
proof -
  have "n \<in> fst ` set (wf_exports F)" using assms(3) by force
  then obtain t where t: "wm_exports M n = Some t"
    using assms(1) unfolding describes_def by (metis not_None_eq)
  from described [OF assms(1) t] export_unique [OF assms(2,3)] t show ?thesis by blast
qed

lemma exported_memory: "exported_as F k i EMemory \<longleftrightarrow> k = KMemory"
  by (cases k) auto

lemma exported_func:
  "exported_as F k i (EFunc ty) \<longleftrightarrow> (k = KFunc \<or> k = KFuncExact) \<and> file_type F (function_space F ! i) = Some ty"
  by (cases k) auto

lemma abi_checks_agree:
  assumes "valid_file F" and "describes M F"
  shows "check_sections T (scanned F) = Inr () \<longleftrightarrow> assert_abi T M = Inr ()"
proof -
  let ?es = "wf_exports F"
  have mem: "''memory'' \<in> fst ` set ?es \<and> (\<forall>(n, k, i) \<in> set ?es. n = ''memory'' \<longrightarrow> k = KMemory)
     \<longleftrightarrow> wm_exports M ''memory'' = Some EMemory"
    unfolding export_all [OF assms(1)]
    using describes_export [OF assms(2,1), of "''memory''" KMemory] described [OF assms(2), of "''memory''" EMemory]
    by (auto simp: exported_memory)
  have inv: "''invoke'' \<in> fst ` set ?es \<and> (\<forall>(n, k, i) \<in> set ?es. n = ''invoke'' \<longrightarrow> good_invoke F k i)
     \<longleftrightarrow> (\<exists>ty. wm_exports M ''invoke'' = Some (EFunc ty) \<and> invoke_sig ty)"
    unfolding export_all [OF assms(1)]
  proof
    assume "\<exists>k i. (''invoke'', k, i) \<in> set ?es \<and> good_invoke F k i"
    then obtain k i ty where k: "(''invoke'', k, i) \<in> set ?es" "k = KFunc \<or> k = KFuncExact"
      "file_type F (function_space F ! i) = Some ty" "invoke_sig ty" by (auto simp: good_invoke_def)
    from describes_export [OF assms(2,1) k(1)] k(2-4)
    show "\<exists>ty. wm_exports M ''invoke'' = Some (EFunc ty) \<and> invoke_sig ty" by auto
  next
    assume "\<exists>ty. wm_exports M ''invoke'' = Some (EFunc ty) \<and> invoke_sig ty"
    then obtain ty where ty: "wm_exports M ''invoke'' = Some (EFunc ty)" "invoke_sig ty" by blast
    obtain k i where k: "(''invoke'', k, i) \<in> set ?es" "k = KFunc \<or> k = KFuncExact"
      "file_type F (function_space F ! i) = Some ty"
      using described [OF assms(2) ty(1)] by (auto simp: exported_func)
    have "good_invoke F k i" using function_typed [OF assms(1) k(1,2)] k ty(2) by (simp add: good_invoke_def)
    with k(1) show "\<exists>k i. (''invoke'', k, i) \<in> set ?es \<and> good_invoke F k i" by blast
  qed
  have imp: "check_imports T (scanned F) (wf_imports F) = Inr () \<longleftrightarrow> abi_imports T (wm_imports M) = Inr ()"
    using imports_agree assms(2) by (simp add: describes_def)
  have fields: "ws_exports (scanned F) = ?es" "ws_imports (scanned F) = wf_imports F" by (simp_all add: scanned_def)
  have "check_sections T (scanned F) = Inr () \<longleftrightarrow>
      check_exports T (scanned F) False False ?es = Inr (True, True) \<and> check_imports T (scanned F) (wf_imports F) = Inr ()"
    by (auto simp: check_sections_def fields bind_r_Inr_iff simp del: check_exports.simps check_imports.simps split: if_splits)
  also have "check_exports T (scanned F) False False ?es = Inr (True, True) \<longleftrightarrow>
      (''memory'' \<in> fst ` set ?es \<and> (\<forall>(n, k, i) \<in> set ?es. n = ''memory'' \<longrightarrow> k = KMemory))
      \<and> (''invoke'' \<in> fst ` set ?es \<and> (\<forall>(n, k, i) \<in> set ?es. n = ''invoke'' \<longrightarrow> good_invoke F k i))"
    unfolding check_exports_iff by blast
  also have "(\<dots>) \<and> check_imports T (scanned F) (wf_imports F) = Inr () \<longleftrightarrow> assert_abi T M = Inr ()"
    unfolding mem inv imp
    by (auto simp: assert_abi_def bind_r_Inr_iff split: option.splits extern_type.splits if_splits)
  finally show ?thesis .
qed

section \<open>A file and its module\<close>

abbreviation invoke_type :: func_type where "invoke_type \<equiv> \<lparr> ft_params = [I32, I32], ft_results = [I32] \<rparr>"

abbreviation http_get_type :: func_type where
  "http_get_type \<equiv> \<lparr> ft_params = [I32, I32, I32, I32], ft_results = [I32] \<rparr>"

definition demo_file :: wasm_file where
  "demo_file = \<lparr> wf_types = [Some invoke_type, Some http_get_type], wf_imports = [(''nitrum'', ''http_get'', RFunc 1)],
     wf_funcs = [0], wf_exports = [(''memory'', KMemory, 0), (''invoke'', KFunc, 1)] \<rparr>"

definition demo_module :: wasm_module where
  "demo_module = \<lparr> wm_exports = [''memory'' \<mapsto> EMemory, ''invoke'' \<mapsto> EFunc invoke_type],
     wm_imports = [(''nitrum'', ''http_get'', EFunc http_get_type)] \<rparr>"

definition demo_payloads :: "(string + payload) list" where
  "demo_payloads =
     [Inr OtherPayload, Inr (TypeSection [Inr [Some invoke_type], Inr [Some http_get_type]]),
      Inr (ImportSection [Inr (''nitrum'', ''http_get'', RFunc 1)]), Inr (FunctionSection [Inr 0]), Inr OtherPayload,
      Inr (ExportSection [Inr (''memory'', KMemory, 0), Inr (''invoke'', KFunc, 1)])]"

definition demo_text :: wasm_text where
  "demo_text = \<lparr> wt_kind = (\<lambda>_. ''kind''), wt_ref = (\<lambda>_. ''type''), wt_func = (\<lambda>_. ''func'') \<rparr>"

lemma map_Inr_iff: "map Inr xs = map Inr ys \<longleftrightarrow> xs = ys"
  by (rule inj_map_eq_map) simp

lemma demo_yields: "yields demo_payloads F \<longleftrightarrow> F = demo_file"
proof
  assume "yields demo_payloads F"
  from scan_collects [OF this] have "scanned F = \<lparr> ws_types = [Some invoke_type, Some http_get_type], ws_funcs = [1, 0],
     ws_exports = [(''memory'', KMemory, 0), (''invoke'', KFunc, 1)], ws_imports = [(''nitrum'', ''http_get'', RFunc 1)] \<rparr>"
    by (simp add: demo_payloads_def no_sections_def List.map_filter_simps)
  then show "F = demo_file"
    by (cases F) (auto simp: scanned_def function_space_def demo_file_def)
next
  assume "F = demo_file"
  then show "yields demo_payloads F"
    unfolding yields_def
    by (intro exI [of _ "[[Some invoke_type], [Some http_get_type]]"] exI [of _ True])
      (simp add: demo_payloads_def demo_file_def optional_section_def)
qed

lemma demo_file_ok: "valid_file demo_file" "describes demo_module demo_file"
  by (auto simp: valid_file_def describes_def demo_file_def demo_module_def function_space_def file_type_def
      split: if_splits)

lemma demo_abi: "assert_abi demo_text demo_module = Inr ()"
  by (simp add: assert_abi_def demo_module_def invoke_sig_def http_get_sig_def)

lemma demo_abi_bytes: "parse_all wasm = demo_payloads \<Longrightarrow> assert_abi_bytes parse_all demo_text wasm = Inr ()"
  using demo_yields scan_collects [of demo_payloads demo_file] abi_checks_agree [OF demo_file_ok, of demo_text] demo_abi
  by (simp add: assert_abi_bytes_def)

end
