(* ===== verification/Runner.thy ===== *)
theory Runner
  imports Http_Host Wasm_Abi
begin

text \<open>
  \<open>crates/executor/src/wasmtime_runner.rs\<close> apart from the ABI checks: the module cache, the
  limits of a run, the host side of \<open>nitrum.http_get\<close>, the call of the guest, and the
  classification of engine errors. The engine (\<open>wasmtime\<close>, \<open>wasmparser\<close>) is a parameter: a
  record of the operations the code calls, over a store type \<open>'s\<close> and a module type \<open>'m\<close>. The
  guest runs inside \<open>we_call\<close> and \<open>we_instantiate\<close> and reaches the outside only through the
  host function it is linked with.
\<close>

section \<open>The engine\<close>

datatype trap = Interrupt string | OtherTrap string

fun trap_text :: "trap \<Rightarrow> string" where
  "trap_text (Interrupt s) = s"
| "trap_text (OtherTrap s) = s"

fun trap_interrupt :: "trap \<Rightarrow> bool" where
  "trap_interrupt (Interrupt _) = True"
| "trap_interrupt (OtherTrap _) = False"

text \<open>An error: the trap it is, if it is one, its text, and the traps among its chain of sources.\<close>

record wasm_error =
  er_trap :: "trap option"
  er_text :: string
  er_sources :: "trap option list"

record store_config =
  sc_memory_size :: nat
  sc_instances :: nat
  sc_memories :: nat
  sc_tables :: nat
  sc_deadline :: u64

type_synonym ('s, 'w) host_fn = "i32 \<Rightarrow> i32 \<Rightarrow> i32 \<Rightarrow> i32 \<Rightarrow> 's \<times> 'w \<Rightarrow> i32 \<times> ('s \<times> 'w)"

record ('s, 'm, 'w) wasm_engine =
  we_validate :: "bytes \<Rightarrow> string + unit"
  we_payloads :: "bytes \<Rightarrow> (string + payload) list"
  we_text :: wasm_text
  we_compile :: "bytes \<Rightarrow> string + 'm"
  we_shape :: "'m \<Rightarrow> wasm_module"
  we_store :: "store_config \<Rightarrow> 's"
  we_link :: "string + unit"
  we_instantiate :: "'m \<Rightarrow> ('s, 'w) host_fn \<Rightarrow> 's \<times> 'w \<Rightarrow> (wasm_error + unit) \<times> ('s \<times> 'w)"
  we_has_memory :: "'s \<Rightarrow> bool"
  we_typed_invoke :: "'s \<Rightarrow> string + unit"
  we_call :: "('s, 'w) host_fn \<Rightarrow> i32 \<Rightarrow> i32 \<Rightarrow> 's \<times> 'w \<Rightarrow> (wasm_error + i32) \<times> ('s \<times> 'w)"
  we_pages :: "'s \<Rightarrow> nat"
  we_grow :: "nat \<Rightarrow> 's \<Rightarrow> (string + unit) \<times> 's"
  we_read :: "'s \<Rightarrow> nat \<Rightarrow> nat \<Rightarrow> string + bytes"
  we_write :: "nat \<Rightarrow> bytes \<Rightarrow> 's \<Rightarrow> (string + unit) \<times> 's"

section \<open>Engine errors\<close>

definition is_interrupt :: "wasm_error \<Rightarrow> bool" where
  "is_interrupt err \<longleftrightarrow>
     (case er_trap err of Some t \<Rightarrow> trap_interrupt t | None \<Rightarrow> False) \<or> contains_str (er_text err) ''interrupt''"

fun map_sources :: "string \<Rightarrow> string \<Rightarrow> trap option list \<Rightarrow> app_error" where
  "map_sources ctx txt [] = Invoke (ctx @ '': '' @ txt)"
| "map_sources ctx txt (None # rest) = map_sources ctx txt rest"
| "map_sources ctx txt (Some trap # rest) =
     (if trap_interrupt trap then Timeout (ctx @ '': epoch deadline'') else Trap (ctx @ '': '' @ trap_text trap))"

definition map_wasm_err :: "wasm_error \<Rightarrow> string \<Rightarrow> app_error" where
  "map_wasm_err err ctx =
     (if is_interrupt err then Timeout (ctx @ '': epoch deadline'')
      else if er_trap err \<noteq> None then Trap (ctx @ '': '' @ er_text err)
      else map_sources ctx (er_text err) (er_sources err))"

section \<open>The host function\<close>

definition i32_of_len :: "nat \<Rightarrow> i32" where
  "i32_of_len n = (if n < 2 ^ 31 then word_of_nat n else word_of_int (2 ^ 31 - 1))"

definition http_get_host ::
  "ext \<Rightarrow> json_text \<Rightarrow> ('s, 'm, 'w) wasm_engine \<Rightarrow> 'w http_client \<Rightarrow> egress_origin list \<Rightarrow> ('s, 'w) host_fn" where
  "http_get_host X J E client egress_allow url_ptr url_len out_ptr out_cap = (\<lambda>(s, w).
     if sint url_ptr < 0 \<or> sint url_len < 0 \<or> sint out_ptr < 0 \<or> sint out_cap < 0 then (ERR_BAD_ARGS, s, w)
     else
       let url_len = nat (sint url_len); out_cap = nat (sint out_cap) in
       if url_len > MAX_HTTP_URL_BYTES \<or> out_cap = 0 then (ERR_BAD_ARGS, s, w)
       else if \<not> we_has_memory E s then (ERR_BAD_ARGS, s, w)
       else
         (case we_read E s (nat (sint url_ptr)) url_len of
            Inl _ \<Rightarrow> (ERR_BAD_ARGS, s, w)
          | Inr url \<Rightarrow>
              if \<not> utf8_valid url then (ERR_BAD_ARGS, s, w)
              else
                (case fetch_url X J client url egress_allow w of
                   (Inl code, w') \<Rightarrow> (code, s, w')
                 | (Inr envelope, w') \<Rightarrow>
                     if length envelope > out_cap then (ERR_TOO_LARGE, s, w')
                     else
                       (case we_write E (nat (sint out_ptr)) envelope s of
                          (Inl _, s') \<Rightarrow> (ERR_BAD_ARGS, s', w')
                        | (Inr _, s') \<Rightarrow> (i32_of_len (length envelope), s', w')))))"

section \<open>The runner\<close>

record 'm module_cache =
  mc_poisoned :: bool
  mc_modules :: "content_hash \<Rightarrow> 'm option"

text \<open>
  The cache is shared state, so it lives in the world: \<open>wr_cache\<close> and \<open>wr_set_cache\<close> read and
  replace it. \<open>wr_join\<close> is the join error of a blocking task that panicked or was cancelled.
  Times are in nanoseconds.
\<close>

record ('s, 'm, 'w) wasmtime_runner =
  wr_engine :: "('s, 'm, 'w) wasm_engine"
  wr_invoke_timeout :: nat
  wr_epoch_tick :: nat
  wr_http_client :: "'w http_client"
  wr_cache :: "'w \<Rightarrow> 'm module_cache"
  wr_set_cache :: "'m module_cache \<Rightarrow> 'w \<Rightarrow> 'w"
  wr_join :: "'w \<Rightarrow> string option"

text \<open>
  The engine's configuration. \<open>new_engine\<close> is \<open>Engine::new\<close>; the ticker thread, which bumps the
  engine's epoch every \<open>epoch_tick\<close>, shows in the model as the interrupt of a call past its deadline.
\<close>

record engine_config =
  eg_async_support :: bool
  eg_cranelift_flags :: "(string \<times> string) list"
  eg_signals_based_traps :: bool
  eg_memory_reservation :: nat
  eg_memory_guard_size :: nat
  eg_guard_before_linear_memory :: bool
  eg_memory_reservation_for_growth :: nat
  eg_epoch_interruption :: bool

definition product_engine_config :: engine_config where
  "product_engine_config =
     \<lparr> eg_async_support = False,
       eg_cranelift_flags = [(''enable_heap_access_spectre_mitigation'', ''false''),
                             (''enable_table_access_spectre_mitigation'', ''false'')],
       eg_signals_based_traps = False, eg_memory_reservation = 0, eg_memory_guard_size = 0,
       eg_guard_before_linear_memory = False, eg_memory_reservation_for_growth = 16 * 1024 * 1024,
       eg_epoch_interruption = True \<rparr>"

definition with_http_client ::
  "nat \<Rightarrow> nat \<Rightarrow> 'w http_client \<Rightarrow> (engine_config \<Rightarrow> string + ('s, 'm, 'w) wasm_engine)
     \<Rightarrow> ('w \<Rightarrow> 'm module_cache) \<Rightarrow> ('m module_cache \<Rightarrow> 'w \<Rightarrow> 'w) \<Rightarrow> ('w \<Rightarrow> string option)
     \<Rightarrow> app_error + ('s, 'm, 'w) wasmtime_runner" where
  "with_http_client invoke_timeout epoch_tick client new_engine cache set_cache join =
     (if epoch_tick = 0 then Inl (Compile ''epoch tick must be non-zero'')
      else bind_r (map_err Compile (new_engine product_engine_config)) (\<lambda>engine.
        Inr \<lparr> wr_engine = engine, wr_invoke_timeout = invoke_timeout, wr_epoch_tick = epoch_tick,
              wr_http_client = client, wr_cache = cache, wr_set_cache = set_cache, wr_join = join \<rparr>))"

definition with_timeout ::
  "'w http_agent \<Rightarrow> nat \<Rightarrow> nat \<Rightarrow> (engine_config \<Rightarrow> string + ('s, 'm, 'w) wasm_engine)
     \<Rightarrow> ('w \<Rightarrow> 'm module_cache) \<Rightarrow> ('m module_cache \<Rightarrow> 'w \<Rightarrow> 'w) \<Rightarrow> ('w \<Rightarrow> string option)
     \<Rightarrow> app_error + ('s, 'm, 'w) wasmtime_runner" where
  "with_timeout agent invoke_timeout epoch_tick = with_http_client invoke_timeout epoch_tick (ureq_get agent)"

definition runner_new ::
  "'w http_agent \<Rightarrow> (engine_config \<Rightarrow> string + ('s, 'm, 'w) wasm_engine)
     \<Rightarrow> ('w \<Rightarrow> 'm module_cache) \<Rightarrow> ('m module_cache \<Rightarrow> 'w \<Rightarrow> 'w) \<Rightarrow> ('w \<Rightarrow> string option)
     \<Rightarrow> app_error + ('s, 'm, 'w) wasmtime_runner" where
  "runner_new agent =
     with_timeout agent (INVOKE_TIMEOUT_ms * 1000000) (EPOCH_TICK_ms * 1000000)"

definition epoch_deadline_ticks :: "('s, 'm, 'w) wasmtime_runner \<Rightarrow> u64" where
  "epoch_deadline_ticks R = word_of_nat (max (wr_invoke_timeout R div wr_epoch_tick R) 1)"

definition new_store :: "('s, 'm, 'w) wasmtime_runner \<Rightarrow> 's" where
  "new_store R =
     we_store (wr_engine R)
       \<lparr> sc_memory_size = MAX_GUEST_MEMORY_BYTES, sc_instances = 1, sc_memories = 1, sc_tables = 1,
         sc_deadline = epoch_deadline_ticks R \<rparr>"

definition cached_module ::
  "('s, 'm, 'w) wasmtime_runner \<Rightarrow> content_hash \<Rightarrow> bytes \<Rightarrow> ('w, app_error, 'm) io" where
  "cached_module R hash wasm w =
     (if mc_poisoned (wr_cache R w) then (Inl (Invoke ''module cache poisoned''), w)
      else case mc_modules (wr_cache R w) hash of
        Some module \<Rightarrow> (Inr module, w)
      | None \<Rightarrow>
          (case map_err Compile (we_compile (wr_engine R) wasm) of
             Inl e \<Rightarrow> (Inl e, w)
           | Inr module \<Rightarrow>
               (case assert_abi (we_text (wr_engine R)) (we_shape (wr_engine R) module) of
                  Inl e \<Rightarrow> (Inl e, w)
                | Inr _ \<Rightarrow>
                    (Inr module,
                     wr_set_cache R
                       ((wr_cache R w)\<lparr> mc_modules := (mc_modules (wr_cache R w))(hash \<mapsto> module) \<rparr>) w))))"

definition validate_sync :: "('s, 'm, 'w) wasm_engine \<Rightarrow> bytes \<Rightarrow> app_error + unit" where
  "validate_sync E wasm =
     bind_r (map_err Compile (we_validate E wasm)) (\<lambda>_. assert_abi_bytes (we_payloads E) (we_text E) wasm)"

definition wasm_instantiate ::
  "('s, 'm, 'w) wasm_engine \<Rightarrow> ('s, 'w) host_fn \<Rightarrow> 'm \<Rightarrow> ('s \<times> 'w, app_error, unit) io" where
  "wasm_instantiate E host module =
     bind_io (lift_r (map_err (\<lambda>e. Invoke (''link http_get: '' @ e)) (we_link E))) (\<lambda>_.
     map_err_io (\<lambda>e. map_wasm_err e ''instantiate'') (we_instantiate E module host))"

text \<open>Growing the memory to hold \<open>end\<close> bytes, and an operation on the store alone.\<close>

definition ensure_pages :: "('s, 'm, 'w) wasm_engine \<Rightarrow> nat \<Rightarrow> ('s, app_error, unit) io" where
  "ensure_pages E bound s =
     (let pages_needed = (bound + 65535) div 65536; current = we_pages E s in
      if pages_needed > current then map_err_io Invoke (we_grow E (pages_needed - current)) s
      else (Inr (), s))"

definition in_store :: "('s, 'e, 'a) io \<Rightarrow> ('s \<times> 'w, 'e, 'a) io" where
  "in_store m = (\<lambda>(s, w). case m s of (r, s') \<Rightarrow> (r, s', w))"

definition OFFSET :: nat where "OFFSET = 64"

definition read_output :: "('s, 'm, 'w) wasm_engine \<Rightarrow> i32 \<Rightarrow> ('s \<times> 'w, app_error, bytes) io" where
  "read_output E out_len =
     (if sint out_len < 0 then throw (Invoke (''invoke returned negative len '' @ show_int (sint out_len)))
      else
        let out_len = nat (sint out_len) in
        if out_len > MAX_GUEST_OUTPUT_BYTES then
          throw (PayloadTooLarge (''guest output '' @ show_nat out_len @ '' bytes exceeds max ''
                                  @ show_nat MAX_GUEST_OUTPUT_BYTES))
        else if \<not> OFFSET + out_len < 2 ^ 64 then throw (Invoke ''output length overflow'')
        else
          bind_io (in_store (ensure_pages E (OFFSET + out_len))) (\<lambda>_.
          (\<lambda>(s, w). (map_err Invoke (we_read E s OFFSET out_len), s, w))))"

definition invoke_in_store ::
  "('s, 'm, 'w) wasm_engine \<Rightarrow> ('s, 'w) host_fn \<Rightarrow> 'm \<Rightarrow> bytes \<Rightarrow> ('s \<times> 'w, app_error, bytes) io" where
  "invoke_in_store E host module input =
     bind_io (wasm_instantiate E host module) (\<lambda>_.
     bind_io (\<lambda>(s, w). (if we_has_memory E s then Inr () else Inl (Invoke ''module missing export `memory`''), s, w)) (\<lambda>_.
     bind_io (\<lambda>(s, w). (map_err (\<lambda>e. Invoke (''module missing `invoke`: '' @ e)) (we_typed_invoke E s), s, w)) (\<lambda>_.
     bind_io (in_store (ensure_pages E (OFFSET + length input))) (\<lambda>_.
     bind_io (in_store (map_err_io Invoke (we_write E OFFSET input))) (\<lambda>_.
     bind_io (map_err_io (\<lambda>e. map_wasm_err e ''invoke'')
                (we_call E host (word_of_nat OFFSET) (i32_of_len (length input)))) (\<lambda>out_len.
     read_output E out_len))))))"

definition invoke_sync ::
  "ext \<Rightarrow> json_text \<Rightarrow> ('s, 'm, 'w) wasmtime_runner \<Rightarrow> 'm \<Rightarrow> bytes \<Rightarrow> egress_origin list
     \<Rightarrow> ('w, app_error, bytes) io" where
  "invoke_sync X J R module input egress_allow w =
     (if length input > MAX_INVOKE_BODY_BYTES then
        (Inl (PayloadTooLarge (''invoke input '' @ show_nat (length input) @ '' bytes exceeds max ''
                               @ show_nat MAX_INVOKE_BODY_BYTES)), w)
      else
        (case invoke_in_store (wr_engine R)
                (http_get_host X J (wr_engine R) (wr_http_client R) egress_allow) module input (new_store R, w) of
           (r, s', w') \<Rightarrow> (r, w')))"

definition spawn_blocking ::
  "('s, 'm, 'w) wasmtime_runner \<Rightarrow> ('w, app_error, 'a) io \<Rightarrow> ('w, app_error, 'a) io" where
  "spawn_blocking R m w =
     (case m w of (r, w') \<Rightarrow>
        (case wr_join R w' of
           Some e \<Rightarrow> (Inl (Invoke (''join error: '' @ e)), w')
         | None \<Rightarrow> (r, w')))"

definition runner_validate ::
  "('s, 'm, 'w) wasmtime_runner \<Rightarrow> bytes \<Rightarrow> ('w, app_error, unit) io" where
  "runner_validate R wasm = spawn_blocking R (lift_r (validate_sync (wr_engine R) wasm))"

definition runner_run ::
  "ext \<Rightarrow> json_text \<Rightarrow> ('s, 'm, 'w) wasmtime_runner \<Rightarrow> content_hash \<Rightarrow> bytes \<Rightarrow> bytes \<Rightarrow> egress_origin list
     \<Rightarrow> ('w, app_error, run_outcome) io" where
  "runner_run X J R hash wasm input egress_allow =
     bind_io (cached_module R hash wasm) (\<lambda>module.
     bind_io (spawn_blocking R (invoke_sync X J R module input egress_allow)) (\<lambda>output.
     ret \<lparr> ro_output = output \<rparr>))"

definition wasmtime_function_runner ::
  "ext \<Rightarrow> json_text \<Rightarrow> ('s, 'm, 'w) wasmtime_runner \<Rightarrow> 'w function_runner" where
  "wasmtime_function_runner X J R = \<lparr> fr_validate = runner_validate R, fr_run = runner_run X J R \<rparr>"

end
