(* ===== verification/Guest.thy ===== *)
theory Guest
  imports Runner Ref_World
begin

text \<open>
  What the host relies on of the engine, as locales: the guest's linear memory with its bounds
  checked reads and writes (\<open>guest_store\<close>), and the sandbox, by which a guest changes the world
  only through the host function (\<open>guest_sandbox\<close>), and the toolchain, whose parser, validator and
  compiler agree about a file (\<open>wasm_toolchain\<close>). The lemmas give the effect of
  \<open>http_get_host\<close> and \<open>invoke_sync\<close> on the memory, the outbound requests a run can make, and
  where a cached module comes from. The last part is a reference engine with three guests.
\<close>

section \<open>Contracts\<close>

definition zeros :: "nat \<Rightarrow> bytes" where "zeros n = replicate n (chr 0)"

definition patch :: "nat \<Rightarrow> bytes \<Rightarrow> bytes \<Rightarrow> bytes" where
  "patch off b d = take off d @ b @ drop (off + length b) d"

definition slice :: "nat \<Rightarrow> nat \<Rightarrow> bytes \<Rightarrow> bytes" where
  "slice off n d = take n (drop off d)"

lemma patch_length [simp]: "off + length b \<le> length d \<Longrightarrow> length (patch off b d) = length d"
  by (simp add: patch_def)

lemma patch_outside:
  "off + length b \<le> length d \<Longrightarrow> i < off \<or> off + length b \<le> i \<Longrightarrow> i < length d \<Longrightarrow> patch off b d ! i = d ! i"
  by (auto simp: patch_def nth_append)

lemma slice_patch [simp]: "off \<le> length d \<Longrightarrow> slice off (length b) (patch off b d) = b"
  by (simp add: slice_def patch_def)

lemma slice_length [simp]: "off + n \<le> length d \<Longrightarrow> length (slice off n d) = n"
  by (simp add: slice_def)

locale guest_store =
  fixes E :: "('s, 'm, 'w) wasm_engine" and data :: "'s \<Rightarrow> bytes"
  assumes read_law: "we_read E s off n = Inr b \<longleftrightarrow> off + n \<le> length (data s) \<and> b = slice off n (data s)"
    and write_law: "we_write E off b s = (Inr (), s') \<Longrightarrow> off + length b \<le> length (data s) \<and> data s' = patch off b (data s)"
    and write_refused: "we_write E off b s = (Inl e, s') \<Longrightarrow> s' = s \<and> length (data s) < off + length b"
    and grow_law: "we_grow E d s = (Inr (), s') \<Longrightarrow> data s' = data s @ zeros (65536 * d)"
    and pages_law: "length (data s) = 65536 * we_pages E s"

text \<open>A host function that keeps \<open>P\<close> of the world, whatever the guest passes to it.\<close>

definition host_stable :: "('w \<Rightarrow> bool) \<Rightarrow> ('s, 'w) host_fn \<Rightarrow> bool" where
  "host_stable P host \<longleftrightarrow> (\<forall>a b c d s w r s' w'. P w \<longrightarrow> host a b c d (s, w) = (r, s', w') \<longrightarrow> P w')"

locale guest_sandbox =
  fixes E :: "('s, 'm, 'w) wasm_engine"
  assumes call_confined:
      "host_stable P host \<Longrightarrow> P w \<Longrightarrow> we_call E host p n (s, w) = (res, s', w') \<Longrightarrow> P w'"
    and instantiate_confined:
      "host_stable P host \<Longrightarrow> P w \<Longrightarrow> we_instantiate E m host (s, w) = (res', s', w') \<Longrightarrow> P w'"

text \<open>
  The parser, the validator and the compiler speak of the same file: a file the validator accepted
  has sections the parser yields, and the module the compiler makes of it says what they say.
\<close>

locale wasm_toolchain =
  fixes E :: "('s, 'm, 'w) wasm_engine"
  assumes parsed: "we_validate E wasm = Inr () \<Longrightarrow> \<exists>F. yields (we_payloads E wasm) F \<and> valid_file F"
    and compiled: "we_validate E wasm = Inr () \<Longrightarrow> yields (we_payloads E wasm) F \<Longrightarrow> we_compile E wasm = Inr m \<Longrightarrow>
        describes (we_shape E m) F"
begin

lemma abi_agree:
  assumes "we_validate E wasm = Inr ()" and "we_compile E wasm = Inr m"
  shows "assert_abi_bytes (we_payloads E) T wasm = Inr () \<longleftrightarrow> assert_abi T (we_shape E m) = Inr ()"
proof -
  obtain F where F: "yields (we_payloads E wasm) F" "valid_file F" using parsed [OF assms(1)] by blast
  from abi_checks_agree [OF F(2) compiled [OF assms(1) F(1) assms(2)]] scan_collects [OF F(1)]
  show ?thesis by (simp add: assert_abi_bytes_def)
qed

end

section \<open>The host function\<close>

lemma i32_of_len_sint: "n < 2 ^ 31 \<Longrightarrow> sint (i32_of_len n) = int n"
  by (simp add: i32_of_len_def signed_of_nat signed_take_bit_int_eq_self)

lemma sint_i32_less: "sint (x :: i32) < 2 ^ 31"
  using sint_lt [of x] by simp

lemma http_get_cases:
  assumes "http_get_host X J E client allow url_ptr url_len out_ptr out_cap (s, w) = (r, s', w')"
  obtains (refused) "sint r < 0" "s' = s" "w' = w"
  | (failed) url where "sint r < 0" "s' = s" "length url \<le> MAX_HTTP_URL_BYTES" "utf8_valid url"
      "we_read E s (nat (sint url_ptr)) (nat (sint url_len)) = Inr url"
      "fetch_url X J client url allow w = (Inl r, w')"
  | (discarded) url envelope e where "sint r < 0" "length url \<le> MAX_HTTP_URL_BYTES" "utf8_valid url"
      "we_read E s (nat (sint url_ptr)) (nat (sint url_len)) = Inr url"
      "fetch_url X J client url allow w = (Inr envelope, w')"
      "s' = s \<or> we_write E (nat (sint out_ptr)) envelope s = (Inl e, s')"
  | (stored) url envelope where "r = i32_of_len (length envelope)" "length url \<le> MAX_HTTP_URL_BYTES"
      "utf8_valid url" "we_read E s (nat (sint url_ptr)) (nat (sint url_len)) = Inr url"
      "fetch_url X J client url allow w = (Inr envelope, w')"
      "int (length envelope) \<le> sint out_cap" "0 \<le> sint out_ptr" "0 < sint out_cap"
      "we_write E (nat (sint out_ptr)) envelope s = (Inr (), s')"
  using assms error_code_negative(2,3) fetch_error_negative
  by (fastforce simp: http_get_host_def Let_def fetch_url_def
      split: if_splits sum.splits prod.splits)

context guest_store
begin

lemma http_get_memory:
  assumes "http_get_host X J E client allow url_ptr url_len out_ptr out_cap (s, w) = (r, s', w')"
  shows "(sint r < 0 \<and> data s' = data s)
    \<or> (\<exists>url res envelope. sint r = int (length envelope) \<and> sint r \<le> sint out_cap
         \<and> url = slice (nat (sint url_ptr)) (nat (sint url_len)) (data s)
         \<and> client url allow w = (Inr res, w') \<and> jt_to_vec J (http_envelope X res) = Inr envelope
         \<and> nat (sint out_ptr) + length envelope \<le> length (data s)
         \<and> data s' = patch (nat (sint out_ptr)) envelope (data s))"
  using assms
proof (cases rule: http_get_cases)
  case (stored url envelope)
  obtain res where res: "client url allow w = (Inr res, w')" "jt_to_vec J (http_envelope X res) = Inr envelope"
    using stored(2,5) by (auto simp: fetch_url_def match_io_def encode_http_envelope_def
        split: prod.splits sum.splits)
  have "int (length envelope) < 2 ^ 31" using stored(6) sint_i32_less [of out_cap] by linarith
  then have "sint r = int (length envelope)" using stored(1) by (simp add: i32_of_len_sint)
  with res stored write_law [OF stored(9)] read_law show ?thesis by auto
qed (auto dest: write_refused)

text \<open>What \<open>invoke_sync\<close> hands to the guest, and what it takes back.\<close>

lemma ensure_pages_data:
  assumes "ensure_pages E bound s = (Inr (), s')"
  shows "bound \<le> length (data s') \<and> (\<exists>n. data s' = data s @ zeros n)"
proof (cases "(bound + 65535) div 65536 > we_pages E s")
  case True
  let ?d = "(bound + 65535) div 65536 - we_pages E s"
  have g: "we_grow E ?d s = (Inr (), s')"
    using assms True by (auto simp: ensure_pages_def Let_def map_err_io_iff)
  have "length (data s') = 65536 * we_pages E s + 65536 * ?d"
    using grow_law [OF g] pages_law [of s] by (simp add: zeros_def)
  also have "\<dots> = 65536 * ((bound + 65535) div 65536)"
    using True by (simp flip: add_mult_distrib2)
  finally show ?thesis using grow_law [OF g] by auto
next
  case False
  then have s: "s' = s" "(bound + 65535) div 65536 \<le> we_pages E s" using assms by (auto simp: ensure_pages_def Let_def)
  have "bound \<le> 65536 * ((bound + 65535) div 65536)" by linarith
  also have "\<dots> \<le> 65536 * we_pages E s" using s(2) by (rule mult_le_mono2)
  finally have "bound \<le> length (data s)" by (simp add: pages_law)
  then show ?thesis using s(1) by (auto simp: zeros_def intro: exI [of _ 0])
qed

lemma read_output_ok:
  assumes "read_output E n (s, w) = (Inr out, s', w')"
  shows "0 \<le> sint n \<and> length out = nat (sint n) \<and> length out \<le> MAX_GUEST_OUTPUT_BYTES
    \<and> w' = w \<and> out = slice OFFSET (length out) (data s') \<and> (\<exists>k. data s' = data s @ zeros k)"
proof -
  have n: "0 \<le> sint n" "nat (sint n) \<le> MAX_GUEST_OUTPUT_BYTES" "w' = w"
    "ensure_pages E (OFFSET + nat (sint n)) s = (Inr (), s')" "we_read E s' OFFSET (nat (sint n)) = Inr out"
    using assms
    by (auto simp: read_output_def Let_def bind_io_Inr_iff in_store_def split: if_splits prod.splits)
  with ensure_pages_data [OF n(4)] show ?thesis by (auto simp: read_law)
qed

end

lemma http_get_confined:
  assumes "\<And>url w r w'. length url \<le> MAX_HTTP_URL_BYTES \<Longrightarrow> P w \<Longrightarrow> client url allow w = (r, w') \<Longrightarrow> P w'"
    and "P w" and "http_get_host X J E client allow a b c d (s, w) = (r, s', w')"
  shows "P w'"
  using assms(3)
proof (cases rule: http_get_cases)
  case refused
  with assms(2) show ?thesis by simp
next
  case (failed url)
  show ?thesis by (rule fetch_confined [where P = P, OF assms(1) [OF failed(3)] assms(2) failed(6)])
next
  case (discarded url envelope e)
  show ?thesis by (rule fetch_confined [where P = P, OF assms(1) [OF discarded(2)] assms(2) discarded(5)])
next
  case (stored url envelope)
  show ?thesis by (rule fetch_confined [where P = P, OF assms(1) [OF stored(2)] assms(2) stored(5)])
qed

text \<open>
  A computation over the engine's store and the world keeps \<open>P\<close> of the world.
\<close>

abbreviation stable :: "('w \<Rightarrow> bool) \<Rightarrow> ('s \<times> 'w, 'e, 'a) io \<Rightarrow> bool" where
  "stable P \<equiv> frames (\<lambda>sw. P (snd sw)) (\<lambda>_. ())"

lemma stable_in_store: "stable P (in_store m)"
  by (rule framesI) (auto simp: in_store_def split: prod.splits)

lemma stable_local: "stable P (\<lambda>(s, w). (f s, s, w))"
  by (rule framesI) auto

lemma stable_read_output: "stable P (read_output E n)"
  unfolding read_output_def Let_def
  by (auto intro!: frames_bind frames_ret stable_in_store stable_local)

context guest_sandbox
begin

lemma call_stable: "host_stable P host \<Longrightarrow> stable P (we_call E host p n)"
  by (rule framesI) (metis call_confined prod.collapse)

lemma instantiate_stable: "host_stable P host \<Longrightarrow> stable P (we_instantiate E m host)"
  by (rule framesI) (metis instantiate_confined prod.collapse)

lemma invoke_in_store_stable: "host_stable P host \<Longrightarrow> stable P (invoke_in_store E host m input)"
  unfolding invoke_in_store_def wasm_instantiate_def
  by (intro frames_bind frames_ret frames_map_err stable_in_store stable_local stable_read_output
      call_stable instantiate_stable)

lemma invoke_sync_world:
  assumes "wr_engine R = E"
    and client: "\<And>url w r w'. length url \<le> MAX_HTTP_URL_BYTES \<Longrightarrow> P w \<Longrightarrow>
      wr_http_client R url allow w = (r, w') \<Longrightarrow> P w'"
    and "P w" and "invoke_sync X J R m input allow w = (r, w')"
  shows "P w'"
proof -
  have "host_stable P (http_get_host X J E (wr_http_client R) allow)"
    unfolding host_stable_def by (intro allI impI) (erule (1) http_get_confined [rotated], erule (2) client)
  from framesD [OF invoke_in_store_stable [OF this], where w = "(new_store R, w)"] show ?thesis
    using assms(1,3,4) by (fastforce simp: invoke_sync_def split: if_splits prod.splits)
qed

end

end
