(* ===== verification/Json_Text.thy ===== *)
theory Json_Text
  imports Json External
begin

text \<open>
  A reference JSON printer and parser with the contract of \<open>json_codec\<close>, on which the locale is
  interpreted and the witnesses run: compact text, quotes, backslashes and control characters
  escaped. The parser takes the length of the text as its fuel.
\<close>

section \<open>Strings\<close>

definition esc_char :: "char \<Rightarrow> string" where
  "esc_char c =
     (if c = CHR 0x22 then [CHR 0x5C, CHR 0x22]
      else if c = CHR 0x5C then [CHR 0x5C, CHR 0x5C]
      else if byte c < 32 then
        [CHR 0x5C, CHR ''u'', CHR ''0'', CHR ''0'', hex_digit (byte c div 16), hex_digit (byte c mod 16)]
      else [c])"

fun esc_string :: "string \<Rightarrow> string" where
  "esc_string [] = [CHR 0x22]"
| "esc_string (c # s) = esc_char c @ esc_string s"

definition add_char :: "char \<Rightarrow> (string \<times> string) option \<Rightarrow> (string \<times> string) option" where
  "add_char c m = map_option (\<lambda>(s, r). (c # s, r)) m"

fun parse_string :: "string \<Rightarrow> (string \<times> string) option"
  and parse_escape :: "string \<Rightarrow> (string \<times> string) option" where
  "parse_string [] = None"
| "parse_string (c # r) =
     (if c = CHR 0x22 then Some ([], r)
      else if c = CHR 0x5C then parse_escape r
      else add_char c (parse_string r))"
| "parse_escape (e # r) =
     (if e = CHR ''u'' then
        (case r of
           a # b # x # y # r' \<Rightarrow>
             (case (hex_value x, hex_value y) of
                (Some m, Some n) \<Rightarrow> add_char (chr (16 * m + n)) (parse_string r')
              | _ \<Rightarrow> None)
         | _ \<Rightarrow> None)
      else add_char e (parse_string r))"
| "parse_escape [] = None"

lemma parse_esc_char: "parse_string (esc_char c @ r) = add_char c (parse_string r)"
proof -
  have "16 * (byte c div 16) + byte c mod 16 = byte c" by simp
  then show ?thesis by (simp add: esc_char_def)
qed

lemma parse_esc_string: "parse_string (esc_string s @ r) = Some (s, r)"
  by (induction s) (simp_all add: parse_esc_char add_char_def)

section \<open>Values\<close>

fun show_number :: "json_number \<Rightarrow> string" where
  "show_number (JPos n) = show_u64 n"
| "show_number (JNeg i) = show_int i"
| "show_number (JFloat s) = s"

fun print_json :: "json \<Rightarrow> string"
  and print_elems :: "json list \<Rightarrow> string"
  and print_fields :: "(string \<times> json) list \<Rightarrow> string" where
  "print_json JNull = ''null''"
| "print_json (JBool b) = (if b then ''true'' else ''false'')"
| "print_json (JNumber n) = show_number n"
| "print_json (JString s) = CHR 0x22 # esc_string s"
| "print_json (JArray xs) = CHR ''['' # print_elems xs"
| "print_json (JObject fs) = CHR ''{'' # print_fields fs"
| "print_elems [] = '']''"
| "print_elems (x # xs) = print_json x @ (if xs = [] then '']'' else CHR '','' # print_elems xs)"
| "print_fields [] = ''}''"
| "print_fields ((k, v) # fs) =
     CHR 0x22 # esc_string k @ CHR '':'' # print_json v
       @ (if fs = [] then ''}'' else CHR '','' # print_fields fs)"

definition parse_number :: "string \<Rightarrow> (json \<times> string) option" where
  "parse_number s =
     (let (neg, t) = (case s of c # r \<Rightarrow> if c = CHR ''-'' then (True, r) else (False, s) | [] \<Rightarrow> (False, s));
          ds = takeWhile is_ascii_digit t; r = dropWhile is_ascii_digit t in
      case (if ds = [] then None else digits_val 0 ds) of
        None \<Rightarrow> None
      | Some n \<Rightarrow>
          if neg then (if n = 0 then None else Some (JNumber (JNeg (- int n)), r))
          else if n < 2 ^ 64 then Some (JNumber (JPos (word_of_nat n)), r) else None)"

definition parse_word :: "string \<Rightarrow> json \<Rightarrow> string \<Rightarrow> (json \<times> string) option" where
  "parse_word kw v s = (case strip_prefix s kw of Some r \<Rightarrow> Some (v, r) | None \<Rightarrow> None)"

fun parse_json :: "nat \<Rightarrow> string \<Rightarrow> (json \<times> string) option"
  and parse_elems :: "nat \<Rightarrow> string \<Rightarrow> (json list \<times> string) option"
  and parse_fields :: "nat \<Rightarrow> string \<Rightarrow> ((string \<times> json) list \<times> string) option" where
  "parse_json (Suc k) (c # r) =
     (if c = CHR ''n'' then parse_word ''ull'' JNull r
      else if c = CHR ''t'' then parse_word ''rue'' (JBool True) r
      else if c = CHR ''f'' then parse_word ''alse'' (JBool False) r
      else if c = CHR 0x22 then map_option (\<lambda>(s, r). (JString s, r)) (parse_string r)
      else if c = CHR ''['' then
        (if starts_with r '']'' then Some (JArray [], tl r)
         else map_option (\<lambda>(xs, r). (JArray xs, r)) (parse_elems k r))
      else if c = CHR ''{'' then
        (if starts_with r ''}'' then Some (JObject [], tl r)
         else map_option (\<lambda>(fs, r). (JObject fs, r)) (parse_fields k r))
      else parse_number (c # r))"
| "parse_json _ _ = None"
| "parse_elems (Suc k) s =
     (case parse_json k s of
        Some (x, c # r) \<Rightarrow>
          if c = CHR '']'' then Some ([x], r)
          else if c = CHR '','' then map_option (\<lambda>(xs, r). (x # xs, r)) (parse_elems k r)
          else None
      | _ \<Rightarrow> None)"
| "parse_elems 0 s = None"
| "parse_fields (Suc k) s =
     (case s of
        q # s' \<Rightarrow>
          if q \<noteq> CHR 0x22 then None
          else (case parse_string s' of
            Some (key, col # s'') \<Rightarrow>
              if col \<noteq> CHR '':'' then None
              else (case parse_json k s'' of
                Some (v, c # r) \<Rightarrow>
                  if c = CHR ''}'' then Some ([(key, v)], r)
                  else if c = CHR '','' then map_option (\<lambda>(fs, r). ((key, v) # fs, r)) (parse_fields k r)
                  else None
              | _ \<Rightarrow> None)
          | _ \<Rightarrow> None)
      | [] \<Rightarrow> None)"
| "parse_fields 0 s = None"

definition stops :: "string \<Rightarrow> bool" where
  "stops r \<longleftrightarrow> r = [] \<or> \<not> is_ascii_digit (hd r)"

lemma take_digits:
  assumes "stops r"
  shows "takeWhile is_ascii_digit (show_nat n @ r) = show_nat n" "dropWhile is_ascii_digit (show_nat n @ r) = r"
proof -
  have "\<forall>c \<in> set (show_nat n). is_ascii_digit c" using show_nat_digits by blast
  then show "takeWhile is_ascii_digit (show_nat n @ r) = show_nat n" "dropWhile is_ascii_digit (show_nat n @ r) = r"
    using assms by (cases r; simp add: stops_def takeWhile_append2 dropWhile_append2)+
qed

lemma parse_number_show:
  assumes "stops r" and "json_ok (JNumber n)"
  shows "parse_number (show_number n @ r) = Some (JNumber n, r)"
proof (cases n)
  case (JPos v)
  obtain c s where cs: "show_nat (unat v) = c # s" "is_ascii_digit c"
    using show_nat_digits [of _ "unat v"] by (cases "show_nat (unat v)") auto
  then have "c \<noteq> CHR ''-''" by (auto simp: is_ascii_digit_def byte_def)
  moreover have "takeWhile is_ascii_digit (c # s @ r) = c # s" "dropWhile is_ascii_digit (c # s @ r) = r"
    using take_digits [OF assms(1), of "unat v"] cs by simp_all
  moreover have "digits_val 0 (c # s) = Some (unat v)" using digits_val_show_nat [of "unat v"] cs by simp
  ultimately show ?thesis
    using JPos cs unsigned_less [of v] by (simp add: parse_number_def show_u64_def Let_def)
next
  case (JNeg i)
  with assms(2) have i: "i < 0" by simp
  show ?thesis
    using JNeg i take_digits [OF assms(1), of "nat (- i)"]
    by (simp add: parse_number_def show_int_def digits_val_show_nat)
qed (use assms in auto)

lemma show_number_head:
  assumes "json_ok (JNumber n)"
  shows "\<exists>c s. show_number n = c # s \<and> (is_ascii_digit c \<or> c = CHR ''-'')"
proof -
  have d: "\<exists>c s. show_nat m = c # s \<and> is_ascii_digit c" for m
    using show_nat_digits [of _ m] by (cases "show_nat m") auto
  show ?thesis using assms d by (cases n; simp add: show_u64_def show_int_def) metis+
qed

lemma digit_head:
  "is_ascii_digit c \<or> c = CHR ''-'' \<Longrightarrow> c \<noteq> CHR ''n'' \<and> c \<noteq> CHR ''t'' \<and> c \<noteq> CHR ''f'' \<and> c \<noteq> CHR 0x22
     \<and> c \<noteq> CHR ''['' \<and> c \<noteq> CHR ''{'' \<and> c \<noteq> CHR '']''"
  by (auto simp: is_ascii_digit_def byte_def)

lemma print_json_head: "json_ok j \<Longrightarrow> \<exists>c s. print_json j = c # s \<and> c \<noteq> CHR '']''"
  using show_number_head digit_head by (cases j) (fastforce split: if_splits)+

lemma stops_simps [simp]:
  "stops (CHR '','' # r)" "stops (CHR '']'' # r)" "stops (CHR ''}'' # r)" "stops []"
  by (simp_all add: stops_def is_ascii_digit_def byte_def)

lemma parse_print:
  "json_ok j \<Longrightarrow> stops r \<Longrightarrow> length (print_json j) \<le> k \<Longrightarrow> parse_json k (print_json j @ r) = Some (j, r)"
  "list_all json_ok xs \<Longrightarrow> xs \<noteq> [] \<Longrightarrow> length (print_elems xs) \<le> k \<Longrightarrow>
     parse_elems k (print_elems xs @ r) = Some (xs, r)"
  "list_all (\<lambda>(k, v). utf8_valid k \<and> json_ok v) fs \<Longrightarrow> fs \<noteq> [] \<Longrightarrow> length (print_fields fs) \<le> k \<Longrightarrow>
     parse_fields k (print_fields fs @ r) = Some (fs, r)"
proof (induction j and xs and fs arbitrary: k r and k r and k r rule: print_json_print_elems_print_fields.induct)
  case 1
  then show ?case by (cases k) (auto simp: parse_word_def strip_prefix_def starts_with_def)
next
  case (2 b)
  then show ?case by (cases k; cases b) (auto simp: parse_word_def strip_prefix_def starts_with_def)
next
  case (3 n)
  obtain c s where cs: "show_number n = c # s" "is_ascii_digit c \<or> c = CHR ''-''"
    using show_number_head [OF 3(1)] by blast
  obtain k' where "k = Suc k'" using 3 cs by (cases k) auto
  then show ?case
    using cs(1) digit_head [OF cs(2)] parse_number_show [OF 3(2,1)] by simp
next
  case (4 s)
  then obtain k' where "k = Suc k'" by (cases k) auto
  then show ?case by (simp add: parse_esc_string)
next
  case (5 xs)
  then obtain k' where k: "k = Suc k'" by (cases k) auto
  show ?case
  proof (cases "xs = []")
    case False
    then obtain x xs' where xs: "xs = x # xs'" by (cases xs) auto
    then have "json_ok x" using 5 by simp
    then obtain c s where "print_elems xs = c # s" "c \<noteq> CHR '']''" using print_json_head xs by fastforce
    then have "\<not> starts_with (print_elems xs @ r) '']''" by (simp add: starts_with_def)
    with 5 k False show ?thesis by simp
  qed (simp add: k starts_with_def)
next
  case (6 fs)
  then obtain k' where k: "k = Suc k'" by (cases k) auto
  show ?case
  proof (cases "fs = []")
    case False
    then have "\<not> starts_with (print_fields fs @ r) ''}''" by (cases fs) (auto simp: starts_with_def)
    with 6 k False show ?thesis by simp
  qed (simp add: k starts_with_def)
next
  case (8 x xs)
  then obtain k' where k: "k = Suc k'" by (cases k) (auto split: if_splits)
  show ?case
    using 8 k by (cases "xs = []") auto
next
  case (10 key v fs)
  then obtain k' where k: "k = Suc k'" by (cases k) auto
  show ?case
    using 10 k by (cases "fs = []") (auto simp: parse_esc_string)
qed simp_all

section \<open>The text is UTF-8\<close>

lemma utf8_ascii_append: "list_all is_ascii a \<Longrightarrow> utf8_go [] (a @ t) = utf8_go [] t"
  by (induction a) (simp_all add: is_ascii_def utf8_lead_def)

lemma esc_char_cases: "(is_ascii c \<and> list_all is_ascii (esc_char c)) \<or> (128 \<le> byte c \<and> esc_char c = [c])"
proof -
  have h: "n < 16 \<Longrightarrow> is_ascii (hex_digit n)" for n by (simp add: hex_digit_def is_ascii_def)
  have "byte c div 16 < 16" "byte c mod 16 < 16" using byte_less [of c] by simp_all
  then show ?thesis using h by (auto simp: esc_char_def is_ascii_def byte_def)
qed

lemma utf8_lead_high: "utf8_lead n = Some rs \<Longrightarrow> list_all (\<lambda>(lo, hi). 128 \<le> lo) rs"
  by (auto simp: utf8_lead_def split: if_splits)

lemma esc_string_utf8:
  "utf8_go rs s \<Longrightarrow> list_all (\<lambda>(lo, hi). 128 \<le> lo) rs \<Longrightarrow> utf8_go rs (esc_string s)"
proof (induction s arbitrary: rs)
  case Nil
  then show ?case by (cases rs) (auto simp: utf8_lead_def byte_def)
next
  case (Cons c s)
  show ?case
  proof (cases rs)
    case Nil
    with Cons.prems obtain rs' where l: "utf8_lead (byte c) = Some rs'" "utf8_go rs' s"
      by (auto split: option.splits)
    have IH: "utf8_go rs' (esc_string s)" by (rule Cons.IH [OF l(2) utf8_lead_high [OF l(1)]])
    show ?thesis
    proof (cases "is_ascii c \<and> list_all is_ascii (esc_char c)")
      case True
      then have "rs' = []" using l(1) by (simp add: is_ascii_def utf8_lead_def)
      with True IH Nil show ?thesis by (simp add: utf8_ascii_append)
    next
      case False
      then have "esc_char c = [c]" using esc_char_cases by blast
      with l(1) IH Nil show ?thesis by simp
    qed
  next
    case (Cons r rs')
    obtain lo hi where r: "r = (lo, hi)" by fastforce
    have "128 \<le> byte c" using Cons Cons.prems r by auto
    then have "esc_char c = [c]" using esc_char_cases [of c] by (auto simp: is_ascii_def)
    with Cons Cons.prems r show ?thesis using Cons.IH by auto
  qed
qed

lemma show_number_ascii: "json_ok (JNumber n) \<Longrightarrow> list_all is_ascii (show_number n)"
proof -
  have d: "list_all is_ascii (show_nat m)" for m
    using show_nat_digits [of _ m] by (fastforce simp: list_all_iff is_ascii_digit_def is_ascii_def)
  show "json_ok (JNumber n) \<Longrightarrow> list_all is_ascii (show_number n)"
    using d by (cases n) (simp_all add: show_u64_def show_int_def is_ascii_def byte_def)
qed

lemma quoted_utf8: "utf8_valid s \<Longrightarrow> utf8_valid (esc_string s)"
  using esc_string_utf8 [of "[]" s] by (simp add: utf8_valid_def)

lemma ascii_utf8: "list_all is_ascii s \<Longrightarrow> utf8_valid s"
  by (rule utf8_valid_ascii) (simp add: list_all_iff)

lemma utf8_cons_ascii: "is_ascii c \<Longrightarrow> utf8_valid (c # s) = utf8_valid s"
  using utf8_ascii_append [of "[c]" s] by (simp add: utf8_valid_def)

lemma punctuation_ascii [simp]:
  "is_ascii CHR 0x22" "is_ascii CHR '':''" "is_ascii CHR '',''" "is_ascii CHR ''[''" "is_ascii CHR '']''"
  "is_ascii CHR ''{''" "is_ascii CHR ''}''"
  by (simp_all add: is_ascii_def byte_def)

lemma literal_utf8:
  "utf8_valid ''null''" "utf8_valid ''true''" "utf8_valid ''false''" "utf8_valid '']''" "utf8_valid ''}''"
  by (rule ascii_utf8, simp add: is_ascii_def byte_def)+

lemma print_utf8:
  "json_ok j \<Longrightarrow> utf8_valid (print_json j)"
  "list_all json_ok xs \<Longrightarrow> utf8_valid (print_elems xs)"
  "list_all (\<lambda>(k, v). utf8_valid k \<and> json_ok v) fs \<Longrightarrow> utf8_valid (print_fields fs)"
proof (induction j and xs and fs rule: print_json_print_elems_print_fields.induct)
  case (3 n)
  then show ?case using show_number_ascii ascii_utf8 by auto
qed (auto simp: utf8_cons_ascii literal_utf8 quoted_utf8 intro!: utf8_valid_append)

section \<open>The reference codec\<close>

definition ref_json_text :: json_text where
  "ref_json_text =
     \<lparr> jt_to_vec = (\<lambda>j. Inr (print_json j)),
       jt_from_slice = (\<lambda>b. case parse_json (length b) b of Some (j, []) \<Rightarrow> Inr j | _ \<Rightarrow> Inl ''expected value''),
       jt_shape_error = (\<lambda>t j. ''invalid '' @ t) \<rparr>"

interpretation ref_json_text: json_codec ref_json_text
proof unfold_locales
  show "json_ok j \<Longrightarrow> \<exists>b. jt_to_vec ref_json_text j = Inr b" for j by (simp add: ref_json_text_def)
  show "json_ok j \<Longrightarrow> jt_to_vec ref_json_text j = Inr b \<Longrightarrow> jt_from_slice ref_json_text b = Inr j" for j b
    using parse_print(1) [of j "[]" "length b"] by (auto simp: ref_json_text_def)
  show "json_ok j \<Longrightarrow> jt_to_vec ref_json_text j = Inr b \<Longrightarrow> utf8_valid b" for j b
    using print_utf8(1) by (auto simp: ref_json_text_def)
qed

end
