(* ===== verification/Ref_Engine.thy ===== *)
theory Ref_Engine
  imports Guest Json_Text
begin

text \<open>
  A reference engine with the contracts of \<open>Guest\<close>: a module is its own bytes, and the guest does
  what they say: \<open>echo\<close> returns its input, \<open>fetch\<close> asks the host for the URL in its input, any
  other guest traps. The runner built on it runs in the reference world.
\<close>

section \<open>The store\<close>

record ref_guest =
  rg_pages :: nat
  rg_bytes :: bytes
  rg_code :: bytes

definition ref_data :: "ref_guest \<Rightarrow> bytes" where
  "ref_data s = take (65536 * rg_pages s) (rg_bytes s @ zeros (65536 * rg_pages s))"

definition ref_mem_write :: "nat \<Rightarrow> bytes \<Rightarrow> ref_guest \<Rightarrow> (string + unit) \<times> ref_guest" where
  "ref_mem_write off b s =
     (if off + length b \<le> length (ref_data s) then (Inr (), s\<lparr> rg_bytes := patch off b (ref_data s) \<rparr>)
      else (Inl ''out of bounds memory access'', s))"

definition ref_grow :: "nat \<Rightarrow> ref_guest \<Rightarrow> (string + unit) \<times> ref_guest" where
  "ref_grow d s =
     (if rg_pages s + d \<le> 1024 then (Inr (), s\<lparr> rg_bytes := ref_data s, rg_pages := rg_pages s + d \<rparr>)
      else (Inl ''failed to grow memory'', s))"

definition ref_call ::
  "(ref_guest, 'w) host_fn \<Rightarrow> i32 \<Rightarrow> i32 \<Rightarrow> ref_guest \<times> 'w \<Rightarrow> (wasm_error + i32) \<times> (ref_guest \<times> 'w)" where
  "ref_call host p n = (\<lambda>(s, w).
     if rg_code s = ''echo'' then (Inr n, s, w)
     else if rg_code s = ''fetch'' then
       (case host p n p 1000 (s, w) of (r, s', w') \<Rightarrow> (Inr r, s', w'))
     else (Inl \<lparr> er_trap = Some (OtherTrap ''unreachable''), er_text = ''wasm trap: unreachable'', er_sources = [] \<rparr>, s, w))"

definition ref_engine :: "(ref_guest, bytes, 'w) wasm_engine" where
  "ref_engine =
     \<lparr> we_validate = (\<lambda>b. if b = [] then Inl ''unexpected end'' else Inr ()),
       we_payloads = (\<lambda>b. demo_payloads),
       we_text = demo_text,
       we_compile = (\<lambda>b. if b = [] then Inl ''unexpected end'' else Inr b),
       we_shape = (\<lambda>m. demo_module),
       we_store = (\<lambda>c. \<lparr> rg_pages = 1, rg_bytes = [], rg_code = [] \<rparr>),
       we_link = Inr (),
       we_instantiate = (\<lambda>m host (s, w). (Inr (), s\<lparr> rg_code := m \<rparr>, w)),
       we_has_memory = (\<lambda>s. True),
       we_typed_invoke = (\<lambda>s. Inr ()),
       we_call = ref_call,
       we_pages = rg_pages,
       we_grow = ref_grow,
       we_read = (\<lambda>s off n. if off + n \<le> length (ref_data s) then Inr (slice off n (ref_data s))
                             else Inl ''out of bounds memory access''),
       we_write = ref_mem_write \<rparr>"

lemma ref_data_length: "length (ref_data s) = 65536 * rg_pages s"
  by (simp add: ref_data_def zeros_def)

lemma take_zeros: "n \<le> m \<Longrightarrow> take n (zeros m) = zeros n"
  by (simp add: zeros_def min_absorb1)

lemma ref_data_update:
  "ref_data (s\<lparr> rg_bytes := x \<rparr>) = take (65536 * rg_pages s) (x @ zeros (65536 * rg_pages s))"
  "ref_data (s\<lparr> rg_bytes := x, rg_pages := n \<rparr>) = take (65536 * n) (x @ zeros (65536 * n))"
  by (simp_all add: ref_data_def)

lemma ref_data_patched:
  "off + length b \<le> length (ref_data s) \<Longrightarrow>
     ref_data (s\<lparr> rg_bytes := patch off b (ref_data s) \<rparr>) = patch off b (ref_data s)"
  by (simp add: ref_data_update) (simp add: ref_data_length)

interpretation ref_engine: guest_store ref_engine ref_data
proof unfold_locales
  fix s s' :: ref_guest and off n :: nat and b :: bytes and e d
  show "we_read ref_engine s off n = Inr b \<longleftrightarrow> off + n \<le> length (ref_data s) \<and> b = slice off n (ref_data s)"
    by (auto simp: ref_engine_def)
  show "we_write ref_engine off b s = (Inr (), s') \<Longrightarrow>
      off + length b \<le> length (ref_data s) \<and> ref_data s' = patch off b (ref_data s)"
  proof -
    assume "we_write ref_engine off b s = (Inr (), s')"
    then have fit: "off + length b \<le> length (ref_data s)" "s' = s\<lparr> rg_bytes := patch off b (ref_data s) \<rparr>"
      by (auto simp: ref_engine_def ref_mem_write_def split: if_splits)
    have "length (patch off b (ref_data s)) = 65536 * rg_pages s" using fit(1) by (simp add: ref_data_length)
    then have "ref_data s' = patch off b (ref_data s)" by (simp add: fit(2) ref_data_update)
    with fit(1) show ?thesis by blast
  qed
  show "we_write ref_engine off b s = (Inl e, s') \<Longrightarrow> s' = s \<and> length (ref_data s) < off + length b"
    by (auto simp: ref_engine_def ref_mem_write_def split: if_splits)
  show "we_grow ref_engine d s = (Inr (), s') \<Longrightarrow> ref_data s' = ref_data s @ zeros (65536 * d)"
  proof -
    assume "we_grow ref_engine d s = (Inr (), s')"
    then have s': "s' = s\<lparr> rg_bytes := ref_data s, rg_pages := rg_pages s + d \<rparr>"
      by (auto simp: ref_engine_def ref_grow_def split: if_splits)
    have len: "length (ref_data s) = 65536 * rg_pages s" by (rule ref_data_length)
    show ?thesis
      by (simp add: s' ref_data_update len take_zeros distrib_left)
  qed
  show "length (ref_data s) = 65536 * we_pages ref_engine s"
    by (simp add: ref_engine_def ref_data_length)
qed

interpretation ref_sandbox: guest_sandbox ref_engine
proof unfold_locales
  show "host_stable P host \<Longrightarrow> P w \<Longrightarrow> we_call ref_engine host p n (s, w) = (res, s', w') \<Longrightarrow> P w'"
    for P host and w w' :: 'w and p n s s' res
    unfolding host_stable_def
    by (auto simp: ref_engine_def ref_call_def split: if_splits prod.splits)
  show "host_stable P host \<Longrightarrow> P w \<Longrightarrow> we_instantiate ref_engine m host (s, w) = (res, s', w') \<Longrightarrow> P w'"
    for P host and w w' :: 'w and m s s' res
    by (simp add: ref_engine_def)
qed

interpretation ref_toolchain: wasm_toolchain ref_engine
  by unfold_locales (auto simp: ref_engine_def demo_yields demo_file_ok)

section \<open>The runner\<close>

definition ref_agent :: "ref_world http_agent" where
  "ref_agent timeout redirects url w =
     (Inr \<lparr> ag_status = 200, ag_bytes = ''pong'', ag_failure = None \<rparr>, w\<lparr> rw_requests := url # rw_requests w \<rparr>)"

definition ref_cache :: "ref_world \<Rightarrow> bytes module_cache" where
  "ref_cache w = \<lparr> mc_poisoned = False, mc_modules = rw_modules w \<rparr>"

definition ref_set_cache :: "bytes module_cache \<Rightarrow> ref_world \<Rightarrow> ref_world" where
  "ref_set_cache c w = w\<lparr> rw_modules := mc_modules c \<rparr>"

text \<open>The runner of the product, with its default limits and client, on the reference engine.\<close>

definition ref_runner :: "(ref_guest, bytes, ref_world) wasmtime_runner" where
  "ref_runner =
     \<lparr> wr_engine = ref_engine, wr_invoke_timeout = INVOKE_TIMEOUT_ms * 1000000,
       wr_epoch_tick = EPOCH_TICK_ms * 1000000, wr_http_client = ureq_get ref_agent,
       wr_cache = ref_cache, wr_set_cache = ref_set_cache, wr_join = (\<lambda>_. None) \<rparr>"

lemma ref_runner_new:
  "runner_new ref_agent (\<lambda>_. Inr ref_engine) ref_cache ref_set_cache (\<lambda>_. None) = Inr ref_runner"
  by (simp add: runner_new_def with_timeout_def with_http_client_def ref_runner_def EPOCH_TICK_ms_def)

end
