(* ===== verification/Runner_Env.thy ===== *)
theory Runner_Env
  imports Ref_Engine
begin

text \<open>
  A runner on a sandboxed engine with a shared module cache: the cache holds only modules that
  were compiled from bytes with the hash they are stored under, and a run changes the world only
  through its HTTP client and its cache. The locale is interpreted on the product's runner in the
  reference world.
\<close>

section \<open>The cache\<close>

definition compiled_from ::
  "ext \<Rightarrow> ('s, 'm, 'w) wasmtime_runner \<Rightarrow> content_hash \<Rightarrow> 'm \<Rightarrow> bool" where
  "compiled_from X R hash module \<longleftrightarrow>
     (\<exists>wasm. content_hash_from_bytes X wasm = hash \<and> we_compile (wr_engine R) wasm = Inr module
        \<and> assert_abi (we_text (wr_engine R)) (we_shape (wr_engine R) module) = Inr ())"

definition cache_sound :: "ext \<Rightarrow> ('s, 'm, 'w) wasmtime_runner \<Rightarrow> 'w \<Rightarrow> bool" where
  "cache_sound X R w \<longleftrightarrow>
     (\<forall>hash module. mc_modules (wr_cache R w) hash = Some module \<longrightarrow> compiled_from X R hash module)"

locale runner_env =
  sandbox: guest_sandbox "wr_engine R"
  for R :: "('s, 'm, 'w) wasmtime_runner" +
  assumes set_cache: "mc_modules (wr_cache R (wr_set_cache R c w)) = mc_modules c"
    and client_keeps_cache: "wr_http_client R url allow w = (r, w') \<Longrightarrow> wr_cache R w' = wr_cache R w"
begin

lemma cached_module_law:
  assumes "cached_module R hash wasm w = (r, w')"
  shows "(r = Inr module \<longrightarrow>
       (mc_modules (wr_cache R w) hash = Some module \<and> w' = w)
     \<or> (we_compile (wr_engine R) wasm = Inr module
        \<and> assert_abi (we_text (wr_engine R)) (we_shape (wr_engine R) module) = Inr ()
        \<and> mc_modules (wr_cache R w') = (mc_modules (wr_cache R w))(hash \<mapsto> module)))
    \<and> (r = Inl e \<longrightarrow> w' = w)"
  using assms by (auto simp: cached_module_def set_cache split: if_splits option.splits sum.splits)

lemma cached_module_sound:
  assumes "cache_sound X R w" and "content_hash_from_bytes X wasm = hash"
    and "cached_module R hash wasm w = (r, w')"
  shows "cache_sound X R w' \<and> (\<forall>module. r = Inr module \<longrightarrow> compiled_from X R hash module)"
proof (cases r)
  case (Inl e)
  with cached_module_law [OF assms(3)] assms(1) show ?thesis by auto
next
  case (Inr module)
  have c: "compiled_from X R hash module"
    using cached_module_law [OF assms(3), of module] assms(1,2) Inr
    by (auto simp: cache_sound_def compiled_from_def)
  have "mc_modules (wr_cache R w') = mc_modules (wr_cache R w)
      \<or> mc_modules (wr_cache R w') = (mc_modules (wr_cache R w))(hash \<mapsto> module)"
    using cached_module_law [OF assms(3), of module] Inr by auto
  with assms(1) c have "cache_sound X R w'" by (auto simp: cache_sound_def split: if_splits)
  with c Inr show ?thesis by auto
qed

lemma invoke_sync_keeps_cache: "invoke_sync X J R m input allow w = (r, w') \<Longrightarrow> wr_cache R w' = wr_cache R w"
  using sandbox.invoke_sync_world [where P = "\<lambda>x. wr_cache R x = wr_cache R w", OF refl]
    client_keeps_cache by metis

lemma runner_run_law:
  assumes "runner_run X J R hash wasm input allow w = (r, w')"
  shows "(\<exists>e. cached_module R hash wasm w = (Inl e, w') \<and> r = Inl e)
    \<or> (\<exists>module w1 out. cached_module R hash wasm w = (Inr module, w1)
         \<and> invoke_sync X J R module input allow w1 = (out, w')
         \<and> r = (case wr_join R w' of Some e \<Rightarrow> Inl (Invoke (''join error: '' @ e))
                | None \<Rightarrow> bind_r out (\<lambda>b. Inr \<lparr> ro_output = b \<rparr>)))"
  using assms
  by (auto simp: runner_run_def bind_io_def spawn_blocking_def bind_r_def split: prod.splits sum.splits option.splits)

lemma runner_run_sound:
  assumes "cache_sound X R w" and "content_hash_from_bytes X wasm = hash"
    and "runner_run X J R hash wasm input allow w = (r, w')"
  shows "cache_sound X R w'"
  using runner_run_law [OF assms(3)] cached_module_sound [OF assms(1,2)] invoke_sync_keeps_cache
  unfolding cache_sound_def by metis

text \<open>What the client and the cache keep, a run keeps.\<close>

lemma runner_run_world:
  assumes client: "\<And>url w r w'. length url \<le> MAX_HTTP_URL_BYTES \<Longrightarrow> P w \<Longrightarrow>
      wr_http_client R url allow w = (r, w') \<Longrightarrow> P w'"
    and cache: "\<And>c w. P w \<Longrightarrow> P (wr_set_cache R c w)"
    and "P w" and "runner_run X J R hash wasm input allow w = (r, w')"
  shows "P w'"
proof -
  have c: "P w1" if "cached_module R hash wasm w = (m, w1)" for m w1
    using that assms(3) cache by (auto simp: cached_module_def split: if_splits option.splits sum.splits)
  have i: "P w'" if "P w1" "invoke_sync X J R m input allow w1 = (out, w')" for m w1 out
    by (rule sandbox.invoke_sync_world [where P = P, OF refl _ that]) (rule client)
  from runner_run_law [OF assms(4)] c i show ?thesis by blast
qed

end

interpretation ref_runner: runner_env ref_runner
proof -
  have e: "wr_engine ref_runner = ref_engine" by (simp add: ref_runner_def)
  show "runner_env ref_runner"
    unfolding runner_env_def runner_env_axioms_def e
    by (auto simp: ref_sandbox.guest_sandbox_axioms ref_runner_def ref_cache_def ref_set_cache_def ureq_get_def
        ref_agent_def bind_io_def map_err_io_def split: if_splits prod.splits sum.splits)
qed

end
