(* ===== verification/Runner_Properties.thy ===== *)
theory Runner_Properties
  imports Runner_Env
begin

text \<open>
  The properties of the executor: the two ABI checks agree, the guest's memory is written only
  where it asked, requests leave only for allowed origins, the guest gets exactly its input and
  no more than the limit comes out, and engine errors are classified as the use cases expect.
\<close>

section \<open>A run of the reference guests\<close>

abbreviation a_io :: egress_origin where "a_io \<equiv> EgressOrigin ''https://a.io''"

lemma demo_host: "validate_host ''a.io'' = Inr ()"
  by (simp add: validate_host_def eq_ignore_ascii_case_def to_ascii_lowercase_def to_lower_def ends_with_def
      is_ip_literal_def contains_char_def starts_with_def host_char_def char_class_defs byte_def)

lemma demo_allowed: "is_allowed ''https://a.io/x'' [a_io]"
proof -
  have t: "trim ''https://a.io/x'' = ''https://a.io/x''" by (rule trim_graphic) (auto simp: graphic_def byte_def)
  have "egress_parse ''https://a.io/x'' = Inr a_io"
    by (simp add: egress_parse_def t nth_piece_def starts_with_def contains_char_def demo_host)
  then show ?thesis by (simp add: is_allowed_iff)
qed

lemma slice_ref_data:
  "off + n \<le> length (rg_bytes s) \<Longrightarrow> length (rg_bytes s) \<le> 65536 * rg_pages s \<Longrightarrow>
     slice off n (ref_data s) = slice off n (rg_bytes s)"
  by (simp add: slice_def ref_data_def drop_take min_def)

definition demo_envelope :: bytes where
  "demo_envelope = print_json (http_envelope ref_ext \<lparr> rsp_status = 200, rsp_body = ''pong'' \<rparr>)"

lemma demo_envelope_length: "length demo_envelope = 39"
proof -
  have b: "b64_encode ref_ext ''pong'' = ''cG9uZw==''"
    by (simp add: ref_ext_def b64_char_def b64_alphabet_def byte_def)
  have n: "show_nat 200 = ''200''" by code_simp
  show ?thesis by (simp add: demo_envelope_def http_envelope_def b show_u64_def n esc_char_def byte_def)
qed

lemma demo_fetch_url:
  "fetch_url ref_ext ref_json_text (ureq_get ref_agent) ''https://a.io/x'' [a_io] w =
     (Inr demo_envelope, w\<lparr> rw_requests := ''https://a.io/x'' # rw_requests w \<rparr>)"
  using demo_allowed
  by (simp add: fetch_url_def MAX_HTTP_URL_BYTES_def match_io_def ureq_get_def bind_io_def map_err_io_def
      ref_agent_def read_take_def MAX_HTTP_BODY_BYTES_def encode_http_envelope_def ref_json_text_def demo_envelope_def)


definition demo_guest :: ref_guest where
  "demo_guest = \<lparr> rg_pages = 1, rg_bytes = ''https://a.io/x'', rg_code = ''fetch'' \<rparr>"

lemma demo_guest_read:
  "we_read (ref_engine :: (ref_guest, bytes, 'w) wasm_engine) demo_guest 0 14 = Inr ''https://a.io/x''"
proof -
  have "slice 0 14 (ref_data demo_guest) = slice 0 14 (rg_bytes demo_guest)"
    by (rule slice_ref_data) (simp_all add: demo_guest_def)
  also have "\<dots> = ''https://a.io/x''" by (simp add: slice_def demo_guest_def)
  finally show ?thesis by (simp add: ref_engine.read_law ref_data_length) (simp add: demo_guest_def)
qed

lemma demo_http_get:
  "http_get_host ref_ext ref_json_text ref_engine (ureq_get ref_agent) [a_io] 0 14 100 1000 (demo_guest, w) =
     (39, demo_guest\<lparr> rg_bytes := patch 100 demo_envelope (ref_data demo_guest) \<rparr>,
      w\<lparr> rw_requests := ''https://a.io/x'' # rw_requests w \<rparr>)"
proof -
  let ?E = "ref_engine :: (ref_guest, bytes, ref_world) wasm_engine"
  have len: "length (ref_data demo_guest) = 65536" by (simp add: ref_data_length demo_guest_def)
  have "we_read ?E demo_guest 0 14 = Inr ''https://a.io/x''" by (rule demo_guest_read)
  moreover have "utf8_valid ''https://a.io/x''"
    by (rule utf8_valid_ascii) (auto simp: is_ascii_def byte_def)
  moreover have "we_has_memory ?E demo_guest" by (simp add: ref_engine_def)
  moreover have "we_write ?E 100 demo_envelope demo_guest
      = (Inr (), demo_guest\<lparr> rg_bytes := patch 100 demo_envelope (ref_data demo_guest) \<rparr>)"
    by (simp add: ref_engine_def ref_mem_write_def len demo_envelope_length)
  ultimately show ?thesis
    by (simp add: http_get_host_def Let_def MAX_HTTP_URL_BYTES_def demo_fetch_url demo_envelope_length
        i32_of_len_def)
qed

section \<open>The guest's memory\<close>

text \<open>
  C16: \<open>http_get\<close> is memory safe, whatever arguments the guest passes and whatever the client
  answers: a negative result leaves the guest's memory alone; otherwise the result \<open>n\<close> is at most
  the guest's capacity, exactly the \<open>n\<close> bytes from \<open>out_ptr\<close> on change, they lie inside the
  memory, and they are the envelope of the response to the URL the guest had in its memory.
\<close>

theorem http_get_memory_safety:
  assumes "guest_store E data"
    and "http_get_host X J E client allow url_ptr url_len out_ptr out_cap (s, w) = (r, s', w')"
  shows "(sint r < 0 \<and> data s' = data s)
    \<or> (\<exists>off n res. off = nat (sint out_ptr) \<and> n = nat (sint r) \<and> 0 \<le> sint r \<and> sint r \<le> sint out_cap
         \<and> off + n \<le> length (data s) \<and> length (data s') = length (data s)
         \<and> (\<forall>i < length (data s). i < off \<or> off + n \<le> i \<longrightarrow> data s' ! i = data s ! i)
         \<and> client (slice (nat (sint url_ptr)) (nat (sint url_len)) (data s)) allow w = (Inr res, w')
         \<and> jt_to_vec J (http_envelope X res) = Inr (slice off n (data s')))"
  using guest_store.http_get_memory [OF assms]
proof (elim disjE exE conjE)
  fix url res envelope
  assume "sint r = int (length envelope)" "sint r \<le> sint out_cap"
    "url = slice (nat (sint url_ptr)) (nat (sint url_len)) (data s)"
    "client url allow w = (Inr res, w')" "jt_to_vec J (http_envelope X res) = Inr envelope"
    "nat (sint out_ptr) + length envelope \<le> length (data s)"
    "data s' = patch (nat (sint out_ptr)) envelope (data s)"
  then show ?thesis
    by (intro disjI2 exI [of _ "nat (sint out_ptr)"] exI [of _ "length envelope"] exI [of _ res])
      (simp add: patch_outside)
qed simp

theorem http_get_memory_safety_witness:
  "\<exists>s' res. jt_to_vec ref_json_text (http_envelope ref_ext res) = Inr (slice 100 39 (ref_data s'))
     \<and> (\<forall>i < 100. ref_data s' ! i = ref_data demo_guest ! i)"
proof -
  have len: "length (ref_data demo_guest) = 65536" by (simp add: ref_data_length demo_guest_def)
  from http_get_memory_safety [OF ref_engine.guest_store_axioms demo_http_get [of demo_world]]
  show ?thesis
    by (elim disjE exE conjE) (simp, force simp: len)
qed

section \<open>Outbound requests\<close>

text \<open>
  C7: A guest reaches only the origins its function was published with: whatever the guest does,
  every request made during a run is for a URL of at most 2048 bytes whose origin parses to a
  member of the allowlist. In particular a function published without origins makes no request.
\<close>

theorem egress_confined:
  assumes "runner_env R" and "wr_http_client R = ureq_get agent"
    and log: "\<And>url w r w'. agent HTTP_TIMEOUT_ms 0 url w = (r, w') \<Longrightarrow> requests w' = url # requests w"
    and cache: "\<And>c w. requests (wr_set_cache R c w) = requests w"
    and run: "runner_run X J R hash wasm input allow w = (r, w')"
  shows "\<exists>urls. requests w' = urls @ requests w
     \<and> (\<forall>url \<in> set urls. length url \<le> MAX_HTTP_URL_BYTES \<and> (\<exists>origin \<in> set allow. egress_parse url = Inr origin))"
proof -
  define P where "P w1 \<longleftrightarrow> (\<exists>urls. requests w1 = urls @ requests w
     \<and> (\<forall>url \<in> set urls. length url \<le> MAX_HTTP_URL_BYTES \<and> is_allowed url allow))" for w1
  have client: "P w2" if "length url \<le> MAX_HTTP_URL_BYTES" "P w1" "ureq_get agent url allow w1 = (r1, w2)"
    for url w1 r1 w2
  proof (rule ureq_confined [where P = P, OF _ that(2,3)])
    fix w3 r3 w4
    assume a: "is_allowed url allow" "P w3" "agent HTTP_TIMEOUT_ms 0 url w3 = (r3, w4)"
    from a(2) obtain urls where "requests w3 = urls @ requests w"
      "\<forall>url \<in> set urls. length url \<le> MAX_HTTP_URL_BYTES \<and> is_allowed url allow" unfolding P_def by blast
    with log [OF a(3)] a(1) that(1) show "P w4"
      unfolding P_def by (intro exI [of _ "url # urls"]) simp
  qed
  have start: "P w" by (simp add: P_def)
  have set_c: "P (wr_set_cache R c w1)" if "P w1" for c w1
    using that by (simp add: P_def cache)
  have "P w'"
    by (rule runner_env.runner_run_world [where P = P, OF assms(1) _ set_c start run])
      (simp add: assms(2), rule client)
  then show ?thesis by (simp add: P_def is_allowed_iff)
qed

lemma zeros_length: "length (zeros n) = n"
  by (simp add: zeros_def)

text \<open>The concrete run: the guest \<open>fetch\<close> asks for a URL of its one allowed origin.\<close>

definition demo_loaded :: "bytes \<Rightarrow> bytes \<Rightarrow> ref_guest" where
  "demo_loaded code input =
     \<lparr> rg_pages = 1, rg_bytes = patch 64 input (zeros 65536), rg_code = code \<rparr>"

lemma ref_invoke_sync_call:
  fixes f :: "(ref_guest, ref_world) host_fn \<Rightarrow> i32 \<Rightarrow> i32 \<Rightarrow> ref_guest \<times> ref_world \<Rightarrow> (wasm_error + i32) \<times> (ref_guest \<times> ref_world)"
  defines "E \<equiv> ref_engine\<lparr> we_call := f \<rparr>"
  assumes "length input \<le> 1000"
  shows "invoke_sync X J (ref_runner\<lparr> wr_engine := E \<rparr>) m input allow w =
    (case f (http_get_host X J E (ureq_get ref_agent) allow) 64 (i32_of_len (length input)) (demo_loaded m input, w) of
       (Inl e, s', w') \<Rightarrow> (Inl (map_wasm_err e ''invoke''), w')
     | (Inr n, s', w') \<Rightarrow>
        (case read_output E n (s', w') of (r, s3, w3) \<Rightarrow> (r, w3)))"
proof -
  let ?s0 = "\<lparr> rg_pages = Suc 0, rg_bytes = [], rg_code = m \<rparr>"
  have d: "ref_data ?s0 = zeros 65536" by (simp add: ref_data_def zeros_length)
  have "(65599 + length input) div 65536 = 1" using assms(2) by (intro div_nat_eqI) simp_all
  then have g: "ensure_pages E (OFFSET + length input) ?s0 = (Inr (), ?s0)"
    using assms(2) by (simp add: ensure_pages_def OFFSET_def ref_engine_def Let_def E_def)
  have wr: "we_write E OFFSET input ?s0 = (Inr (), demo_loaded m input)"
    using assms(2) by (simp add: ref_engine_def ref_mem_write_def d demo_loaded_def OFFSET_def zeros_length E_def)
  have i: "wasm_instantiate E host m (new_store (ref_runner\<lparr> wr_engine := E \<rparr>), w) = (Inr (), ?s0, w)" for host
    by (simp add: wasm_instantiate_def map_err_io_def new_store_def E_def) (simp add: ref_engine_def)
  have p: "we_has_memory E ?s0" "we_typed_invoke E ?s0 = Inr ()" "we_call E = f"
    by (simp_all add: ref_engine_def E_def)
  have e: "wr_http_client ref_runner = ureq_get ref_agent" by (simp add: ref_runner_def)
  have six: "word_of_nat OFFSET = (64 :: i32)" by (simp add: OFFSET_def)
  show ?thesis
    using assms(2)
    by (simp add: invoke_sync_def MAX_INVOKE_BODY_BYTES_def e invoke_in_store_def bind_io_def i p in_store_def g
        map_err_io_def wr six map_err_def split: prod.split sum.split)
qed

lemma ref_invoke_sync:
  assumes "length input \<le> 1000"
  shows "invoke_sync X J ref_runner m input allow w =
    (case ref_call (http_get_host X J ref_engine (ureq_get ref_agent) allow) 64 (i32_of_len (length input))
            (demo_loaded m input, w) of
       (Inl e, s', w') \<Rightarrow> (Inl (map_wasm_err e ''invoke''), w')
     | (Inr n, s', w') \<Rightarrow>
        (case read_output ref_engine n (s', w') of (r, s3, w3) \<Rightarrow> (r, w3)))"
proof -
  have e: "ref_engine\<lparr> we_call := ref_call \<rparr> = (ref_engine :: (ref_guest, bytes, ref_world) wasm_engine)"
    "ref_runner\<lparr> wr_engine := ref_engine \<rparr> = ref_runner" by (simp_all add: ref_engine_def ref_runner_def)
  show ?thesis using ref_invoke_sync_call [OF assms, where f = ref_call] unfolding e .
qed

text \<open>What \<open>read_output\<close> yields on the reference engine for an answer in the first page.\<close>

lemma ref_read_output:
  assumes "n \<le> 1000" and "rg_pages s = 1"
  shows "read_output ref_engine (word_of_nat n) (s, w) = (Inr (slice 64 n (ref_data s)), s, w)"
proof -
  let ?E = "ref_engine :: (ref_guest, bytes, 'a) wasm_engine"
  have n: "sint (word_of_nat n :: i32) = int n"
    using assms(1) by (simp add: signed_of_nat signed_take_bit_int_eq_self)
  have "(65599 + n) div 65536 = 1" using assms(1) by (intro div_nat_eqI) simp_all
  then have g: "ensure_pages ?E (64 + n) s = (Inr (), s)"
    using assms(2) by (simp add: ensure_pages_def ref_engine_def Let_def)
  have "we_read ?E s 64 n = Inr (slice 64 n (ref_data s))"
    using assms by (simp add: ref_engine_def ref_data_length)
  then show ?thesis
    using assms(1) by (simp add: read_output_def n MAX_GUEST_OUTPUT_BYTES_def OFFSET_def bind_io_def in_store_def g)
qed

lemma loaded_data: "length input \<le> 1000 \<Longrightarrow> ref_data (demo_loaded code input) = patch 64 input (zeros 65536)"
  by (simp add: ref_data_def demo_loaded_def zeros_def)

lemma demo_cached_module:
  "m \<noteq> [] \<Longrightarrow> cached_module ref_runner h m demo_world = (Inr m, demo_world\<lparr> rw_modules := [h \<mapsto> m] \<rparr>)
     \<and> rw_requests demo_world = []"
  by (simp add: cached_module_def ref_runner_def ref_cache_def ref_engine_def demo_abi ref_set_cache_def
      demo_world_def empty_world_def)

lemma demo_run_fetch:
  "\<exists>w'. runner_run ref_ext ref_json_text ref_runner h ''fetch'' ''https://a.io/x'' [a_io] demo_world
     = (Inr \<lparr> ro_output = demo_envelope \<rparr>, w') \<and> rw_requests w' = [''https://a.io/x'']"
proof -
  let ?E = "ref_engine :: (ref_guest, bytes, ref_world) wasm_engine"
  let ?s = "demo_loaded ''fetch'' ''https://a.io/x''"
  have d: "ref_data ?s = patch 64 ''https://a.io/x'' (zeros 65536)" by (rule loaded_data) simp
  have len: "length (ref_data ?s) = 65536" by (simp add: ref_data_length demo_loaded_def)
  have l: "length ''https://a.io/x'' = 14" by simp
  have "slice 64 (length ''https://a.io/x'') (ref_data ?s) = ''https://a.io/x''"
    unfolding d by (rule slice_patch) (simp add: zeros_length)
  then have r: "we_read ?E ?s 64 14 = Inr ''https://a.io/x''"
    unfolding l by (simp add: ref_engine.read_law len)
  let ?s' = "?s\<lparr> rg_bytes := patch 64 demo_envelope (ref_data ?s) \<rparr>"
  have wr: "we_write ?E 64 demo_envelope ?s = (Inr (), ?s')"
    by (simp add: ref_engine_def ref_mem_write_def len demo_envelope_length)
  have u: "utf8_valid ''https://a.io/x''" by (rule utf8_valid_ascii) (auto simp: is_ascii_def byte_def)
  have m: "we_has_memory ?E ?s" by (simp add: ref_engine_def)
  have h: "http_get_host ref_ext ref_json_text ?E (ureq_get ref_agent) [a_io] 64 14 64 1000 (?s, w1)
     = (39, ?s', w1\<lparr> rw_requests := ''https://a.io/x'' # rw_requests w1 \<rparr>)" for w1
    by (simp add: http_get_host_def Let_def MAX_HTTP_URL_BYTES_def m r u demo_fetch_url demo_envelope_length wr
        i32_of_len_def)
  have c: "ref_call (http_get_host ref_ext ref_json_text ?E (ureq_get ref_agent) [a_io]) 64 14 (?s, w1)
     = (Inr 39, ?s', w1\<lparr> rw_requests := ''https://a.io/x'' # rw_requests w1 \<rparr>)" for w1
    using h by (simp add: ref_call_def demo_loaded_def)
  have "ref_data ?s' = patch 64 demo_envelope (ref_data ?s)"
    by (rule ref_data_patched) (simp add: len demo_envelope_length)
  then have "slice 64 39 (ref_data ?s') = demo_envelope"
    using slice_patch [of 64 "ref_data ?s" demo_envelope] len by (simp add: demo_envelope_length)
  moreover have "rg_pages ?s' = 1" by (simp add: demo_loaded_def)
  ultimately have o: "read_output ?E 39 (?s', w1) = (Inr demo_envelope, ?s', w1)" for w1
    using ref_read_output [of 39 ?s' w1] by simp
  obtain w1 where cm: "cached_module ref_runner h ''fetch'' demo_world = (Inr ''fetch'', w1)" "rw_requests w1 = []"
    using demo_cached_module [of "''fetch''" h] by auto
  have "invoke_sync ref_ext ref_json_text ref_runner ''fetch'' ''https://a.io/x'' [a_io] w1
     = (Inr demo_envelope, w1\<lparr> rw_requests := [''https://a.io/x''] \<rparr>)"
    using c o cm(2) l by (simp add: ref_invoke_sync i32_of_len_def)
  then show ?thesis
    by (simp add: runner_run_def bind_io_def cm(1) spawn_blocking_def) (simp add: ref_runner_def)
qed

theorem egress_confined_witness:
  "\<exists>w' :: ref_world. rw_requests w' = [''https://a.io/x''] \<and>
     (\<forall>url \<in> set (rw_requests w'). \<exists>origin \<in> {a_io}. egress_parse url = Inr origin)"
proof -
  obtain w' where run: "runner_run ref_ext ref_json_text ref_runner (ContentHash []) ''fetch'' ''https://a.io/x'' [a_io]
      demo_world = (Inr \<lparr> ro_output = demo_envelope \<rparr>, w')" "rw_requests w' = [''https://a.io/x'']"
    using demo_run_fetch by blast
  have cl: "wr_http_client ref_runner = ureq_get ref_agent" by (simp add: ref_runner_def)
  have log: "rw_requests w2 = url # rw_requests w1" if "ref_agent HTTP_TIMEOUT_ms 0 url w1 = (r, w2)" for url w1 r w2
    using that by (auto simp: ref_agent_def)
  have cache: "rw_requests (wr_set_cache ref_runner c w1) = rw_requests w1" for c w1
    by (simp add: ref_runner_def ref_set_cache_def)
  have "\<exists>urls. rw_requests w' = urls @ rw_requests demo_world
     \<and> (\<forall>url \<in> set urls. length url \<le> MAX_HTTP_URL_BYTES \<and> (\<exists>origin \<in> set [a_io]. egress_parse url = Inr origin))"
    by (rule egress_confined [where requests = rw_requests, OF ref_runner.runner_env_axioms cl _ _ run(1)])
      (erule log, rule cache)
  moreover have "rw_requests demo_world = []" by (simp add: demo_world_def empty_world_def)
  ultimately show ?thesis using run(2) by (intro exI [of _ w']) auto
qed

section \<open>What may be published and what may run\<close>

text \<open>
  C19: The check at publish time, which walks the sections of the file without compiling it, and the
  check of the compiled module before an invoke decide the same. For a file the validator accepts and
  the compiler compiles, publishing accepts it exactly when an invoke that finds no module in the
  cache does: a published file can be invoked, and a file that cannot be invoked is not published.
  The assumption is what the WebAssembly specification and \<open>wasmtime\<close> say of the sections of a valid
  file and of the exports and imports of the module compiled from it.
\<close>

theorem publish_abi_is_invoke_abi:
  assumes "wasm_toolchain (wr_engine R)" and "we_validate (wr_engine R) wasm = Inr ()"
    and "we_compile (wr_engine R) wasm = Inr m"
    and "\<not> mc_poisoned (wr_cache R w)" and "mc_modules (wr_cache R w) hash = None"
  shows "validate_sync (wr_engine R) wasm = Inr () \<longleftrightarrow> fst (cached_module R hash wasm w) = Inr m"
  using wasm_toolchain.abi_agree [OF assms(1-3)] assms(2-5)
  by (auto simp: validate_sync_def cached_module_def split: sum.split)

theorem publish_abi_is_invoke_abi_witness:
  "validate_sync (wr_engine ref_runner) ''echo'' = Inr ()
     \<and> fst (cached_module ref_runner (content_hash_from_bytes ref_ext ''echo'') ''echo'' demo_world) = Inr ''echo''"
proof -
  have e: "wr_engine ref_runner = ref_engine" by (simp add: ref_runner_def)
  have tool: "wasm_toolchain (wr_engine ref_runner)" unfolding e by (rule ref_toolchain.wasm_toolchain_axioms)
  have ok: "we_validate (wr_engine ref_runner) ''echo'' = Inr ()" "we_compile (wr_engine ref_runner) ''echo'' = Inr ''echo''"
    "\<not> mc_poisoned (wr_cache ref_runner demo_world)" "mc_modules (wr_cache ref_runner demo_world) (content_hash_from_bytes ref_ext ''echo'') = None"
    by (simp_all add: ref_runner_def ref_engine_def ref_cache_def demo_world_def empty_world_def)
  have "validate_sync (wr_engine ref_runner) ''echo'' = Inr ()"
    by (simp add: validate_sync_def ok(1)) (simp add: ref_runner_def ref_engine_def demo_abi_bytes)
  with publish_abi_is_invoke_abi [OF tool ok] show ?thesis by blast
qed

section \<open>What goes in and what comes out\<close>

lemma i32_of_len_small: "n \<le> MAX_INVOKE_BODY_BYTES \<Longrightarrow> i32_of_len n = word_of_nat n"
  by (simp add: i32_of_len_def MAX_INVOKE_BODY_BYTES_def)

lemma in_store_Inr: "in_store m (s, w) = (Inr a, s', w') \<longleftrightarrow> m s = (Inr a, s') \<and> w' = w"
  by (auto simp: in_store_def split: prod.splits)

lemma invoke_in_store_Inr:
  assumes "invoke_in_store E host m input (s0, w0) = (Inr out, s', w')"
  obtains s1 w1 s2 s3 n s4 w4 where
    "we_instantiate E m host (s0, w0) = (Inr (), s1, w1)"
    "ensure_pages E (OFFSET + length input) s1 = (Inr (), s2)"
    "we_write E OFFSET input s2 = (Inr (), s3)"
    "we_call E host (word_of_nat OFFSET) (i32_of_len (length input)) (s3, w1) = (Inr n, s4, w4)"
    "read_output E n (s4, w4) = (Inr out, s', w')"
  using assms unfolding invoke_in_store_def
proof (elim bind_io_InrE)
  fix u1 u2 u3 u4 u5 n st1 st2 st3 st4 st5 st6
  assume inst: "wasm_instantiate E host m (s0, w0) = (Inr u1, st1)"
    and has: "(\<lambda>(s, w). (if we_has_memory E s then Inr () else Inl (Invoke ''module missing export `memory`''), s, w)) st1 = (Inr u2, st2)"
    and tcheck: "(\<lambda>(s, w). (map_err (\<lambda>e. Invoke (''module missing `invoke`: '' @ e)) (we_typed_invoke E s), s, w)) st2 = (Inr u3, st3)"
    and pages: "in_store (ensure_pages E (OFFSET + length input)) st3 = (Inr u4, st4)"
    and wr: "in_store (map_err_io Invoke (we_write E OFFSET input)) st4 = (Inr u5, st5)"
    and call: "map_err_io (\<lambda>e. map_wasm_err e ''invoke'')
        (we_call E host (word_of_nat OFFSET) (i32_of_len (length input))) st5 = (Inr n, st6)"
    and out: "read_output E n st6 = (Inr out, s', w')"
  obtain s1 w1 where st1: "st1 = (s1, w1)" by (cases st1) auto
  have st3: "st3 = (s1, w1)" using has tcheck by (auto simp: st1 map_err_def split: if_splits sum.splits)
  obtain s2 where st4: "st4 = (s2, w1)" "ensure_pages E (OFFSET + length input) s1 = (Inr (), s2)"
    using pages by (cases st4) (auto simp: st3 in_store_Inr)
  obtain s3 where st5: "st5 = (s3, w1)" "we_write E OFFSET input s2 = (Inr (), s3)"
    using wr by (cases st5) (auto simp: st4(1) in_store_Inr map_err_io_iff)
  obtain s4 w4 where st6: "st6 = (s4, w4)" by (cases st6) auto
  show thesis
    by (rule that [OF _ st4(2) st5(2)]) (use inst call out in
      \<open>auto simp: st1 st5(1) st6 wasm_instantiate_def bind_io_Inr_iff map_err_io_iff\<close>)
qed

text \<open>The memory work before the call: at most one growth, then the input is written at 64.\<close>

definition input_placed :: "('s, 'm, 'w) wasm_engine \<Rightarrow> bytes \<Rightarrow> 's \<Rightarrow> 's \<Rightarrow> bool" where
  "input_placed E input s s' \<longleftrightarrow>
     (\<exists>g. (g = s \<or> (\<exists>pages. we_grow E pages s = (Inr (), g))) \<and> we_write E 64 input g = (Inr (), s'))"

lemma guest_run_law:
  assumes "guest_store (wr_engine R) data" and "invoke_sync X J R m input allow w = (Inr out, w')"
  shows "\<exists>s1 w1 s2 n s3 k. length input \<le> MAX_INVOKE_BODY_BYTES
     \<and> we_instantiate (wr_engine R) m (http_get_host X J (wr_engine R) (wr_http_client R) allow) (new_store R, w) = (Inr (), s1, w1)
     \<and> input_placed (wr_engine R) input s1 s2 \<and> slice 64 (length input) (data s2) = input
     \<and> we_call (wr_engine R) (http_get_host X J (wr_engine R) (wr_http_client R) allow) 64
         (word_of_nat (length input)) (s2, w1) = (Inr n, s3, w')
     \<and> 0 \<le> sint n \<and> length out = nat (sint n) \<and> length out \<le> MAX_GUEST_OUTPUT_BYTES
     \<and> out = slice 64 (length out) (data s3 @ zeros k)"
proof -
  let ?E = "wr_engine R" and ?host = "http_get_host X J (wr_engine R) (wr_http_client R) allow"
  have len: "length input \<le> MAX_INVOKE_BODY_BYTES" using assms(2) by (auto simp: invoke_sync_def split: if_splits)
  obtain s9 where "invoke_in_store ?E ?host m input (new_store R, w) = (Inr out, s9, w')"
    using assms(2) by (auto simp: invoke_sync_def split: if_splits prod.splits)
  then obtain s1 w1 g s2 n s3 w3 where inst: "we_instantiate ?E m ?host (new_store R, w) = (Inr (), s1, w1)"
    and pages: "ensure_pages ?E (OFFSET + length input) s1 = (Inr (), g)"
    and wr: "we_write ?E OFFSET input g = (Inr (), s2)"
    and call: "we_call ?E ?host (word_of_nat OFFSET) (i32_of_len (length input)) (s2, w1) = (Inr n, s3, w3)"
    and out: "read_output ?E n (s3, w3) = (Inr out, s9, w')"
    by (rule invoke_in_store_Inr)
  have "input_placed ?E input s1 s2"
    using pages wr by (auto simp: input_placed_def ensure_pages_def OFFSET_def Let_def map_err_io_iff split: if_splits)
  moreover have "slice 64 (length input) (data s2) = input"
    using guest_store.write_law [OF assms(1) wr] by (simp add: OFFSET_def)
  moreover have "we_call ?E ?host 64 (word_of_nat (length input)) (s2, w1) = (Inr n, s3, w')"
    using call guest_store.read_output_ok [OF assms(1) out]
    by (simp add: i32_of_len_small [OF len] OFFSET_def)
  moreover obtain k where "out = slice 64 (length out) (data s3 @ zeros k)"
    using guest_store.read_output_ok [OF assms(1) out] by (auto simp: OFFSET_def)
  ultimately show ?thesis
    using len inst guest_store.read_output_ok [OF assms(1) out] by blast
qed

text \<open>
  C20: A run that returns is one instantiation of its module on a fresh store in the world it starts
  in, the input written once into the instance's memory at offset 64, and one call of the guest's
  \<open>invoke\<close> with pointer 64 and the length of the input, in the world the instantiation left; the
  world it leaves is the one that call left. At the call the memory holds exactly the input from
  offset 64; the output is what the memory holds from offset 64 when the guest returns, for the
  length it returned, which is not negative and at most 1 MiB.
\<close>

theorem guest_call_contract:
  assumes "guest_store (wr_engine R) data" and "invoke_sync X J R m input allow w = (Inr out, w')"
  shows "\<exists>s1 w1 s2 n s3 k. length input \<le> MAX_INVOKE_BODY_BYTES
     \<and> we_instantiate (wr_engine R) m (http_get_host X J (wr_engine R) (wr_http_client R) allow) (new_store R, w) = (Inr (), s1, w1)
     \<and> input_placed (wr_engine R) input s1 s2 \<and> slice 64 (length input) (data s2) = input
     \<and> we_call (wr_engine R) (http_get_host X J (wr_engine R) (wr_http_client R) allow) 64
         (word_of_nat (length input)) (s2, w1) = (Inr n, s3, w')
     \<and> 0 \<le> sint n \<and> length out = nat (sint n) \<and> length out \<le> MAX_GUEST_OUTPUT_BYTES
     \<and> out = slice 64 (length out) (data s3 @ zeros k)"
  using assms by (rule guest_run_law)

lemma demo_run_echo:
  assumes "length input \<le> 1000"
  shows "invoke_sync X J ref_runner ''echo'' input allow w = (Inr input, w)"
proof -
  let ?s = "demo_loaded ''echo'' input" and ?n = "word_of_nat (length input) :: i32"
  have c: "ref_call host 64 ?n (?s, w) = (Inr ?n, ?s, w)" for host :: "(ref_guest, ref_world) host_fn"
    by (simp add: ref_call_def demo_loaded_def)
  have "slice 64 (length input) (ref_data ?s) = input"
    unfolding loaded_data [OF assms] by (rule slice_patch) (simp add: zeros_length)
  then have "read_output ref_engine ?n (?s, w) = (Inr input, ?s, w)"
    using ref_read_output [OF assms, of ?s w] by (simp add: demo_loaded_def)
  moreover have "i32_of_len (length input) = ?n" using assms by (simp add: i32_of_len_def)
  ultimately show ?thesis using assms c by (simp add: ref_invoke_sync)
qed

theorem guest_call_contract_witness:
  "\<exists>s1 w1 s2 n s3. invoke_sync ref_ext ref_json_text ref_runner ''echo'' ''abc'' [] demo_world = (Inr ''abc'', demo_world)
     \<and> we_instantiate ref_engine ''echo'' (http_get_host ref_ext ref_json_text ref_engine (ureq_get ref_agent) [])
         (new_store ref_runner, demo_world) = (Inr (), s1, w1)
     \<and> input_placed (ref_engine :: (ref_guest, bytes, ref_world) wasm_engine) ''abc'' s1 s2 \<and> slice 64 3 (ref_data s2) = ''abc''
     \<and> we_call ref_engine (http_get_host ref_ext ref_json_text ref_engine (ureq_get ref_agent) []) 64 3 (s2, w1)
         = (Inr n, s3, demo_world) \<and> sint n = 3"
proof -
  have e: "wr_engine ref_runner = ref_engine" "wr_http_client ref_runner = ureq_get ref_agent"
    by (simp_all add: ref_runner_def)
  have store: "guest_store (wr_engine ref_runner) ref_data"
    by (simp add: e ref_engine.guest_store_axioms)
  have run: "invoke_sync ref_ext ref_json_text ref_runner ''echo'' ''abc'' [] demo_world = (Inr ''abc'', demo_world)"
    by (rule demo_run_echo) simp
  have l: "length ''abc'' = 3" "word_of_nat 3 = (3 :: i32)" by simp_all
  obtain s1 w1 s2 n s3 where g:
    "we_instantiate ref_engine ''echo'' (http_get_host ref_ext ref_json_text ref_engine (ureq_get ref_agent) [])
         (new_store ref_runner, demo_world) = (Inr (), s1, w1)"
    "input_placed (ref_engine :: (ref_guest, bytes, ref_world) wasm_engine) ''abc'' s1 s2" "slice 64 3 (ref_data s2) = ''abc''"
    "we_call ref_engine (http_get_host ref_ext ref_json_text ref_engine (ureq_get ref_agent) []) 64 3 (s2, w1)
         = (Inr n, s3, demo_world)" "0 \<le> sint n" "3 = nat (sint n)"
    using guest_call_contract [OF store run, unfolded e l] by (elim exE conjE) (rule that)
  from g(5,6) have "sint n = 3" by simp
  with g run show ?thesis by blast
qed

section \<open>Limits and errors\<close>

text \<open>
  The product's runner gives every guest 1500 epoch ticks (15 s of 10 ms each), 64 MiB of
  memory, and one instance, memory and table. No runner is built with a zero tick, by which the
  deadline is divided, and a runner with other times gives a guest at least one tick when the
  quotient fits 64 bits.
\<close>

lemma run_limits:
  assumes "runner_new agent (\<lambda>_. Inr E) cache set_cache join = Inr R"
    and "with_http_client timeout tick client engine cache' set_cache' join' = Inr R'" and "timeout div tick < 2 ^ 64"
  shows "new_store R = we_store E \<lparr> sc_memory_size = 67108864, sc_instances = 1, sc_memories = 1, sc_tables = 1,
                                   sc_deadline = 1500 \<rparr>
    \<and> tick \<noteq> 0 \<and> unat (epoch_deadline_ticks R') = max (timeout div tick) 1"
proof -
  have "R = \<lparr> wr_engine = E, wr_invoke_timeout = INVOKE_TIMEOUT_ms * 1000000, wr_epoch_tick = EPOCH_TICK_ms * 1000000,
         wr_http_client = ureq_get agent, wr_cache = cache, wr_set_cache = set_cache, wr_join = join \<rparr>"
    using assms(1) by (simp add: runner_new_def with_timeout_def with_http_client_def EPOCH_TICK_ms_def split: if_splits)
  moreover have "wr_invoke_timeout R' = timeout" "wr_epoch_tick R' = tick" "tick \<noteq> 0"
    using assms(2) by (auto simp: with_http_client_def bind_r_Inr_iff split: if_splits)
  ultimately show ?thesis
    using assms(3) by (simp add: epoch_deadline_ticks_def unat_of_nat new_store_def MAX_GUEST_MEMORY_BYTES_def
        INVOKE_TIMEOUT_ms_def EPOCH_TICK_ms_def)
qed

end
