(* ===== verification/Invoke.thy ===== *)
theory Invoke
  imports Runner_Env Accounts Artifacts
begin

text \<open>
  \<open>crates/application/src/usecases/invoke.rs\<close> and \<open>paid_invoke.rs\<close>: resolving a function,
  loading its artifact and running it, and the debit around it. The locale \<open>paid_env\<close> is what the
  debit needs: the ledger's contract, and that running a function does not write the ledger.
\<close>

section \<open>InvokeFunction\<close>

record 'w invoke_function =
  if_catalog :: "'w function_catalog"
  if_artifacts :: "'w artifact_store"
  if_runner :: "'w function_runner"

definition invoke_execute ::
  "'w invoke_function \<Rightarrow> invoke_request \<Rightarrow> ('w, app_error, invoke_response) io" where
  "invoke_execute I req =
     bind_io (fc_resolve (if_catalog I) (iq_function req) (iq_version req)) (\<lambda>version.
     let hash = fv_content_hash version in
     bind_io (as_get (if_artifacts I) hash) (\<lambda>wasm.
     bind_io (fr_run (if_runner I) hash wasm (iq_payload req) (fv_egress_allow version)) (\<lambda>outcome.
     ret \<lparr> ir_output = ro_output outcome, ir_content_hash = hash \<rparr>)))"

section \<open>PaidInvoke\<close>

record 'w paid_invoke =
  pi_cost :: u64
  pi_credit_base :: string
  pi_accounts :: "'w account_store"
  pi_invoke :: "'w invoke_function"

definition paid_invoke_new ::
  "u64 \<Rightarrow> string \<Rightarrow> 'w account_store \<Rightarrow> 'w invoke_function \<Rightarrow> 'w paid_invoke" where
  "paid_invoke_new cost credit_base accounts invoke =
     \<lparr> pi_cost = cost, pi_credit_base = trim_end_matches CHR ''/'' credit_base,
       pi_accounts = accounts, pi_invoke = invoke \<rparr>"

fun failed_before_guest :: "app_error \<Rightarrow> bool" where
  "failed_before_guest (NotFound _) = True"
| "failed_before_guest (ArtifactMissing _) = True"
| "failed_before_guest (HashMismatch _ _) = True"
| "failed_before_guest (Compile _) = True"
| "failed_before_guest (Domain _) = True"
| "failed_before_guest (Storage _) = True"
| "failed_before_guest _ = False"

fun map_debit :: "ext \<Rightarrow> string \<Rightarrow> store_error \<Rightarrow> app_error" where
  "map_debit X credit_base StoreUnauthorized = Unauthorized"
| "map_debit X credit_base StoreNotFound = Unauthorized"
| "map_debit X credit_base (StoreInsufficient a balance cost spend_cap_remaining) =
     InsufficientCredits cost balance (credit_base @ ''/accounts/'' @ account_id_to_hex X a @ ''/credit'')
       spend_cap_remaining"
| "map_debit X credit_base (StoreStorage msg) = Storage msg"

fun show_store_error :: "store_error \<Rightarrow> string" where
  "show_store_error StoreUnauthorized = ''unauthorized''"
| "show_store_error StoreNotFound = ''not found''"
| "show_store_error (StoreInsufficient _ balance cost _) =
     ''insufficient credits: balance '' @ show_u64 balance @ '' cost '' @ show_u64 cost"
| "show_store_error (StoreStorage msg) = msg"

definition presented_bearer :: "string option \<Rightarrow> bearer_secret option" where
  "presented_bearer bearer =
     (case bearer of
        None \<Rightarrow> None
      | Some s \<Rightarrow>
          (if trim s = [] then None
           else case bearer_parse (trim s) of Inl _ \<Rightarrow> None | Inr secret \<Rightarrow> Some secret))"

definition run_or_refund ::
  "'w paid_invoke \<Rightarrow> debit_receipt \<Rightarrow> invoke_request \<Rightarrow> ('w, app_error, invoke_response) io" where
  "run_or_refund P receipt req =
     match_io (invoke_execute (pi_invoke P) req) ret
       (\<lambda>err.
         if failed_before_guest err then
           match_io (st_refund (pi_accounts P) receipt)
             (\<lambda>_. throw err)
             (\<lambda>refund_err. throw (Storage (''refund after pre-guest failure ('' @ show_app_error err
                @ ''): '' @ show_store_error refund_err)))
         else throw err)"

definition paid_execute ::
  "ext \<Rightarrow> 'w paid_invoke \<Rightarrow> string option \<Rightarrow> invoke_request \<Rightarrow> ('w, app_error, invoke_response) io" where
  "paid_execute X P bearer req =
     (if pi_cost P = 0 then invoke_execute (pi_invoke P) req
      else
        (case presented_bearer bearer of
           None \<Rightarrow> throw Unauthorized
         | Some secret \<Rightarrow>
             bind_io (map_err_io (map_debit X (pi_credit_base P))
               (st_debit (pi_accounts P) (secret_hash_of X secret) (pi_cost P))) (\<lambda>receipt.
             run_or_refund P receipt req)))"

section \<open>What a run does\<close>

lemma invoke_execute_Inr:
  assumes "invoke_execute I req w = (Inr res, w')"
  obtains v wasm w1 w2 where
    "fc_resolve (if_catalog I) (iq_function req) (iq_version req) w = (Inr v, w1)"
    "as_get (if_artifacts I) (fv_content_hash v) w1 = (Inr wasm, w2)"
    "fr_run (if_runner I) (fv_content_hash v) wasm (iq_payload req) (fv_egress_allow v) w2
       = (Inr \<lparr> ro_output = ir_output res \<rparr>, w')"
    "ir_content_hash res = fv_content_hash v"
  using assms unfolding invoke_execute_def Let_def
proof (elim bind_io_InrE)
  fix v w1 wasm w2 oc w3
  assume v: "fc_resolve (if_catalog I) (iq_function req) (iq_version req) w = (Inr v, w1)"
    and a: "as_get (if_artifacts I) (fv_content_hash v) w1 = (Inr wasm, w2)"
    and r: "fr_run (if_runner I) (fv_content_hash v) wasm (iq_payload req) (fv_egress_allow v) w2 = (Inr oc, w3)"
    and "ret \<lparr> ir_output = ro_output oc, ir_content_hash = fv_content_hash v \<rparr> w3 = (Inr res, w')"
  then have e: "w3 = w'" "ir_content_hash res = fv_content_hash v" "ro_output oc = ir_output res" by auto
  then have "oc = \<lparr> ro_output = ir_output res \<rparr>" by (cases oc) simp
  with r e(1) have "fr_run (if_runner I) (fv_content_hash v) wasm (iq_payload req) (fv_egress_allow v) w2
       = (Inr \<lparr> ro_output = ir_output res \<rparr>, w')" by simp
  from that [OF v a this e(2)] show thesis .
qed

lemma invoke_execute_frames:
  assumes "\<And>f l. frames P v (fc_resolve (if_catalog I) f l)" and "\<And>h. frames P v (as_get (if_artifacts I) h)"
    and "\<And>h b i e. frames P v (fr_run (if_runner I) h b i e)"
  shows "frames P v (invoke_execute I req)"
  unfolding invoke_execute_def Let_def by (intro frames_bind frames_ret assms)

section \<open>The debit around it\<close>

locale paid_env =
  led: account_ledger X "pi_accounts P" led inv
  for X :: ext and P :: "'w paid_invoke" and led :: "'w \<Rightarrow> ledger" and inv :: "'w \<Rightarrow> bool" +
  assumes invoke_frame: "frames inv led (invoke_execute (pi_invoke P) req)"

text \<open>A refund right after its debit restores the ledger.\<close>

lemma refund_undoes:
  assumes "op_spec X (OpDebit (dr_secret_hash rc) (dr_account_id rc) (dr_cost rc) (dr_capped rc)) L = Some L1"
    and "op_spec X (OpRefund rc) L1 = Some L2"
  shows "L2 = L"
proof -
  let ?a = "account_id_to_hex X (dr_account_id rc)" and ?h = "secret_hash_to_hex X (dr_secret_hash rc)"
  obtain b k where bk: "lg_balance L ?a = Some b" "lg_key L ?h = Some k"
    "case lk_cap k of None \<Rightarrow> \<not> dr_capped rc | Some c \<Rightarrow> dr_capped rc \<and> uint (dr_cost rc) \<le> c"
    "L1 = L\<lparr> lg_balance := (lg_balance L)(?a \<mapsto> b - uint (dr_cost rc)),
            lg_key := (lg_key L)(?h \<mapsto> k\<lparr> lk_cap := map_option (\<lambda>c. c - uint (dr_cost rc)) (lk_cap k) \<rparr>) \<rparr>"
    using assms(1) by (auto simp: op_spec.simps Let_def split: option.splits if_splits)
  have m: "(lg_balance L)(?a \<mapsto> b) = lg_balance L" "(lg_key L)(?h \<mapsto> k) = lg_key L"
    using bk(1,2) by auto
  show ?thesis
  proof (cases "lk_cap k")
    case None
    then have "k\<lparr> lk_cap := None \<rparr> = k" by simp
    with None bk(3) assms(2) m show ?thesis
      by (auto simp: op_spec.simps Let_def bk(4))
  next
    case (Some c)
    then have "k\<lparr> lk_cap := Some c \<rparr> = k" by simp
    with Some bk(3) assms(2) m show ?thesis
      by (auto simp: op_spec.simps Let_def bk(4))
  qed
qed

context paid_env
begin

lemma run_or_refund_law:
  assumes "inv w" and "run_or_refund P rc req w = (r, w')"
  shows "inv w' \<and> once X (OpRefund rc) (led w) (led w')
    \<and> (\<forall>res. r = Inr res \<longrightarrow> led w' = led w)
    \<and> (\<forall>e. r = Inl e \<longrightarrow> \<not> failed_before_guest e \<longrightarrow> led w' = led w)
    \<and> (\<forall>e. r = Inl e \<longrightarrow> failed_before_guest e \<longrightarrow> (\<forall>s. e \<noteq> Storage s) \<longrightarrow>
         op_spec X (OpRefund rc) (led w) = Some (led w'))"
proof -
  obtain r1 w1 where r1: "invoke_execute (pi_invoke P) req w = (r1, w1)" by fastforce
  have f: "led w1 = led w" "inv w1" using framesD [OF invoke_frame assms(1) r1] by auto
  show ?thesis
  proof (cases "\<exists>err. r1 = Inl err \<and> failed_before_guest err")
    case True
    then obtain err where err: "r1 = Inl err" "failed_before_guest err" by blast
    obtain r2 w2 where r2: "st_refund (pi_accounts P) rc w1 = (r2, w2)" by fastforce
    from led.refund_law [OF f(2) r2] err r1 r2 assms(2) f show ?thesis
      by (cases r2) (auto simp: run_or_refund_def match_io_def)
  next
    case False
    then have "r = r1 \<and> w' = w1"
      using assms(2) r1 by (cases r1) (auto simp: run_or_refund_def match_io_def)
    with False f show ?thesis by (auto simp: once_def)
  qed
qed

text \<open>
  Every outcome of a paid invoke is at most one debit. \<open>kept_debit\<close> lists how an invoke that fails
  with \<open>e\<close> in \<open>w'\<close> may leave it charged.
\<close>

definition kept_debit :: "secret_hash \<Rightarrow> invoke_request \<Rightarrow> 'w \<Rightarrow> app_error \<Rightarrow> 'w \<Rightarrow> bool" where
  "kept_debit h req w e w' \<longleftrightarrow>
     (\<exists>s. st_debit (pi_accounts P) h (pi_cost P) w = (Inl (StoreStorage s), w') \<and> e = Storage s)
   \<or> (\<exists>rc w1. st_debit (pi_accounts P) h (pi_cost P) w = (Inr rc, w1)
        \<and> ((\<exists>err w2 re. invoke_execute (pi_invoke P) req w1 = (Inl err, w2) \<and> st_refund (pi_accounts P) rc w2 = (Inl re, w')
               \<and> (\<exists>s. e = Storage s))
          \<or> invoke_execute (pi_invoke P) req w1 = (Inl e, w') \<and> \<not> failed_before_guest e))"

lemma paid_execute_outcome:
  assumes "inv w" and "pi_cost P \<noteq> 0" and "paid_execute X P bearer req w = (r, w')"
  shows "inv w' \<and> (led w' = led w \<and> (\<forall>res. r \<noteq> Inr res)
    \<or> (\<exists>secret a capped. presented_bearer bearer = Some secret
         \<and> op_spec X (OpDebit (secret_hash_of X secret) a (pi_cost P) capped) (led w) = Some (led w')
         \<and> (\<forall>e. r = Inl e \<longrightarrow> kept_debit (secret_hash_of X secret) req w e w')))"
proof (cases "presented_bearer bearer")
  case None
  with assms show ?thesis by (auto simp: paid_execute_def)
next
  case (Some secret)
  let ?h = "secret_hash_of X secret"
  obtain r1 w1 where d: "st_debit (pi_accounts P) ?h (pi_cost P) w = (r1, w1)" by fastforce
  note dl = led.debit_law [OF assms(1) d]
  show ?thesis
  proof (cases r1)
    case (Inl e)
    then have r: "r = Inl (map_debit X (pi_credit_base P) e)" "w' = w1"
      using assms(2,3) Some d by (auto simp: paid_execute_def bind_io_def map_err_io_def)
    with dl d Inl Some show ?thesis by (auto simp: kept_debit_def)
  next
    case (Inr rc)
    then have run: "run_or_refund P rc req w1 = (r, w')"
      using assms(2,3) Some d by (simp add: paid_execute_def bind_io_def map_err_io_def)
    have l: "dr_secret_hash rc = ?h" "dr_cost rc = pi_cost P" "inv w1"
      "op_spec X (OpDebit ?h (dr_account_id rc) (pi_cost P) (dr_capped rc)) (led w) = Some (led w1)"
      using dl Inr by auto
    have undo: "led w' = led w" if "op_spec X (OpRefund rc) (led w1) = Some (led w')"
      using refund_undoes [OF _ that] l by simp
    note rl = run_or_refund_law [OF l(3) run]
    obtain r2 w2 where i: "invoke_execute (pi_invoke P) req w1 = (r2, w2)" by fastforce
    have f: "led w2 = led w1" "inv w2" using framesD [OF invoke_frame l(3) i] by auto
    show ?thesis
    proof (cases "\<exists>err. r2 = Inl err \<and> failed_before_guest err")
      case True
      then obtain err where err: "r2 = Inl err" "failed_before_guest err" by blast
      obtain r3 w3 where r3: "st_refund (pi_accounts P) rc w2 = (r3, w3)" by fastforce
      have r: "w' = w3" "r = Inl (case r3 of Inr _ \<Rightarrow> err
          | Inl re \<Rightarrow> Storage (''refund after pre-guest failure ('' @ show_app_error err @ ''): '' @ show_store_error re))"
        using run i err r3 by (auto simp: run_or_refund_def match_io_def split: sum.splits)
      show ?thesis
      proof (cases r3)
        case (Inr u)
        with led.refund_law [OF f(2) r3] undo f r rl show ?thesis by auto
      next
        case (Inl re)
        then have "\<forall>e. r = Inl e \<longrightarrow> kept_debit ?h req w e w'"
          using d \<open>r1 = Inr rc\<close> i err(1) r3 r by (auto simp: kept_debit_def)
        moreover have "led w' = led w \<or> led w' = led w1" using rl undo by (auto simp: once_def)
        ultimately show ?thesis using rl r(2) l(4) Some by auto
      qed
    next
      case False
      then have r: "r = r2" "w' = w2"
        using run i by (cases r2; auto simp: run_or_refund_def match_io_def)+
      then have "\<forall>e. r = Inl e \<longrightarrow> kept_debit ?h req w e w'"
        using d \<open>r1 = Inr rc\<close> i False by (auto simp: kept_debit_def)
      then show ?thesis using f r(2) l(4) Some by auto
    qed
  qed
qed

lemma paid_execute_law:
  assumes "inv w" and "pi_cost P \<noteq> 0" and "paid_execute X P bearer req w = (r, w')"
  shows "inv w' \<and> (led w' = led w \<and> (\<forall>res. r \<noteq> Inr res)
    \<or> (\<exists>secret a capped. presented_bearer bearer = Some secret
         \<and> op_spec X (OpDebit (secret_hash_of X secret) a (pi_cost P) capped) (led w) = Some (led w')
         \<and> (\<forall>e. r = Inl e \<longrightarrow> failed_before_guest e \<longrightarrow> (\<exists>s. e = Storage s))))"
proof -
  have "kept_debit h req w e w' \<Longrightarrow> failed_before_guest e \<Longrightarrow> \<exists>s. e = Storage s" for h e
    by (auto simp: kept_debit_def)
  with paid_execute_outcome [OF assms] show ?thesis by meson
qed

end

end
