(* ===== verification/Publish_Lock.thy ===== *)
theory Publish_Lock
  imports Catalog
begin

text \<open>
  \<open>crates/catalog/src/publish_lock.rs\<close>: the per-function publish lock, a DynamoDB row with a
  time to live. The clock (seconds since the epoch) is the parameter \<open>lk_now\<close>.
\<close>

definition ATTR_EXPIRES_AT :: string where "ATTR_EXPIRES_AT = ''expires_at''"

definition TTL_SECS :: u64 where "TTL_SECS = 15 * 60"

record 'w lock_db =
  lk_client :: "'w ddb_client"
  lk_table :: string
  lk_now :: "'w \<Rightarrow> u64 \<times> 'w"

definition lock_pkey :: "function_id \<Rightarrow> pkey" where
  "lock_pkey f = [(ATTR_FN_ID, AvS (function_id_str f))]"

definition lock_item :: "ext \<Rightarrow> function_id \<Rightarrow> content_hash \<Rightarrow> u64 \<Rightarrow> u64 \<Rightarrow> item" where
  "lock_item X f hash queued_at_ms expires_at =
     [ATTR_FN_ID \<mapsto> AvS (function_id_str f), ATTR_HASH \<mapsto> AvS (content_hash_to_hex X hash),
      ATTR_QUEUED_AT \<mapsto> AvN (show_u64 queued_at_ms), ATTR_EXPIRES_AT \<mapsto> AvN (show_u64 expires_at)]"

definition acquire_cond :: "u64 \<Rightarrow> cond" where
  "acquire_cond now = CondOr (AttributeNotExists ATTR_FN_ID) (AttrLe ATTR_EXPIRES_AT (AvN (show_u64 now)))"

definition lock_acquire ::
  "ext \<Rightarrow> 'w lock_db \<Rightarrow> function_id \<Rightarrow> content_hash \<Rightarrow> u64 \<Rightarrow> ('w, app_error, unit) io" where
  "lock_acquire X K f hash queued_at_ms = (\<lambda>w.
     let (now, w1) = lk_now K w;
         expires_at = saturating_add_u64 now TTL_SECS in
     match_io (ddb_put (lk_client K) (lk_table K) (lock_item X f hash queued_at_ms expires_at) (acquire_cond now))
       (\<lambda>_. ret ())
       (\<lambda>err. case err of
          ConditionalCheckFailed _ \<Rightarrow>
            throw (Conflict (''publish already in progress for '' @ function_id_str f))
        | _ \<Rightarrow> throw (Storage (show_sdk_error err))) w1)"

definition lock_release :: "ext \<Rightarrow> 'w lock_db \<Rightarrow> function_id \<Rightarrow> content_hash \<Rightarrow> ('w, app_error, unit) io" where
  "lock_release X K f hash =
     match_io (ddb_delete (lk_client K) (lk_table K) (lock_pkey f)
                 (AttrEq ATTR_HASH (AvS (content_hash_to_hex X hash))))
       (\<lambda>_. ret ())
       (\<lambda>err. case err of
          ConditionalCheckFailed _ \<Rightarrow> ret ()
        | _ \<Rightarrow> throw (Storage (show_sdk_error err)))"

definition dynamo_publish_lock :: "ext \<Rightarrow> 'w lock_db \<Rightarrow> 'w publish_lock" where
  "dynamo_publish_lock X K = \<lparr> pl_acquire = lock_acquire X K, pl_release = lock_release X K \<rparr>"

section \<open>Who holds the lock\<close>

text \<open>The hash and the expiry in the row of a function, if any.\<close>

definition held_by :: "ext \<Rightarrow> 'w lock_db \<Rightarrow> tables \<Rightarrow> function_id \<Rightarrow> content_hash \<Rightarrow> u64 \<Rightarrow> bool" where
  "held_by X K db f hash expires_at \<longleftrightarrow>
     (\<exists>q. db (lk_table K) (lock_pkey f) = Some (lock_item X f hash q expires_at))"

lemma lock_item_attrs [simp]:
  "lock_item X f h q e ATTR_FN_ID = Some (AvS (function_id_str f))"
  "lock_item X f h q e ATTR_HASH = Some (AvS (content_hash_to_hex X h))"
  "lock_item X f h q e ATTR_QUEUED_AT = Some (AvN (show_u64 q))"
  "lock_item X f h q e ATTR_EXPIRES_AT = Some (AvN (show_u64 e))"
  by (simp_all add: lock_item_def catalog_attrs ATTR_EXPIRES_AT_def)

locale lock_service = ddb_service "lk_client K" view schema + externals X
  for K :: "'w lock_db" and view schema and X +
  assumes lock_schema: "schema (lk_table K) = [ATTR_FN_ID]"
    and clock_keeps: "view (snd (lk_now K w)) = view w"
begin

lemma acquire_commit:
  "commit schema [WPut (lk_table K) (lock_item X f h q e) (acquire_cond now)] db = Some db' \<longleftrightarrow>
     (attr_at (db (lk_table K) (lock_pkey f)) ATTR_FN_ID = None
       \<or> (\<exists>t. num_of (attr_at (db (lk_table K) (lock_pkey f)) ATTR_EXPIRES_AT) = Some t \<and> t \<le> uint now))
     \<and> db' = put_at (lk_table K, lock_pkey f) (Some (lock_item X f h q e)) db"
  by (auto simp: commit_one key_of_def lock_schema lock_pkey_def acquire_cond_def split: option.splits)

lemma acquire_law:
  assumes "lock_acquire X K f h q w = (r, w')"
  defines "now \<equiv> fst (lk_now K w)"
  shows "(view w' = view w \<or>
      (attr_at (view w (lk_table K) (lock_pkey f)) ATTR_FN_ID = None
       \<or> (\<exists>t. num_of (attr_at (view w (lk_table K) (lock_pkey f)) ATTR_EXPIRES_AT) = Some t \<and> t \<le> uint now))
      \<and> view w' = put_at (lk_table K, lock_pkey f)
           (Some (lock_item X f h q (saturating_add_u64 now TTL_SECS))) (view w))
    \<and> (r = Inr () \<longrightarrow> held_by X K (view w') f h (saturating_add_u64 now TTL_SECS)
         \<and> (attr_at (view w (lk_table K) (lock_pkey f)) ATTR_FN_ID = None
            \<or> (\<exists>t. num_of (attr_at (view w (lk_table K) (lock_pkey f)) ATTR_EXPIRES_AT) = Some t \<and> t \<le> uint now)))
    \<and> ((\<exists>m. r = Inl (Conflict m)) \<longrightarrow> view w' = view w)"
proof -
  obtain w1 where t: "lk_now K w = (now, w1)" unfolding now_def by (cases "lk_now K w") simp
  have v: "view w1 = view w" using clock_keeps [of w] t by simp
  let ?i = "lock_item X f h q (saturating_add_u64 now TTL_SECS)"
  obtain r1 where p: "ddb_put (lk_client K) (lk_table K) ?i (acquire_cond now) w1 = (r1, w')"
    "r = (case r1 of Inr _ \<Rightarrow> Inr ()
          | Inl (ConditionalCheckFailed _) \<Rightarrow> Inl (Conflict (''publish already in progress for '' @ function_id_str f))
          | Inl e \<Rightarrow> Inl (Storage (show_sdk_error e)))"
    using assms(1) t
    by (auto simp: lock_acquire_def match_io_def split: prod.splits sum.splits sdk_error.splits)
  from put_outcome [OF p(1)] p(2) v show ?thesis
    by (auto simp: write_outcome_def acquire_commit held_by_def put_at_apply
        split: sum.splits sdk_error.splits)
qed

lemma release_law:
  assumes "lock_release X K f h w = (r, w')"
  shows "(view w' = view w \<or>
      (\<exists>it. view w (lk_table K) (lock_pkey f) = Some it \<and> it ATTR_HASH = Some (AvS (content_hash_to_hex X h))
        \<and> view w' = put_at (lk_table K, lock_pkey f) None (view w)))"
proof -
  obtain r1 where p: "ddb_delete (lk_client K) (lk_table K) (lock_pkey f)
      (AttrEq ATTR_HASH (AvS (content_hash_to_hex X h))) w = (r1, w')"
    using assms by (auto simp: lock_release_def match_io_def split: prod.splits sum.splits sdk_error.splits)
  from delete_outcome [OF p] show ?thesis
    by (auto simp: write_outcome_def commit_one attr_at_def split: sum.splits sdk_error.splits option.splits if_splits)
qed

text \<open>A live lock keeps every other acquire out.\<close>

lemma held_excludes:
  assumes "held_by X K (view w) f h0 e" and "fst (lk_now K w) < e"
    and "lock_acquire X K f h q w = (r, w')"
  shows "r \<noteq> Inr () \<and> view w' = view w"
proof -
  have "\<not> uint e \<le> uint (fst (lk_now K w))" using assms(2) by (simp add: word_less_def)
  moreover have "attr_at (view w (lk_table K) (lock_pkey f)) ATTR_FN_ID \<noteq> None"
    "num_of (attr_at (view w (lk_table K) (lock_pkey f)) ATTR_EXPIRES_AT) = Some (uint e)"
    using assms(1) by (auto simp: held_by_def attr_at_def)
  ultimately show ?thesis using acquire_law [OF assms(3)] by auto
qed

text \<open>A release with another hash leaves the lock alone.\<close>

lemma release_wrong_hash:
  assumes "held_by X K (view w) f h0 e" and "h \<noteq> h0" and "lock_release X K f h w = (r, w')"
  shows "view w' = view w"
  using release_law [OF assms(3)] assms(1,2) content_hash_to_hex_inj by (auto simp: held_by_def)

lemma lock_other_table:
  assumes "t \<noteq> lk_table K"
  shows "lock_acquire X K f h q w = (r, w') \<Longrightarrow> view w' t = view w t"
    "lock_release X K f h w = (r, w') \<Longrightarrow> view w' t = view w t"
  using acquire_law release_law assms by (fastforce simp: put_at_other_table)+

end

text \<open>On a calm service an acquire succeeds exactly when it may, and the holder's release frees the row.\<close>

locale calm_lock = lock_service K view schema X + calm: ddb_fresh "lk_client K" view schema calm
  for K :: "'w lock_db" and view schema X and calm :: "'w \<Rightarrow> bool" +
  assumes clock_calm: "calm w \<Longrightarrow> calm (snd (lk_now K w))"
begin

lemma acquire_calm:
  assumes "calm w" and "lock_acquire X K f h q w = (r, w')"
  shows "calm w' \<and>
    (if attr_at (view w (lk_table K) (lock_pkey f)) ATTR_FN_ID = None
        \<or> (\<exists>t. num_of (attr_at (view w (lk_table K) (lock_pkey f)) ATTR_EXPIRES_AT) = Some t
             \<and> t \<le> uint (fst (lk_now K w)))
     then r = Inr () \<and> view w' = put_at (lk_table K, lock_pkey f)
            (Some (lock_item X f h q (saturating_add_u64 (fst (lk_now K w)) TTL_SECS))) (view w)
     else r = Inl (Conflict (''publish already in progress for '' @ function_id_str f)) \<and> view w' = view w)"
proof -
  obtain now w1 where t: "lk_now K w = (now, w1)" by fastforce
  have v: "view w1 = view w" "calm w1" using clock_keeps [of w] clock_calm [OF assms(1)] t by simp_all
  let ?i = "lock_item X f h q (saturating_add_u64 now TTL_SECS)"
  obtain r1 w2 where p: "ddb_put (lk_client K) (lk_table K) ?i (acquire_cond now) w1 = (r1, w2)" "calm w2"
    "if commit schema [WPut (lk_table K) ?i (acquire_cond now)] (view w1) = None
     then \<exists>s. r1 = Inl (ConditionalCheckFailed s) else r1 = Inr ()"
    using calm.put_fresh [OF v(2)] by blast
  have w': "w2 = w'" "r = (case r1 of Inr _ \<Rightarrow> Inr ()
          | Inl (ConditionalCheckFailed _) \<Rightarrow> Inl (Conflict (''publish already in progress for '' @ function_id_str f))
          | Inl e \<Rightarrow> Inl (Storage (show_sdk_error e)))"
    using assms(2) t p(1) by (auto simp: lock_acquire_def match_io_def split: sum.splits sdk_error.splits)
  show ?thesis
  proof (cases "commit schema [WPut (lk_table K) ?i (acquire_cond now)] (view w1)")
    case None
    have n: "\<not> (attr_at (view w (lk_table K) (lock_pkey f)) ATTR_FN_ID = None
        \<or> (\<exists>t. num_of (attr_at (view w (lk_table K) (lock_pkey f)) ATTR_EXPIRES_AT) = Some t \<and> t \<le> uint now))"
      using acquire_commit None v(1) by (metis option.distinct(1))
    from None p(3) obtain s where s: "r1 = Inl (ConditionalCheckFailed s)" by auto
    then have "view w' = view w" using put_outcome [OF p(1)] v(1) w'(1) by (simp add: write_outcome_def)
    with n s w' p(2) t show ?thesis by auto
  next
    case (Some db)
    then have "r1 = Inr ()" using p(3) by simp
    then have c: "commit schema [WPut (lk_table K) ?i (acquire_cond now)] (view w) = Some (view w')"
      using put_outcome [OF p(1)] v(1) w'(1) by (simp add: write_outcome_def)
    with \<open>r1 = Inr ()\<close> w' p(2) t show ?thesis by (auto simp: acquire_commit)
  qed
qed

lemma release_calm:
  assumes "calm w" and "view w (lk_table K) (lock_pkey f) = Some it"
    and "it ATTR_HASH = Some (AvS (content_hash_to_hex X h))" and "lock_release X K f h w = (r, w')"
  shows "calm w' \<and> r = Inr () \<and> view w' = put_at (lk_table K, lock_pkey f) None (view w)"
proof -
  let ?ws = "[WDelete (lk_table K) (lock_pkey f) (AttrEq ATTR_HASH (AvS (content_hash_to_hex X h)))]"
  have c: "commit schema ?ws (view w) = Some (put_at (lk_table K, lock_pkey f) None (view w))"
    using assms(2,3) by (simp add: commit_one attr_at_def)
  obtain r1 w1 where p: "ddb_delete (lk_client K) (lk_table K) (lock_pkey f)
      (AttrEq ATTR_HASH (AvS (content_hash_to_hex X h))) w = (r1, w1)" "calm w1"
    "if commit schema ?ws (view w) = None then \<exists>s. r1 = Inl (ConditionalCheckFailed s) else r1 = Inr ()"
    using calm.delete_fresh [OF assms(1)] by blast
  then have "r1 = Inr ()" using c by simp
  then have "commit schema ?ws (view w) = Some (view w1)"
    using delete_outcome [OF p(1)] by (simp add: write_outcome_def)
  with c p(1,2) \<open>r1 = Inr ()\<close> assms(4) show ?thesis by (auto simp: lock_release_def match_io_def)
qed

end

end
