(* ===== verification/Ref_Services.thy ===== *)
theory Ref_Services
  imports Ref_World Artifacts Publish_Lock
begin

text \<open>
  The artifact bucket, the catalog and the publish lock on the reference world: the
  interpretations of their contracts on the model's own definitions.
\<close>

section \<open>The bucket\<close>

definition ref_objects :: "ref_world \<Rightarrow> string \<Rightarrow> string \<Rightarrow> bytes option" where
  "ref_objects w bucket key = (if bucket = ''artifacts'' then map_of (rw_objects w) key else None)"

definition ref_s3 :: "ref_world s3_client" where
  "ref_s3 =
     \<lparr> s3_get_object = (\<lambda>bucket key w.
         case ref_objects w bucket key of
           None \<Rightarrow> (Inl (S3Service True ''NoSuchKey''), w)
         | Some b \<Rightarrow> (Inr \<lparr> so_content_length = Some (int (length b)), so_body = Inr b \<rparr>, w)),
       s3_put_object = (\<lambda>bucket key b w.
         if bucket = ''artifacts'' then (Inr (), w\<lparr> rw_objects := (key, b) # rw_objects w \<rparr>)
         else (Inl (S3Other (Some 404) ''NoSuchBucket''), w)) \<rparr>"

interpretation ref_bucket: bucket_store ref_s3 ref_objects
  by unfold_locales (auto simp: ref_s3_def ref_objects_def split: if_splits option.splits)

definition ref_artifacts :: "ref_world s3_artifacts" where
  "ref_artifacts = s3_artifacts_new ref_s3 ''artifacts'' ''/wasm/''"

lemma ref_s3_tables:
  "s3_get_object ref_s3 b k w = (r, w') \<Longrightarrow> w' = w"
  "s3_put_object ref_s3 b k d w = (r2, w') \<Longrightarrow> ref_view w' = ref_view w \<and> ref_hist w' = ref_hist w \<and> rd_faults w' = rd_faults w"
  by (auto simp: ref_s3_def ref_view_def ref_hist_def split: if_splits option.splits)

section \<open>The catalog\<close>

definition ref_catalog :: "ref_world catalog_db" where
  "ref_catalog = \<lparr> cd_client = ref_client ref_schema, cd_table = ''catalog'' \<rparr>"

lemma ref_catalog_simps [simp]: "cd_client ref_catalog = ref_client ref_schema" "cd_table ref_catalog = ''catalog''"
  by (simp_all add: ref_catalog_def)

interpretation ref_catalog: calm_catalog ref_catalog ref_view ref_schema "\<lambda>w. rd_faults w = []"
proof -
  have s: "ref_schema ''catalog'' = [ATTR_FN_ID, ATTR_LABEL]"
    by (simp add: ref_schema_def catalog_attrs)
  show "calm_catalog ref_catalog ref_view ref_schema (\<lambda>w. rd_faults w = [])"
    by (simp add: calm_catalog_def catalog_service_def catalog_service_axioms_def s
        ref_ddb_fresh.ddb_fresh_axioms ref_ddb.ddb_service_axioms)
qed

section \<open>The lock\<close>

definition ref_lock :: "ref_world lock_db" where
  "ref_lock = \<lparr> lk_client = ref_client ref_schema, lk_table = ''locks'',
                lk_now = (\<lambda>w. (of_nat (rw_clock_ms w div 1000), w)) \<rparr>"

lemma ref_lock_simps [simp]:
  "lk_client ref_lock = ref_client ref_schema" "lk_table ref_lock = ''locks''"
  "lk_now ref_lock w = (of_nat (rw_clock_ms w div 1000), w)"
  by (simp_all add: ref_lock_def)

interpretation ref_lock: calm_lock ref_lock ref_view ref_schema ref_ext "\<lambda>w. rd_faults w = []"
proof -
  have s: "ref_schema ''locks'' = [ATTR_FN_ID]" by (simp add: ref_schema_def catalog_attrs)
  show "calm_lock ref_lock ref_view ref_schema ref_ext (\<lambda>w. rd_faults w = [])"
    by (simp add: calm_lock_def calm_lock_axioms_def lock_service_def lock_service_axioms_def s
        ref_ddb.ddb_service_axioms ref_ddb_fresh.ddb_fresh_axioms ref_externals.externals_axioms)
qed

section \<open>The ledger's transactions and the rest of the world\<close>

text \<open>
  A debit touches the tables of the ledger only: not the catalog, the locks, the bucket, the
  module cache or the log of requests.
\<close>

abbreviation shop :: "ref_world \<Rightarrow> _" where
  "shop w \<equiv> (ref_view w ''catalog'', ref_view w ''locks'', rw_objects w, rw_modules w, rw_requests w)"

lemma ref_client_fields:
  "keeps (\<lambda>w. (rw_objects w, rw_modules w, rw_requests w)) (ddb_get (ref_client schema) t k)"
  "keeps (\<lambda>w. (rw_objects w, rw_modules w, rw_requests w)) (ddb_transact (ref_client schema) ws)"
  "keeps (\<lambda>w. (rw_objects w, rw_modules w, rw_requests w)) (ddb_put (ref_client schema) t i c)"
  "keeps (\<lambda>w. (rw_objects w, rw_modules w, rw_requests w)) (ddb_delete (ref_client schema) t k c)"
  by (rule keepsI; auto simp: ref_client_def ref_read_def ref_write_def next_fault_def set_entries_def Let_def
      split: fault.splits list.splits option.splits prod.splits)+

lemma ref_get_shop: "keeps shop (ddb_get (ref_client ref_schema) t k)"
  by (rule keepsI) (use keepsD [OF ref_client_fields(1)] keepsD [OF ref_ddb.get_keeps] in fastforce)

lemma ref_transact_shop:
  assumes "\<And>wr. wr \<in> set ws \<Longrightarrow> fst (write_at ref_schema wr) \<notin> {''catalog'', ''locks''}"
  shows "keeps shop (ddb_transact (ref_client ref_schema) ws)"
proof (rule keepsI)
  fix w w' :: ref_world and r assume t: "ddb_transact (ref_client ref_schema) ws w = (r, w')"
  note o = ref_ddb.transact_outcome [OF t]
  have "ref_view w' ''catalog'' = ref_view w ''catalog''" "ref_view w' ''locks'' = ref_view w ''locks''"
    by (rule write_outcome_other [OF o]; use assms in auto)+
  with keepsD [OF ref_client_fields(2) t] show "shop w' = shop w" by simp
qed

lemma ref_debit_shop: "keeps shop (store_debit ref_ext ref_store h cost)"
proof -
  have g: "keeps shop (store_key_by_hash ref_ext ref_store h)" "keeps shop (store_account ref_ext ref_store a)" for h a
    unfolding store_key_by_hash_def store_account_def ref_store_tables
    by (intro keeps_bind keeps_map_err ref_get_shop; auto split: option.split)+
  have t: "keeps shop (ddb_transact (ref_client ref_schema) (debit_writes ref_ext ref_store h a cost c))" for h a c
    by (rule ref_transact_shop) (auto simp: debit_writes_def split: if_splits)
  have r: "keeps shop (store_debit_recheck ref_ext ref_store h cost)"
    unfolding store_debit_recheck_def
    by (intro keeps_bind g; auto intro!: keeps_bind g split: option.split)
  show ?thesis
    unfolding store_debit_def ref_store_tables
    by (auto intro!: keeps_bind keeps_match g t r split: option.split)
qed

lemma demo_debit_shop:
  "\<exists>w'. rd_faults w' = [] \<and> shop w' = shop demo_world \<and> store_debit ref_ext ref_store demo_hash 3 demo_world =
     (Inr \<lparr> dr_secret_hash = demo_hash, dr_account_id = acc_id demo_account, dr_cost = 3, dr_capped = True \<rparr>, w')"
  using demo_debit keepsD [OF ref_debit_shop] by metis

end
