(* ===== verification/Invoke_Properties.thy ===== *)
theory Invoke_Properties
  imports Invoke Ref_Services Runner_Properties
begin

text \<open>
  Invoking a function on the whole stack: DynamoDB catalog and ledger, S3 artifacts, the runner.
  The interpretation of \<open>paid_env\<close> on the reference world, and the properties of the debit around
  a run and of the code that runs.
\<close>

section \<open>The stack in the reference world\<close>

definition ref_invoke :: "ref_world invoke_function" where
  "ref_invoke =
     \<lparr> if_catalog = dynamo_catalog ref_ext ref_catalog, if_artifacts = s3_artifact_store ref_ext ref_artifacts,
       if_runner = wasmtime_function_runner ref_ext ref_json_text ref_runner \<rparr>"

definition ref_paid :: "ref_world paid_invoke" where
  "ref_paid = paid_invoke_new 3 ''https://api/'' (dynamo_account_store ref_ext ref_store) ref_invoke"

lemma ref_paid_simps [simp]:
  "pi_cost ref_paid = 3" "pi_accounts ref_paid = dynamo_account_store ref_ext ref_store"
  "pi_invoke ref_paid = ref_invoke"
  by (simp_all add: ref_paid_def paid_invoke_new_def)

abbreviation ref_good :: "ref_world \<Rightarrow> bool" where
  "ref_good \<equiv> store_invariant ref_store ref_view ref_hist"

text \<open>Whatever leaves the tables and their history alone leaves the ledger alone.\<close>

lemma ref_good_same:
  "ref_view w' = ref_view w \<Longrightarrow> ref_hist w' = ref_hist w \<Longrightarrow> ref_good w \<Longrightarrow>
     ref_ledger w' = ref_ledger w \<and> ref_good w'"
  by (simp add: store_invariant_def)

lemma ref_resolve_frames:
  "frames ref_good (\<lambda>w. ref_ledger w) (catalog_resolve ref_ext ref_catalog f l)"
proof -
  have "frames ref_good (\<lambda>w. ref_ledger w) (ddb_get (ref_client ref_schema) t k)" for t k
    by (intro framesI ref_good_same)
      (auto simp: ref_client_def dest: keepsD [OF ref_read_keeps(1)] keepsD [OF ref_read_keeps(2)])
  then show ?thesis
    unfolding catalog_resolve_def ref_catalog_simps
    by (intro frames_bind frames_map_err) (auto split: option.split)
qed

lemma ref_s3_frames: "frames ref_good (\<lambda>w. ref_ledger w) (s3_get ref_ext ref_artifacts h)"
proof -
  have g: "s3_client ref_artifacts = ref_s3" by (simp add: ref_artifacts_def s3_artifacts_new_def)
  have f: "frames ref_good (\<lambda>w. ref_ledger w) (s3_get_object ref_s3 b k)" for b k
    by (rule framesI) (auto dest: ref_s3_tables(1))
  have "frames ref_good (\<lambda>w. ref_ledger w) (get_object ref_ext ref_artifacts k h mx)" for k h mx
    unfolding get_object_def g Let_def by (intro frames_match f) (auto split: option.split)
  then show ?thesis unfolding s3_get_def Let_def by (intro frames_bind) auto
qed

lemma ref_run_tables:
  assumes "runner_run ref_ext ref_json_text ref_runner h b i e w = (r, w')"
  shows "ref_view w' = ref_view w \<and> ref_hist w' = ref_hist w"
proof (rule ref_runner.runner_run_world [where P = "\<lambda>x. ref_view x = ref_view w \<and> ref_hist x = ref_hist w", OF _ _ _ assms])
  fix url w1 r1 w2
  assume "ref_view w1 = ref_view w \<and> ref_hist w1 = ref_hist w" "wr_http_client ref_runner url e w1 = (r1, w2)"
  then show "ref_view w2 = ref_view w \<and> ref_hist w2 = ref_hist w"
    by (auto simp: ref_runner_def ureq_get_def bind_io_def map_err_io_def ref_agent_def ref_view_def ref_hist_def
        split: if_splits sum.splits)
qed (auto simp: ref_runner_def ref_set_cache_def ref_view_def ref_hist_def)

lemma ref_run_frames: "frames ref_good (\<lambda>w. ref_ledger w) (runner_run ref_ext ref_json_text ref_runner h b i e)"
  by (rule framesI) (use ref_run_tables ref_good_same in blast)

interpretation ref_paid: paid_env ref_ext ref_paid "\<lambda>w. ref_ledger w" ref_good
proof -
  have "frames ref_good (\<lambda>w. ref_ledger w) (invoke_execute ref_invoke req)" for req
    by (rule invoke_execute_frames)
      (simp_all add: ref_invoke_def dynamo_catalog_def s3_artifact_store_def wasmtime_function_runner_def
        ref_resolve_frames ref_s3_frames ref_run_frames)
  then show "paid_env ref_ext ref_paid (\<lambda>w. ref_ledger w) ref_good"
    by (simp add: paid_env_def paid_env_axioms_def ref_store.dynamo_is_ledger)
qed

section \<open>What an invoke costs\<close>

lemma demo_presented: "presented_bearer (Some (as_str demo_secret)) = Some demo_secret"
proof -
  define z where "z = replicate 64 (CHR ''0'')"
  have z: "length z = 64" "\<And>c. c \<in> set z \<Longrightarrow> c = CHR ''0''" by (auto simp: z_def)
  have hex: "is_ascii_hexdigit c \<and> graphic c \<and> \<not> is_ascii_uppercase c" if "c \<in> set z" for c
    using z(2) [OF that] by (simp add: char_class_defs graphic_def byte_def)
  then have low: "to_ascii_lowercase z = z" by (intro to_ascii_lowercase_id) blast
  have p: "bearer_parse (SECRET_PREFIX @ z) = Inr (BearerSecret (SECRET_PREFIX @ z))"
    unfolding bearer_parse_Inr_iff using z(1) hex low by (intro exI [of _ z]) simp
  have "trim (SECRET_PREFIX @ z) = SECRET_PREFIX @ z"
    by (rule trim_graphic) (use hex in \<open>auto simp: SECRET_PREFIX_def graphic_def byte_def\<close>)
  with p show ?thesis
    unfolding presented_bearer_def demo_secret_def z_def [symmetric] by (simp add: SECRET_PREFIX_def)
qed

lemma demo_resolve:
  assumes "ref_view w ''catalog'' = ref_view demo_world ''catalog''" and "rd_faults w = []"
    and "v = echo_version \<or> v = fetch_version"
  shows "catalog_resolve ref_ext ref_catalog (fv_id v) latest w = (Inr v, w)"
proof -
  have ok: "version_ok v" "fv_label v = latest"
  proof -
    have "origin_normal (EgressOrigin ''https://a.io'')"
      unfolding origin_normal_def using demo_host by (intro exI [of _ "''a.io''"]) simp
    moreover have "function_id_new ''echo'' = Inr (FunctionId ''echo'')" "function_id_new ''fetch'' = Inr (FunctionId ''fetch'')"
      by (simp_all add: function_id_new_def char_class_defs byte_def)
    ultimately show "version_ok v" using assms(3) ref_externals.content_hash_from_bytes_ok
      by (auto simp: version_ok_def echo_version_def fetch_version_def version_label_ok_def latest_def)
    show "fv_label v = latest" using assms(3) by (auto simp: echo_version_def fetch_version_def)
  qed
  have "ref_view w ''catalog'' (catalog_pkey (fv_id v) latest) = Some (demo_row v)"
    using assms(1,3) demo_view(4) [of "[]"]
    by (auto simp: demo_world_faulty echo_version_def fetch_version_def catalog_pkey_def)
  then show ?thesis
    using version_read_back [OF ref_externals.externals_axioms ok(1), of 1] ok(2) assms(2)
    by (simp add: catalog_resolve_def bind_io_def map_err_io_def ref_get_calm demo_row_def)
qed

lemma demo_artifact:
  assumes "rw_objects w = rw_objects demo_world" and "b = ''echo'' \<or> b = ''fetch''"
  shows "s3_get ref_ext ref_artifacts (content_hash_from_bytes ref_ext b) w = (Inr b, w)"
proof -
  have a: "s3_client ref_artifacts = ref_s3" "s3_bucket ref_artifacts = ''artifacts''" "s3_prefix ref_artifacts = ''wasm''"
    by (simp_all add: ref_artifacts_def s3_artifacts_new_def trim_matches_def trim_end_matches_def)
  let ?h = "content_hash_from_bytes ref_ext b"
  have ne: "content_hash_from_bytes ref_ext ''echo'' \<noteq> content_hash_from_bytes ref_ext ''fetch''"
    by (simp add: content_hash_from_bytes_def ref_ext_def ref_sha_def)
  have "ref_objects w ''artifacts'' (wasm_key ref_ext ref_artifacts ?h) = Some b"
    using assms ne ref_externals.content_hash_to_hex_inj
    by (auto simp: ref_objects_def demo_world_def demo_object_def wasm_key_def a)
  then have "s3_get_object ref_s3 ''artifacts'' (wasm_key ref_ext ref_artifacts ?h) w
      = (Inr \<lparr> so_content_length = Some (int (length b)), so_body = Inr b \<rparr>, w)"
    by (simp add: ref_s3_def)
  moreover have "length b \<le> MAX_WASM_BYTES" using assms(2) by (auto simp: MAX_WASM_BYTES_def)
  ultimately show ?thesis
    by (simp add: s3_get_def get_object_def a match_io_def Let_def bind_io_def)
qed

definition demo_request :: "bytes \<Rightarrow> invoke_request" where
  "demo_request b = \<lparr> iq_function = FunctionId ''echo'', iq_version = latest, iq_payload = b \<rparr>"

lemma demo_cached:
  assumes "rw_modules w = rw_modules demo_world" and "m \<noteq> []"
  shows "cached_module ref_runner h m w = (Inr m, w\<lparr> rw_modules := [h \<mapsto> m] \<rparr>)"
  using assms by (simp add: cached_module_def ref_runner_def ref_cache_def ref_engine_def demo_abi ref_set_cache_def
      demo_world_def empty_world_def)

lemma ref_invoke_simps [simp]:
  "fc_resolve (if_catalog ref_invoke) = catalog_resolve ref_ext ref_catalog"
  "as_get (if_artifacts ref_invoke) = s3_get ref_ext ref_artifacts"
  "if_runner ref_invoke = wasmtime_function_runner ref_ext ref_json_text ref_runner"
  "fr_run (wasmtime_function_runner ref_ext ref_json_text ref_runner) = runner_run ref_ext ref_json_text ref_runner"
  by (simp_all add: ref_invoke_def dynamo_catalog_def s3_artifact_store_def wasmtime_function_runner_def)

lemma demo_invoke:
  assumes "shop w = shop demo_world" and "rd_faults w = []"
  shows "invoke_execute ref_invoke (demo_request b) w =
    (case invoke_sync ref_ext ref_json_text ref_runner ''echo'' b [] (w\<lparr> rw_modules := [fv_content_hash echo_version \<mapsto> ''echo''] \<rparr>) of
       (Inl e, w') \<Rightarrow> (Inl e, w')
     | (Inr out, w') \<Rightarrow> (Inr \<lparr> ir_output = out, ir_content_hash = fv_content_hash echo_version \<rparr>, w'))"
proof -
  have v: "fv_id echo_version = FunctionId ''echo''" "fv_egress_allow echo_version = []"
    "fv_content_hash echo_version = content_hash_from_bytes ref_ext ''echo''"
    by (simp_all add: echo_version_def)
  have r: "catalog_resolve ref_ext ref_catalog (FunctionId ''echo'') latest w = (Inr echo_version, w)"
    using demo_resolve [of w echo_version] assms v(1) by simp
  have a: "s3_get ref_ext ref_artifacts (content_hash_from_bytes ref_ext ''echo'') w = (Inr ''echo'', w)"
    using demo_artifact [of w "''echo''"] assms(1) by simp
  have c: "cached_module ref_runner h ''echo'' w = (Inr ''echo'', w\<lparr> rw_modules := [h \<mapsto> ''echo''] \<rparr>)" for h
    using demo_cached assms(1) by simp
  have j: "wr_join ref_runner w1 = None" for w1 by (simp add: ref_runner_def)
  show ?thesis
    by (simp add: invoke_execute_def demo_request_def bind_io_def r v a runner_run_def c spawn_blocking_def j
        Let_def split: prod.split sum.split)
qed

lemma demo_paid_invoke:
  "\<exists>w'. paid_execute ref_ext ref_paid (Some (as_str demo_secret)) (demo_request ''hi'') demo_world =
     (Inr \<lparr> ir_output = ''hi'', ir_content_hash = fv_content_hash echo_version \<rparr>, w')"
proof -
  obtain w1 where d: "rd_faults w1 = []" "shop w1 = shop demo_world" "store_debit ref_ext ref_store demo_hash 3 demo_world =
     (Inr \<lparr> dr_secret_hash = demo_hash, dr_account_id = acc_id demo_account, dr_cost = 3, dr_capped = True \<rparr>, w1)"
    using demo_debit_shop by blast
  have i: "invoke_execute ref_invoke (demo_request ''hi'') w1 =
      (Inr \<lparr> ir_output = ''hi'', ir_content_hash = fv_content_hash echo_version \<rparr>,
       w1\<lparr> rw_modules := [fv_content_hash echo_version \<mapsto> ''echo''] \<rparr>)"
    by (simp add: demo_invoke [OF d(2,1)] demo_run_echo)
  have s: "st_debit (dynamo_account_store ref_ext ref_store) = store_debit ref_ext ref_store"
    by (simp add: dynamo_account_store_def)
  show ?thesis
    by (simp add: paid_execute_def demo_presented demo_hash_def [symmetric] bind_io_def map_err_io_def s d(3)
        run_or_refund_def match_io_def i)
qed

text \<open>An invoke of a function nobody published: the debit is made and given back.\<close>

definition missing_request :: invoke_request where
  "missing_request = \<lparr> iq_function = FunctionId ''nope'', iq_version = latest, iq_payload = [] \<rparr>"

definition demo_receipt :: debit_receipt where
  "demo_receipt = \<lparr> dr_secret_hash = demo_hash, dr_account_id = acc_id demo_account, dr_cost = 3, dr_capped = True \<rparr>"

lemma demo_debit_refund:
  "\<exists>w1 w2. store_debit ref_ext ref_store demo_hash 3 demo_world = (Inr demo_receipt, w1)
     \<and> rd_faults w1 = [] \<and> shop w1 = shop demo_world \<and> store_refund ref_ext ref_store demo_receipt w1 = (Inr (), w2)"
proof -
  obtain w1 where d: "rd_faults w1 = []" "shop w1 = shop demo_world"
    "store_debit ref_ext ref_store demo_hash 3 demo_world = (Inr demo_receipt, w1)"
    using demo_debit_shop unfolding demo_receipt_def by blast
  have "denial demo_account demo_key 3 = None" by (simp add: denial_None_iff)
  then obtain w where w: "store_debit ref_ext ref_store demo_hash 3 demo_world = (Inr demo_receipt, w)"
    "ref_view w ''accounts'' (account_pkey ref_ext (acc_id demo_account))
      = Some (account_item ref_ext (demo_account\<lparr> acc_balance := 5 - 3 \<rparr>))"
    "ref_view w ''keys'' (key_pkey ref_ext demo_hash) = Some (key_item ref_ext (debited_key 3 demo_key))"
    using ref_calm_store.debit_decides [of demo_world 3 demo_account demo_key]
    by (auto simp: demo_world_faulty demo_view demo_receipt_def) (auto simp: demo_faulty_def)
  with d(3) have "w1 = w" by simp
  let ?ws = "refund_writes ref_ext (ref_store :: ref_world account_db) demo_receipt"
  have "\<exists>db. commit ref_schema ?ws (ref_view w1) = Some db"
    unfolding \<open>w1 = w\<close> refund_writes_def using w(2,3)
    by (auto simp: demo_receipt_def commit_two debited_key_def attr_at_def item_or_key_def arith_set_def num_fits_def)
  then show ?thesis
    using ref_ddb_fresh.transact_fresh [OF d(1), of ref_schema ?ws] d
    by (auto simp: store_refund_def map_err_io_def)
qed

lemma missing_resolve:
  assumes "shop w = shop demo_world" and "rd_faults w = []"
  shows "catalog_resolve ref_ext ref_catalog (FunctionId ''nope'') latest w = (Inl (NotFound ''nope@latest''), w)"
proof -
  have "ref_view demo_world ''catalog'' (catalog_pkey (FunctionId ''nope'') latest) = None"
    using demo_view(4) [of "[]"] by (simp add: demo_world_faulty catalog_pkey_def)
  with assms show ?thesis
    by (simp add: catalog_resolve_def bind_io_def map_err_io_def ref_get_calm latest_def)
qed

lemma demo_paid_missing:
  "\<exists>w1 w2. store_debit ref_ext ref_store demo_hash 3 demo_world = (Inr demo_receipt, w1)
     \<and> catalog_resolve ref_ext ref_catalog (FunctionId ''nope'') latest w1 = (Inl (NotFound ''nope@latest''), w1)
     \<and> paid_execute ref_ext ref_paid (Some (as_str demo_secret)) missing_request demo_world
         = (Inl (NotFound ''nope@latest''), w2)"
proof -
  obtain w1 w2 where d: "store_debit ref_ext ref_store demo_hash 3 demo_world = (Inr demo_receipt, w1)"
    "rd_faults w1 = []" "shop w1 = shop demo_world" "store_refund ref_ext ref_store demo_receipt w1 = (Inr (), w2)"
    using demo_debit_refund by blast
  note r = missing_resolve [OF d(3,2)]
  then have i: "invoke_execute ref_invoke missing_request w1 = (Inl (NotFound ''nope@latest''), w1)"
    by (simp add: invoke_execute_def missing_request_def bind_io_step(2))
  have s: "st_debit (dynamo_account_store ref_ext ref_store) = store_debit ref_ext ref_store"
    "st_refund (dynamo_account_store ref_ext ref_store) = store_refund ref_ext ref_store"
    by (simp_all add: dynamo_account_store_def)
  have "paid_execute ref_ext ref_paid (Some (as_str demo_secret)) missing_request demo_world
         = (Inl (NotFound ''nope@latest''), w2)"
    by (simp add: paid_execute_def demo_presented demo_hash_def [symmetric] bind_io_def map_err_io_def s d(1,4)
        run_or_refund_def match_io_def i)
  with d(1) r show ?thesis by blast
qed

text \<open>The errors of the steps before the sandbox, and which of them the debit is given back for.\<close>

lemma s3_get_charged:
  "s3_get X A h w = (Inl e, w') \<Longrightarrow> \<not> failed_before_guest e \<Longrightarrow> \<exists>msg. e = PayloadTooLarge msg"
  by (auto simp: s3_get_def get_object_def object_too_large_def match_io_def bind_io_Inl_iff bind_r_Inl_iff
      map_err_Inl_iff Let_def split: prod.splits sum.splits option.splits if_splits)

lemma version_errors_refunded: "version_from_item X it = Inl e \<Longrightarrow> failed_before_guest e"
proof -
  have c: "collect_r (\<lambda>s. map_err Domain (g s)) xs = Inl e \<Longrightarrow> failed_before_guest e" for g :: "string \<Rightarrow> domain_error + 'b" and xs
    by (induction xs) (auto simp: bind_r_Inl_iff map_err_Inl_iff)
  have a: "cat_attr_s it k = Inl e \<Longrightarrow> failed_before_guest e" for k
    by (auto simp: cat_attr_s_def ok_or_def split: option.splits attr.splits)
  show "version_from_item X it = Inl e \<Longrightarrow> failed_before_guest e"
    by (auto simp: version_from_item_def bind_r_Inl_iff map_err_Inl_iff split: option.splits attr.splits dest: a c)
qed

lemma resolve_errors_refunded: "catalog_resolve X D f l w = (Inl e, w') \<Longrightarrow> failed_before_guest e"
  by (auto simp: catalog_resolve_def bind_io_Inl_iff map_err_io_iff map_err_Inl_rev lift_r_def
      split: option.splits dest: version_errors_refunded)

lemma abi_errors_refunded: "assert_abi T M = Inl e \<Longrightarrow> failed_before_guest e"
proof -
  have "abi_imports T is = Inl e \<Longrightarrow> failed_before_guest e" for "is"
    by (induction T "is" rule: abi_imports.induct) (auto split: if_splits extern_type.splits)
  then show "assert_abi T M = Inl e \<Longrightarrow> failed_before_guest e"
    by (auto simp: assert_abi_def bind_r_Inl_iff split: option.splits extern_type.splits if_splits)
qed

lemma cached_module_charged:
  "cached_module R h b w = (Inl e, w') \<Longrightarrow> \<not> failed_before_guest e \<Longrightarrow> mc_poisoned (wr_cache R w) \<and> w' = w"
  by (auto simp: cached_module_def map_err_Inl_iff split: if_splits option.splits sum.splits dest: abi_errors_refunded)

text \<open>
  The ways an invoke that fails with \<open>e\<close> may stay charged: the debit's or the refund's write failed;
  the stored artifact is over its limit, or the module cache is poisoned; or the compiled module was
  handed to the sandbox with the payload, and the sandbox's answer is \<open>e\<close>.
\<close>

definition stays_charged ::
  "ext \<Rightarrow> json_text \<Rightarrow> 'w paid_invoke \<Rightarrow> 'w catalog_db \<Rightarrow> 'w s3_artifacts \<Rightarrow> ('s, 'm, 'w) wasmtime_runner
     \<Rightarrow> secret_hash \<Rightarrow> invoke_request \<Rightarrow> 'w \<Rightarrow> app_error \<Rightarrow> 'w \<Rightarrow> bool" where
  "stays_charged X J P D A R h req w e w' \<longleftrightarrow>
     (\<exists>s. st_debit (pi_accounts P) h (pi_cost P) w = (Inl (StoreStorage s), w') \<and> e = Storage s)
   \<or> (\<exists>rc w1. st_debit (pi_accounts P) h (pi_cost P) w = (Inr rc, w1)
        \<and> ((\<exists>err w2 re s. invoke_execute (pi_invoke P) req w1 = (Inl err, w2)
               \<and> st_refund (pi_accounts P) rc w2 = (Inl re, w') \<and> e = Storage s)
          \<or> (\<exists>v w2. catalog_resolve X D (iq_function req) (iq_version req) w1 = (Inr v, w2)
               \<and> ((\<exists>msg. s3_get X A (fv_content_hash v) w2 = (Inl (PayloadTooLarge msg), w') \<and> e = PayloadTooLarge msg)
                 \<or> (\<exists>wasm w3. s3_get X A (fv_content_hash v) w2 = (Inr wasm, w3)
                      \<and> (mc_poisoned (wr_cache R w3) \<and> w' = w3 \<and> e = Invoke ''module cache poisoned''
                        \<or> (\<exists>m w4. cached_module R (fv_content_hash v) wasm w3 = (Inr m, w4)
                             \<and> spawn_blocking R (invoke_sync X J R m (iq_payload req) (fv_egress_allow v)) w4
                                 = (Inl e, w'))))))))"

lemma charged_run:
  assumes "I = \<lparr> if_catalog = dynamo_catalog X D, if_artifacts = s3_artifact_store X A,
                 if_runner = wasmtime_function_runner X J R \<rparr>"
    and "invoke_execute I req w1 = (Inl e, w')" and "\<not> failed_before_guest e"
  shows "\<exists>v w2. catalog_resolve X D (iq_function req) (iq_version req) w1 = (Inr v, w2)
     \<and> ((\<exists>msg. s3_get X A (fv_content_hash v) w2 = (Inl (PayloadTooLarge msg), w') \<and> e = PayloadTooLarge msg)
       \<or> (\<exists>wasm w3. s3_get X A (fv_content_hash v) w2 = (Inr wasm, w3)
            \<and> (mc_poisoned (wr_cache R w3) \<and> w' = w3 \<and> e = Invoke ''module cache poisoned''
              \<or> (\<exists>m w4. cached_module R (fv_content_hash v) wasm w3 = (Inr m, w4)
                   \<and> spawn_blocking R (invoke_sync X J R m (iq_payload req) (fv_egress_allow v)) w4 = (Inl e, w')))))"
proof -
  have f: "fc_resolve (if_catalog I) = catalog_resolve X D" "as_get (if_artifacts I) = s3_get X A"
    "fr_run (if_runner I) = runner_run X J R"
    by (simp_all add: assms(1) dynamo_catalog_def s3_artifact_store_def wasmtime_function_runner_def)
  from assms(2,3) obtain v w2 where v: "catalog_resolve X D (iq_function req) (iq_version req) w1 = (Inr v, w2)"
    and rest: "s3_get X A (fv_content_hash v) w2 = (Inl e, w') \<or>
      (\<exists>wasm w3. s3_get X A (fv_content_hash v) w2 = (Inr wasm, w3)
         \<and> runner_run X J R (fv_content_hash v) wasm (iq_payload req) (fv_egress_allow v) w3 = (Inl e, w'))"
    by (auto simp: invoke_execute_def bind_io_Inl_iff Let_def f dest: resolve_errors_refunded)
  have run: "mc_poisoned (wr_cache R w3) \<and> w' = w3 \<and> e = Invoke ''module cache poisoned''
      \<or> (\<exists>m w4. cached_module R (fv_content_hash v) wasm w3 = (Inr m, w4)
           \<and> spawn_blocking R (invoke_sync X J R m (iq_payload req) (fv_egress_allow v)) w4 = (Inl e, w'))"
    if "runner_run X J R (fv_content_hash v) wasm (iq_payload req) (fv_egress_allow v) w3 = (Inl e, w')" for wasm w3
  proof -
    from that consider "cached_module R (fv_content_hash v) wasm w3 = (Inl e, w')"
      | m w4 where "cached_module R (fv_content_hash v) wasm w3 = (Inr m, w4)"
        "spawn_blocking R (invoke_sync X J R m (iq_payload req) (fv_egress_allow v)) w4 = (Inl e, w')"
      unfolding runner_run_def bind_io_Inl_iff by auto
    then show ?thesis
    proof cases
      case 1
      with cached_module_charged [OF 1 assms(3)] show ?thesis by (simp add: cached_module_def)
    qed blast
  qed
  from rest show ?thesis
  proof
    assume "s3_get X A (fv_content_hash v) w2 = (Inl e, w')"
    with s3_get_charged [OF this assms(3)] v show ?thesis by blast
  next
    assume "\<exists>wasm w3. s3_get X A (fv_content_hash v) w2 = (Inr wasm, w3)
       \<and> runner_run X J R (fv_content_hash v) wasm (iq_payload req) (fv_egress_allow v) w3 = (Inl e, w')"
    with run v show ?thesis by blast
  qed
qed

text \<open>
  C5: An invoke costs at most one debit of the configured cost, from the account of the presented
  key, and success costs exactly one. A failure leaves the ledger exactly as it was, balance and cap,
  except in the cases of \<open>stays_charged\<close>: the debit's own write or the refund's failed, the stored
  artifact is over its limit, the module cache is poisoned, or the module had been compiled and
  handed to the sandbox. So an unknown function or version, an unreadable row, a missing or altered
  artifact, and a module that does not compile or has another ABI cost nothing, by whatever error they
  are reported. All this holds with lost messages and stale reads.
\<close>

theorem paid_invoke_charges:
  assumes "paid_env X P led good" and "good w" and "pi_cost P \<noteq> 0"
    and "pi_invoke P = \<lparr> if_catalog = dynamo_catalog X D, if_artifacts = s3_artifact_store X A,
                         if_runner = wasmtime_function_runner X J R \<rparr>"
    and "paid_execute X P bearer req w = (r, w')"
  shows "(\<forall>res. r = Inr res \<longrightarrow>
       (\<exists>secret a capped. presented_bearer bearer = Some secret
          \<and> op_spec X (OpDebit (secret_hash_of X secret) a (pi_cost P) capped) (led w) = Some (led w')))
    \<and> (\<forall>e. r = Inl e \<longrightarrow> led w' = led w \<or>
       (\<exists>secret a capped. presented_bearer bearer = Some secret
          \<and> op_spec X (OpDebit (secret_hash_of X secret) a (pi_cost P) capped) (led w) = Some (led w')
          \<and> stays_charged X J P D A R (secret_hash_of X secret) req w e w'))"
proof -
  have "stays_charged X J P D A R h req w e w'" if k: "paid_env.kept_debit P h req w e w'" for h e
    using k charged_run [OF assms(4)] unfolding stays_charged_def paid_env.kept_debit_def [OF assms(1)] by fast
  with paid_env.paid_execute_outcome [OF assms(1-3,5)] show ?thesis by fastforce
qed

lemma demo_balance: "lg_balance (ref_ledger demo_world) a = (if a = demo_hex then Some 5 else None)"
  by (simp add: ledger_of_def demo_world_faulty demo_view account_pkey_def)

theorem paid_invoke_charges_witness:
  "(\<exists>w'. paid_execute ref_ext ref_paid (Some (as_str demo_secret)) (demo_request ''hi'') demo_world =
       (Inr \<lparr> ir_output = ''hi'', ir_content_hash = fv_content_hash echo_version \<rparr>, w')
     \<and> lg_balance (ref_ledger w') demo_hex = Some 2)
   \<and> (\<exists>w'. paid_execute ref_ext ref_paid (Some (as_str demo_secret)) missing_request demo_world =
       (Inl (NotFound ''nope@latest''), w')
     \<and> ref_ledger w' = ref_ledger demo_world)"
proof -
  obtain w' where run: "paid_execute ref_ext ref_paid (Some (as_str demo_secret)) (demo_request ''hi'') demo_world =
     (Inr \<lparr> ir_output = ''hi'', ir_content_hash = fv_content_hash echo_version \<rparr>, w')"
    using demo_paid_invoke by blast
  have inv: "ref_good demo_world" unfolding demo_world_faulty by (rule demo_invariant)
  have cost: "pi_cost ref_paid \<noteq> 0" and invoke: "pi_invoke ref_paid = \<lparr> if_catalog = dynamo_catalog ref_ext ref_catalog,
      if_artifacts = s3_artifact_store ref_ext ref_artifacts, if_runner = wasmtime_function_runner ref_ext ref_json_text ref_runner \<rparr>"
    by (simp_all add: ref_invoke_def)
  note charges = paid_invoke_charges [OF ref_paid.paid_env_axioms inv cost invoke]
  obtain h a c where "op_spec ref_ext (OpDebit h a (pi_cost ref_paid) c) (ref_ledger demo_world) = Some (ref_ledger w')"
    using charges [OF run] by blast
  then have ok: "lg_balance (ref_ledger w') demo_hex = Some 2"
    by (auto simp: op_spec.simps Let_def demo_balance dest!: sym [of _ "ref_ledger w'"]
        split: option.splits if_splits)
  obtain w1 w2 where missing: "store_debit ref_ext ref_store demo_hash 3 demo_world = (Inr demo_receipt, w1)"
      "catalog_resolve ref_ext ref_catalog (FunctionId ''nope'') latest w1 = (Inl (NotFound ''nope@latest''), w1)"
      "paid_execute ref_ext ref_paid (Some (as_str demo_secret)) missing_request demo_world = (Inl (NotFound ''nope@latest''), w2)"
    using demo_paid_missing by blast
  have "\<not> stays_charged ref_ext ref_json_text ref_paid ref_catalog ref_artifacts ref_runner h missing_request demo_world
      (NotFound ''nope@latest'') w2" if "h = demo_hash" for h
    using missing(1,2) that by (simp add: stays_charged_def dynamo_account_store_def missing_request_def)
  with charges [OF missing(3)] have "ref_ledger w2 = ref_ledger demo_world"
    by (auto simp: demo_presented demo_hash_def)
  with run ok missing(3) show ?thesis by blast
qed

section \<open>Which code runs\<close>

text \<open>
  C6: The output of an invoke was produced by a module compiled from bytes that hash to the
  content hash in the response, which is the hash in the resolved catalog row; the module passed
  the ABI check, its input is the request's payload and its allowlist is that of the row. This
  holds for any bucket content, warm or cold cache, when the cache is sound, and keeps it sound.
\<close>

theorem invoke_integrity:
  assumes "runner_env R" and "cache_sound X R w"
    and "verified_artifacts X (if_artifacts I)" and "if_runner I = wasmtime_function_runner X J R"
    and "\<And>f l. frames (cache_sound X R) (\<lambda>_. ()) (fc_resolve (if_catalog I) f l)"
    and "\<And>h. frames (cache_sound X R) (\<lambda>_. ()) (as_get (if_artifacts I) h)"
    and "invoke_execute I req w = (Inr res, w')"
  shows "\<exists>v module w1. fst (fc_resolve (if_catalog I) (iq_function req) (iq_version req) w) = Inr v
     \<and> ir_content_hash res = fv_content_hash v \<and> compiled_from X R (ir_content_hash res) module
     \<and> invoke_sync X J R module (iq_payload req) (fv_egress_allow v) w1 = (Inr (ir_output res), w')
     \<and> cache_sound X R w'"
proof -
  have fr: "fr_run (if_runner I) = runner_run X J R" by (simp add: assms(4) wasmtime_function_runner_def)
  obtain v wasm w1 w2 where
    v: "fc_resolve (if_catalog I) (iq_function req) (iq_version req) w = (Inr v, w1)"
    and g: "as_get (if_artifacts I) (fv_content_hash v) w1 = (Inr wasm, w2)"
    and r0: "fr_run (if_runner I) (fv_content_hash v) wasm (iq_payload req) (fv_egress_allow v) w2
       = (Inr \<lparr> ro_output = ir_output res \<rparr>, w')"
    and h: "ir_content_hash res = fv_content_hash v"
    by (rule invoke_execute_Inr [OF assms(7)])
  have r: "runner_run X J R (fv_content_hash v) wasm (iq_payload req) (fv_egress_allow v) w2
       = (Inr \<lparr> ro_output = ir_output res \<rparr>, w')" using r0 by (simp add: fr)
  have s1: "cache_sound X R w1" using framesD [OF assms(5) assms(2) v] by blast
  have s2: "cache_sound X R w2" using framesD [OF assms(6) s1 g] by blast
  have hash: "content_hash_from_bytes X wasm = fv_content_hash v"
    using verified_artifacts.get_verified [OF assms(3) g] by blast
  from runner_env.runner_run_law [OF assms(1) r] obtain m w3 out where
    c: "cached_module R (fv_content_hash v) wasm w2 = (Inr m, w3)"
    and i: "invoke_sync X J R m (iq_payload req) (fv_egress_allow v) w3 = (out, w')"
    and "Inr \<lparr> ro_output = ir_output res \<rparr> = (case wr_join R w' of Some e \<Rightarrow> Inl (Invoke (''join error: '' @ e))
       | None \<Rightarrow> bind_r out (\<lambda>b. Inr \<lparr> ro_output = b \<rparr>))" by auto
  then have "out = Inr (ir_output res)" by (cases out) (auto split: option.splits)
  with v h i runner_env.cached_module_sound [OF assms(1) s2 hash c] runner_env.runner_run_sound [OF assms(1) s2 hash r]
  show ?thesis by auto
qed

lemma ref_cache_frames:
  "frames (cache_sound ref_ext ref_runner) (\<lambda>_. ()) (fc_resolve (if_catalog ref_invoke) f l)"
  "frames (cache_sound ref_ext ref_runner) (\<lambda>_. ()) (as_get (if_artifacts ref_invoke) h)"
proof -
  have c: "cache_sound ref_ext ref_runner w' \<longleftrightarrow> cache_sound ref_ext ref_runner w"
    if "rw_modules w' = rw_modules w" for w w'
    using that by (simp add: cache_sound_def ref_runner_def ref_cache_def)
  have "frames (cache_sound ref_ext ref_runner) (\<lambda>_. ()) (ddb_get (ref_client ref_schema) t k)" for t k
  proof (rule framesI)
    fix w w' :: ref_world and r
    assume "cache_sound ref_ext ref_runner w" "ddb_get (ref_client ref_schema) t k w = (r, w')"
    with keepsD [OF ref_client_fields(1) this(2)] c [of w' w] show "() = () \<and> cache_sound ref_ext ref_runner w'" by auto
  qed
  then show "frames (cache_sound ref_ext ref_runner) (\<lambda>_. ()) (fc_resolve (if_catalog ref_invoke) f l)"
    unfolding ref_invoke_simps catalog_resolve_def ref_catalog_simps
    by (intro frames_bind frames_map_err) (auto split: option.split)
  have g: "s3_client ref_artifacts = ref_s3" by (simp add: ref_artifacts_def s3_artifacts_new_def)
  have f: "frames (cache_sound ref_ext ref_runner) (\<lambda>_. ()) (s3_get_object ref_s3 b k)" for b k
    by (rule framesI) (auto dest: ref_s3_tables(1))
  have "frames (cache_sound ref_ext ref_runner) (\<lambda>_. ()) (get_object ref_ext ref_artifacts k h mx)" for k h mx
    unfolding get_object_def g Let_def by (intro frames_match f) (auto split: option.split)
  then show "frames (cache_sound ref_ext ref_runner) (\<lambda>_. ()) (as_get (if_artifacts ref_invoke) h)"
    unfolding ref_invoke_simps s3_get_def Let_def by (intro frames_bind) auto
qed

theorem invoke_integrity_witness:
  "\<exists>module. compiled_from ref_ext ref_runner (content_hash_from_bytes ref_ext ''echo'') module"
proof -
  have calm: "rd_faults demo_world = []" by (simp add: demo_world_def empty_world_def)
  have run: "invoke_execute ref_invoke (demo_request ''hi'') demo_world =
      (Inr \<lparr> ir_output = ''hi'', ir_content_hash = fv_content_hash echo_version \<rparr>,
       demo_world\<lparr> rw_modules := [fv_content_hash echo_version \<mapsto> ''echo''] \<rparr>)"
    by (simp add: demo_invoke [OF refl calm] demo_run_echo)
  have sound: "cache_sound ref_ext ref_runner demo_world"
    by (simp add: cache_sound_def ref_runner_def ref_cache_def demo_world_def empty_world_def)
  have art: "verified_artifacts ref_ext (if_artifacts ref_invoke)"
    using s3.verified_artifacts_axioms by (simp add: ref_invoke_def)
  from invoke_integrity [OF ref_runner.runner_env_axioms sound art ref_invoke_simps(3) ref_cache_frames run]
  show ?thesis by (auto simp: echo_version_def)
qed

section \<open>When the debit is given back\<close>

text \<open>No error of a run, once the module is there, is one the debit is refunded for.\<close>

lemma map_wasm_err_charged: "\<not> failed_before_guest (map_wasm_err err ctx)"
proof -
  have "\<not> failed_before_guest (map_sources ctx msg xs)" for msg xs
    by (induction ctx msg xs rule: map_sources.induct) auto
  then show ?thesis by (simp add: map_wasm_err_def)
qed

lemma throws_in_store: "throws P m \<Longrightarrow> throws P (in_store m)"
  by (intro throwsI) (auto simp: in_store_def dest: throwsD split: prod.splits)

lemma ensure_pages_charged: "throws (\<lambda>e. \<not> failed_before_guest e) (ensure_pages E n)"
  by (intro throwsI)
    (auto simp: ensure_pages_def Let_def map_err_io_iff map_err_Inl_rev split: if_splits)

lemma read_output_charged: "throws (\<lambda>e. \<not> failed_before_guest e) (read_output E n)"
  unfolding read_output_def Let_def
  by (auto intro!: throws_bind throws_in_store ensure_pages_charged) (auto intro!: throwsI simp: map_err_Inl_iff)

lemma invoke_in_store_charged: "throws (\<lambda>e. \<not> failed_before_guest e) (invoke_in_store E host m b)"
  unfolding invoke_in_store_def wasm_instantiate_def
  by (intro throws_bind throws_map_err throws_in_store ensure_pages_charged read_output_charged map_wasm_err_charged)
    (auto intro!: throwsI simp: map_err_Inl_iff map_wasm_err_charged split: if_splits)

lemma invoke_sync_charged: "throws (\<lambda>e. \<not> failed_before_guest e) (invoke_sync X J R m b al)"
  by (intro throwsI)
    (auto simp: invoke_sync_def split: if_splits prod.splits dest: throwsD [OF invoke_in_store_charged])

lemma runner_run_refunded:
  assumes "runner_run X J R h b i al w = (Inl e, w')" and "failed_before_guest e"
  shows "cached_module R h b w = (Inl e, w')"
  using assms
  by (auto simp: runner_run_def bind_io_def spawn_blocking_def dest: throwsD [OF invoke_sync_charged]
      split: prod.splits sum.splits option.splits)

text \<open>
  C23: A refund is only for a run that never entered the guest: when an invoke fails with an error
  the debit is refunded for, resolving the version, loading the artifact, compiling it or its ABI
  check failed with that error.
\<close>

theorem refund_only_before_guest:
  assumes "if_runner I = wasmtime_function_runner X J R"
    and "invoke_execute I req w = (Inl e, w')" and "failed_before_guest e"
  shows "fc_resolve (if_catalog I) (iq_function req) (iq_version req) w = (Inl e, w')
    \<or> (\<exists>v w1. fc_resolve (if_catalog I) (iq_function req) (iq_version req) w = (Inr v, w1)
         \<and> (as_get (if_artifacts I) (fv_content_hash v) w1 = (Inl e, w')
            \<or> (\<exists>wasm w2. as_get (if_artifacts I) (fv_content_hash v) w1 = (Inr wasm, w2)
                 \<and> cached_module R (fv_content_hash v) wasm w2 = (Inl e, w'))))"
proof -
  have "fr_run (if_runner I) = runner_run X J R" by (simp add: assms(1) wasmtime_function_runner_def)
  with assms(2,3) show ?thesis
    by (auto simp: invoke_execute_def bind_io_Inl_iff Let_def dest: runner_run_refunded)
qed

theorem refund_only_before_guest_witness:
  "invoke_execute ref_invoke missing_request demo_world = (Inl (NotFound ''nope@latest''), demo_world)
   \<and> catalog_resolve ref_ext ref_catalog (FunctionId ''nope'') latest demo_world
       = (Inl (NotFound ''nope@latest''), demo_world)"
proof -
  have "rd_faults demo_world = []" by (simp add: demo_world_def empty_world_def)
  note res = missing_resolve [OF refl this]
  from res have run: "invoke_execute ref_invoke missing_request demo_world = (Inl (NotFound ''nope@latest''), demo_world)"
    by (simp add: invoke_execute_def missing_request_def bind_io_step(2))
  from refund_only_before_guest [OF ref_invoke_simps(3) run] run res show ?thesis
    by (simp add: missing_request_def)
qed

text \<open>
  A payload over the runner's limit is charged although the guest never starts: the limit is
  checked after the debit, and the debit is not given back.
\<close>

lemma oversize_input_is_charged:
  assumes "pi_cost P \<noteq> 0" and "presented_bearer bearer = Some secret"
    and "st_debit (pi_accounts P) (secret_hash_of X secret) (pi_cost P) w = (Inr receipt, w1)"
    and "fc_resolve (if_catalog (pi_invoke P)) (iq_function req) (iq_version req) w1 = (Inr v, w2)"
    and "as_get (if_artifacts (pi_invoke P)) (fv_content_hash v) w2 = (Inr wasm, w3)"
    and "if_runner (pi_invoke P) = wasmtime_function_runner X J R"
    and "cached_module R (fv_content_hash v) wasm w3 = (Inr module, w4)" and "wr_join R w4 = None"
    and "length (iq_payload req) > MAX_INVOKE_BODY_BYTES"
  shows "\<exists>msg. paid_execute X P bearer req w = (Inl (PayloadTooLarge msg), w4)"
proof -
  obtain msg where "invoke_sync X J R module (iq_payload req) (fv_egress_allow v) w4 = (Inl (PayloadTooLarge msg), w4)"
    using assms(9) by (simp add: invoke_sync_def)
  then have "runner_run X J R (fv_content_hash v) wasm (iq_payload req) (fv_egress_allow v) w3
      = (Inl (PayloadTooLarge msg), w4)"
    by (simp add: runner_run_def spawn_blocking_def bind_io_def assms(7,8))
  then have "invoke_execute (pi_invoke P) req w1 = (Inl (PayloadTooLarge msg), w4)"
    by (simp add: invoke_execute_def Let_def bind_io_def assms(4,5,6) wasmtime_function_runner_def)
  then have "run_or_refund P receipt req w1 = (Inl (PayloadTooLarge msg), w4)"
    by (simp add: run_or_refund_def match_io_step(2))
  then show ?thesis
    using assms(1,2) by (simp add: paid_execute_def bind_io_def map_err_io_def assms(3))
qed

text \<open>So is a call of a function whose stored artifact is over the limit of artifacts.\<close>

lemma oversize_artifact_is_charged:
  assumes "pi_cost P \<noteq> 0" and "presented_bearer bearer = Some secret"
    and "st_debit (pi_accounts P) (secret_hash_of X secret) (pi_cost P) w = (Inr receipt, w1)"
    and "fc_resolve (if_catalog (pi_invoke P)) (iq_function req) (iq_version req) w1 = (Inr v, w2)"
    and "if_artifacts (pi_invoke P) = s3_artifact_store X A"
    and "s3_get_object (s3_client A) (s3_bucket A) (wasm_key X A (fv_content_hash v)) w2 = (Inr out, w3)"
    and "so_content_length out = Some n" and "n > int MAX_WASM_BYTES"
  shows "\<exists>msg. paid_execute X P bearer req w = (Inl (PayloadTooLarge msg), w3)"
proof -
  have "\<exists>msg. s3_get X A (fv_content_hash v) w2 = (Inl (PayloadTooLarge msg), w3)"
    using assms(6-8) by (auto simp: s3_get_def get_object_def object_too_large_def match_io_def bind_io_def Let_def)
  then obtain msg where "invoke_execute (pi_invoke P) req w1 = (Inl (PayloadTooLarge msg), w3)"
    by (auto simp: invoke_execute_def Let_def bind_io_def assms(4,5) s3_artifact_store_def)
  then have "run_or_refund P receipt req w1 = (Inl (PayloadTooLarge msg), w3)"
    by (simp add: run_or_refund_def match_io_step(2))
  then show ?thesis
    using assms(1,2) by (simp add: paid_execute_def bind_io_def map_err_io_def assms(3))
qed

end
