(* ===== verification/Publish.thy ===== *)
theory Publish
  imports Catalog Artifacts
begin

text \<open>
  \<open>crates/application/src/usecases/publish.rs\<close>: validating a module, storing its bytes and
  pointing the catalog at them, under the publish lock of the function. The locale
  \<open>publish_env\<close> is what the use case relies on: which ports may change the catalog's rows or the
  stored artifacts, and how. \<open>publish_lock_env\<close> is the contract of the lock on a calm service.
\<close>

section \<open>PublishFunction\<close>

text \<open>
  \<open>pf_clock\<close> is the system clock, in milliseconds since the epoch, negative before it.
\<close>

record 'w publish_function =
  pf_artifacts :: "'w artifact_store"
  pf_catalog :: "'w function_catalog"
  pf_lock :: "'w publish_lock"
  pf_runner :: "'w function_runner"
  pf_clock :: "'w \<Rightarrow> int \<times> 'w"

definition publish_new ::
  "'w artifact_store \<Rightarrow> 'w function_catalog \<Rightarrow> 'w publish_lock \<Rightarrow> 'w function_runner \<Rightarrow> ('w \<Rightarrow> int \<times> 'w)
     \<Rightarrow> 'w publish_function" where
  "publish_new artifacts catalog lock runner clock =
     \<lparr> pf_artifacts = artifacts, pf_catalog = catalog, pf_lock = lock, pf_runner = runner, pf_clock = clock \<rparr>"

definition unix_now_ms :: "'w publish_function \<Rightarrow> ('w, app_error, u64) io" where
  "unix_now_ms P w = (case pf_clock P w of (t, w') \<Rightarrow> (Inr (if t < 0 then 0 else word_of_int t), w'))"

text \<open>A step under the lock: on an error the lock is released, whatever that gives.\<close>

definition or_release ::
  "'w publish_function \<Rightarrow> function_id \<Rightarrow> content_hash \<Rightarrow> ('w, app_error, 'a) io \<Rightarrow> ('w, app_error, 'a) io" where
  "or_release P f hash m =
     match_io m ret
       (\<lambda>err. match_io (pl_release (pf_lock P) f hash) (\<lambda>_. throw err) (\<lambda>_. throw err))"

definition publish_execute ::
  "ext \<Rightarrow> 'w publish_function \<Rightarrow> publish_request \<Rightarrow> ('w, app_error, publish_response) io" where
  "publish_execute X P req =
     (if pq_wasm req = [] then throw (Compile ''empty wasm'')
      else if length (pq_wasm req) > MAX_WASM_BYTES then
        throw (PayloadTooLarge (''wasm '' @ show_nat (length (pq_wasm req)) @ '' bytes exceeds max ''
                                @ show_nat MAX_WASM_BYTES))
      else
        bind_io (fr_validate (pf_runner P) (pq_wasm req)) (\<lambda>_.
        let hash = content_hash_from_bytes X (pq_wasm req) in
        bind_io (unix_now_ms P) (\<lambda>queued_at_ms.
        bind_io (pl_acquire (pf_lock P) (pq_function req) hash queued_at_ms) (\<lambda>_.
        bind_io (or_release P (pq_function req) hash (as_put (pf_artifacts P) (pq_wasm req))) (\<lambda>stored.
        bind_io (or_release P (pq_function req) hash
                  (fc_upsert (pf_catalog P) (pq_function req) latest hash queued_at_ms (pq_egress_allow req))) (\<lambda>applied.
        bind_io (pl_release (pf_lock P) (pq_function req) hash) (\<lambda>_.
        ret \<lparr> pr_function = pq_function req, pr_version = latest, pr_content_hash = stored,
              pr_wasm_bytes = length (pq_wasm req), pr_egress_allow = pq_egress_allow req,
              pr_status = (if applied then Ready else Superseded) \<rparr>)))))))"

lemma or_release_Inr_iff: "or_release P f h m w = (Inr a, w') \<longleftrightarrow> m w = (Inr a, w')"
  by (auto simp: or_release_def match_io_def split: prod.splits sum.splits)

text \<open>The steps of a publish that succeeds.\<close>

lemma publish_execute_InrE:
  assumes "publish_execute X P req w = (Inr res, w')"
  obtains w1 q w2 w3 st w4 applied w5 where
    "pq_wasm req \<noteq> []" "length (pq_wasm req) \<le> MAX_WASM_BYTES"
    "fr_validate (pf_runner P) (pq_wasm req) w = (Inr (), w1)" "unix_now_ms P w1 = (Inr q, w2)"
    "pl_acquire (pf_lock P) (pq_function req) (content_hash_from_bytes X (pq_wasm req)) q w2 = (Inr (), w3)"
    "as_put (pf_artifacts P) (pq_wasm req) w3 = (Inr st, w4)"
    "fc_upsert (pf_catalog P) (pq_function req) latest (content_hash_from_bytes X (pq_wasm req)) q (pq_egress_allow req) w4
       = (Inr applied, w5)"
    "pl_release (pf_lock P) (pq_function req) (content_hash_from_bytes X (pq_wasm req)) w5 = (Inr (), w')"
    "res = \<lparr> pr_function = pq_function req, pr_version = latest, pr_content_hash = st,
              pr_wasm_bytes = length (pq_wasm req), pr_egress_allow = pq_egress_allow req,
              pr_status = (if applied then Ready else Superseded) \<rparr>"
proof -
  have "pq_wasm req \<noteq> []" "length (pq_wasm req) \<le> MAX_WASM_BYTES"
    using assms by (auto simp: publish_execute_def split: if_splits)
  with assms that show thesis
    by (auto simp: publish_execute_def bind_io_Inr_iff or_release_Inr_iff Let_def)
qed

section \<open>What a publish changes\<close>

locale publish_env =
  fixes X :: ext and P :: "'w publish_function" and row :: "'w \<Rightarrow> pkey \<Rightarrow> item option"
    and stored :: "'w \<Rightarrow> content_hash \<Rightarrow> bool" and good :: "'w \<Rightarrow> bool"
  assumes validate_frame: "frames good (\<lambda>w. (row w, stored w)) (fr_validate (pf_runner P) b)"
    and clock_frame: "frames good (\<lambda>w. (row w, stored w)) (unix_now_ms P)"
    and acquire_frame: "frames good (\<lambda>w. (row w, stored w)) (pl_acquire (pf_lock P) f h q)"
    and release_frame: "frames good (\<lambda>w. (row w, stored w)) (pl_release (pf_lock P) f h)"
    and put_effect: "good w \<Longrightarrow> length b \<le> MAX_WASM_BYTES \<Longrightarrow> as_put (pf_artifacts P) b w = (r, w') \<Longrightarrow>
        good w' \<and> row w' = row w \<and> (\<forall>h. stored w h \<longrightarrow> stored w' h)
        \<and> (\<forall>h. r = Inr h \<longrightarrow> h = content_hash_from_bytes X b \<and> stored w' h)"
    and upsert_effect: "good w \<Longrightarrow> fc_upsert (pf_catalog P) f l h q eg w = (ap, w') \<Longrightarrow>
        good w' \<and> stored w' = stored w
        \<and> (row w' = row w \<or> row w' = (row w)(catalog_pkey f l \<mapsto> catalog_item X f l h q eg))
        \<and> (ap = Inr True \<longrightarrow> row w' = (row w)(catalog_pkey f l \<mapsto> catalog_item X f l h q eg))
        \<and> (ap = Inr False \<longrightarrow> row w' = row w)"
begin

text \<open>
  From \<open>w0\<close>: only the row of the function at \<open>latest\<close> may have changed, to one for the stored
  hash of the module, and no stored artifact is gone.
\<close>

definition pointed :: "'w \<Rightarrow> publish_request \<Rightarrow> u64 \<Rightarrow> 'w \<Rightarrow> bool" where
  "pointed w0 req q w \<longleftrightarrow>
     row w = (row w0)(catalog_pkey (pq_function req) latest \<mapsto>
       catalog_item X (pq_function req) latest (content_hash_from_bytes X (pq_wasm req)) q (pq_egress_allow req))"

definition progress :: "'w \<Rightarrow> publish_request \<Rightarrow> 'w \<Rightarrow> bool" where
  "progress w0 req w \<longleftrightarrow> good w \<and> (\<forall>h. stored w0 h \<longrightarrow> stored w h)
     \<and> (row w = row w0 \<or> (\<exists>q. pointed w0 req q w) \<and> stored w (content_hash_from_bytes X (pq_wasm req)))"

lemma progress_same:
  "progress w0 req w \<Longrightarrow> (row w', stored w') = (row w, stored w) \<Longrightarrow> good w' \<Longrightarrow> progress w0 req w'"
  by (simp add: progress_def pointed_def)

lemma or_release_triple:
  assumes "triple A m Q (\<lambda>_. progress w0 req)"
  shows "triple A (or_release P f h m) Q (\<lambda>_. progress w0 req)"
  unfolding or_release_def
proof (rule triple_match [OF assms triple_ret])
  fix e
  have "triple (progress w0 req) (pl_release (pf_lock P) f h) (\<lambda>_. progress w0 req) (\<lambda>_. progress w0 req)"
    by (rule triple_frames [OF release_frame]) (blast intro: progress_same, blast intro: progress_same, simp add: progress_def)
  then show "triple (progress w0 req) (match_io (pl_release (pf_lock P) f h) (\<lambda>_. throw e) (\<lambda>_. throw e))
      Q (\<lambda>_. progress w0 req)"
    by (rule triple_match; blast intro: triple_throw)
qed

lemma publish_triple:
  fixes w0 and req
  defines "h \<equiv> content_hash_from_bytes X (pq_wasm req)"
  shows "triple (\<lambda>w. good w \<and> row w = row w0 \<and> stored w = stored w0) (publish_execute X P req)
     (\<lambda>res w. progress w0 req w \<and> stored w h \<and> pr_function res = pq_function req \<and> pr_version res = latest
        \<and> pr_content_hash res = h \<and> pr_egress_allow res = pq_egress_allow req
        \<and> pr_wasm_bytes res = length (pq_wasm req)
        \<and> (pr_status res = Ready \<longrightarrow> (\<exists>q. pointed w0 req q w))
        \<and> (pr_status res = Superseded \<longrightarrow> row w = row w0))
     (\<lambda>_. progress w0 req)"
proof -
  let ?f = "pq_function req" and ?E = "\<lambda>_. progress w0 req"
  let ?A = "\<lambda>w. good w \<and> row w = row w0 \<and> stored w = stored w0"
  let ?B = "\<lambda>s w. s = h \<and> good w \<and> row w = row w0 \<and> (\<forall>h. stored w0 h \<longrightarrow> stored w h) \<and> stored w h"
  let ?C = "\<lambda>s applied w. s = h \<and> progress w0 req w \<and> stored w h \<and> (applied \<longrightarrow> (\<exists>q. pointed w0 req q w))
              \<and> (\<not> applied \<longrightarrow> row w = row w0)"
  have put: "triple ?A (or_release P ?f h (as_put (pf_artifacts P) (pq_wasm req))) ?B ?E"
    if "length (pq_wasm req) \<le> MAX_WASM_BYTES"
    by (rule or_release_triple, rule tripleI; drule put_effect [OF _ that, rotated]; auto simp: progress_def h_def)
  have upsert: "triple (?B s) (or_release P ?f h (fc_upsert (pf_catalog P) ?f latest h q (pq_egress_allow req)))
      (?C s) ?E" for q s
    by (rule or_release_triple, rule tripleI; drule upsert_effect [rotated];
        auto simp: progress_def pointed_def h_def; metis)
  have release: "triple (?C s a) (pl_release (pf_lock P) ?f h) (\<lambda>_. ?C s a) ?E" for a s
    by (rule triple_frames [OF release_frame]) (auto elim: progress_same simp: progress_def pointed_def)
  have step: "triple ?A m (\<lambda>_. ?A) ?E" if "frames good (\<lambda>w. (row w, stored w)) m" for m :: "('w, app_error, 'b) io"
    by (rule triple_frames [OF that]) (auto simp: progress_def)
  have locked: "triple ?A (bind_io (or_release P ?f h (as_put (pf_artifacts P) (pq_wasm req))) (\<lambda>st.
        bind_io (or_release P ?f h (fc_upsert (pf_catalog P) ?f latest h q (pq_egress_allow req))) (\<lambda>applied.
        bind_io (pl_release (pf_lock P) ?f h) (\<lambda>_. ret (res st applied))))) Q ?E"
    if len: "length (pq_wasm req) \<le> MAX_WASM_BYTES" and "\<And>st applied w. ?C st applied w \<Longrightarrow> Q (res st applied) w"
    for q Q and res :: "content_hash \<Rightarrow> bool \<Rightarrow> publish_response"
    by (rule triple_bind [OF put [OF len] triple_bind [OF upsert triple_bind [OF release triple_ret]]]) (rule that)
  show ?thesis
    unfolding publish_execute_def Let_def h_def [symmetric]
    by (intro triple_if triple_throw triple_bind [OF step [OF validate_frame]] triple_bind [OF step [OF clock_frame]]
        triple_bind [OF step [OF acquire_frame]] locked) (auto simp: progress_def)
qed

end

section \<open>What becomes of the lock\<close>

locale publish_lock_env =
  fixes P :: "'w publish_function" and lock :: "'w \<Rightarrow> function_id \<Rightarrow> 'l option"
    and holder :: "'l \<Rightarrow> content_hash \<Rightarrow> bool" and calm :: "'w \<Rightarrow> bool"
  assumes validate_lock: "frames calm lock (fr_validate (pf_runner P) b)"
    and clock_lock: "frames calm lock (unix_now_ms P)"
    and put_lock: "frames calm lock (as_put (pf_artifacts P) b)"
    and upsert_lock: "frames calm lock (fc_upsert (pf_catalog P) f l h q eg)"
    and acquire_lock: "calm w \<Longrightarrow> pl_acquire (pf_lock P) f h q w = (r, w') \<Longrightarrow> calm w'
        \<and> (if r = Inr () then \<exists>k. lock w' = (lock w)(f \<mapsto> k) \<and> holder k h else lock w' = lock w)"
    and release_lock: "calm w \<Longrightarrow> lock w f = Some k \<Longrightarrow> holder k h \<Longrightarrow> pl_release (pf_lock P) f h w = (r, w')
        \<Longrightarrow> calm w' \<and> r = Inr () \<and> lock w' = (lock w)(f := None)"
begin

definition given_back :: "'w \<Rightarrow> function_id \<Rightarrow> 'w \<Rightarrow> bool" where
  "given_back w0 f w \<longleftrightarrow> calm w \<and> lock w = (lock w0)(f := None)"

definition holding :: "'w \<Rightarrow> function_id \<Rightarrow> content_hash \<Rightarrow> 'w \<Rightarrow> bool" where
  "holding w0 f h w \<longleftrightarrow> calm w \<and> (\<exists>k. lock w = (lock w0)(f \<mapsto> k) \<and> holder k h)"

lemma release_triple:
  "triple (holding w0 f h) (pl_release (pf_lock P) f h) (\<lambda>_. given_back w0 f) (\<lambda>_ _. False)"
  by (rule tripleI) (auto simp: holding_def given_back_def dest!: release_lock [rotated 3])

lemma or_release_lock:
  assumes "frames calm lock m"
  shows "triple (holding w0 f h) (or_release P f h m) (\<lambda>_. holding w0 f h) (\<lambda>_. given_back w0 f)"
proof -
  have run: "triple (holding w0 f h) m (\<lambda>_. holding w0 f h) (\<lambda>_. holding w0 f h)"
    by (rule triple_frames [OF assms]) (auto simp: holding_def)
  have failed: "triple (holding w0 f h) (match_io (pl_release (pf_lock P) f h) (\<lambda>_. throw e) (\<lambda>_. throw e))
      (\<lambda>_. holding w0 f h) (\<lambda>_. given_back w0 f)" for e
    by (rule triple_match [OF release_triple]; blast intro: triple_throw)
  show ?thesis
    unfolding or_release_def by (rule triple_match [OF run triple_ret failed])
qed

lemma publish_lock_triple:
  "triple (\<lambda>w. calm w \<and> lock w = lock w0) (publish_execute X P req)
     (\<lambda>_. given_back w0 (pq_function req))
     (\<lambda>_ w. calm w \<and> lock w = lock w0 \<or> given_back w0 (pq_function req) w)"
proof -
  let ?f = "pq_function req" and ?A = "\<lambda>w. calm w \<and> lock w = lock w0"
  let ?E = "\<lambda>_ w. calm w \<and> lock w = lock w0 \<or> given_back w0 (pq_function req) w"
  have step: "triple ?A m (\<lambda>_. ?A) ?E" if "frames calm lock m" for m :: "('w, app_error, 'b) io"
    by (rule triple_frames [OF that]) auto
  have acquire: "triple ?A (pl_acquire (pf_lock P) ?f h q) (\<lambda>_. holding w0 ?f h) ?E" for h q
    by (rule tripleI; drule acquire_lock [rotated]; auto simp: holding_def)
  have under: "triple (holding w0 ?f h) (or_release P ?f h m) (\<lambda>_. holding w0 ?f h) ?E" if "frames calm lock m"
    for h and m :: "('w, app_error, 'b) io"
    by (rule tripleI) (use triple_ok [OF or_release_lock [OF that]] triple_err [OF or_release_lock [OF that]] in blast)+
  have last: "triple (holding w0 ?f h) (pl_release (pf_lock P) ?f h) (\<lambda>_. given_back w0 ?f) ?E" for h
    by (rule tripleI) (use triple_ok [OF release_triple] triple_err [OF release_triple] in blast)+
  show ?thesis
    unfolding publish_execute_def Let_def
    by (intro triple_if triple_throw triple_ret triple_bind [OF step [OF validate_lock]]
        triple_bind [OF step [OF clock_lock]] triple_bind [OF acquire] triple_bind [OF under [OF put_lock]]
        triple_bind [OF under [OF upsert_lock]] triple_bind [OF last]) auto
qed

end

end
