(* ===== verification/Publish_Properties.thy ===== *)
theory Publish_Properties
  imports Publish Ref_Services Runner_Properties
begin

text \<open>
  Publishing on the whole stack: the contracts of \<open>Publish\<close> on the DynamoDB catalog and lock, the
  S3 store and the runner of the reference world, and the properties of what is published.
\<close>

section \<open>The stack in the reference world\<close>

definition ref_publish :: "ref_world publish_function" where
  "ref_publish = publish_new (s3_artifact_store ref_ext ref_artifacts) (dynamo_catalog ref_ext ref_catalog)
     (dynamo_publish_lock ref_ext ref_lock) (wasmtime_function_runner ref_ext ref_json_text ref_runner)
     (\<lambda>w. (int (rw_clock_ms w), w))"

lemma ref_publish_simps [simp]:
  "as_put (pf_artifacts ref_publish) = s3_put ref_ext ref_artifacts"
  "fc_upsert (pf_catalog ref_publish) = catalog_upsert ref_ext ref_catalog"
  "pl_acquire (pf_lock ref_publish) = lock_acquire ref_ext ref_lock"
  "pl_release (pf_lock ref_publish) = lock_release ref_ext ref_lock"
  "fr_validate (pf_runner ref_publish) = runner_validate ref_runner"
  "pf_clock ref_publish w = (int (rw_clock_ms w), w)"
  by (simp_all add: ref_publish_def publish_new_def s3_artifact_store_def dynamo_catalog_def dynamo_publish_lock_def
      wasmtime_function_runner_def)

abbreviation ref_row :: "ref_world \<Rightarrow> pkey \<Rightarrow> item option" where
  "ref_row w \<equiv> ref_view w ''catalog''"

definition ref_stored :: "ref_world \<Rightarrow> content_hash \<Rightarrow> bool" where
  "ref_stored w h \<longleftrightarrow> (\<exists>b. ref_objects w ''artifacts'' (wasm_key ref_ext ref_artifacts h) = Some b
     \<and> content_hash_from_bytes ref_ext b = h \<and> length b \<le> MAX_WASM_BYTES)"

lemma ref_artifacts_simps [simp]:
  "s3_client ref_artifacts = ref_s3" "s3_bucket ref_artifacts = ''artifacts''" "s3_prefix ref_artifacts = ''wasm''"
  by (simp_all add: ref_artifacts_def s3_artifacts_new_def trim_matches_def trim_end_matches_def)

lemma ref_stored_same: "rw_objects w' = rw_objects w \<Longrightarrow> ref_stored w' = ref_stored w"
  by (simp add: ref_stored_def ref_objects_def fun_eq_iff)

lemma ref_put:
  assumes "s3_put ref_ext ref_artifacts b w = (r, w')"
  shows "r = Inr (content_hash_from_bytes ref_ext b)"
    "w' = w\<lparr> rw_objects := (wasm_key ref_ext ref_artifacts (content_hash_from_bytes ref_ext b), b) # rw_objects w \<rparr>"
  using assms by (auto simp: s3_put_def put_object_def ref_s3_def bind_io_def map_err_io_def Let_def)

lemma ref_put_view: "s3_put ref_ext ref_artifacts b w = (r, w') \<Longrightarrow> ref_view w' = ref_view w \<and> rd_faults w' = rd_faults w"
  by (auto dest!: ref_put(2) simp: ref_view_def)

lemma ref_validate_keeps: "runner_validate ref_runner b w = (r, w') \<Longrightarrow> w' = w"
  by (auto simp: runner_validate_def spawn_blocking_def split: option.splits)

lemma ref_now_keeps: "unix_now_ms ref_publish w = (r, w') \<Longrightarrow> w' = w"
  by (auto simp: unix_now_ms_def)

lemma ref_upsert_objects: "catalog_upsert ref_ext ref_catalog f l h q eg w = (r, w') \<Longrightarrow> rw_objects w' = rw_objects w"
  by (auto simp: catalog_upsert_def match_io_def dest!: keepsD [OF ref_client_fields(3)]
      split: prod.splits sum.splits sdk_error.splits)

lemma ref_lock_objects:
  "lock_acquire ref_ext ref_lock f h q w = (r, w') \<Longrightarrow> rw_objects w' = rw_objects w"
  "lock_release ref_ext ref_lock f h w = (r, w') \<Longrightarrow> rw_objects w' = rw_objects w"
  by (auto simp: lock_acquire_def lock_release_def match_io_def Let_def
      dest!: keepsD [OF ref_client_fields(3)] keepsD [OF ref_client_fields(4)]
      split: prod.splits sum.splits sdk_error.splits)

lemma ref_lock_rows:
  "lock_acquire ref_ext ref_lock f h q w = (r, w') \<Longrightarrow> ref_row w' = ref_row w"
  "lock_release ref_ext ref_lock f h w = (r, w') \<Longrightarrow> ref_row w' = ref_row w"
  using ref_lock.lock_other_table [of "''catalog''"] by simp_all

interpretation ref_publish: publish_env ref_ext ref_publish ref_row ref_stored "\<lambda>_. True"
proof unfold_locales
  fix b f h q l eg and r :: "app_error + content_hash" and ap and w w' :: ref_world
  show "frames (\<lambda>_. True) (\<lambda>w. (ref_row w, ref_stored w)) (fr_validate (pf_runner ref_publish) b)"
    by (rule framesI) (auto dest: ref_validate_keeps)
  show "frames (\<lambda>_. True) (\<lambda>w. (ref_row w, ref_stored w)) (unix_now_ms ref_publish)"
    by (rule framesI) (auto dest: ref_now_keeps)
  show "frames (\<lambda>_. True) (\<lambda>w. (ref_row w, ref_stored w)) (pl_acquire (pf_lock ref_publish) f h q)"
    "frames (\<lambda>_. True) (\<lambda>w. (ref_row w, ref_stored w)) (pl_release (pf_lock ref_publish) f h)"
    by (rule framesI; simp; blast dest: ref_lock_rows ref_stored_same [OF ref_lock_objects(1)]
        ref_stored_same [OF ref_lock_objects(2)])+
  show "True \<and> ref_row w' = ref_row w \<and> (\<forall>h. ref_stored w h \<longrightarrow> ref_stored w' h)
        \<and> (\<forall>h. r = Inr h \<longrightarrow> h = content_hash_from_bytes ref_ext b \<and> ref_stored w' h)"
    if len: "length b \<le> MAX_WASM_BYTES" and "as_put (pf_artifacts ref_publish) b w = (r, w')"
  proof -
    have p: "s3_put ref_ext ref_artifacts b w = (r, w')" using that(2) by simp
    have "ref_stored w' h" if "ref_stored w h" for h
      using that len ref_externals.content_hash_to_hex_inj
      by (auto simp: ref_put(2) [OF p] ref_stored_def ref_objects_def wasm_key_def)
    with ref_put [OF p] ref_put_view [OF p] len show ?thesis by (auto simp: ref_stored_def ref_objects_def)
  qed
  show "True \<and> ref_stored w' = ref_stored w
        \<and> (ref_row w' = ref_row w \<or> ref_row w' = (ref_row w)(catalog_pkey f l \<mapsto> catalog_item ref_ext f l h q eg))
        \<and> (ap = Inr True \<longrightarrow> ref_row w' = (ref_row w)(catalog_pkey f l \<mapsto> catalog_item ref_ext f l h q eg))
        \<and> (ap = Inr False \<longrightarrow> ref_row w' = ref_row w)"
    if "fc_upsert (pf_catalog ref_publish) f l h q eg w = (ap, w')"
  proof -
    have u: "catalog_upsert ref_ext ref_catalog f l h q eg w = (ap, w')" using that by simp
    have "put_at (''catalog'', k) (Some i) db ''catalog'' = (db ''catalog'')(k \<mapsto> i)" for k i and db :: tables
      by (auto simp: put_at_def)
    with ref_catalog.upsert_law [OF u] ref_stored_same [OF ref_upsert_objects [OF u]] show ?thesis by auto
  qed
qed

definition ref_lock_row :: "ref_world \<Rightarrow> function_id \<Rightarrow> item option" where
  "ref_lock_row w f = ref_view w ''locks'' (lock_pkey f)"

definition ref_holder :: "item \<Rightarrow> content_hash \<Rightarrow> bool" where
  "ref_holder it h \<longleftrightarrow> it ATTR_HASH = Some (AvS (content_hash_to_hex ref_ext h))"

lemma ref_upsert_lock:
  assumes "catalog_upsert ref_ext ref_catalog f l h q eg w = (r, w')" and "rd_faults w = []"
  shows "ref_view w' ''locks'' = ref_view w ''locks'' \<and> rd_faults w' = []"
proof -
  obtain r1 where p: "ddb_put (ref_client ref_schema) ''catalog'' (catalog_item ref_ext f l h q eg) (upsert_cond q) w = (r1, w')"
    using assms(1) by (auto simp: catalog_upsert_def match_io_def split: prod.splits sum.splits sdk_error.splits)
  moreover obtain r2 w2 where
    "ddb_put (ref_client ref_schema) ''catalog'' (catalog_item ref_ext f l h q eg) (upsert_cond q) w = (r2, w2)"
    "rd_faults w2 = []"
    using ref_ddb_fresh.put_fresh [OF assms(2)] by blast
  ultimately show ?thesis using ref_catalog.upsert_other_table [OF assms(1), of "''locks''"] by simp
qed

lemma lock_pkey_inj: "lock_pkey f = lock_pkey g \<longleftrightarrow> f = g"
  by (cases f; cases g) (simp add: lock_pkey_def)

lemma ref_lock_row_put:
  "ref_view w' = put_at (''locks'', lock_pkey f) v (ref_view w) \<Longrightarrow> ref_lock_row w' = (ref_lock_row w)(f := v)"
  by (auto simp: ref_lock_row_def put_at_def lock_pkey_inj fun_eq_iff)

interpretation ref_publish_lock: publish_lock_env ref_publish ref_lock_row ref_holder "\<lambda>w. rd_faults w = []"
proof unfold_locales
  fix b f h q l eg k and r :: "app_error + unit" and w w' :: ref_world
  show "frames (\<lambda>w. rd_faults w = []) ref_lock_row (fr_validate (pf_runner ref_publish) b)"
    by (rule framesI) (auto dest: ref_validate_keeps)
  show "frames (\<lambda>w. rd_faults w = []) ref_lock_row (unix_now_ms ref_publish)"
    by (rule framesI) (auto dest: ref_now_keeps)
  show "frames (\<lambda>w. rd_faults w = []) ref_lock_row (as_put (pf_artifacts ref_publish) b)"
    by (rule framesI) (auto dest!: ref_put_view simp: ref_lock_row_def)
  show "frames (\<lambda>w. rd_faults w = []) ref_lock_row (fc_upsert (pf_catalog ref_publish) f l h q eg)"
    by (rule framesI) (auto dest!: ref_upsert_lock simp: ref_lock_row_def)
  show "rd_faults w' = [] \<and> (if r = Inr () then \<exists>k. ref_lock_row w' = (ref_lock_row w)(f \<mapsto> k) \<and> ref_holder k h
        else ref_lock_row w' = ref_lock_row w)"
    if calm: "rd_faults w = []" and "pl_acquire (pf_lock ref_publish) f h q w = (r, w')"
  proof -
    have "lock_acquire ref_ext ref_lock f h q w = (r, w')" using that(2) by simp
    note a = ref_lock.acquire_calm [OF calm this]
    have "ref_holder (lock_item ref_ext f h q e) h" for e by (simp add: ref_holder_def)
    with a show ?thesis
      by (auto simp: ref_lock_row_def dest!: ref_lock_row_put split: if_splits)
  qed
  show "rd_faults w' = [] \<and> r = Inr () \<and> ref_lock_row w' = (ref_lock_row w)(f := None)"
    if "rd_faults w = []" "ref_lock_row w f = Some k" "ref_holder k h"
      "pl_release (pf_lock ref_publish) f h w = (r, w')"
    using ref_lock.release_calm [of w f k h r w'] that ref_lock_row_put
    by (simp add: ref_lock_row_def ref_holder_def)
qed

section \<open>A publish in the reference world\<close>

definition demo_publish :: publish_request where
  "demo_publish = \<lparr> pq_function = FunctionId ''new'', pq_wasm = ''echo'', pq_egress_allow = [EgressOrigin ''https://a.io''] \<rparr>"

lemma ref_validate: "b \<noteq> [] \<Longrightarrow> runner_validate ref_runner b w = (Inr (), w)"
  by (simp add: runner_validate_def spawn_blocking_def validate_sync_def ref_runner_def ref_engine_def demo_abi_bytes)

text \<open>The demo world at another time of day; at 0 every row of it is of a newer publish.\<close>

definition demo_at :: "nat \<Rightarrow> ref_world" where
  "demo_at c = demo_world\<lparr> rw_clock_ms := c \<rparr>"

lemma demo_at_simps [simp]:
  "ref_view (demo_at c) = ref_view demo_world" "rd_faults (demo_at c) = []" "rw_clock_ms (demo_at c) = c"
  "demo_at 1700000000000 = demo_world"
  by (simp_all add: demo_at_def ref_view_def demo_world_def empty_world_def)

lemma demo_publish_at:
  fixes f and c
  defines "h \<equiv> content_hash_from_bytes ref_ext ''echo''"
  shows "\<exists>w'. rd_faults w' = [] \<and> publish_execute ref_ext ref_publish (demo_publish\<lparr> pq_function := f \<rparr>) (demo_at c) =
     (Inr \<lparr> pr_function = f, pr_version = latest, pr_content_hash = h, pr_wasm_bytes = 4,
            pr_egress_allow = [EgressOrigin ''https://a.io''],
            pr_status = (case generation ref_catalog (ref_view demo_world) f latest of
                           None \<Rightarrow> Ready
                         | Some g \<Rightarrow> if g \<le> uint (word_of_int (int c) :: u64) then Ready else Superseded) \<rparr>, w')"
proof -
  let ?eg = "[EgressOrigin ''https://a.io'']" and ?q = "word_of_int (int c) :: u64"
  have now: "unix_now_ms ref_publish (demo_at c) = (Inr ?q, demo_at c)" by (simp add: unix_now_ms_def)
  obtain r1 w1 where a0: "lock_acquire ref_ext ref_lock f h ?q (demo_at c) = (r1, w1)" by fastforce
  obtain e where a: "r1 = Inr ()" "rd_faults w1 = []"
    "ref_view w1 = put_at (''locks'', lock_pkey f) (Some (lock_item ref_ext f h ?q e)) (ref_view demo_world)"
    using ref_lock.acquire_calm [OF _ a0] demo_view(5) [of "[]"]
    by (auto simp: demo_world_faulty attr_at_def)
  obtain r2 w2 where p0: "s3_put ref_ext ref_artifacts ''echo'' w1 = (r2, w2)" by fastforce
  have p: "r2 = Inr h" "rd_faults w2 = []" "ref_view w2 = ref_view w1"
    using ref_put(1) [OF p0] ref_put_view [OF p0] a(2) by (auto simp: h_def)
  have row: "ref_view w2 ''catalog'' = ref_view demo_world ''catalog''" by (simp add: p(3) a(3))
  then have gen: "generation ref_catalog (ref_view w2) f latest = generation ref_catalog (ref_view demo_world) f latest"
    by (simp add: generation_def)
  have numeric: "num_of (it ATTR_QUEUED_AT) \<noteq> None" if "ref_view w2 (cd_table ref_catalog) (catalog_pkey f latest) = Some it" for it
    using that row demo_view(4) [of "[]"] by (auto simp: demo_world_faulty demo_row_def split: if_splits)
  obtain w3 where u: "rd_faults w3 = []"
    "catalog_upsert ref_ext ref_catalog f latest h ?q ?eg w2 =
       (Inr (case generation ref_catalog (ref_view demo_world) f latest of None \<Rightarrow> True | Some g \<Rightarrow> g \<le> uint ?q), w3)"
    using ref_catalog.upsert_decides [OF p(2), of f latest ref_ext h ?q ?eg] numeric gen by auto
  have l: "ref_view w3 ''locks'' (lock_pkey f) = Some (lock_item ref_ext f h ?q e)"
    using ref_catalog.upsert_other_table [OF u(2), of "''locks''"] by (simp add: p(3) a(3) put_at_apply)
  obtain r4 w4 where r0: "lock_release ref_ext ref_lock f h w3 = (r4, w4)" by fastforce
  have r: "rd_faults w4 = []" "r4 = Inr ()"
    using ref_lock.release_calm [OF u(1), of f _ h r4 w4] l r0 by simp_all
  show ?thesis
    using a0 p0 u(2) r0 r(1)
    by (auto simp: publish_execute_def demo_publish_def MAX_WASM_BYTES_def bind_io_def ref_validate now a(1) p(1) r(2)
        or_release_def match_io_def Let_def h_def split: option.split)
qed

lemma demo_generations:
  "generation ref_catalog (ref_view demo_world) (FunctionId ''echo'') latest = Some 1"
  "generation ref_catalog (ref_view demo_world) (FunctionId ''new'') latest = None"
  by (simp_all add: generation_def demo_world_faulty demo_view attr_at_def demo_row_def catalog_pkey_def)

lemma demo_publish_ready:
  "\<exists>w'. rd_faults w' = [] \<and> publish_execute ref_ext ref_publish demo_publish demo_world =
     (Inr \<lparr> pr_function = FunctionId ''new'', pr_version = latest,
            pr_content_hash = content_hash_from_bytes ref_ext ''echo'', pr_wasm_bytes = 4,
            pr_egress_allow = [EgressOrigin ''https://a.io''], pr_status = Ready \<rparr>, w')"
proof -
  have "demo_publish\<lparr> pq_function := FunctionId ''new'' \<rparr> = demo_publish" by (simp add: demo_publish_def)
  then show ?thesis
    using demo_publish_at [of "FunctionId ''new''" 1700000000000] by (simp add: demo_generations)
qed

text \<open>A publish over a row of a newer publish.\<close>

definition late_publish :: publish_request where
  "late_publish = demo_publish\<lparr> pq_function := FunctionId ''echo'' \<rparr>"

lemma late_publish_superseded:
  "\<exists>w'. publish_execute ref_ext ref_publish late_publish (demo_at 0) =
     (Inr \<lparr> pr_function = FunctionId ''echo'', pr_version = latest,
            pr_content_hash = content_hash_from_bytes ref_ext ''echo'', pr_wasm_bytes = 4,
            pr_egress_allow = [EgressOrigin ''https://a.io''], pr_status = Superseded \<rparr>, w')"
  using demo_publish_at [of "FunctionId ''echo''" 0] by (auto simp: demo_generations late_publish_def)

section \<open>What a publish leaves behind\<close>

text \<open>A catalog row never points at an artifact that is not there.\<close>

definition catalog_backed :: "ext \<Rightarrow> ('w \<Rightarrow> pkey \<Rightarrow> item option) \<Rightarrow> ('w \<Rightarrow> content_hash \<Rightarrow> bool) \<Rightarrow> 'w \<Rightarrow> bool" where
  "catalog_backed X row stored w \<longleftrightarrow>
     (\<forall>f l it h. row w (catalog_pkey f l) = Some it \<longrightarrow> it ATTR_HASH = Some (AvS (content_hash_to_hex X h)) \<longrightarrow> stored w h)"

text \<open>
  C30: Every row of the catalog points at a stored artifact whose bytes hash to the row's content
  hash; a publish keeps this, whatever fails in it, also when the catalog write is lost or
  applied without a reply.
\<close>

theorem publish_keeps_catalog_backed:
  assumes "externals X" and "publish_env X P row stored good" and "good w"
    and "catalog_backed X row stored w" and "publish_execute X P req w = (r, w')"
  shows "catalog_backed X row stored w' \<and> (\<forall>h. stored w h \<longrightarrow> stored w' h)"
proof -
  have "publish_env.progress X row stored good w req w'"
    using triple_ok [OF publish_env.publish_triple [OF assms(2)], of w w] assms(3,5)
      triple_err [OF publish_env.publish_triple [OF assms(2)], of w w]
    by (cases r) fastforce+
  then show ?thesis
    using assms(4) externals.content_hash_to_hex_inj [OF assms(1)]
    by (auto simp: publish_env.progress_def [OF assms(2)] publish_env.pointed_def [OF assms(2)] catalog_backed_def
        split: if_splits)
qed

lemma demo_stored:
  assumes "b = ''echo'' \<or> b = ''fetch''"
  shows "ref_stored demo_world (content_hash_from_bytes ref_ext b)"
proof -
  have "content_hash_from_bytes ref_ext ''echo'' \<noteq> content_hash_from_bytes ref_ext ''fetch''"
    by (simp add: content_hash_from_bytes_def ref_ext_def ref_sha_def)
  then have "map_of (rw_objects demo_world) (wasm_key ref_ext ref_artifacts (content_hash_from_bytes ref_ext b)) = Some b"
    using assms by (auto simp: demo_world_def demo_object_def wasm_key_def ref_externals.content_hash_to_hex_inj)
  moreover have "length b \<le> MAX_WASM_BYTES" using assms by (auto simp: MAX_WASM_BYTES_def)
  ultimately show ?thesis by (simp add: ref_stored_def ref_objects_def)
qed

lemma demo_backed: "catalog_backed ref_ext ref_row ref_stored demo_world"
proof -
  have "ref_stored demo_world h"
    if row: "ref_row demo_world k = Some it" and h: "it ATTR_HASH = Some (AvS (content_hash_to_hex ref_ext h))" for k it h
  proof -
    obtain v where v: "v = echo_version \<or> v = fetch_version" "it = demo_row v"
      using row by (simp add: demo_world_faulty demo_view split: if_splits) blast+
    from h have "fv_content_hash v = h" by (simp add: v(2) demo_row_def ref_externals.content_hash_to_hex_inj)
    moreover have "fv_content_hash v = content_hash_from_bytes ref_ext ''echo''
        \<or> fv_content_hash v = content_hash_from_bytes ref_ext ''fetch''"
      using v(1) by (auto simp: echo_version_def fetch_version_def)
    then have "ref_stored demo_world (fv_content_hash v)" using demo_stored by metis
    ultimately show ?thesis by simp
  qed
  then show ?thesis unfolding catalog_backed_def by blast
qed

theorem publish_keeps_catalog_backed_witness:
  "\<exists>res w'. publish_execute ref_ext ref_publish demo_publish demo_world = (Inr res, w') \<and> pr_status res = Ready
     \<and> catalog_backed ref_ext ref_row ref_stored w'"
proof -
  obtain w' where run: "publish_execute ref_ext ref_publish demo_publish demo_world =
     (Inr \<lparr> pr_function = FunctionId ''new'', pr_version = latest,
            pr_content_hash = content_hash_from_bytes ref_ext ''echo'', pr_wasm_bytes = 4,
            pr_egress_allow = [EgressOrigin ''https://a.io''], pr_status = Ready \<rparr>, w')"
    using demo_publish_ready by blast
  from publish_keeps_catalog_backed [OF ref_externals.externals_axioms ref_publish.publish_env_axioms TrueI demo_backed run]
    run show ?thesis by auto
qed

text \<open>
  C31: A publish that succeeds has validated a non-empty module of at most 2 MiB, whose bytes are
  stored under the hash it reports, and has read the clock at \<open>q\<close>. With status \<open>ready\<close> the row of
  the function at \<open>latest\<close> was absent, had no generation, or had one of at most \<open>q\<close>, and is now
  exactly that hash and allowlist at generation \<open>q\<close>, no other row having changed. With
  \<open>superseded\<close> no row has changed, and the row that stood there was of a generation newer than
  \<open>q\<close> (or had one that is no number).
\<close>

theorem publish_outcome:
  assumes "publish_env X P (\<lambda>w. view w (cd_table D)) stored good" and "catalog_service D view schema" and "good w"
    and "pf_catalog P = dynamo_catalog X D"
    and "pf_runner P = wasmtime_function_runner X J R" and "publish_execute X P req w = (Inr res, w')"
  defines "h \<equiv> content_hash_from_bytes X (pq_wasm req)" and "k \<equiv> catalog_pkey (pq_function req) latest"
  shows "pq_wasm req \<noteq> [] \<and> length (pq_wasm req) \<le> MAX_WASM_BYTES \<and> validate_sync (wr_engine R) (pq_wasm req) = Inr ()
    \<and> res = \<lparr> pr_function = pq_function req, pr_version = latest, pr_content_hash = h,
              pr_wasm_bytes = length (pq_wasm req), pr_egress_allow = pq_egress_allow req, pr_status = pr_status res \<rparr>
    \<and> stored w' h
    \<and> (\<exists>w1 w2 q. runner_validate R (pq_wasm req) w = (Inr (), w1) \<and> unix_now_ms P w1 = (Inr q, w2)
        \<and> (case pr_status res of
             Ready \<Rightarrow>
               view w' (cd_table D) = (view w (cd_table D))(k \<mapsto>
                 catalog_item X (pq_function req) latest h q (pq_egress_allow req))
               \<and> (case generation D (view w) (pq_function req) latest of
                    Some g \<Rightarrow> g \<le> uint q
                  | None \<Rightarrow> attr_at (view w (cd_table D) k) ATTR_QUEUED_AT = None)
           | Superseded \<Rightarrow>
               view w' (cd_table D) = view w (cd_table D)
               \<and> (case generation D (view w) (pq_function req) latest of
                    Some g \<Rightarrow> uint q < g
                  | None \<Rightarrow> attr_at (view w (cd_table D) k) ATTR_QUEUED_AT \<noteq> None)))"
proof -
  let ?f = "pq_function req" and ?rows = "\<lambda>w. view w (cd_table D)"
  note same = framesD [OF publish_env.validate_frame [OF assms(1)]] framesD [OF publish_env.clock_frame [OF assms(1)]]
    framesD [OF publish_env.acquire_frame [OF assms(1)]] framesD [OF publish_env.release_frame [OF assms(1)]]
  from assms(6) show ?thesis
  proof (rule publish_execute_InrE)
    fix w1 q w2 w3 st w4 applied w5
    assume wasm: "pq_wasm req \<noteq> []" "length (pq_wasm req) \<le> MAX_WASM_BYTES"
      and v: "fr_validate (pf_runner P) (pq_wasm req) w = (Inr (), w1)" and c: "unix_now_ms P w1 = (Inr q, w2)"
      and a: "pl_acquire (pf_lock P) ?f (content_hash_from_bytes X (pq_wasm req)) q w2 = (Inr (), w3)"
      and p: "as_put (pf_artifacts P) (pq_wasm req) w3 = (Inr st, w4)"
      and u: "fc_upsert (pf_catalog P) ?f latest (content_hash_from_bytes X (pq_wasm req)) q (pq_egress_allow req) w4
        = (Inr applied, w5)"
      and l: "pl_release (pf_lock P) ?f (content_hash_from_bytes X (pq_wasm req)) w5 = (Inr (), w')"
      and res: "res = \<lparr> pr_function = ?f, pr_version = latest, pr_content_hash = st,
        pr_wasm_bytes = length (pq_wasm req), pr_egress_allow = pq_egress_allow req,
        pr_status = (if applied then Ready else Superseded) \<rparr>"
    have w3: "good w3" "?rows w3 = ?rows w" using same(1) [OF assms(3) v] same(2) [OF _ c] same(3) [OF _ a] by auto
    have w4: "good w4" "?rows w4 = ?rows w" "st = h" "stored w4 h"
      using publish_env.put_effect [OF assms(1) w3(1) wasm(2) p] w3(2) by (auto simp: h_def)
    have w5: "good w5" "stored w5 h" using publish_env.upsert_effect [OF assms(1) w4(1) u] w4(4) by auto
    then have w': "stored w' h" "?rows w' = ?rows w5" using same(4) [OF w5(1) l] by auto
    have "catalog_upsert X D ?f latest h q (pq_egress_allow req) w4 = (Inr applied, w5)"
      using u assms(4) by (simp add: dynamo_catalog_def h_def)
    note law = catalog_service.upsert_law [OF assms(2) this]
    have gen: "generation D (view w4) ?f latest = generation D (view w) ?f latest" using w4(2) by (simp add: generation_def)
    have run: "runner_validate R (pq_wasm req) w = (Inr (), w1)" using v assms(5) by (simp add: wasmtime_function_runner_def)
    then have "validate_sync (wr_engine R) (pq_wasm req) = Inr ()"
      by (auto simp: runner_validate_def spawn_blocking_def split: option.splits)
    moreover have "if applied
        then ?rows w' = (?rows w)(k \<mapsto> catalog_item X ?f latest h q (pq_egress_allow req))
          \<and> (case generation D (view w) ?f latest of Some g \<Rightarrow> g \<le> uint q
              | None \<Rightarrow> attr_at (?rows w k) ATTR_QUEUED_AT = None)
        else ?rows w' = ?rows w
          \<and> (case generation D (view w) ?f latest of Some g \<Rightarrow> uint q < g
              | None \<Rightarrow> attr_at (?rows w k) ATTR_QUEUED_AT \<noteq> None)"
    proof -
      have "generation D (view w) ?f latest = num_of (attr_at (?rows w k) ATTR_QUEUED_AT)"
        by (simp add: generation_def k_def)
      with law w'(2) w4(2) show ?thesis
        unfolding gen by (auto simp: k_def put_at_def fun_eq_iff split: option.splits)
    qed
    ultimately show ?thesis using wasm w' w4(3) run c by (auto simp: res split: if_splits)
  qed
qed

text \<open>The same module published in the morning, over a row of a later publish, and at noon.\<close>

theorem publish_outcome_witness:
  "(\<exists>res w'. publish_execute ref_ext ref_publish late_publish (demo_at 0) = (Inr res, w') \<and> pr_status res = Superseded
     \<and> ref_row w' = ref_row (demo_at 0)
     \<and> (case generation ref_catalog (ref_view (demo_at 0)) (FunctionId ''echo'') latest of Some g \<Rightarrow> 0 < g | None \<Rightarrow> False))
   \<and> (\<exists>res w'. publish_execute ref_ext ref_publish demo_publish demo_world = (Inr res, w') \<and> pr_status res = Ready
     \<and> ref_row w' = (ref_row demo_world)(catalog_pkey (FunctionId ''new'') latest \<mapsto>
         catalog_item ref_ext (FunctionId ''new'') latest (content_hash_from_bytes ref_ext ''echo'') 1700000000000
           [EgressOrigin ''https://a.io'']))"
proof -
  have runner: "pf_runner ref_publish = wasmtime_function_runner ref_ext ref_json_text ref_runner"
    and catalog: "pf_catalog ref_publish = dynamo_catalog ref_ext ref_catalog"
    by (simp_all add: ref_publish_def publish_new_def)
  have env: "publish_env ref_ext ref_publish (\<lambda>w. ref_view w (cd_table ref_catalog)) ref_stored (\<lambda>_. True)"
    using ref_publish.publish_env_axioms by simp
  note outcome = publish_outcome [OF env ref_catalog.catalog_service_axioms TrueI catalog runner]
  obtain w1 where late: "publish_execute ref_ext ref_publish late_publish (demo_at 0) =
     (Inr \<lparr> pr_function = FunctionId ''echo'', pr_version = latest,
            pr_content_hash = content_hash_from_bytes ref_ext ''echo'', pr_wasm_bytes = 4,
            pr_egress_allow = [EgressOrigin ''https://a.io''], pr_status = Superseded \<rparr>, w1)"
    using late_publish_superseded by blast
  obtain w2 where ready: "publish_execute ref_ext ref_publish demo_publish demo_world =
     (Inr \<lparr> pr_function = FunctionId ''new'', pr_version = latest,
            pr_content_hash = content_hash_from_bytes ref_ext ''echo'', pr_wasm_bytes = 4,
            pr_egress_allow = [EgressOrigin ''https://a.io''], pr_status = Ready \<rparr>, w2)"
    using demo_publish_ready by blast
  have now: "rw_clock_ms demo_world = 1700000000000" by (simp add: demo_world_def empty_world_def)
  from outcome [OF late] late outcome [OF ready] ready show ?thesis
    by (auto simp: demo_publish_def late_publish_def demo_generations now unix_now_ms_def
        dest!: ref_validate_keeps)
qed

section \<open>The lock\<close>

text \<open>
  C32: A publish never leaves its lock behind: on a calm service, after a success, a failed
  store or a failed catalog write the lock of the function is free, and after any other failure
  every lock is as it was.
\<close>

theorem publish_leaves_no_lock:
  assumes "publish_lock_env P lock holder calm" and "calm w" and "publish_execute X P req w = (r, w')"
  shows "(lock w' = lock w \<or> lock w' = (lock w)(pq_function req := None))
    \<and> (\<forall>res. r = Inr res \<longrightarrow> lock w' (pq_function req) = None)"
  using triple_ok [OF publish_lock_env.publish_lock_triple [OF assms(1)], of w w] assms(2,3)
    triple_err [OF publish_lock_env.publish_lock_triple [OF assms(1)], of w w]
  by (cases r) (fastforce simp: publish_lock_env.given_back_def [OF assms(1)])+

theorem publish_leaves_no_lock_witness:
  "\<exists>res w'. publish_execute ref_ext ref_publish demo_publish demo_world = (Inr res, w')
     \<and> ref_lock_row w' (FunctionId ''new'') = None"
proof -
  have calm: "rd_faults demo_world = []" by (simp add: demo_world_def empty_world_def)
  obtain res w' where run: "publish_execute ref_ext ref_publish demo_publish demo_world = (Inr res, w')"
    using demo_publish_ready by blast
  from publish_leaves_no_lock [OF ref_publish_lock.publish_lock_env_axioms calm run] run
  show ?thesis by (auto simp: demo_publish_def)
qed

text \<open>
  C33: While a function's lock is held and has not expired, a publish of that function fails and
  changes nothing: no row of any table, its own lock's included, and no stored artifact, whatever
  it publishes and whoever holds the lock. A release by a publish of another hash leaves the lock where
  it is.
\<close>

theorem live_lock_excludes:
  assumes "lock_service K view schema X" and "publish_env X P row stored good" and "good w"
    and "pf_lock P = dynamo_publish_lock X K"
    and "\<And>b. frames good view (fr_validate (pf_runner P) b)" and "frames good view (unix_now_ms P)"
    and "held_by X K (view w) (pq_function req) h0 e"
    and "\<forall>w1 q w2. fr_validate (pf_runner P) (pq_wasm req) w = (Inr (), w1) \<longrightarrow> unix_now_ms P w1 = (Inr q, w2)
           \<longrightarrow> fst (lk_now K w2) < e"
    and "publish_execute X P req w = (r, w')"
  shows "(\<exists>err. r = Inl err) \<and> view w' = view w \<and> row w' = row w \<and> stored w' = stored w
    \<and> (h \<noteq> h0 \<longrightarrow> lock_release X K (pq_function req) h w = (r2, w2) \<longrightarrow> view w2 = view w)"
proof -
  let ?E = "\<lambda>w'. view w' = view w \<and> row w' = row w \<and> stored w' = stored w"
  let ?lock = "\<lambda>v. good v \<and> ?E v \<and> fst (lk_now K v) < e"
  have validate: "triple (\<lambda>v. v = w) (fr_validate (pf_runner P) (pq_wasm req))
      (\<lambda>_ v. good v \<and> ?E v \<and> fr_validate (pf_runner P) (pq_wasm req) w = (Inr (), v)) (\<lambda>_. ?E)"
    using framesD [OF assms(5) assms(3)] framesD [OF publish_env.validate_frame [OF assms(2)] assms(3)]
    by (intro tripleI) auto
  have clock: "triple (\<lambda>v. good v \<and> ?E v \<and> fr_validate (pf_runner P) (pq_wasm req) w = (Inr (), v)) (unix_now_ms P)
      (\<lambda>_. ?lock) (\<lambda>_. ?E)"
  proof (rule tripleI)
    fix v a v' assume v: "good v \<and> ?E v \<and> fr_validate (pf_runner P) (pq_wasm req) w = (Inr (), v)"
      and run: "unix_now_ms P v = (Inr a, v')"
    then have "fst (lk_now K v') < e" using assms(8) by blast
    with v framesD [OF assms(6) _ run] framesD [OF publish_env.clock_frame [OF assms(2)] _ run] show "?lock v'" by simp
  next
    fix v er v' assume "good v \<and> ?E v \<and> fr_validate (pf_runner P) (pq_wasm req) w = (Inr (), v)"
      and run: "unix_now_ms P v = (Inl er, v')"
    with framesD [OF assms(6) _ run] framesD [OF publish_env.clock_frame [OF assms(2)] _ run] show "?E v'" by simp
  qed
  have acquire: "triple ?lock (pl_acquire (pf_lock P) (pq_function req) h q) (\<lambda>_ _. False) (\<lambda>_. ?E)" for h q
  proof (rule tripleI)
    have refused: "res \<noteq> Inr () \<and> ?E v'" if v: "?lock v" and run: "pl_acquire (pf_lock P) (pq_function req) h q v = (res, v')"
      for v res v'
    proof -
      have "lock_acquire X K (pq_function req) h q v = (res, v')" using run assms(4) by (simp add: dynamo_publish_lock_def)
      moreover have "held_by X K (view v) (pq_function req) h0 e" using assms(7) v by simp
      ultimately have "res \<noteq> Inr () \<and> view v' = view v" using lock_service.held_excludes [OF assms(1)] v by blast
      with framesD [OF publish_env.acquire_frame [OF assms(2)] _ run] v show ?thesis by simp
    qed
    show "?lock v \<Longrightarrow> pl_acquire (pf_lock P) (pq_function req) h q v = (Inr a, v') \<Longrightarrow> False"
      and "?lock v \<Longrightarrow> pl_acquire (pf_lock P) (pq_function req) h q v = (Inl er, v') \<Longrightarrow> ?E v'" for v a er v'
      using refused [of v "Inr a" v'] refused [of v "Inl er" v'] by auto
  qed
  have "triple (\<lambda>v. v = w) (publish_execute X P req) (\<lambda>_ _. False) (\<lambda>_. ?E)"
    unfolding publish_execute_def Let_def
    by (intro triple_if triple_throw triple_bind [OF validate] triple_bind [OF clock] triple_bind [OF acquire])
      (auto intro: tripleI)
  with assms(9) have "(\<exists>err. r = Inl err) \<and> ?E w'"
    by (cases r) (auto dest: triple_ok triple_err)
  with lock_service.release_wrong_hash [OF assms(1,7)] show ?thesis by blast
qed

text \<open>A world with a publish of \<open>echo\<close> in progress, and a second publish of the function, of \<open>fetch\<close>.\<close>

definition locked_world :: ref_world where
  "locked_world = demo_world\<lparr> rd_entries := ((''locks'', lock_pkey (FunctionId ''new'')),
     lock_item ref_ext (FunctionId ''new'') (content_hash_from_bytes ref_ext ''echo'') 1 1700000900) # rd_entries demo_world \<rparr>"

definition second_publish :: publish_request where
  "second_publish = demo_publish\<lparr> pq_wasm := ''fetch'' \<rparr>"

theorem live_lock_excludes_witness:
  "\<exists>err w'. publish_execute ref_ext ref_publish second_publish locked_world = (Inl err, w')
     \<and> ref_view w' = ref_view locked_world \<and> ref_stored w' = ref_stored locked_world"
proof -
  obtain r w' where run: "publish_execute ref_ext ref_publish second_publish locked_world = (r, w')" by fastforce
  have held: "held_by ref_ext ref_lock (ref_view locked_world) (pq_function second_publish)
      (content_hash_from_bytes ref_ext ''echo'') 1700000900"
    by (auto simp: held_by_def locked_world_def ref_view_def tables_of_def second_publish_def demo_publish_def)
  have lock: "pf_lock ref_publish = dynamo_publish_lock ref_ext ref_lock"
    by (simp add: ref_publish_def publish_new_def)
  have keep: "frames (\<lambda>_. True) ref_view (fr_validate (pf_runner ref_publish) b)"
    "frames (\<lambda>_. True) ref_view (unix_now_ms ref_publish)" for b
    by (rule framesI, auto dest: ref_validate_keeps ref_now_keeps)+
  have "fst (lk_now ref_lock locked_world) < 1700000900"
    by (simp add: locked_world_def demo_world_def empty_world_def)
  then have live: "\<forall>w1 q w2. fr_validate (pf_runner ref_publish) (pq_wasm second_publish) locked_world = (Inr (), w1) \<longrightarrow>
      unix_now_ms ref_publish w1 = (Inr q, w2) \<longrightarrow> fst (lk_now ref_lock w2) < 1700000900"
    by (auto dest!: ref_validate_keeps ref_now_keeps)
  from live_lock_excludes [OF ref_lock.lock_service_axioms ref_publish.publish_env_axioms TrueI lock keep held live run]
    run show ?thesis by fast
qed

text \<open>
  C34: A publish that died with the lock in its hands does not block its function for ever: once
  \<open>TTL_SECS\<close> have passed since it took the lock, the next acquire on a calm service takes the
  lock over, whatever is left in the row.
\<close>

theorem dead_publish_is_replaced:
  assumes "calm_lock K view schema X calm" and "lock_acquire X K f h0 q0 w0 = (Inr (), w1)"
    and "calm w" and "view w (lk_table K) (lock_pkey f) = view w1 (lk_table K) (lock_pkey f)"
    and "uint (fst (lk_now K w0)) + uint TTL_SECS \<le> uint (fst (lk_now K w))"
    and "lock_acquire X K f h q w = (r, w')"
  shows "r = Inr () \<and> held_by X K (view w') f h (saturating_add_u64 (fst (lk_now K w)) TTL_SECS) \<and> calm w'"
proof -
  note acquire = calm_lock.acquire_calm [OF assms(1,3,6)]
  have "unat (saturating_add_u64 a b) \<le> unat a + unat b" for a b by (simp add: unat_saturating_add_u64)
  then have "uint (saturating_add_u64 a b) \<le> uint a + uint b" for a b unfolding uint_nat by (metis of_nat_add of_nat_mono)
  from order_trans [OF this assms(5)]
  have "uint (saturating_add_u64 (fst (lk_now K w0)) TTL_SECS) \<le> uint (fst (lk_now K w))" .
  moreover obtain q1 where "view w (lk_table K) (lock_pkey f)
      = Some (lock_item X f h0 q1 (saturating_add_u64 (fst (lk_now K w0)) TTL_SECS))"
    using lock_service.acquire_law [OF calm_lock.axioms(1) [OF assms(1)] assms(2)] assms(4) by (auto simp: held_by_def)
  ultimately have "\<exists>t. num_of (attr_at (view w (lk_table K) (lock_pkey f)) ATTR_EXPIRES_AT) = Some t
      \<and> t \<le> uint (fst (lk_now K w))"
    by (simp add: attr_at_def)
  with acquire show ?thesis by (auto simp: held_by_def put_at_apply)
qed

theorem dead_publish_is_replaced_witness:
  "\<exists>w1 r w'. lock_acquire ref_ext ref_lock (FunctionId ''new'') (content_hash_from_bytes ref_ext ''echo'') 1 demo_world = (Inr (), w1)
     \<and> lock_acquire ref_ext ref_lock (FunctionId ''new'') (content_hash_from_bytes ref_ext ''fetch'') 2
         (w1\<lparr> rw_clock_ms := 1700000900000 \<rparr>) = (r, w') \<and> r = Inr ()"
proof -
  have calm: "rd_faults demo_world = []" and clock: "fst (lk_now ref_lock demo_world) = 1700000000"
    by (simp_all add: demo_world_def empty_world_def)
  obtain r1 w1 where a: "lock_acquire ref_ext ref_lock (FunctionId ''new'') (content_hash_from_bytes ref_ext ''echo'') 1 demo_world
      = (r1, w1)" by fastforce
  have r1: "r1 = Inr ()" "rd_faults w1 = []"
    using ref_lock.acquire_calm [OF calm a] demo_view(5) [of "[]"] by (auto simp: demo_world_faulty attr_at_def)
  let ?w = "w1\<lparr> rw_clock_ms := 1700000900000 \<rparr>"
  obtain r w' where b: "lock_acquire ref_ext ref_lock (FunctionId ''new'') (content_hash_from_bytes ref_ext ''fetch'') 2 ?w = (r, w')"
    by fastforce
  have later: "uint (fst (lk_now ref_lock demo_world)) + uint TTL_SECS \<le> uint (fst (lk_now ref_lock ?w))"
    unfolding clock by (simp add: TTL_SECS_def)
  have "r = Inr ()"
    using dead_publish_is_replaced [OF ref_lock.calm_lock_axioms a [unfolded r1(1)] _ _ later b] r1(2)
    by (simp add: ref_view_def)
  with a b r1(1) show ?thesis by blast
qed

section \<open>Generations\<close>

text \<open>
  C35: The newest publish wins: an upsert never replaces a row by one of an older generation, in
  whatever order, with whatever loss and however often the upserts of concurrent publishes
  arrive; the stored generation of every function never goes down.
\<close>

theorem newest_publish_wins:
  assumes "catalog_service D view schema" and "catalog_upsert X D f label h q eg w = (r, w')"
    and "generation D (view w) f' label' = Some g"
  shows "\<exists>g'. generation D (view w') f' label' = Some g' \<and> g \<le> g'
     \<and> (view w' (cd_table D) (catalog_pkey f' label') \<noteq> view w (cd_table D) (catalog_pkey f' label')
          \<longrightarrow> f' = f \<and> label' = label \<and> g' = uint q)"
proof -
  obtain g' where g': "generation D (view w') f' label' = Some g'" "g \<le> g'"
    using catalog_service.generation_monotone [OF assms] by blast
  have "f' = f \<and> label' = label \<and> g' = uint q"
    if "view w' (cd_table D) (catalog_pkey f' label') \<noteq> view w (cd_table D) (catalog_pkey f' label')"
  proof -
    have put: "view w' = put_at (cd_table D, catalog_pkey f label) (Some (catalog_item X f label h q eg)) (view w)"
      using catalog_service.upsert_law [OF assms(1,2)] that by auto
    with that have "catalog_pkey f' label' = catalog_pkey f label" by (metis put_at_apply(2) prod.inject)
    then have "f' = f \<and> label' = label"
      by (cases f'; cases f; cases label'; cases label) (simp add: catalog_pkey_def)
    with g'(1) put catalog_service.generation_put [OF assms(1)] show ?thesis by simp
  qed
  with g' show ?thesis by blast
qed

theorem newest_publish_wins_witness:
  "\<exists>r w'. catalog_upsert ref_ext ref_catalog (FunctionId ''echo'') latest (content_hash_from_bytes ref_ext ''fetch'') 0 [] demo_world
     = (r, w') \<and> (\<exists>g'. generation ref_catalog (ref_view w') (FunctionId ''echo'') latest = Some g' \<and> 1 \<le> g')"
proof -
  obtain r w' where run: "catalog_upsert ref_ext ref_catalog (FunctionId ''echo'') latest
      (content_hash_from_bytes ref_ext ''fetch'') 0 [] demo_world = (r, w')" by fastforce
  have "generation ref_catalog (ref_view demo_world) (FunctionId ''echo'') latest = Some 1"
    by (simp add: generation_def demo_world_faulty demo_view attr_at_def demo_row_def)
  from newest_publish_wins [OF ref_catalog.catalog_service_axioms run this] run show ?thesis by blast
qed

section \<open>From publish to invoke\<close>

text \<open>
  What a successful publish made ready is what an invoke loads: on a calm service the version
  resolved at \<open>latest\<close> has the hash of the published module and exactly its allowlist, and the
  artifact loaded for it is a module with that hash.
\<close>

lemma published_is_served:
  assumes "externals X" and "calm_catalog D view schema calm" and "bucket_store (s3_client A) objects"
    and "publish_env X P (\<lambda>w. view w (cd_table D))
       (\<lambda>w h. \<exists>b. objects w (s3_bucket A) (wasm_key X A h) = Some b \<and> content_hash_from_bytes X b = h
                \<and> length b \<le> MAX_WASM_BYTES) good"
    and "good w" and "function_id_new (function_id_str (pq_function req)) = Inr (pq_function req)"
    and "\<forall>e \<in> set (pq_egress_allow req). origin_normal e"
    and "publish_execute X P req w = (Inr res, w')" and "pr_status res = Ready" and "calm w'"
    and "s3_get_object (s3_client A) (s3_bucket A) (wasm_key X A (content_hash_from_bytes X (pq_wasm req))) w' = (Inr obj, w2)"
  shows "fst (catalog_resolve X D (pq_function req) latest w') = Inr
       \<lparr> fv_id = pq_function req, fv_label = latest, fv_content_hash = content_hash_from_bytes X (pq_wasm req),
         fv_egress_allow = pq_egress_allow req \<rparr>
    \<and> (\<exists>b. s3_get X A (content_hash_from_bytes X (pq_wasm req)) w' = (Inr b, w2)
         \<and> content_hash_from_bytes X b = content_hash_from_bytes X (pq_wasm req))"
proof -
  let ?h = "content_hash_from_bytes X (pq_wasm req)" and ?k = "catalog_pkey (pq_function req) latest"
  let ?v = "\<lparr> fv_id = pq_function req, fv_label = latest, fv_content_hash = ?h, fv_egress_allow = pq_egress_allow req \<rparr>"
  note post = triple_ok [OF publish_env.publish_triple [OF assms(4)] conjI [OF assms(5) conjI [OF refl refl]] assms(8)]
  obtain b q where b: "objects w' (s3_bucket A) (wasm_key X A ?h) = Some b" "content_hash_from_bytes X b = ?h"
      "length b \<le> MAX_WASM_BYTES"
    and row: "view w' (cd_table D) ?k = Some (catalog_item X (pq_function req) latest ?h q (pq_egress_allow req))"
    using post assms(9) by (auto simp: publish_env.pointed_def [OF assms(4)])
  have "version_ok ?v"
    using assms(6,7) externals.content_hash_from_bytes_ok [OF assms(1)]
    by (simp add: version_ok_def version_label_ok_def latest_def)
  from version_read_back [OF assms(1) this, of q] row
  have resolve: "fst (catalog_resolve X D (pq_function req) latest w') = Inr ?v"
    using ddb_fresh.get_fresh [OF calm_catalog.axioms(2) [OF assms(2)] assms(10), of "cd_table D" ?k]
    by (auto simp: catalog_resolve_def bind_io_def map_err_io_def)
  have "so_body obj = Inr b \<and> (so_content_length obj = Some (int (length b)) \<or> so_content_length obj = None)"
    using bucket_store.get_returns [OF assms(3) b(1) assms(11)] .
  then have "s3_get X A ?h w' = (Inr b, w2)"
    using assms(11) b(2,3) by (auto simp: s3_get_def get_object_def match_io_def bind_io_def Let_def)
  with resolve b(2) show ?thesis by blast
qed

lemma demo_published_is_served:
  "\<exists>res w' v. publish_execute ref_ext ref_publish demo_publish demo_world = (Inr res, w')
     \<and> fst (catalog_resolve ref_ext ref_catalog (FunctionId ''new'') latest w') = Inr v
     \<and> fv_egress_allow v = [EgressOrigin ''https://a.io'']
     \<and> (\<exists>b w2. s3_get ref_ext ref_artifacts (fv_content_hash v) w' = (Inr b, w2)
          \<and> content_hash_from_bytes ref_ext b = content_hash_from_bytes ref_ext ''echo'')"
proof -
  obtain w' where run: "rd_faults w' = []" "publish_execute ref_ext ref_publish demo_publish demo_world =
     (Inr \<lparr> pr_function = FunctionId ''new'', pr_version = latest,
            pr_content_hash = content_hash_from_bytes ref_ext ''echo'', pr_wasm_bytes = 4,
            pr_egress_allow = [EgressOrigin ''https://a.io''], pr_status = Ready \<rparr>, w')"
    using demo_publish_ready by blast
  have env: "publish_env ref_ext ref_publish (\<lambda>w. ref_view w (cd_table ref_catalog))
     (\<lambda>w h. \<exists>b. ref_objects w (s3_bucket ref_artifacts) (wasm_key ref_ext ref_artifacts h) = Some b
        \<and> content_hash_from_bytes ref_ext b = h \<and> length b \<le> MAX_WASM_BYTES) (\<lambda>_. True)"
    using ref_publish.publish_env_axioms unfolding ref_stored_def [abs_def] by simp
  have stored: "ref_stored w' (content_hash_from_bytes ref_ext ''echo'')"
    using triple_ok [OF ref_publish.publish_triple _ run(2), of demo_world] by (simp add: demo_publish_def)
  then obtain obj where obj: "s3_get_object (s3_client ref_artifacts) (s3_bucket ref_artifacts)
      (wasm_key ref_ext ref_artifacts (content_hash_from_bytes ref_ext (pq_wasm demo_publish))) w' = (Inr obj, w')"
    by (auto simp: ref_stored_def ref_s3_def demo_publish_def)
  have f: "function_id_new (function_id_str (pq_function demo_publish)) = Inr (pq_function demo_publish)"
    by (simp add: demo_publish_def function_id_new_def char_class_defs byte_def)
  have "origin_normal (EgressOrigin ''https://a.io'')"
    unfolding origin_normal_def using demo_host by (intro exI [of _ "''a.io''"]) simp
  then have eg: "\<forall>e \<in> set (pq_egress_allow demo_publish). origin_normal e" by (simp add: demo_publish_def)
  have bucket: "bucket_store (s3_client ref_artifacts) ref_objects" by (simp add: ref_bucket.bucket_store_axioms)
  from published_is_served [OF ref_externals.externals_axioms ref_catalog.calm_catalog_axioms bucket env TrueI f eg run(2) _ run(1) obj]
    run(2) show ?thesis by (auto simp: demo_publish_def)
qed

end
