(* ===== verification/Wire.thy ===== *)
theory Wire
  imports Json External
begin

text \<open>
  The wire between the host and a guest: \<open>crates/runtime/src/http/inbound.rs\<close> (requests,
  responses and their builder), \<open>error.rs\<close> and \<open>wire.rs\<close> (the JSON form of both). The first part is
  what serde's derived \<open>Deserialize\<close> does with a document: a struct is read from an object, whose
  unknown fields are skipped and where a known field may not be repeated, or from an array of
  exactly its fields.
\<close>

section \<open>Derived deserialisation\<close>

text \<open>The values of the named fields, \<open>None\<close> for a missing one.\<close>

fun struct_fields :: "string list \<Rightarrow> json \<Rightarrow> json option list option" where
  "struct_fields names (JObject fs) =
     (if distinct (filter (\<lambda>k. k \<in> set names) (map fst fs)) then Some (map (map_of fs) names) else None)"
| "struct_fields names (JArray xs) = (if length xs = length names then Some (map Some xs) else None)"
| "struct_fields names _ = None"

fun de_string :: "json option \<Rightarrow> string option" where
  "de_string (Some (JString s)) = Some s"
| "de_string _ = None"

fun de_u64 :: "json option \<Rightarrow> u64 option" where
  "de_u64 (Some (JNumber (JPos n))) = Some n"
| "de_u64 _ = None"

definition de_u16 :: "json option \<Rightarrow> u16 option" where
  "de_u16 v = (case de_u64 v of Some n \<Rightarrow> if unat n < 2 ^ 16 then Some (ucast n) else None | None \<Rightarrow> None)"

text \<open>An \<open>Option\<close> field may be missing or \<open>null\<close>.\<close>

fun de_option :: "(json option \<Rightarrow> 'a option) \<Rightarrow> json option \<Rightarrow> 'a option option" where
  "de_option de None = Some None"
| "de_option de (Some JNull) = Some None"
| "de_option de (Some v) = map_option Some (de (Some v))"

fun de_list :: "(json option \<Rightarrow> 'a option) \<Rightarrow> json option \<Rightarrow> 'a list option" where
  "de_list de (Some (JArray xs)) = those (map (\<lambda>x. de (Some x)) xs)"
| "de_list de _ = None"

fun de_pair :: "json option \<Rightarrow> (string \<times> string) option" where
  "de_pair (Some (JArray [JString k, JString v])) = Some (k, v)"
| "de_pair _ = None"

definition from_slice_as :: "json_text \<Rightarrow> string \<Rightarrow> (json \<Rightarrow> 'a option) \<Rightarrow> bytes \<Rightarrow> string + 'a" where
  "from_slice_as J ty de b = bind_r (jt_from_slice J b) (\<lambda>j. ok_or (jt_shape_error J ty j) (de j))"

section \<open>Errors\<close>

datatype rt_error = Message string | JsonError string

fun show_rt_error :: "rt_error \<Rightarrow> string" where
  "show_rt_error (Message s) = s"
| "show_rt_error (JsonError s) = s"

text \<open>The texts of the base64 and UTF-8 decoders' errors, which are theirs.\<close>

record codec_text =
  ct_base64 :: "string \<Rightarrow> string"
  ct_utf8 :: "bytes \<Rightarrow> string"

section \<open>Requests\<close>

type_synonym header_list = "(string \<times> string) list"

record fn_request =
  rq_method :: string
  rq_path :: string
  rq_headers :: header_list
  rq_body :: bytes

definition request_new :: "string \<Rightarrow> string \<Rightarrow> header_list \<Rightarrow> bytes \<Rightarrow> fn_request" where
  "request_new method path headers body =
     \<lparr> rq_method = method, rq_path = path, rq_headers = headers, rq_body = body \<rparr>"

definition rq_header :: "fn_request \<Rightarrow> string \<Rightarrow> string option" where
  "rq_header req name = map_option snd (find (\<lambda>(k, _). eq_ignore_ascii_case k name) (rq_headers req))"

definition body_string :: "codec_text \<Rightarrow> fn_request \<Rightarrow> rt_error + string" where
  "body_string T req =
     (if utf8_valid (rq_body req) then Inr (rq_body req) else Inl (Message (ct_utf8 T (rq_body req))))"

definition rq_json :: "json_text \<Rightarrow> string \<Rightarrow> (json \<Rightarrow> 'a option) \<Rightarrow> fn_request \<Rightarrow> rt_error + 'a" where
  "rq_json J ty de req = map_err JsonError (from_slice_as J ty de (rq_body req))"

section \<open>Responses\<close>

record fn_response =
  rs_status :: u16
  rs_headers :: header_list
  rs_body :: bytes

definition from_parts :: "u16 \<Rightarrow> header_list \<Rightarrow> bytes \<Rightarrow> fn_response" where
  "from_parts status headers body = \<lparr> rs_status = status, rs_headers = headers, rs_body = body \<rparr>"

text \<open>The builder has the fields of a response; \<open>build\<close> is the identity.\<close>

type_synonym response_builder = fn_response

definition response_builder :: response_builder where
  "response_builder = \<lparr> rs_status = 200, rs_headers = [], rs_body = [] \<rparr>"

definition with_status :: "u16 \<Rightarrow> response_builder \<Rightarrow> response_builder" where
  "with_status status b = b\<lparr> rs_status := status \<rparr>"

definition with_header :: "string \<Rightarrow> string \<Rightarrow> response_builder \<Rightarrow> response_builder" where
  "with_header name value b = b\<lparr> rs_headers := rs_headers b @ [(name, value)] \<rparr>"

definition with_body :: "bytes \<Rightarrow> response_builder \<Rightarrow> response_builder" where
  "with_body body b = b\<lparr> rs_body := body \<rparr>"

definition build_json :: "json_text \<Rightarrow> json \<Rightarrow> response_builder \<Rightarrow> rt_error + fn_response" where
  "build_json J value b =
     bind_r (map_err JsonError (jt_to_vec J value)) (\<lambda>body.
     let b = with_body body b in
     Inr (if list_ex (\<lambda>(k, _). eq_ignore_ascii_case k ''content-type'') (rs_headers b) then b
          else with_header ''content-type'' ''application/json'' b))"

definition response_from_json :: "json_text \<Rightarrow> json \<Rightarrow> rt_error + fn_response" where
  "response_from_json J value =
     bind_r (map_err JsonError (jt_to_vec J value)) (\<lambda>body.
     Inr \<lparr> rs_status = 200, rs_headers = [(''content-type'', ''application/json'')], rs_body = body \<rparr>)"

definition response_text :: "string \<Rightarrow> fn_response" where
  "response_text body =
     \<lparr> rs_status = 200, rs_headers = [(''content-type'', ''text/plain; charset=utf-8'')], rs_body = body \<rparr>"

definition rs_json :: "json_text \<Rightarrow> string \<Rightarrow> (json \<Rightarrow> 'a option) \<Rightarrow> fn_response \<Rightarrow> rt_error + 'a" where
  "rs_json J ty de res = map_err JsonError (from_slice_as J ty de (rs_body res))"

text \<open>The types a handler may return, and their conversions.\<close>

datatype reply = RResponse fn_response | RValue json | RString string | RStr string | RBytes bytes

fun into_response :: "json_text \<Rightarrow> reply \<Rightarrow> rt_error + fn_response" where
  "into_response J (RResponse res) = Inr res"
| "into_response J (RValue v) = response_from_json J v"
| "into_response J (RString s) = Inr (response_text s)"
| "into_response J (RStr s) = Inr (response_text s)"
| "into_response J (RBytes b) = Inr (from_parts 200 [(''content-type'', ''application/octet-stream'')] b)"

section \<open>The JSON form\<close>

definition json_headers :: "header_list \<Rightarrow> json" where
  "json_headers hs = JArray (map (\<lambda>(k, v). JArray [JString k, JString v]) hs)"

definition wire_request_names :: "string list" where
  "wire_request_names = [''method'', ''path'', ''headers'', ''body_base64'']"

definition wire_response_names :: "string list" where
  "wire_response_names = [''status'', ''headers'', ''body_base64'']"

definition wire_request :: "ext \<Rightarrow> fn_request \<Rightarrow> json" where
  "wire_request X req =
     JObject [(''method'', JString (rq_method req)), (''path'', JString (rq_path req)),
              (''headers'', json_headers (rq_headers req)), (''body_base64'', JString (b64_encode X (rq_body req)))]"

definition wire_response :: "ext \<Rightarrow> fn_response \<Rightarrow> json" where
  "wire_response X res =
     JObject [(''status'', JNumber (JPos (ucast (rs_status res)))), (''headers'', json_headers (rs_headers res)),
              (''body_base64'', JString (b64_encode X (rs_body res)))]"

definition de_wire_request :: "json \<Rightarrow> (string \<times> string \<times> header_list \<times> string) option" where
  "de_wire_request j =
     (case struct_fields wire_request_names j of
        Some [m, p, h, b] \<Rightarrow>
          (case (de_string m, de_string p, de_list de_pair h, de_string b) of
             (Some m, Some p, Some h, Some b) \<Rightarrow> Some (m, p, h, b)
           | _ \<Rightarrow> None)
      | _ \<Rightarrow> None)"

definition de_wire_response :: "json \<Rightarrow> (u16 \<times> header_list \<times> string) option" where
  "de_wire_response j =
     (case struct_fields wire_response_names j of
        Some [s, h, b] \<Rightarrow>
          (case (de_u16 s, de_list de_pair h, de_string b) of
             (Some s, Some h, Some b) \<Rightarrow> Some (s, h, b)
           | _ \<Rightarrow> None)
      | _ \<Rightarrow> None)"

definition encode_request :: "ext \<Rightarrow> json_text \<Rightarrow> fn_request \<Rightarrow> rt_error + bytes" where
  "encode_request X J req = map_err JsonError (jt_to_vec J (wire_request X req))"

definition decode_request :: "ext \<Rightarrow> json_text \<Rightarrow> codec_text \<Rightarrow> bytes \<Rightarrow> rt_error + fn_request" where
  "decode_request X J T b =
     bind_r (map_err JsonError (from_slice_as J ''WireRequest'' de_wire_request b)) (\<lambda>(method, path, headers, body_base64).
     bind_r (ok_or (Message (ct_base64 T body_base64)) (b64_decode X body_base64)) (\<lambda>body.
     Inr (request_new method path headers body)))"

definition encode_response :: "ext \<Rightarrow> json_text \<Rightarrow> fn_response \<Rightarrow> rt_error + bytes" where
  "encode_response X J res = map_err JsonError (jt_to_vec J (wire_response X res))"

definition decode_response :: "ext \<Rightarrow> json_text \<Rightarrow> codec_text \<Rightarrow> bytes \<Rightarrow> rt_error + fn_response" where
  "decode_response X J T b =
     bind_r (map_err JsonError (from_slice_as J ''WireResponse'' de_wire_response b)) (\<lambda>(status, headers, body_base64).
     bind_r (ok_or (Message (ct_base64 T body_base64)) (b64_decode X body_base64)) (\<lambda>body.
     Inr (from_parts status headers body)))"

section \<open>Round trips\<close>

text \<open>Rust strings are UTF-8.\<close>

definition headers_ok :: "header_list \<Rightarrow> bool" where
  "headers_ok hs \<longleftrightarrow> list_all (\<lambda>(k, v). utf8_valid k \<and> utf8_valid v) hs"

definition request_ok :: "fn_request \<Rightarrow> bool" where
  "request_ok req \<longleftrightarrow> utf8_valid (rq_method req) \<and> utf8_valid (rq_path req) \<and> headers_ok (rq_headers req)"

definition response_ok :: "fn_response \<Rightarrow> bool" where
  "response_ok res \<longleftrightarrow> headers_ok (rs_headers res)"

lemma utf8_valid_literal:
  "list_all is_ascii s \<Longrightarrow> utf8_valid s"
  by (rule utf8_valid_ascii) (simp add: list_all_iff)

lemma graphic_ascii: "graphic c \<Longrightarrow> is_ascii c"
  by (simp add: graphic_def is_ascii_def)

context externals
begin

lemma b64_utf8: "utf8_valid (b64_encode X b)"
  by (rule utf8_valid_ascii) (use benc_chars graphic_ascii in blast)

end

lemma de_headers: "de_list de_pair (Some (json_headers hs)) = Some hs"
proof -
  have "those (map (\<lambda>x. de_pair (Some x)) (map (\<lambda>(k, v). JArray [JString k, JString v]) hs)) = Some hs"
    by (induction hs) auto
  then show ?thesis by (simp only: json_headers_def de_list.simps)
qed

lemma headers_json_ok: "headers_ok hs \<Longrightarrow> json_ok (json_headers hs)"
  by (auto simp: json_headers_def headers_ok_def list_all_iff)

lemma ucast_u16_u64: "unat (ucast (s :: u16) :: u64) = unat s" "ucast (ucast s :: u64) = s"
  using unsigned_less [of s, where 'a = nat]
  by (simp_all add: unsigned_ucast_eq take_bit_word_eq_self take_bit_nat_eq_self ucast_up_ucast_id is_up)

lemma de_u16_status: "de_u16 (Some (JNumber (JPos (ucast (s :: u16))))) = Some s"
  using unsigned_less [of s, where 'a = nat] by (simp add: de_u16_def ucast_u16_u64)

lemma wire_request_read: "de_wire_request (wire_request X req)
    = Some (rq_method req, rq_path req, rq_headers req, b64_encode X (rq_body req))"
  by (simp add: de_wire_request_def wire_request_def wire_request_names_def de_headers del: de_list.simps)

lemma wire_response_read: "de_wire_response (wire_response X res)
    = Some (rs_status res, rs_headers res, b64_encode X (rs_body res))"
  by (simp add: de_wire_response_def wire_response_def wire_response_names_def de_headers de_u16_status
      del: de_list.simps)

lemma wire_request_ok: "externals X \<Longrightarrow> request_ok req \<Longrightarrow> json_ok (wire_request X req)"
  by (simp add: wire_request_def request_ok_def headers_json_ok externals.b64_utf8)
    (simp add: utf8_valid_literal char_class_defs byte_def)

lemma wire_response_ok: "externals X \<Longrightarrow> response_ok res \<Longrightarrow> json_ok (wire_response X res)"
  by (simp add: wire_response_def response_ok_def headers_json_ok externals.b64_utf8)
    (simp add: utf8_valid_literal char_class_defs byte_def)

lemma from_slice_as_read:
  "json_codec J \<Longrightarrow> json_ok j \<Longrightarrow> jt_to_vec J j = Inr b \<Longrightarrow> de j = Some a \<Longrightarrow> from_slice_as J ty de b = Inr a"
  by (simp add: from_slice_as_def json_codec.from_to)

lemma request_read_back:
  assumes "externals X" and "json_codec J" and "request_ok req"
  shows "\<exists>b. encode_request X J req = Inr b \<and> decode_request X J T b = Inr req"
proof -
  note ok = wire_request_ok [OF assms(1,3)]
  obtain b where b: "jt_to_vec J (wire_request X req) = Inr b" using json_codec.to_vec_total [OF assms(2) ok] by blast
  have dec: "b64_decode X (b64_encode X (rq_body req)) = Some (rq_body req)"
    using assms(1) base64_codec.bdec_benc externals.axioms(3) by blast
  show ?thesis
    using b from_slice_as_read [OF assms(2) ok b, of de_wire_request] wire_request_read
    by (simp add: encode_request_def decode_request_def dec request_new_def)
qed

lemma response_read_back:
  assumes "externals X" and "json_codec J" and "response_ok res" and "encode_response X J res = Inr b"
  shows "decode_response X J T b = Inr res"
proof -
  note ok = wire_response_ok [OF assms(1,3)]
  have b: "jt_to_vec J (wire_response X res) = Inr b" using assms(4) by (simp add: encode_response_def)
  have dec: "b64_decode X (b64_encode X (rs_body res)) = Some (rs_body res)"
    using assms(1) base64_codec.bdec_benc externals.axioms(3) by blast
  show ?thesis
    using from_slice_as_read [OF assms(2) ok b, of de_wire_response] wire_response_read
    by (simp add: decode_response_def dec from_parts_def)
qed

lemma response_encodes:
  "externals X \<Longrightarrow> json_codec J \<Longrightarrow> response_ok res \<Longrightarrow> \<exists>b. encode_response X J res = Inr b"
  using json_codec.to_vec_total [of J "wire_response X res"] wire_response_ok [of X res]
  by (auto simp: encode_response_def)

text \<open>Decoder messages for the witnesses.\<close>

definition ref_text :: codec_text where
  "ref_text = \<lparr> ct_base64 = (\<lambda>s. ''Invalid byte''), ct_utf8 = (\<lambda>b. ''invalid utf-8 sequence'') \<rparr>"

end
