(* ===== verification/Guest_Runtime.thy ===== *)
theory Guest_Runtime
  imports Wire Guest
begin

text \<open>
  The guest's side of the ABI: \<open>crates/runtime/src/abi.rs\<close>, \<open>register.rs\<close>, \<open>service.rs\<close>,
  \<open>host_fetch.rs\<close>, \<open>http/client.rs\<close>, \<open>block_on.rs\<close> and the \<open>invoke\<close> export that
  \<open>crates/runtime-macros\<close> generates. The code runs inside the sandbox, so its memory is the
  engine's store and its only way out is the host function it is linked with. Where the
  allocator puts a buffer is a parameter. A panic or an out-of-bounds access ends the guest.
\<close>

section \<open>Handlers\<close>

datatype rt_fault = Fails rt_error | Panics string

type_synonym ('w, 'r) service = "fn_request \<Rightarrow> ('w, rt_fault, 'r) io"

definition service_call :: "json_text \<Rightarrow> ('w, reply) service \<Rightarrow> ('w, fn_response) service" where
  "service_call J f req = bind_io (f req) (\<lambda>r. lift_r (map_err Fails (into_response J r)))"

text \<open>
  The static slot of \<open>register.rs\<close> and the \<open>Once\<close> of the generated export. \<open>run\<close> replaces the
  slot; the export registers its handler on the first call only.
\<close>

record 'w registry =
  rg_init :: bool
  rg_slot :: "('w, fn_response) service option"

definition registry_new :: "'w registry" where
  "registry_new = \<lparr> rg_init = False, rg_slot = None \<rparr>"

definition runtime_run :: "json_text \<Rightarrow> ('w, reply) service \<Rightarrow> 'w registry \<Rightarrow> 'w registry" where
  "runtime_run J service g = g\<lparr> rg_slot := Some (service_call J service) \<rparr>"

definition call_handler :: "'w registry \<Rightarrow> ('w, fn_response) service" where
  "call_handler g req =
     (case rg_slot g of
        None \<Rightarrow> throw (Fails (Message (''runtime not initialized '' @ [CHR 0xE2, CHR 0x80, CHR 0x94]
                  @ '' #[runtime::main] registers the handler on first invoke'')))
      | Some handler \<Rightarrow> handler req)"

section \<open>Futures\<close>

text \<open>
  A future is a value and its \<open>poll\<close>: ready with a result, or pending with what is left.
  \<open>block_on\<close> polls until it is ready, so it may not return.
\<close>

partial_function (option) block_on ::
  "('f \<Rightarrow> 'w \<Rightarrow> ('a + 'f) \<times> 'w) \<Rightarrow> 'f \<Rightarrow> 'w \<Rightarrow> ('a \<times> 'w) option" where
  "block_on poll future w =
     (case poll future w of
        (Inl out, w') \<Rightarrow> Some (out, w')
      | (Inr future', w') \<Rightarrow> block_on poll future' w')"

section \<open>Outbound requests\<close>

definition GUEST_ERR_BAD_ARGS :: i32 where "GUEST_ERR_BAD_ARGS = - 1"
definition GUEST_ERR_DENIED :: i32 where "GUEST_ERR_DENIED = - 2"
definition GUEST_ERR_TIMEOUT :: i32 where "GUEST_ERR_TIMEOUT = - 3"
definition GUEST_ERR_TOO_LARGE :: i32 where "GUEST_ERR_TOO_LARGE = - 4"
definition GUEST_ERR_TRANSPORT :: i32 where "GUEST_ERR_TRANSPORT = - 5"

lemmas guest_codes = GUEST_ERR_BAD_ARGS_def GUEST_ERR_DENIED_def GUEST_ERR_TIMEOUT_def GUEST_ERR_TOO_LARGE_def
  GUEST_ERR_TRANSPORT_def

definition OUT_CAP :: nat where "OUT_CAP = 512 * 1024"

definition map_host_code :: "i32 \<Rightarrow> rt_error" where
  "map_host_code code =
     (if code = GUEST_ERR_BAD_ARGS then Message ''http_get: bad arguments''
      else if code = GUEST_ERR_DENIED then Message ''http_get: origin not allowed''
      else if code = GUEST_ERR_TIMEOUT then Message ''http_get: timeout''
      else if code = GUEST_ERR_TOO_LARGE then Message ''http_get: response too large''
      else if code = GUEST_ERR_TRANSPORT then Message ''http_get: transport error''
      else Message (''http_get failed: '' @ show_int (sint code)))"

definition envelope_names :: "string list" where
  "envelope_names = [''status'', ''body_base64'']"

definition de_envelope :: "json \<Rightarrow> (u16 \<times> string) option" where
  "de_envelope j =
     (case struct_fields envelope_names j of
        Some [s, b] \<Rightarrow> (case (de_u16 s, de_string b) of (Some s, Some b) \<Rightarrow> Some (s, b) | _ \<Rightarrow> None)
      | _ \<Rightarrow> None)"

definition read_envelope :: "ext \<Rightarrow> json_text \<Rightarrow> codec_text \<Rightarrow> bytes \<Rightarrow> rt_error + fn_response" where
  "read_envelope X J T out =
     bind_r (map_err JsonError (from_slice_as J ''HttpEnvelope'' de_envelope out)) (\<lambda>(status, body_base64).
     bind_r (ok_or (Message (ct_base64 T body_base64)) (b64_decode X body_base64)) (\<lambda>body.
     Inr (from_parts status [] body)))"

text \<open>
  \<open>url_ptr\<close> is where the guest holds the bytes of the URL, \<open>out_ptr\<close> its fresh buffer of
  \<open>OUT_CAP\<close> bytes.
\<close>

definition wasm_get ::
  "ext \<Rightarrow> json_text \<Rightarrow> codec_text \<Rightarrow> ('s, 'm, 'w) wasm_engine \<Rightarrow> ('s, 'w) host_fn \<Rightarrow> nat \<Rightarrow> nat \<Rightarrow> string
     \<Rightarrow> ('s \<times> 'w, rt_fault, fn_response) io" where
  "wasm_get X J T E host url_ptr out_ptr url sw =
     (if \<not> length url < 2 ^ 31 then (Inl (Fails (Message ''url too long'')), sw)
      else
        (case host (word_of_nat url_ptr) (word_of_nat (length url)) (word_of_nat out_ptr) (word_of_nat OUT_CAP) sw of
           (written, sw') \<Rightarrow>
             if sint written < 0 then (Inl (Fails (map_host_code written)), sw')
             else if nat (sint written) > OUT_CAP then (Inl (Panics ''range end index out of range''), sw')
             else
               (case we_read E (fst sw') out_ptr (nat (sint written)) of
                  Inl e \<Rightarrow> (Inl (Panics e), sw')
                | Inr out \<Rightarrow> (map_err Fails (read_envelope X J T out), sw'))))"

text \<open>
  \<open>fetch_get\<close> calls the host in a build for wasm32 and fails in any other, which has no host import.
\<close>

definition fetch_get ::
  "(string \<Rightarrow> ('w, rt_fault, fn_response) io) option \<Rightarrow> string \<Rightarrow> ('w, rt_fault, fn_response) io" where
  "fetch_get wasm32 url =
     (case wasm32 of Some get \<Rightarrow> get url
      | None \<Rightarrow> throw (Fails (Message ''outbound HTTP is only available in wasm32 guest builds'')))"

text \<open>\<open>Client::new().get(url).send()\<close>: the pending request is ready at its first poll.\<close>

record request_builder = rb_url :: string
record pending_request = pg_url :: string

definition client_get :: "string \<Rightarrow> request_builder" where
  "client_get url = \<lparr> rb_url = url \<rparr>"

definition builder_send :: "request_builder \<Rightarrow> pending_request" where
  "builder_send b = \<lparr> pg_url = rb_url b \<rparr>"

definition pending_poll ::
  "(string \<Rightarrow> ('w, rt_fault, fn_response) io) \<Rightarrow> pending_request \<Rightarrow> 'w
     \<Rightarrow> ((rt_fault + fn_response) + pending_request) \<times> 'w" where
  "pending_poll fetch p w = (case fetch (pg_url p) w of (r, w') \<Rightarrow> (Inl r, w'))"

lemma block_on_pending: "block_on (pending_poll fetch) p v = Some (fetch (pg_url p) v)"
  by (subst block_on.simps) (simp add: pending_poll_def split: prod.split)

text \<open>
  \<open>.await\<close> on a request in a handler: the request is ready at its first poll, so the handler goes
  on with what \<open>block_on\<close> would give for the request alone.
\<close>

definition await_request ::
  "(string \<Rightarrow> ('w, rt_fault, fn_response) io) \<Rightarrow> pending_request \<Rightarrow> ('w, rt_fault, fn_response) io" where
  "await_request fetch p w = the (block_on (pending_poll fetch) p w)"

lemma await_request_send: "await_request fetch (builder_send (client_get url)) = fetch url"
  by (rule ext) (simp add: await_request_def block_on_pending builder_send_def client_get_def)

section \<open>The export\<close>

definition error_response :: "json_text \<Rightarrow> rt_error \<Rightarrow> fn_response" where
  "error_response J err =
     (let msg = (case jt_to_vec J (JString (show_rt_error err)) of
                   Inr s \<Rightarrow> s | Inl _ \<Rightarrow> [CHR 0x22] @ ''internal error'' @ [CHR 0x22]) in
      with_body (''{'' @ [CHR 0x22] @ ''error'' @ [CHR 0x22] @ '':'' @ msg @ ''}'')
        (with_header ''content-type'' ''application/json'' (with_status 500 response_builder)))"

definition ensure_memory :: "('s, 'm, 'w) wasm_engine \<Rightarrow> nat \<Rightarrow> 's \<Rightarrow> (unit + unit) \<times> 's" where
  "ensure_memory E bound s =
     (let pages_needed = (bound + 65535) div 65536; current = we_pages E s in
      if pages_needed > current then
        (case we_grow E (pages_needed - current) s of (Inl _, s') \<Rightarrow> (Inl (), s') | (Inr _, s') \<Rightarrow> (Inr (), s'))
      else (Inr (), s))"

definition abi_handle ::
  "ext \<Rightarrow> json_text \<Rightarrow> codec_text \<Rightarrow> ('w, fn_response) service \<Rightarrow> bytes \<Rightarrow> ('w, rt_fault, fn_response) io" where
  "abi_handle X J T handler input =
     bind_io (lift_r (map_err Fails (decode_request X J T input))) handler"

text \<open>
  \<open>__invoke\<close>: writing the response over the request, and the whole call. The left result is a
  trap: a panic of the handler or an access outside the memory. Addresses are 32 bits wide, and
  so is \<open>saturating_add\<close>; a vector of \<open>2 ^ 31\<close> bytes or more cannot be built there.
\<close>

definition abi_reply ::
  "ext \<Rightarrow> json_text \<Rightarrow> ('s, 'm, 'w) wasm_engine \<Rightarrow> nat \<Rightarrow> fn_response \<Rightarrow> 's \<Rightarrow> (string + i32) \<times> 's" where
  "abi_reply X J E ptr response s =
     (case encode_response X J response of
        Inl _ \<Rightarrow> (Inr (- 1), s)
      | Inr output \<Rightarrow>
          if \<not> length output < 2 ^ 31 then (Inl ''capacity overflow'', s)
          else
            (case ensure_memory E (min (ptr + length output) (2 ^ 32 - 1)) s of
               (Inl _, s2) \<Rightarrow> (Inr (- 1), s2)
             | (Inr _, s2) \<Rightarrow>
                 (case we_write E ptr output s2 of
                    (Inl e, s3) \<Rightarrow> (Inl e, s3)
                  | (Inr _, s3) \<Rightarrow> (Inr (word_of_nat (length output)), s3))))"

definition abi_invoke ::
  "ext \<Rightarrow> json_text \<Rightarrow> codec_text \<Rightarrow> ('s, 'm, 'w) wasm_engine \<Rightarrow> ('s \<times> 'w, fn_response) service
     \<Rightarrow> i32 \<Rightarrow> i32 \<Rightarrow> 's \<times> 'w \<Rightarrow> (string + i32) \<times> ('s \<times> 'w)" where
  "abi_invoke X J T E handler ptr len sw =
     (if sint ptr < 0 \<or> sint len < 0 then (Inr (- 1), sw)
      else
        (case we_read E (fst sw) (nat (sint ptr)) (nat (sint len)) of
           Inl e \<Rightarrow> (Inl e, sw)
         | Inr input \<Rightarrow>
             (case abi_handle X J T handler input sw of
                (Inr res, (s1, w1)) \<Rightarrow>
                  (case abi_reply X J E (nat (sint ptr)) res s1 of (r, s2) \<Rightarrow> (r, (s2, w1)))
              | (Inl (Fails err), (s1, w1)) \<Rightarrow>
                  (case abi_reply X J E (nat (sint ptr)) (error_response J err) s1 of (r, s2) \<Rightarrow> (r, (s2, w1)))
              | (Inl (Panics e), sw1) \<Rightarrow> (Inl e, sw1))))"

text \<open>The \<open>invoke\<close> export the attribute \<open>#[runtime::main]\<close> generates around \<open>service\<close>.\<close>

definition main_invoke ::
  "ext \<Rightarrow> json_text \<Rightarrow> codec_text \<Rightarrow> ('s, 'm, 'w) wasm_engine \<Rightarrow> ('s \<times> 'w, reply) service
     \<Rightarrow> i32 \<Rightarrow> i32 \<Rightarrow> ('s \<times> 'w) registry \<times> 's \<times> 'w \<Rightarrow> (string + i32) \<times> (('s \<times> 'w) registry \<times> 's \<times> 'w)" where
  "main_invoke X J T E service ptr len = (\<lambda>(g, sw).
     let g' = (if rg_init g then g else (runtime_run J service g)\<lparr> rg_init := True \<rparr>) in
     case abi_invoke X J T E (call_handler g') ptr len sw of (r, sw') \<Rightarrow> (r, g', sw'))"

section \<open>What the export does\<close>

text \<open>The response of one call: the handler's, or the error page for its error.\<close>

definition answers ::
  "json_text \<Rightarrow> ('w, fn_response) service \<Rightarrow> fn_request \<Rightarrow> 'w \<Rightarrow> fn_response \<Rightarrow> 'w \<Rightarrow> bool" where
  "answers J handler req w res w' \<longleftrightarrow>
     handler req w = (Inr res, w') \<or> (\<exists>err. handler req w = (Inl (Fails err), w') \<and> res = error_response J err)"

lemma error_response_ok: "response_ok (error_response J err)"
  by (simp add: error_response_def Let_def with_body_def with_header_def with_status_def response_builder_def
      response_ok_def headers_ok_def utf8_valid_literal char_class_defs byte_def)

lemma abi_reply_ok:
  assumes "abi_reply X J E ptr res s = (Inr n, s')" and "0 \<le> sint n"
  obtains out s2 where "encode_response X J res = Inr out" "length out < 2 ^ 31"
    "n = word_of_nat (length out)" "we_write E ptr out s2 = (Inr (), s')"
  using assms by (auto simp: abi_reply_def split: sum.splits if_splits prod.splits)

lemma abi_invoke_ok:
  assumes "abi_invoke X J T E handler ptr len (s, w) = (Inr n, s', w')" and "0 \<le> sint n"
    and dec: "\<And>input. we_read E s (nat (sint ptr)) (nat (sint len)) = Inr input \<Longrightarrow> decode_request X J T input = Inr req"
  obtains s1 s2 res out where "answers J handler req (s, w) res (s1, w')" "encode_response X J res = Inr out"
    "length out < 2 ^ 31" "n = word_of_nat (length out)" "we_write E (nat (sint ptr)) out s2 = (Inr (), s')"
proof -
  have p: "\<not> (sint ptr < 0 \<or> sint len < 0)" using assms(1,2) by (auto simp: abi_invoke_def split: if_splits)
  then obtain input where rd: "we_read E s (nat (sint ptr)) (nat (sint len)) = Inr input"
    using assms(1) by (auto simp: abi_invoke_def split: sum.splits)
  have "abi_handle X J T handler input (s, w) = handler req (s, w)"
    using dec [OF rd] by (simp add: abi_handle_def)
  then obtain res s1 where *: "answers J handler req (s, w) res (s1, w')"
    "abi_reply X J E (nat (sint ptr)) res s1 = (Inr n, s')"
    using assms(1) p rd by (auto simp: abi_invoke_def answers_def split: sum.splits prod.splits rt_fault.splits)
  obtain out s2 where "encode_response X J res = Inr out" "length out < 2 ^ 31"
    "n = word_of_nat (length out)" "we_write E (nat (sint ptr)) out s2 = (Inr (), s')"
    using abi_reply_ok [OF *(2) assms(2)] by blast
  with *(1) that show thesis by blast
qed

section \<open>What a fetch reads\<close>

lemma envelope_read: "de_envelope (http_envelope X res) = Some (rsp_status res, b64_encode X (rsp_body res))"
  by (simp add: de_envelope_def http_envelope_def envelope_names_def de_u16_status)

lemma envelope_ok: "externals X \<Longrightarrow> json_ok (http_envelope X res)"
  by (simp add: http_envelope_def externals.b64_utf8) (simp add: utf8_valid_literal char_class_defs byte_def)

lemma read_envelope_back:
  assumes "externals X" and "json_codec J" and "jt_to_vec J (http_envelope X res) = Inr b"
  shows "read_envelope X J T b = Inr (from_parts (rsp_status res) [] (rsp_body res))"
proof -
  have "b64_decode X (b64_encode X (rsp_body res)) = Some (rsp_body res)"
    using assms(1) base64_codec.bdec_benc externals.axioms(3) by blast
  then show ?thesis
    using from_slice_as_read [OF assms(2) envelope_ok [OF assms(1)] assms(3), of de_envelope] envelope_read
    by (simp add: read_envelope_def)
qed

lemma sint_small: "n < 2 ^ 31 \<Longrightarrow> sint (word_of_nat n :: i32) = int n"
  by (simp add: signed_of_nat signed_take_bit_int_eq_self)

context guest_store
begin

lemma wasm_get_reads:
  assumes "externals X" and "json_codec J" and "we_read E s url_ptr (length url) = Inr url"
    and "url_ptr < 2 ^ 31" and "out_ptr < 2 ^ 31" and "length url < 2 ^ 31"
    and "wasm_get X J T E (http_get_host X J E client allow) url_ptr out_ptr url (s, w) = (Inr res, (s', w'))"
  shows "\<exists>r. client url allow w = (Inr r, w') \<and> res = from_parts (rsp_status r) [] (rsp_body r)"
proof -
  let ?host = "http_get_host X J E client allow"
  obtain written s1 w1 where h: "?host (word_of_nat url_ptr) (word_of_nat (length url)) (word_of_nat out_ptr)
      (word_of_nat OUT_CAP) (s, w) = (written, s1, w1)" by (metis prod_cases3)
  have w: "0 \<le> sint written" "s1 = s'" "w1 = w'"
    "\<exists>out. we_read E s' out_ptr (nat (sint written)) = Inr out \<and> read_envelope X J T out = Inr res"
    using assms(6,7) h by (auto simp: wasm_get_def split: if_splits sum.splits)
  from http_get_memory [OF h] w(1) obtain url' r envelope where g: "sint written = int (length envelope)"
    "url' = slice url_ptr (length url) (data s)" "client url' allow w = (Inr r, w1)"
    "jt_to_vec J (http_envelope X r) = Inr envelope" "out_ptr + length envelope \<le> length (data s)"
    "data s1 = patch out_ptr envelope (data s)"
    using sint_small assms(4,5,6) by fastforce
  have "url' = url" using assms(3) g(2) by (simp add: read_law)
  moreover have "read_envelope X J T envelope = Inr res"
    using w(2,4) g(1,5,6) by (auto simp: read_law)
  ultimately show ?thesis
    using g(3) w(3) read_envelope_back [OF assms(1,2) g(4), of T] by auto
qed

end

end
