(* ===== verification/Runtime_Properties.thy ===== *)
theory Runtime_Properties
  imports Guest_Runtime Runner_Properties
begin

text \<open>
  The properties of the wire between host and guest: round trips, what a guest reads of an
  outbound response, what the host reads of a guest's reply, and the futures that end.
\<close>

section \<open>Round trips\<close>

text \<open>
  Every request the host hands to a guest, whatever its method, path, headers and body,
  can be encoded, and the guest decodes exactly the same request.
\<close>

lemma request_roundtrip:
  assumes "externals X" and "json_codec J" and "request_ok req"
  shows "\<exists>b. encode_request X J req = Inr b \<and> decode_request X J T b = Inr req"
  using assms by (rule request_read_back)

definition demo_fn_request :: fn_request where
  "demo_fn_request = \<lparr> rq_method = ''POST'', rq_path = ''/invoke/echo'', rq_headers = [(''a'', ''b'')], rq_body = ''hi'' \<rparr>"

lemma demo_fn_request_ok: "request_ok demo_fn_request"
  by (simp add: demo_fn_request_def request_ok_def headers_ok_def utf8_valid_literal char_class_defs byte_def)

text \<open>
  The response a guest hands back is the one the host reads: whatever the status, the
  headers and the body, it can be encoded and decodes to the same response.
\<close>

lemma response_roundtrip:
  assumes "externals X" and "json_codec J" and "response_ok res"
  shows "\<exists>b. encode_response X J res = Inr b \<and> decode_response X J T b = Inr res"
  using response_encodes [OF assms] response_read_back [OF assms] by blast

section \<open>Outbound responses\<close>

text \<open>
  C36: What a guest gets from a fetch is what the host's client received: the status and the
  body, byte for byte, through the envelope in the guest's memory. It gets no headers.
\<close>

theorem guest_reads_what_host_fetched:
  assumes "guest_store E data" and "externals X" and "json_codec J"
    and "we_read E s url_ptr (length url) = Inr url" and "url_ptr < 2 ^ 31" and "out_ptr < 2 ^ 31"
    and "wasm_get X J T E (http_get_host X J E client allow) url_ptr out_ptr url (s, w) = (Inr res, (s', w'))"
  shows "\<exists>r. client url allow w = (Inr r, w') \<and> res = from_parts (rsp_status r) [] (rsp_body r)"
proof -
  have "length url < 2 ^ 31" using assms(7) by (auto simp: wasm_get_def split: if_splits)
  then show ?thesis using guest_store.wasm_get_reads [OF assms(1-6) _ assms(7)] by blast
qed

lemma demo_wasm_get:
  "\<exists>s' w'. wasm_get ref_ext ref_json_text ref_text ref_engine
     (http_get_host ref_ext ref_json_text ref_engine (ureq_get ref_agent) [a_io]) 0 100 ''https://a.io/x'' (demo_guest, w)
     = (Inr (from_parts 200 [] ''pong''), (s', w'))"
proof -
  let ?E = "ref_engine :: (ref_guest, bytes, ref_world) wasm_engine"
  let ?s' = "demo_guest\<lparr> rg_bytes := patch 100 demo_envelope (ref_data demo_guest) \<rparr>"
  have len: "length (ref_data demo_guest) = 65536" by (simp add: ref_data_length demo_guest_def)
  have rd: "we_read ?E demo_guest 0 14 = Inr ''https://a.io/x''" by (rule demo_guest_read)
  have u: "utf8_valid ''https://a.io/x''" by (rule utf8_valid_ascii) (auto simp: is_ascii_def byte_def)
  have wr: "we_write ?E 100 demo_envelope demo_guest = (Inr (), ?s')"
    by (simp add: ref_engine_def ref_mem_write_def len demo_envelope_length)
  have h: "http_get_host ref_ext ref_json_text ?E (ureq_get ref_agent) [a_io] 0 14 100 524288 (demo_guest, w)
      = (39, ?s', w\<lparr> rw_requests := ''https://a.io/x'' # rw_requests w \<rparr>)"
    using rd u wr by (simp add: http_get_host_def Let_def MAX_HTTP_URL_BYTES_def demo_fetch_url demo_envelope_length
        i32_of_len_def ref_engine_def)
  have d: "ref_data ?s' = patch 100 demo_envelope (ref_data demo_guest)"
    by (rule ref_data_patched) (simp add: len demo_envelope_length)
  then have "slice 100 39 (ref_data ?s') = demo_envelope"
    using slice_patch [of 100 "ref_data demo_guest" demo_envelope] len by (simp add: demo_envelope_length)
  then have r: "we_read ?E ?s' 100 39 = Inr demo_envelope"
    by (simp add: ref_engine.read_law d len demo_envelope_length)
  have "jt_to_vec ref_json_text (http_envelope ref_ext \<lparr> rsp_status = 200, rsp_body = ''pong'' \<rparr>) = Inr demo_envelope"
    by (simp add: ref_json_text_def demo_envelope_def)
  from read_envelope_back [OF ref_externals.externals_axioms ref_json_text.json_codec_axioms this, of ref_text]
  have "read_envelope ref_ext ref_json_text ref_text demo_envelope = Inr (from_parts 200 [] ''pong'')" by simp
  then show ?thesis
    using h r by (simp add: wasm_get_def OUT_CAP_def)
qed

theorem guest_reads_what_host_fetched_witness:
  "\<exists>r w'. ureq_get ref_agent ''https://a.io/x'' [a_io] demo_world = (Inr r, w') \<and> rsp_body r = ''pong''"
proof -
  obtain s' w' where run: "wasm_get ref_ext ref_json_text ref_text ref_engine
     (http_get_host ref_ext ref_json_text ref_engine (ureq_get ref_agent) [a_io]) 0 100 ''https://a.io/x'' (demo_guest, demo_world)
     = (Inr (from_parts 200 [] ''pong''), (s', w'))" using demo_wasm_get by blast
  have len: "length ''https://a.io/x'' = 14" by simp
  have rd: "we_read (ref_engine :: (ref_guest, bytes, ref_world) wasm_engine) demo_guest 0 (length ''https://a.io/x'')
      = Inr ''https://a.io/x''"
    unfolding len by (rule demo_guest_read)
  from guest_reads_what_host_fetched [OF ref_engine.guest_store_axioms ref_externals.externals_axioms
      ref_json_text.json_codec_axioms rd _ _ run]
  show ?thesis by (auto simp: from_parts_def)
qed

text \<open>
  The guest names every failure of a fetch as the host means it: the result codes of the two
  crates agree.
\<close>

lemma guest_names_host_errors:
  "map_host_code (http_error_code e) = Message
     (case e of HttpDenied \<Rightarrow> ''http_get: origin not allowed''
      | HttpTimeout \<Rightarrow> ''http_get: timeout''
      | HttpTooLarge \<Rightarrow> ''http_get: response too large''
      | HttpTransport _ \<Rightarrow> ''http_get: transport error'')
   \<and> map_host_code ERR_BAD_ARGS = Message ''http_get: bad arguments''"
  by (cases e) (simp_all add: map_host_code_def guest_codes error_codes)

section \<open>Futures\<close>

text \<open>
  \<open>block_on\<close> returns for every future whose pending polls make progress, and for an outbound
  request it returns after one poll with the result of the fetch.
\<close>

lemma block_on_returns:
  assumes "\<And>f w f' w'. poll f w = (Inr f', w') \<Longrightarrow> m f' < (m f :: nat)"
  shows "(\<exists>out w'. block_on poll f w = Some (out, w'))
    \<and> block_on (pending_poll fetch) (builder_send (client_get url)) v = Some (fetch url v)"
proof
  show "\<exists>out w'. block_on poll f w = Some (out, w')"
  proof (induction "m f" arbitrary: f w rule: less_induct)
    case less
    show ?case
    proof (cases "poll f w")
      case (Pair r w')
      show ?thesis
        using less assms Pair by (cases r) (simp_all add: block_on.simps [of poll f w])
    qed
  qed
  show "block_on (pending_poll fetch) (builder_send (client_get url)) v = Some (fetch url v)"
    by (simp add: block_on_pending builder_send_def client_get_def)
qed

section \<open>The registered handler\<close>

text \<open>
  The export registers its handler before its first request and never again: the first call
  and every later one run the ABI with the handler the function was built with, and no call
  finds the runtime uninitialised.
\<close>

lemma export_runs_its_handler:
  assumes "main_invoke X J T E service p n (registry_new, sw) = (r, g, sw1)"
  shows "abi_invoke X J T E (service_call J service) p n sw = (r, sw1)
    \<and> main_invoke X J T E service' p' n' (g, sw2)
        = (case abi_invoke X J T E (service_call J service) p' n' sw2 of (r', sw3) \<Rightarrow> (r', g, sw3))"
proof -
  have h: "call_handler \<lparr> rg_init = True, rg_slot = Some f \<rparr> = f" for f :: "('s \<times> 'w, fn_response) service"
    by (simp add: call_handler_def fun_eq_iff)
  from assms show ?thesis
    by (auto simp: main_invoke_def registry_new_def runtime_run_def h split: prod.splits)
qed

definition echo_service :: "('w, reply) service" where
  "echo_service req = ret (RBytes (rq_body req))"

section \<open>From the host's request to the host's response\<close>

text \<open>
  C37: For a guest built on the runtime, a run that returns has handed the guest exactly the
  request the host encoded, and the output decodes to the response of its handler for that
  request, or to the error page for the error the handler reported.
\<close>

theorem request_response_transparent:
  fixes R :: "('s, 'm, 'w) wasmtime_runner"
  assumes "guest_store (wr_engine R) data" and "externals X" and "json_codec J"
    and guest: "\<And>host p n sw k sw'. we_call (wr_engine R) host p n sw = (Inr k, sw') \<Longrightarrow>
        abi_invoke X J T (wr_engine R) (handler host) p n sw = (Inr k, sw')"
    and utf8: "\<And>host req sw res sw'. handler host req sw = (Inr res, sw') \<Longrightarrow> response_ok res"
    and "request_ok req" and "encode_request X J req = Inr payload"
    and "invoke_sync X J R m payload allow w = (Inr out, w')"
  shows "\<exists>res sw s. decode_response X J T out = Inr res
     \<and> answers J (handler (http_get_host X J (wr_engine R) (wr_http_client R) allow)) req sw res (s, w')"
proof -
  let ?E = "wr_engine R" and ?host = "http_get_host X J (wr_engine R) (wr_http_client R) allow"
  obtain s w1 n s1 k where g: "length payload \<le> MAX_INVOKE_BODY_BYTES" "slice 64 (length payload) (data s) = payload"
    "we_call ?E ?host 64 (word_of_nat (length payload)) (s, w1) = (Inr n, s1, w')"
    "0 \<le> sint n" "length out = nat (sint n)" "out = slice 64 (length out) (data s1 @ zeros k)"
    using guest_run_law [OF assms(1,8)] by blast
  have len: "sint (word_of_nat (length payload) :: i32) = int (length payload)" "sint (64 :: i32) = 64"
    using g(1) sint_small [of "length payload"] by (simp_all add: MAX_INVOKE_BODY_BYTES_def)
  have dec: "decode_request X J T input = Inr req"
    if "we_read ?E s (nat (sint (64 :: i32))) (nat (sint (word_of_nat (length payload) :: i32))) = Inr input" for input
  proof -
    have "input = payload" using that g(2) guest_store.read_law [OF assms(1)] by (simp add: len)
    then show ?thesis using request_read_back [OF assms(2,3,6), of T] assms(7) by auto
  qed
  obtain s2 s3 res b where a: "answers J (handler ?host) req (s, w1) res (s2, w')" "encode_response X J res = Inr b"
    "length b < 2 ^ 31" "n = word_of_nat (length b)" "we_write ?E (nat (sint (64 :: i32))) b s3 = (Inr (), s1)"
    by (rule abi_invoke_ok [OF guest [OF g(3)] g(4) dec]) 
  have "length out = length b" using a(3,4) g(5) by (simp add: sint_small)
  moreover have "data s1 = patch 64 b (data s3)" "64 + length b \<le> length (data s3)"
    using guest_store.write_law [OF assms(1) a(5)] len(2) by simp_all
  ultimately have "out = b" using g(6) by (simp add: slice_def patch_def)
  moreover have "response_ok res" using a(1) utf8 error_response_ok by (auto simp: answers_def)
  ultimately show ?thesis using a(1) response_read_back [OF assms(2,3) _ a(2)] by blast
qed

text \<open>The reference engine with a guest built on the runtime: its export runs a handler.\<close>

definition abi_engine :: "(ref_guest \<times> ref_world, fn_response) service \<Rightarrow> (ref_guest, bytes, ref_world) wasm_engine" where
  "abi_engine handler = ref_engine\<lparr> we_call := (\<lambda>host p n sw.
     case abi_invoke ref_ext ref_json_text ref_text ref_engine handler p n sw of
       (Inl e, sw') \<Rightarrow> (Inl \<lparr> er_trap = Some (OtherTrap e), er_text = e, er_sources = [] \<rparr>, sw')
     | (Inr k, sw') \<Rightarrow> (Inr k, sw')) \<rparr>"

abbreviation ref_engine_w :: "(ref_guest, bytes, ref_world) wasm_engine" where
  "ref_engine_w \<equiv> ref_engine"

lemma abi_engine_memory:
  "we_read (abi_engine h) = we_read ref_engine_w" "we_write (abi_engine h) = we_write ref_engine_w"
  "we_grow (abi_engine h) = we_grow ref_engine_w" "we_pages (abi_engine h) = we_pages ref_engine_w"
  by (simp_all add: abi_engine_def)

lemma abi_engine_same: "abi_invoke X J T (abi_engine h) = abi_invoke X J T ref_engine_w"
  unfolding abi_invoke_def [abs_def] abi_reply_def ensure_memory_def abi_engine_memory ..

lemma abi_engine_store: "guest_store (abi_engine h) ref_data"
  using ref_engine.guest_store_axioms unfolding guest_store_def abi_engine_memory .

lemma abi_engine_we_call:
  "we_call (abi_engine h) host p n sw =
     (case abi_invoke ref_ext ref_json_text ref_text ref_engine_w h p n sw of
        (Inl e, sw') \<Rightarrow> (Inl \<lparr> er_trap = Some (OtherTrap e), er_text = e, er_sources = [] \<rparr>, sw')
      | (Inr k, sw') \<Rightarrow> (Inr k, sw'))"
  by (simp add: abi_engine_def)

lemma abi_engine_call:
  "we_call (abi_engine h) host p n sw = (Inr k, sw') \<Longrightarrow>
     abi_invoke ref_ext ref_json_text ref_text (abi_engine h) h p n sw = (Inr k, sw')"
  by (auto simp: abi_engine_same abi_engine_we_call split: prod.splits sum.splits)

lemma abi_engine_read_output: "read_output (abi_engine h) = read_output ref_engine_w"
  unfolding read_output_def [abs_def] ensure_pages_def abi_engine_memory ..

definition echo_handler :: "('w, fn_response) service" where
  "echo_handler = service_call ref_json_text echo_service"

lemma echo_handler_run:
  "echo_handler req w = (Inr (from_parts 200 [(''content-type'', ''application/octet-stream'')] (rq_body req)), w)"
  by (simp add: echo_handler_def service_call_def echo_service_def bind_io_def)

definition demo_reply :: fn_response where
  "demo_reply = from_parts 200 [(''content-type'', ''application/octet-stream'')] ''hi''"

lemma demo_reply_ok: "response_ok demo_reply"
  by (simp add: demo_reply_def from_parts_def response_ok_def headers_ok_def utf8_valid_literal char_class_defs byte_def)

lemma demo_wire_lengths:
  "length (print_json (wire_request ref_ext demo_fn_request)) \<le> 1000"
  "length (print_json (wire_response ref_ext demo_reply)) \<le> 1000"
proof -
  have b: "b64_encode ref_ext ''hi'' = ''aGk=''"
    by (simp add: ref_ext_def b64_char_def b64_alphabet_def byte_def)
  have n: "show_nat 200 = ''200''" by code_simp
  show "length (print_json (wire_request ref_ext demo_fn_request)) \<le> 1000"
    "length (print_json (wire_response ref_ext demo_reply)) \<le> 1000"
    by (simp_all add: wire_request_def wire_response_def demo_fn_request_def demo_reply_def from_parts_def json_headers_def
        b n show_u64_def esc_char_def byte_def)
qed

lemma demo_reply_run:
  fixes b r :: bytes
  defines "b \<equiv> print_json (wire_request ref_ext demo_fn_request)"
    and "r \<equiv> print_json (wire_response ref_ext demo_reply)"
  shows "\<exists>s'. abi_invoke ref_ext ref_json_text ref_text ref_engine echo_handler 64 (word_of_nat (length b))
      (demo_loaded m b, w :: ref_world) = (Inr (word_of_nat (length r)), (s', w))
     \<and> rg_pages s' = 1 \<and> slice 64 (length r) (ref_data s') = r"
proof -
  let ?E = "ref_engine :: (ref_guest, bytes, ref_world) wasm_engine" and ?s = "demo_loaded m b"
  have len: "length b \<le> 1000" "length r \<le> 1000" using demo_wire_lengths by (simp_all add: b_def r_def)
  have d: "length (ref_data ?s) = 65536" by (simp add: ref_data_length demo_loaded_def)
  have small: "sint (word_of_nat (length b) :: i32) = int (length b)" using len(1) by (intro sint_small) simp
  have rd: "we_read ?E ?s 64 (length b) = Inr b"
    using len(1) by (simp add: ref_engine.read_law d loaded_data zeros_length)
  have "encode_request ref_ext ref_json_text demo_fn_request = Inr b"
    by (simp add: encode_request_def ref_json_text_def b_def)
  then have dec: "decode_request ref_ext ref_json_text ref_text b = Inr demo_fn_request"
    using request_read_back [OF ref_externals.externals_axioms ref_json_text.json_codec_axioms demo_fn_request_ok] by auto
  have enc: "encode_response ref_ext ref_json_text demo_reply = Inr r"
    by (simp add: encode_response_def ref_json_text_def r_def)
  have "(65599 + length r) div 65536 = 1" using len(2) by (intro div_nat_eqI) simp_all
  then have mem: "ensure_memory ?E (64 + length r) ?s = (Inr (), ?s)"
    using len(2) by (simp add: ensure_memory_def ref_engine_def Let_def demo_loaded_def)
  let ?s' = "?s\<lparr> rg_bytes := patch 64 r (ref_data ?s) \<rparr>"
  have wr: "we_write ?E 64 r ?s = (Inr (), ?s')"
    using len(2) by (simp add: ref_engine_def ref_mem_write_def d)
  have h: "abi_handle ref_ext ref_json_text ref_text echo_handler b (?s, w) = (Inr demo_reply, (?s, w))"
    by (simp add: abi_handle_def dec echo_handler_run demo_reply_def demo_fn_request_def)
  have data: "ref_data ?s' = patch 64 r (ref_data ?s)"
    using len(2) by (intro ref_data_patched) (simp add: d)
  have "abi_invoke ref_ext ref_json_text ref_text ref_engine echo_handler 64 (word_of_nat (length b)) (?s, w)
      = (Inr (word_of_nat (length r)), (?s', w))"
    using len(2) by (simp add: abi_invoke_def small rd h abi_reply_def enc mem wr)
  moreover have "rg_pages ?s' = 1" by (simp add: demo_loaded_def)
  moreover have "slice 64 (length r) (ref_data ?s') = r" unfolding data by (rule slice_patch) (simp add: d)
  ultimately show ?thesis by blast
qed

lemma demo_abi_invoke:
  "invoke_sync ref_ext ref_json_text (ref_runner\<lparr> wr_engine := abi_engine echo_handler \<rparr>) m
     (print_json (wire_request ref_ext demo_fn_request)) allow w
   = (Inr (print_json (wire_response ref_ext demo_reply)), w)"
proof -
  let ?E = "abi_engine echo_handler" and ?b = "print_json (wire_request ref_ext demo_fn_request)"
    and ?r = "print_json (wire_response ref_ext demo_reply)"
  obtain s' where s': "abi_invoke ref_ext ref_json_text ref_text ref_engine echo_handler 64 (word_of_nat (length ?b))
      (demo_loaded m ?b, w) = (Inr (word_of_nat (length ?r)), (s', w))" "rg_pages s' = 1" "slice 64 (length ?r) (ref_data s') = ?r"
    using demo_reply_run by blast
  have i: "i32_of_len (length ?b) = word_of_nat (length ?b)"
    using demo_wire_lengths(1) by (simp add: i32_of_len_def)
  have out: "read_output ?E (word_of_nat (length ?r)) (s', w) = (Inr ?r, s', w)"
    using ref_read_output [OF demo_wire_lengths(2) s'(2), of w] s'(3) by (simp add: abi_engine_read_output)
  show ?thesis
    using s'(1) out unfolding abi_engine_def
    by (simp add: ref_invoke_sync_call [OF demo_wire_lengths(1)] i)
qed

theorem request_response_transparent_witness:
  "\<exists>out. invoke_sync ref_ext ref_json_text (ref_runner\<lparr> wr_engine := abi_engine echo_handler \<rparr>) ''app''
       (print_json (wire_request ref_ext demo_fn_request)) [] demo_world = (Inr out, demo_world)
     \<and> decode_response ref_ext ref_json_text ref_text out = Inr demo_reply"
proof -
  let ?R = "ref_runner\<lparr> wr_engine := abi_engine echo_handler \<rparr>"
  have store: "guest_store (wr_engine ?R) ref_data" by (simp add: abi_engine_store)
  have call: "abi_invoke ref_ext ref_json_text ref_text (wr_engine ?R) echo_handler p n sw = (Inr k, sw')"
    if "we_call (wr_engine ?R) host p n sw = (Inr k, sw')" for host p n sw k sw'
    using that abi_engine_call by simp
  have utf8: "response_ok res" if "echo_handler req sw = (Inr res, sw')"
    for req :: fn_request and sw sw' :: "ref_guest \<times> ref_world" and res
    using that by (auto simp: echo_handler_run from_parts_def response_ok_def headers_ok_def utf8_valid_literal
        char_class_defs byte_def)
  have enc: "encode_request ref_ext ref_json_text demo_fn_request = Inr (print_json (wire_request ref_ext demo_fn_request))"
    by (simp add: encode_request_def ref_json_text_def)
  have "\<exists>res sw s. decode_response ref_ext ref_json_text ref_text (print_json (wire_response ref_ext demo_reply)) = Inr res
     \<and> answers ref_json_text echo_handler demo_fn_request sw res (s :: ref_guest, demo_world)"
    by (rule request_response_transparent [where handler = "\<lambda>_. echo_handler" and R = ?R, OF store
          ref_externals.externals_axioms ref_json_text.json_codec_axioms _ _ demo_fn_request_ok enc demo_abi_invoke])
      (erule call, erule utf8)
  then have "decode_response ref_ext ref_json_text ref_text (print_json (wire_response ref_ext demo_reply)) = Inr demo_reply"
    by (auto simp: answers_def echo_handler_run demo_reply_def demo_fn_request_def)
  then show ?thesis using demo_abi_invoke by blast
qed

end
