(* ===== verification/Headers.thy ===== *)
theory Headers
  imports Json External
begin

text \<open>
  The header maps of the \<open>http\<close> crate, which both HTTP servers and the command line client use.
  The crate is not part of the repository, so a map is a value of a parameter type with the
  operations the code calls; the locale \<open>header_map\<close> states their documented behaviour, and the
  last part is a reference instance. Names are in lower case, as the crate keeps them.
\<close>

record 'h header_lib =
  hl_empty :: 'h
  hl_get_all :: "'h \<Rightarrow> string \<Rightarrow> bytes list"
  hl_iter :: "'h \<Rightarrow> (string \<times> bytes) list"
  hl_insert :: "string \<Rightarrow> bytes \<Rightarrow> 'h \<Rightarrow> 'h"
  hl_append :: "string \<Rightarrow> bytes \<Rightarrow> 'h \<Rightarrow> 'h"
  hl_extend :: "'h \<Rightarrow> 'h \<Rightarrow> 'h"
  hl_name :: "string \<Rightarrow> string option"
  hl_value :: "string \<Rightarrow> bytes option"
  hl_to_str :: "bytes \<Rightarrow> string option"
  hl_error :: string

text \<open>\<open>get\<close> is the first value of a name; \<open>header_str\<close> is \<open>get(name).and_then(|v| v.to_str().ok())\<close>.\<close>

definition hl_get :: "'h header_lib \<Rightarrow> 'h \<Rightarrow> string \<Rightarrow> bytes option" where
  "hl_get H m name = (case hl_get_all H m name of [] \<Rightarrow> None | v # _ \<Rightarrow> Some v)"

definition header_str :: "'h header_lib \<Rightarrow> 'h \<Rightarrow> string \<Rightarrow> string option" where
  "header_str H m name = Option.bind (hl_get H m name) (hl_to_str H)"

locale header_map =
  fixes H :: "'h header_lib"
  assumes get_all_empty: "hl_get_all H (hl_empty H) name = []"
    and get_all_insert: "hl_get_all H (hl_insert H name v m) name' = (if name' = name then [v] else hl_get_all H m name')"
    and get_all_append: "hl_get_all H (hl_append H name v m) name' =
      (if name' = name then hl_get_all H m name @ [v] else hl_get_all H m name')"
    and get_all_extend: "hl_get_all H (hl_extend H m m2) name =
      (if hl_get_all H m2 name = [] then hl_get_all H m name else hl_get_all H m2 name)"
    and name_lower: "hl_name H s = Some n \<Longrightarrow> n = to_ascii_lowercase s"
    and value_graphic: "(\<And>c. c \<in> set s \<Longrightarrow> graphic c) \<Longrightarrow> hl_value H s = Some s"
    and str_graphic: "(\<And>c. c \<in> set s \<Longrightarrow> graphic c) \<Longrightarrow> hl_to_str H s = Some s"
begin

lemma get_insert: "hl_get H (hl_insert H name v m) name' = (if name' = name then Some v else hl_get H m name')"
  by (simp add: hl_get_def get_all_insert)

lemma str_insert:
  "(\<And>c. c \<in> set s \<Longrightarrow> graphic c) \<Longrightarrow> header_str H (hl_insert H name s m) name = Some s"
  by (simp add: header_str_def get_insert str_graphic)

lemma str_insert_other: "name' \<noteq> name \<Longrightarrow> header_str H (hl_insert H name v m) name' = header_str H m name'"
  by (simp add: header_str_def get_insert)

lemma str_extend: "header_str H m2 name = Some s \<Longrightarrow> header_str H (hl_extend H m m2) name = Some s"
  by (auto simp: header_str_def hl_get_def get_all_extend split: list.splits)

end

section \<open>A reference instance\<close>

text \<open>
  A list of names and values. A name is a non-empty word of graphic characters in any case; a
  value is printable, and is text when it is.
\<close>

definition ref_headers :: "(string \<times> bytes) list header_lib" where
  "ref_headers =
     \<lparr> hl_empty = [], hl_get_all = (\<lambda>m name. map snd (filter (\<lambda>(n, v). n = name) m)), hl_iter = (\<lambda>m. m),
       hl_insert = (\<lambda>name v m. filter (\<lambda>(n, _). n \<noteq> name) m @ [(name, v)]),
       hl_append = (\<lambda>name v m. m @ [(name, v)]),
       hl_extend = (\<lambda>m m2. filter (\<lambda>(n, _). n \<notin> fst ` set m2) m @ m2),
       hl_name = (\<lambda>s. if s \<noteq> [] \<and> list_all graphic s then Some (to_ascii_lowercase s) else None),
       hl_value = (\<lambda>s. if list_all (\<lambda>c. byte c \<ge> 32 \<and> byte c \<noteq> 127) s then Some s else None),
       hl_to_str = (\<lambda>v. if list_all (\<lambda>c. 32 \<le> byte c \<and> byte c < 127) v then Some v else None),
       hl_error = ''failed to parse header value'' \<rparr>"

lemma ref_get_all: "hl_get_all ref_headers m name = map snd (filter (\<lambda>(n, _). n = name) m)"
  by (simp add: ref_headers_def)

lemma ref_get_all_Nil: "hl_get_all ref_headers m name = [] \<longleftrightarrow> name \<notin> fst ` set m"
  by (force simp: ref_get_all filter_empty_conv)

lemma graphic_bounds: "graphic c \<Longrightarrow> 32 \<le> byte c \<and> byte c < 127"
  by (auto simp: graphic_def)

interpretation ref_headers: header_map ref_headers
proof unfold_locales
  show "hl_get_all ref_headers (hl_insert ref_headers name v m) name' =
      (if name' = name then [v] else hl_get_all ref_headers m name')" for name v m name'
    by (induction m) (auto simp: ref_headers_def)
  show "hl_get_all ref_headers (hl_append ref_headers name v m) name' =
      (if name' = name then hl_get_all ref_headers m name @ [v] else hl_get_all ref_headers m name')" for name v m name'
    by (simp add: ref_headers_def)
  show "hl_get_all ref_headers (hl_extend ref_headers m m2) name =
      (if hl_get_all ref_headers m2 name = [] then hl_get_all ref_headers m name else hl_get_all ref_headers m2 name)"
    for m m2 name
  proof -
    have "filter (\<lambda>(n, _). n = name) (filter (\<lambda>(n, _). n \<notin> fst ` set m2) m)
        = (if name \<in> fst ` set m2 then [] else filter (\<lambda>(n, _). n = name) m)"
      by (induction m) auto
    moreover have "hl_extend ref_headers m m2 = filter (\<lambda>(n, _). n \<notin> fst ` set m2) m @ m2"
      by (simp add: ref_headers_def)
    moreover have "name \<notin> fst ` set m2 \<Longrightarrow> filter (\<lambda>(n, _). n = name) m2 = []"
      by (force simp: filter_empty_conv)
    ultimately show ?thesis unfolding ref_get_all_Nil by (simp add: ref_get_all)
  qed
  show "(\<And>c. c \<in> set s \<Longrightarrow> graphic c) \<Longrightarrow> hl_value ref_headers s = Some s" for s
    using graphic_bounds by (fastforce simp: ref_headers_def list_all_iff)
  show "(\<And>c. c \<in> set s \<Longrightarrow> graphic c) \<Longrightarrow> hl_to_str ref_headers s = Some s" for s
    using graphic_bounds by (fastforce simp: ref_headers_def list_all_iff)
qed (auto simp: ref_headers_def split: if_splits)

section \<open>Answers\<close>

text \<open>
  An answer of a handler. \<open>axum\<close> makes one of a JSON body with its content type and status 200; a
  body that cannot be printed is answered with 500 and the printer's message. \<open>(status, Json(..))\<close>
  sets the status.
\<close>

record 'h http_answer =
  an_status :: nat
  an_headers :: 'h
  an_body :: bytes

definition axum_json :: "'h header_lib \<Rightarrow> json_text \<Rightarrow> json \<Rightarrow> 'h http_answer" where
  "axum_json H J j =
     (case jt_to_vec J j of
        Inr b \<Rightarrow> \<lparr> an_status = 200, an_headers = hl_insert H ''content-type'' ''application/json'' (hl_empty H), an_body = b \<rparr>
      | Inl e \<Rightarrow> \<lparr> an_status = 500, an_headers = hl_insert H ''content-type'' ''text/plain; charset=utf-8'' (hl_empty H), an_body = e \<rparr>)"

definition json_reply :: "'h header_lib \<Rightarrow> json_text \<Rightarrow> nat \<Rightarrow> json \<Rightarrow> 'h http_answer" where
  "json_reply H J status j = (axum_json H J j)\<lparr> an_status := status \<rparr>"

lemma json_reply_simps [simp]:
  "an_status (json_reply H J status j) = status"
  "jt_to_vec J j = Inr b \<Longrightarrow> an_body (json_reply H J status j) = b"
  "jt_to_vec J j = Inr b \<Longrightarrow> axum_json H J j = json_reply H J 200 j"
  by (simp_all add: json_reply_def axum_json_def)

text \<open>A client reads the body back.\<close>

lemma json_reply_read:
  "json_codec J \<Longrightarrow> json_ok j \<Longrightarrow> jt_from_slice J (an_body (json_reply H J status j)) = Inr j"
  using json_codec.to_vec_total [of J j] json_codec.from_to [of J j] by auto

end
