(* ===== verification/Host_Http.thy ===== *)
theory Host_Http
  imports Headers Wire Invoke
begin

text \<open>
  \<open>crates/host/src\<close>: the invoke handler (\<open>http.rs\<close>), the errors it answers with (\<open>error.rs\<close>),
  the attestors (\<open>attestor.rs\<close>) and the state they share (\<open>state.rs\<close>). Routing, the extraction of
  the path's name, headers and body, and the body limit before the handler are the server's: a
  handler is a function of those three, and its result is an answer or an error, which
  \<open>host_error_response\<close> turns into an answer.
\<close>

section \<open>Attestation\<close>

text \<open>\<open>hash (32) || sha256(body) (32)\<close>.\<close>

definition invoke_user_data :: "ext \<Rightarrow> content_hash \<Rightarrow> bytes \<Rightarrow> bytes" where
  "invoke_user_data X hash body =
     content_hash_bytes hash @ content_hash_bytes (content_hash_from_bytes X body)"

definition noop_attestor :: "'w function_attestor" where
  "noop_attestor user_data nonce = ret None"

text \<open>
  The crypto API: a client that posts a JSON document to a URL and gets a status and the bytes of
  the body, or the error of reading them, and the text of a status.
\<close>

record 'w crypto_client =
  cc_post :: "string \<Rightarrow> json \<Rightarrow> ('w, string, nat \<times> (string + bytes)) io"
  cc_status_text :: "nat \<Rightarrow> string"

definition NITRUM_CRYPTO_API :: string where "NITRUM_CRYPTO_API = ''http://127.0.0.1:3000''"

definition attest_request :: "ext \<Rightarrow> bytes \<Rightarrow> bytes \<Rightarrow> json" where
  "attest_request X nonce user_data =
     JObject [(''nonce'', JString (b64_encode X nonce)), (''userData'', JString (b64_encode X user_data))]"

definition de_attest_response :: "json \<Rightarrow> (string option \<times> string option) option" where
  "de_attest_response j =
     (case struct_fields [''data'', ''error''] j of
        Some [d, e] \<Rightarrow>
          (case (de_option de_string d, de_option de_string e) of (Some d, Some e) \<Rightarrow> Some (d, e) | _ \<Rightarrow> None)
      | _ \<Rightarrow> None)"

definition attest_document ::
  "ext \<Rightarrow> codec_text \<Rightarrow> 'w crypto_client \<Rightarrow> nat \<Rightarrow> string option \<times> string option \<Rightarrow> app_error + bytes option" where
  "attest_document X T C status parsed =
     (case parsed of (data, error) \<Rightarrow>
        if \<exists>err \<in> set_option error. err \<noteq> [] then Inl (Attestation (the error))
        else if \<not> (200 \<le> status \<and> status < 300) then
          Inl (Attestation (''crypto api status '' @ cc_status_text C status))
        else
          bind_r (ok_or (Attestation ''crypto api missing data'') data) (\<lambda>data.
          bind_r (ok_or (Attestation (''attestation base64: '' @ ct_base64 T (trim data))) (b64_decode X (trim data)))
            (\<lambda>doc. Inr (Some doc))))"

definition crypto_attest :: "ext \<Rightarrow> json_text \<Rightarrow> codec_text \<Rightarrow> 'w crypto_client \<Rightarrow> 'w function_attestor" where
  "crypto_attest X J T C user_data nonce =
     bind_io (map_err_io (\<lambda>e. Attestation (''crypto api: '' @ e))
       (cc_post C (NITRUM_CRYPTO_API @ ''/attestation'') (attest_request X nonce user_data))) (\<lambda>(status, body).
     bind_io (lift_r (map_err (\<lambda>e. Attestation (''decode crypto api: '' @ e))
       (bind_r body (from_slice_as J ''AttestResponse'' de_attest_response)))) (\<lambda>parsed.
     lift_r (attest_document X T C status parsed)))"

record 'w host_state =
  hs_invoke :: "'w paid_invoke"
  hs_attestor :: "'w function_attestor"

definition attest_invoke ::
  "ext \<Rightarrow> 'w host_state \<Rightarrow> content_hash \<Rightarrow> bytes \<Rightarrow> bytes \<Rightarrow> ('w, app_error, bytes option) io" where
  "attest_invoke X S hash body nonce = hs_attestor S (invoke_user_data X hash body) nonce"

section \<open>The handler\<close>

definition SHASUM_HEADER :: string where "SHASUM_HEADER = ''x-nitrum-fn-shasum''"
definition NONCE_HEADER :: string where "NONCE_HEADER = ''x-nitrum-fn-nonce''"
definition ATTESTATION_HEADER :: string where "ATTESTATION_HEADER = ''x-nitrum-fn-attestation''"

definition parse_nonce :: "ext \<Rightarrow> 'h header_lib \<Rightarrow> 'h \<Rightarrow> app_error + bytes option" where
  "parse_nonce X H headers =
     (case header_str H headers NONCE_HEADER of
        None \<Rightarrow> Inr None
      | Some raw \<Rightarrow>
          bind_r (ok_or (BadRequest ''invalid x-nitrum-fn-nonce (base64)'') (b64_decode X (trim raw))) (\<lambda>b.
          if 16 \<le> length b \<and> length b \<le> 32 then Inr (Some b)
          else Inl (BadRequest (''x-nitrum-fn-nonce must decode to 16..=32 bytes, got '' @ show_nat (length b)))))"

definition request_version :: "'h header_lib \<Rightarrow> 'h \<Rightarrow> app_error + version_label" where
  "request_version H headers =
     (case header_str H headers ''x-nitrum-fn-version'' of
        Some raw \<Rightarrow> map_err Domain (version_label_new raw)
      | None \<Rightarrow> Inr latest)"

text \<open>The headers the guest sees: those whose value is text.\<close>

definition fn_headers :: "'h header_lib \<Rightarrow> 'h \<Rightarrow> header_list" where
  "fn_headers H headers = List.map_filter (\<lambda>(k, v). map_option (Pair k) (hl_to_str H v)) (hl_iter H headers)"

definition invoke_bearer :: "'h header_lib \<Rightarrow> 'h \<Rightarrow> string option" where
  "invoke_bearer H headers =
     map_option trim (Option.bind (header_str H headers ''authorization'') (\<lambda>v. strip_prefix v ''Bearer ''))"

text \<open>The headers of the guest's answer that are headers.\<close>

definition guest_headers :: "'h header_lib \<Rightarrow> header_list \<Rightarrow> 'h" where
  "guest_headers H hs =
     foldl (\<lambda>m (name, v).
       case (hl_name H name, hl_value H v) of (Some n, Some v) \<Rightarrow> hl_insert H n v m | _ \<Rightarrow> m) (hl_empty H) hs"

text \<open>The checks before the use case runs: what it is called with, and the nonce.\<close>

definition host_request ::
  "ext \<Rightarrow> json_text \<Rightarrow> 'h header_lib \<Rightarrow> string \<Rightarrow> 'h \<Rightarrow> bytes \<Rightarrow> app_error + invoke_request \<times> bytes option" where
  "host_request X J H name headers body =
     bind_r (map_err Domain (function_id_new name)) (\<lambda>function.
     bind_r (request_version H headers) (\<lambda>version.
     bind_r (parse_nonce X H headers) (\<lambda>nonce.
     if length body > MAX_INVOKE_BODY_BYTES then
       Inl (PayloadTooLarge (''invoke body '' @ show_nat (length body) @ '' bytes exceeds max ''
         @ show_nat MAX_INVOKE_BODY_BYTES))
     else
       bind_r (map_err (\<lambda>e. Invoke (''encode request: '' @ show_rt_error e))
         (encode_request X J (request_new ''POST'' (''/invoke/'' @ name) (fn_headers H headers) body))) (\<lambda>payload.
       Inr (\<lparr> iq_function = function, iq_version = version, iq_payload = payload \<rparr>, nonce)))))"

definition status_of_u16 :: "u16 \<Rightarrow> nat" where
  "status_of_u16 s = (if 100 \<le> unat s \<and> unat s < 1000 then unat s else 500)"

text \<open>The attestation header, when a nonce was sent and the attestor made a document.\<close>

definition attest_header ::
  "ext \<Rightarrow> 'h header_lib \<Rightarrow> 'w host_state \<Rightarrow> content_hash \<Rightarrow> bytes \<Rightarrow> bytes option \<Rightarrow> 'h \<Rightarrow> ('w, app_error, 'h) io" where
  "attest_header X H S hash body nonce out =
     (case nonce of
        None \<Rightarrow> ret out
      | Some n \<Rightarrow>
          bind_io (attest_invoke X S hash body n) (\<lambda>r.
          case r of
            None \<Rightarrow> ret out
          | Some doc \<Rightarrow>
              bind_io (lift_r (ok_or (Invoke (''attestation header: '' @ hl_error H)) (hl_value H (b64_encode X doc)))) (\<lambda>v.
              ret (hl_insert H ATTESTATION_HEADER v out))))"

text \<open>A body of bytes is \<open>application/octet-stream\<close> unless the headers say otherwise.\<close>

definition bytes_reply :: "'h header_lib \<Rightarrow> nat \<Rightarrow> 'h \<Rightarrow> bytes \<Rightarrow> 'h http_answer" where
  "bytes_reply H status headers body =
     \<lparr> an_status = status,
       an_headers = hl_extend H (hl_insert H ''content-type'' ''application/octet-stream'' (hl_empty H)) headers,
       an_body = body \<rparr>"

definition host_reply ::
  "ext \<Rightarrow> json_text \<Rightarrow> codec_text \<Rightarrow> 'h header_lib \<Rightarrow> 'w host_state \<Rightarrow> bytes option \<Rightarrow> invoke_response
     \<Rightarrow> ('w, app_error, 'h http_answer) io" where
  "host_reply X J T H S nonce response =
     bind_io (lift_r (map_err (\<lambda>e. Invoke (''decode response: '' @ show_rt_error e))
       (decode_response X J T (ir_output response)))) (\<lambda>res.
     let out = guest_headers H (rs_headers res) in
     bind_io (lift_r (ok_or (Invoke (''hash header: '' @ hl_error H))
       (hl_value H (content_hash_to_hex X (ir_content_hash response))))) (\<lambda>v.
     bind_io (attest_header X H S (ir_content_hash response) (rs_body res) nonce (hl_insert H SHASUM_HEADER v out)) (\<lambda>out.
     ret (bytes_reply H (status_of_u16 (rs_status res)) out (rs_body res)))))"

definition host_invoke ::
  "ext \<Rightarrow> json_text \<Rightarrow> codec_text \<Rightarrow> 'h header_lib \<Rightarrow> 'w host_state \<Rightarrow> string \<Rightarrow> 'h \<Rightarrow> bytes
     \<Rightarrow> ('w, app_error, 'h http_answer) io" where
  "host_invoke X J T H S name headers body =
     bind_io (lift_r (host_request X J H name headers body)) (\<lambda>(req, nonce).
     bind_io (paid_execute X (hs_invoke S) (invoke_bearer H headers) req) (\<lambda>response.
     host_reply X J T H S nonce response))"

section \<open>Errors\<close>

definition error_body :: "string \<Rightarrow> json" where
  "error_body msg = JObject [(''error'', JString msg)]"

text \<open>\<open>spend_cap_remaining\<close> is left out when there is none.\<close>

definition credits_body :: "u64 \<Rightarrow> u64 \<Rightarrow> string \<Rightarrow> u64 option \<Rightarrow> json" where
  "credits_body cost balance url cap =
     JObject ([(''error'', JString ''insufficient invoke credits''), (''credit_cost'', JNumber (JPos cost)),
       (''balance'', JNumber (JPos balance)), (''credit_url'', JString url)]
       @ (case cap of Some n \<Rightarrow> [(''spend_cap_remaining'', JNumber (JPos n))] | None \<Rightarrow> []))"

fun host_status :: "app_error \<Rightarrow> nat" where
  "host_status (NotFound _) = 404"
| "host_status (ArtifactMissing _) = 404"
| "host_status (Conflict _) = 409"
| "host_status Unauthorized = 401"
| "host_status (Domain _) = 400"
| "host_status (HashMismatch _ _) = 400"
| "host_status (BadRequest _) = 400"
| "host_status (Compile _) = 400"
| "host_status (PayloadTooLarge _) = 413"
| "host_status (Timeout _) = 504"
| "host_status (Invoke _) = 500"
| "host_status (Trap _) = 500"
| "host_status (Storage _) = 500"
| "host_status (Attestation _) = 500"
| "host_status (DeployMinimum _ _ _) = 500"
| "host_status (PaymentChallenge _ _ _ _ _ _) = 500"
| "host_status (InsufficientCredits _ _ _ _) = 402"

definition host_error_response :: "'h header_lib \<Rightarrow> json_text \<Rightarrow> app_error \<Rightarrow> 'h http_answer" where
  "host_error_response H J e =
     json_reply H J (host_status e)
       (case e of
          InsufficientCredits cost balance url cap \<Rightarrow> credits_body cost balance url cap
        | _ \<Rightarrow> error_body (public_message e))"

text \<open>What the server sends.\<close>

definition host_serve ::
  "ext \<Rightarrow> json_text \<Rightarrow> codec_text \<Rightarrow> 'h header_lib \<Rightarrow> 'w host_state \<Rightarrow> string \<Rightarrow> 'h \<Rightarrow> bytes \<Rightarrow> 'w \<Rightarrow> 'h http_answer \<times> 'w" where
  "host_serve X J T H S name headers body w =
     (case host_invoke X J T H S name headers body w of
        (Inr reply, w') \<Rightarrow> (reply, w')
      | (Inl e, w') \<Rightarrow> (host_error_response H J e, w'))"

end
