(* ===== verification/Host_Properties.thy ===== *)
theory Host_Properties
  imports Host_Http Invoke_Properties
begin

text \<open>
  What the invoke endpoint promises: the hash header and the attestation are about the module that
  ran and the body that is sent, whatever the guest puts into its headers; a malformed request
  costs nothing; an internal error is not shown.
\<close>

section \<open>What an answer is about\<close>

lemma host_invoke_Inr:
  assumes "host_invoke X J T H S name headers body w = (Inr reply, w')"
  obtains req nonce response w1 res v out where
    "host_request X J H name headers body = Inr (req, nonce)"
    "paid_execute X (hs_invoke S) (invoke_bearer H headers) req w = (Inr response, w1)"
    "decode_response X J T (ir_output response) = Inr res"
    "hl_value H (content_hash_to_hex X (ir_content_hash response)) = Some v"
    "attest_header X H S (ir_content_hash response) (rs_body res) nonce
       (hl_insert H SHASUM_HEADER v (guest_headers H (rs_headers res))) w1 = (Inr out, w')"
    "reply = bytes_reply H (status_of_u16 (rs_status res)) out (rs_body res)"
  using assms unfolding host_invoke_def host_reply_def Let_def
  by (auto simp: bind_io_Inr_iff map_err_Inr_iff split: prod.splits)

lemma host_request_nonce:
  "host_request X J H name headers body = Inr (req, nonce) \<Longrightarrow> parse_nonce X H headers = Inr nonce"
  by (auto simp: host_request_def bind_r_Inr_iff split: if_splits)

lemma parse_nonce_bounds: "parse_nonce X H headers = Inr (Some n) \<Longrightarrow> 16 \<le> length n \<and> length n \<le> 32"
  by (auto simp: parse_nonce_def bind_r_Inr_iff split: option.splits if_splits)

context externals
begin

lemma hex_header: "header_map H \<Longrightarrow> hl_value H (content_hash_to_hex X h) = Some (content_hash_to_hex X h)"
  using henc_graphic by (intro header_map.value_graphic) (auto simp: content_hash_to_hex_def)

lemma hex_header_read:
  "header_map H \<Longrightarrow> header_str H (hl_insert H name (content_hash_to_hex X h) m) name = Some (content_hash_to_hex X h)"
  using henc_graphic by (intro header_map.str_insert) (auto simp: content_hash_to_hex_def)

lemma b64_header: "header_map H \<Longrightarrow> hl_value H (b64_encode X b) = Some (b64_encode X b)"
  by (metis header_map.value_graphic benc_chars)

lemma b64_header_read: "header_map H \<Longrightarrow> header_str H (hl_insert H name (b64_encode X b) m) name = Some (b64_encode X b)"
  by (metis header_map.str_insert benc_chars)

lemma attest_header_some:
  assumes "header_map H" and "attest_header X H S h body (Some n) out w = (Inr out', w')"
  obtains r where "attest_invoke X S h body n w = (Inr r, w')"
    "out' = (case r of None \<Rightarrow> out | Some doc \<Rightarrow> hl_insert H ATTESTATION_HEADER (b64_encode X doc) out)"
  using assms by (auto simp: attest_header_def bind_io_Inr_iff b64_header split: option.splits)

end

lemma header_names_distinct: "SHASUM_HEADER \<noteq> ATTESTATION_HEADER" "ATTESTATION_HEADER \<noteq> SHASUM_HEADER"
  by (simp_all add: SHASUM_HEADER_def ATTESTATION_HEADER_def)

text \<open>What a successful answer is about, the conclusion of the theorem below.\<close>

definition answers_for ::
  "ext \<Rightarrow> 'h header_lib \<Rightarrow> 'w host_state \<Rightarrow> bytes option \<Rightarrow> invoke_response \<Rightarrow> 'w \<Rightarrow> 'h http_answer \<Rightarrow> 'w \<Rightarrow> bool" where
  "answers_for X H S nonce response w1 reply w' \<longleftrightarrow>
     header_str H (an_headers reply) SHASUM_HEADER = Some (content_hash_to_hex X (ir_content_hash response))
     \<and> (case nonce of
          None \<Rightarrow> w' = w1
        | Some n \<Rightarrow> 16 \<le> length n \<and> length n \<le> 32
            \<and> (\<exists>r. hs_attestor S (content_hash_bytes (ir_content_hash response) @ sha256 X (an_body reply)) n w1 = (Inr r, w')
                 \<and> (case r of
                      None \<Rightarrow> True
                    | Some doc \<Rightarrow> header_str H (an_headers reply) ATTESTATION_HEADER = Some (b64_encode X doc))))"

text \<open>
  The rest of a successful answer: the status and body are the guest's, and with no document the
  attestation header is whatever the guest put there, if it put one.
\<close>

definition guest_part ::
  "ext \<Rightarrow> 'h header_lib \<Rightarrow> 'w host_state \<Rightarrow> bytes option \<Rightarrow> invoke_response \<Rightarrow> fn_response \<Rightarrow> 'w \<Rightarrow> 'h http_answer \<Rightarrow> 'w \<Rightarrow> bool" where
  "guest_part X H S nonce response res w1 reply w' \<longleftrightarrow>
     an_status reply = status_of_u16 (rs_status res) \<and> an_body reply = rs_body res
     \<and> hl_get_all H (an_headers reply) SHASUM_HEADER = [content_hash_to_hex X (ir_content_hash response)]
     \<and> (\<exists>doc. (case nonce of
                None \<Rightarrow> doc = None \<and> w' = w1
              | Some n \<Rightarrow> hs_attestor S (content_hash_bytes (ir_content_hash response) @ sha256 X (rs_body res)) n w1
                            = (Inr doc, w'))
          \<and> hl_get_all H (an_headers reply) ATTESTATION_HEADER =
              (case doc of
                 Some d \<Rightarrow> [b64_encode X d]
               | None \<Rightarrow> hl_get_all H (guest_headers H (rs_headers res)) ATTESTATION_HEADER))"

lemma sent_headers:
  assumes "header_map H" and "name \<noteq> ''content-type''"
  shows "hl_get_all H (an_headers (bytes_reply H st out b)) name = hl_get_all H out name"
  using assms(2) by (auto simp: bytes_reply_def header_map.get_all_extend [OF assms(1)]
      header_map.get_all_insert [OF assms(1)] header_map.get_all_empty [OF assms(1)])

lemma host_answer_full:
  assumes "externals X" and "header_map H" and "host_invoke X J T H S name headers body w = (Inr reply, w')"
  shows "\<exists>req nonce response w1 res. host_request X J H name headers body = Inr (req, nonce)
     \<and> paid_execute X (hs_invoke S) (invoke_bearer H headers) req w = (Inr response, w1)
     \<and> decode_response X J T (ir_output response) = Inr res
     \<and> answers_for X H S nonce response w1 reply w' \<and> guest_part X H S nonce response res w1 reply w'"
proof -
  obtain req nonce response w1 res v out where
    req: "host_request X J H name headers body = Inr (req, nonce)"
    and run: "paid_execute X (hs_invoke S) (invoke_bearer H headers) req w = (Inr response, w1)"
    and dec: "decode_response X J T (ir_output response) = Inr res"
    and v: "hl_value H (content_hash_to_hex X (ir_content_hash response)) = Some v"
    and att: "attest_header X H S (ir_content_hash response) (rs_body res) nonce
       (hl_insert H SHASUM_HEADER v (guest_headers H (rs_headers res))) w1 = (Inr out, w')"
    and reply: "reply = bytes_reply H (status_of_u16 (rs_status res)) out (rs_body res)"
    by (rule host_invoke_Inr [OF assms(3)])
  let ?h = "ir_content_hash response" and ?m = "guest_headers H (rs_headers res)"
  have v: "v = content_hash_to_hex X ?h" using v externals.hex_header [OF assms(1,2)] by simp
  have sha: "header_str H (hl_insert H SHASUM_HEADER v ?m) SHASUM_HEADER = Some (content_hash_to_hex X ?h)"
    unfolding v by (rule externals.hex_header_read [OF assms(1,2)])
  have sent: "header_str H (an_headers reply) k = Some s" if "header_str H out k = Some s" for k s
    using header_map.str_extend [OF assms(2) that] by (simp add: reply bytes_reply_def)
  have body: "an_body reply = rs_body res" by (simp add: reply bytes_reply_def)
  have other: "SHASUM_HEADER \<noteq> ''content-type''" "ATTESTATION_HEADER \<noteq> ''content-type''"
    by (simp_all add: SHASUM_HEADER_def ATTESTATION_HEADER_def)
  note got = sent_headers [OF assms(2) other(1)] sent_headers [OF assms(2) other(2)]
    header_map.get_all_insert [OF assms(2)] header_names_distinct
  have "answers_for X H S nonce response w1 reply w' \<and> guest_part X H S nonce response res w1 reply w'"
  proof (cases nonce)
    case None
    then have out: "out = hl_insert H SHASUM_HEADER v ?m" "w' = w1" using att by (auto simp: attest_header_def)
    with None sha sent have "answers_for X H S nonce response w1 reply w'" by (simp add: answers_for_def)
    moreover have "guest_part X H S nonce response res w1 reply w'"
      using None out body by (simp add: guest_part_def reply got v) (simp add: bytes_reply_def)
    ultimately show ?thesis ..
  next
    case (Some n)
    have len: "16 \<le> length n \<and> length n \<le> 32"
      using host_request_nonce [OF req] Some by (auto dest: parse_nonce_bounds)
    obtain r where r: "attest_invoke X S ?h (rs_body res) n w1 = (Inr r, w')"
      "out = (case r of None \<Rightarrow> hl_insert H SHASUM_HEADER v ?m
              | Some doc \<Rightarrow> hl_insert H ATTESTATION_HEADER (b64_encode X doc) (hl_insert H SHASUM_HEADER v ?m))"
      by (rule externals.attest_header_some [OF assms(1,2) att [unfolded Some]])
    have "header_str H out SHASUM_HEADER = Some (content_hash_to_hex X ?h)"
      using sha by (simp add: r(2) header_map.str_insert_other [OF assms(2)] header_names_distinct split: option.split)
    moreover have "header_str H out ATTESTATION_HEADER = Some (b64_encode X doc)" if "r = Some doc" for doc
      using that by (simp add: r(2) externals.b64_header_read [OF assms(1,2)])
    ultimately have "answers_for X H S nonce response w1 reply w'"
      using Some len r(1) sent body
      by (auto simp: answers_for_def attest_invoke_def invoke_user_data_def content_hash_from_bytes_def split: option.split)
    moreover have "guest_part X H S nonce response res w1 reply w'"
      unfolding guest_part_def
    proof (intro conjI exI [of _ r])
      show "case nonce of None \<Rightarrow> r = None \<and> w' = w1
        | Some n \<Rightarrow> hs_attestor S (content_hash_bytes ?h @ sha256 X (rs_body res)) n w1 = (Inr r, w')"
        using Some r(1) by (simp add: attest_invoke_def invoke_user_data_def content_hash_from_bytes_def)
    qed (auto simp: reply got r(2) v split: option.split, simp_all add: bytes_reply_def)
    ultimately show ?thesis ..
  qed
  with req run dec show ?thesis by blast
qed

lemma host_answer_bound:
  assumes "externals X" and "header_map H" and "host_invoke X J T H S name headers body w = (Inr reply, w')"
  shows "\<exists>req nonce response w1. host_request X J H name headers body = Inr (req, nonce)
     \<and> paid_execute X (hs_invoke S) (invoke_bearer H headers) req w = (Inr response, w1)
     \<and> answers_for X H S nonce response w1 reply w'"
  using host_answer_full [OF assms] by blast

section \<open>A concrete endpoint\<close>

text \<open>
  The demo account and catalog of the reference world with a guest that always answers \<open>hi\<close>, tries
  to set the hash header itself, and an attestor whose document is its arguments.
\<close>

definition hi_response :: fn_response where
  "hi_response = from_parts 200 [(SHASUM_HEADER, ''forged'')] ''hi''"

definition hi_runner :: "ref_world function_runner" where
  "hi_runner = \<lparr> fr_validate = (\<lambda>_. ret ()),
     fr_run = (\<lambda>_ _ _ _. ret \<lparr> ro_output = print_json (wire_response ref_ext hi_response) \<rparr>) \<rparr>"

definition demo_host :: "ref_world host_state" where
  "demo_host = \<lparr> hs_invoke = ref_paid\<lparr> pi_invoke := ref_invoke\<lparr> if_runner := hi_runner \<rparr> \<rparr>,
     hs_attestor = (\<lambda>user_data nonce. ret (Some (user_data @ nonce))) \<rparr>"

definition demo_nonce :: bytes where "demo_nonce = replicate 16 (CHR ''n'')"

definition demo_headers :: "(string \<times> bytes) list" where
  "demo_headers = [(''authorization'', ''Bearer '' @ as_str demo_secret), (NONCE_HEADER, b64_encode ref_ext demo_nonce)]"

lemma demo_secret_graphic: "c \<in> set (as_str demo_secret) \<Longrightarrow> graphic c"
  by (auto simp: demo_secret_def SECRET_PREFIX_def graphic_def byte_def)

lemma ref_header_str: "header_str ref_headers m name =
    (case filter (\<lambda>(n, _). n = name) m of [] \<Rightarrow> None | (_, v) # _ \<Rightarrow> hl_to_str ref_headers v)"
  by (auto simp: header_str_def hl_get_def ref_get_all split: list.split)

lemma demo_header_values:
  "invoke_bearer ref_headers demo_headers = Some (as_str demo_secret)"
  "parse_nonce ref_ext ref_headers demo_headers = Inr (Some demo_nonce)"
  "request_version ref_headers demo_headers = Inr latest"
proof -
  have g: "graphic c" if "c \<in> set (''Bearer'' @ as_str demo_secret)" for c
    using that demo_secret_graphic by (auto simp: graphic_def byte_def)
  have "hl_to_str ref_headers (''Bearer '' @ as_str demo_secret) = Some (''Bearer '' @ as_str demo_secret)"
    using demo_secret_graphic graphic_bounds by (force simp: ref_headers_def list_all_iff byte_def)
  then show "invoke_bearer ref_headers demo_headers = Some (as_str demo_secret)"
    using strip_prefix_append [of "''Bearer ''" "as_str demo_secret"] trim_graphic demo_secret_graphic
    by (simp add: invoke_bearer_def ref_header_str demo_headers_def)
  have "hl_to_str ref_headers (b64_encode ref_ext demo_nonce) = Some (b64_encode ref_ext demo_nonce)"
    by (metis ref_headers.str_graphic ref_externals.benc_chars)
  then show "parse_nonce ref_ext ref_headers demo_headers = Inr (Some demo_nonce)"
    by (simp add: parse_nonce_def ref_header_str demo_headers_def NONCE_HEADER_def ref_externals.bdec_benc) (simp add: demo_nonce_def)
  show "request_version ref_headers demo_headers = Inr latest"
    by (simp add: request_version_def ref_header_str demo_headers_def NONCE_HEADER_def)
qed

lemma hi_paid_invoke:
  "\<exists>w'. paid_execute ref_ext (hs_invoke demo_host) (Some (as_str demo_secret)) (demo_request b) demo_world =
     (Inr \<lparr> ir_output = print_json (wire_response ref_ext hi_response), ir_content_hash = fv_content_hash echo_version \<rparr>, w')"
proof -
  obtain w1 where d: "rd_faults w1 = []" "shop w1 = shop demo_world" "store_debit ref_ext ref_store demo_hash 3 demo_world =
     (Inr \<lparr> dr_secret_hash = demo_hash, dr_account_id = acc_id demo_account, dr_cost = 3, dr_capped = True \<rparr>, w1)"
    using demo_debit_shop by blast
  have v: "fv_id echo_version = FunctionId ''echo''" "fv_content_hash echo_version = content_hash_from_bytes ref_ext ''echo''"
    by (simp_all add: echo_version_def)
  have r: "catalog_resolve ref_ext ref_catalog (FunctionId ''echo'') latest w1 = (Inr echo_version, w1)"
    using demo_resolve [of w1 echo_version] d(1,2) v(1) by simp
  have a: "s3_get ref_ext ref_artifacts (content_hash_from_bytes ref_ext ''echo'') w1 = (Inr ''echo'', w1)"
    using demo_artifact [of w1 "''echo''"] d(2) by simp
  let ?I = "ref_invoke\<lparr> if_runner := hi_runner \<rparr>"
  have "iq_function (demo_request b) = FunctionId ''echo''" "iq_version (demo_request b) = latest"
    by (simp_all add: demo_request_def)
  with r a have i: "invoke_execute ?I (demo_request b) w1 = (Inr \<lparr> ir_output = print_json (wire_response ref_ext hi_response),
      ir_content_hash = fv_content_hash echo_version \<rparr>, w1)"
    by (simp add: invoke_execute_def bind_io_def v(2) hi_runner_def Let_def)
  have s: "st_debit (pi_accounts (hs_invoke demo_host)) = store_debit ref_ext ref_store" "pi_cost (hs_invoke demo_host) = 3"
    "pi_invoke (hs_invoke demo_host) = ?I" "3 \<noteq> (0 :: u64)"
    by (simp_all add: demo_host_def dynamo_account_store_def)
  show ?thesis
    by (simp only: paid_execute_def demo_presented option.case s if_False)
      (simp add: s demo_hash_def [symmetric] bind_io_def map_err_io_def d(3) run_or_refund_def match_io_def i)
qed

lemma demo_host_request:
  "\<exists>b. host_request ref_ext ref_json_text ref_headers ''echo'' demo_headers ''in'' = Inr (demo_request b, Some demo_nonce)"
proof -
  have "function_id_new ''echo'' = Inr (FunctionId ''echo'')"
    by (simp add: function_id_new_def char_class_defs byte_def)
  then show ?thesis
    by (simp add: host_request_def demo_header_values MAX_INVOKE_BODY_BYTES_def encode_request_def ref_json_text_def demo_request_def)
qed

lemma hi_response_ok: "response_ok hi_response"
  by (simp add: hi_response_def from_parts_def response_ok_def headers_ok_def utf8_valid_literal SHASUM_HEADER_def
      char_class_defs byte_def)

lemma demo_host_answers:
  "\<exists>reply w'. host_invoke ref_ext ref_json_text ref_text ref_headers demo_host ''echo'' demo_headers ''in'' demo_world
     = (Inr reply, w') \<and> an_status reply = 200 \<and> an_body reply = ''hi''"
proof -
  obtain b where b: "host_request ref_ext ref_json_text ref_headers ''echo'' demo_headers ''in''
      = Inr (demo_request b, Some demo_nonce)" using demo_host_request by blast
  obtain w1 where p: "paid_execute ref_ext (hs_invoke demo_host) (Some (as_str demo_secret)) (demo_request b) demo_world =
     (Inr \<lparr> ir_output = print_json (wire_response ref_ext hi_response), ir_content_hash = fv_content_hash echo_version \<rparr>, w1)"
    using hi_paid_invoke by blast
  have dec: "decode_response ref_ext ref_json_text ref_text (print_json (wire_response ref_ext hi_response)) = Inr hi_response"
    by (rule response_read_back [OF ref_externals.externals_axioms ref_json_text.json_codec_axioms hi_response_ok])
      (simp add: encode_response_def ref_json_text_def)
  have s: "rs_status hi_response = 200" "rs_body hi_response = ''hi''" by (simp_all add: hi_response_def from_parts_def)
  have att: "attest_invoke ref_ext demo_host h bd n w = (Inr (Some (invoke_user_data ref_ext h bd @ n)), w)" for h bd n w
    by (simp add: attest_invoke_def demo_host_def)
  show ?thesis
    by (simp add: host_invoke_def b bind_io_def demo_header_values p host_reply_def dec Let_def
        ref_externals.hex_header [OF ref_headers.header_map_axioms] attest_header_def att
        ref_externals.b64_header [OF ref_headers.header_map_axioms] bytes_reply_def s status_of_u16_def)
qed

section \<open>The attested answer\<close>

text \<open>
  C8: An answer of the invoke endpoint has the status and body the guest's response decodes to, and
  exactly one hash header, the hash of the module that ran, whatever headers the guest set. When the
  client sent a nonce, it has 16 to 32 bytes, and the attestor was asked for a document over exactly
  that hash, the digest of the body that is sent, and the nonce; a document it made is the one and only
  attestation header. Without a nonce, or when the attestor makes no document, nothing is attested, and
  the attestation headers of the answer are exactly those the guest set, if it set any.
\<close>

theorem attested_answer:
  assumes "externals X" and "header_map H" and "host_serve X J T H S name headers body w = (reply, w')"
    and "host_invoke X J T H S name headers body w = (Inr out, w'')"
  shows "\<exists>req nonce response w1 res. host_request X J H name headers body = Inr (req, nonce)
     \<and> paid_execute X (hs_invoke S) (invoke_bearer H headers) req w = (Inr response, w1)
     \<and> decode_response X J T (ir_output response) = Inr res
     \<and> answers_for X H S nonce response w1 reply w' \<and> guest_part X H S nonce response res w1 reply w'"
  using host_answer_full [OF assms(1,2,4)] assms(3,4) by (simp add: host_serve_def)

theorem attested_answer_witness:
  "\<exists>reply w'. host_serve ref_ext ref_json_text ref_text ref_headers demo_host ''echo'' demo_headers ''in'' demo_world = (reply, w')
     \<and> an_status reply = 200 \<and> an_body reply = ''hi''
     \<and> header_str ref_headers (an_headers reply) SHASUM_HEADER = Some (content_hash_to_hex ref_ext (fv_content_hash echo_version))
     \<and> header_str ref_headers (an_headers reply) ATTESTATION_HEADER
         = Some (b64_encode ref_ext (invoke_user_data ref_ext (fv_content_hash echo_version) ''hi'' @ demo_nonce))"
proof -
  obtain reply w' where h: "host_invoke ref_ext ref_json_text ref_text ref_headers demo_host ''echo'' demo_headers ''in'' demo_world
     = (Inr reply, w')" "an_status reply = 200" "an_body reply = ''hi''"
    using demo_host_answers by blast
  have serve: "host_serve ref_ext ref_json_text ref_text ref_headers demo_host ''echo'' demo_headers ''in'' demo_world = (reply, w')"
    by (simp add: host_serve_def h(1))
  obtain req nonce response w1 where a:
    "host_request ref_ext ref_json_text ref_headers ''echo'' demo_headers ''in'' = Inr (req, nonce)"
    "paid_execute ref_ext (hs_invoke demo_host) (invoke_bearer ref_headers demo_headers) req demo_world = (Inr response, w1)"
    "answers_for ref_ext ref_headers demo_host nonce response w1 reply w'"
    using attested_answer [OF ref_externals.externals_axioms ref_headers.header_map_axioms serve h(1)] by blast
  obtain b where "req = demo_request b" and n: "nonce = Some demo_nonce" using demo_host_request a(1) by auto
  then have "ir_content_hash response = fv_content_hash echo_version"
    using a(2) hi_paid_invoke [of b] by (auto simp: demo_header_values)
  with a(3) serve h show ?thesis
    by (auto simp: answers_for_def n demo_host_def invoke_user_data_def content_hash_from_bytes_def)
qed

section \<open>What a refused request costs\<close>

lemma parse_nonce_bad: "parse_nonce X H headers = Inl e \<Longrightarrow> host_status e = 400"
  by (auto simp: parse_nonce_def bind_r_Inl_iff ok_or_Inl_iff split: option.splits if_splits)

lemma request_version_bad: "request_version H headers = Inl e \<Longrightarrow> host_status e = 400"
  by (auto simp: request_version_def map_err_Inl_iff split: option.splits)

lemma host_request_bad:
  assumes "externals X" and "json_codec J" and "utf8_valid name" and "headers_ok (fn_headers H headers)"
    and "host_request X J H name headers body = Inl e"
  shows "host_status e \<in> {400, 413}"
proof -
  have "utf8_valid ''/invoke/''" by (simp add: utf8_valid_literal char_class_defs byte_def)
  then have "utf8_valid (''/invoke/'' @ name)" using assms(3) by (rule utf8_valid_append)
  then have ok: "request_ok (request_new ''POST'' (''/invoke/'' @ name) (fn_headers H headers) body)"
    using assms(4) utf8_valid_literal [of "''POST''"] by (simp add: request_ok_def request_new_def char_class_defs byte_def)
  obtain b where "encode_request X J (request_new ''POST'' (''/invoke/'' @ name) (fn_headers H headers) body) = Inr b"
    using request_read_back [OF assms(1,2) ok] by blast
  with assms(5) show ?thesis
    by (auto simp: host_request_def bind_r_Inl_iff map_err_Inl_iff Let_def
        dest: parse_nonce_bad request_version_bad split: if_splits)
qed

text \<open>
  C38: A request whose name, version or nonce is malformed, or whose body is over the limit, is
  refused with 400 or 413 before anything is debited: the ledger, the catalog and every other
  service are left alone.
\<close>

theorem refused_request_costs_nothing:
  assumes "externals X" and "json_codec J" and "utf8_valid name" and "headers_ok (fn_headers H headers)"
    and "(\<forall>f. function_id_new name \<noteq> Inr f) \<or> (\<forall>v. request_version H headers \<noteq> Inr v)
      \<or> (\<forall>n. parse_nonce X H headers \<noteq> Inr n) \<or> MAX_INVOKE_BODY_BYTES < length body"
  shows "\<exists>reply. host_serve X J T H S name headers body w = (reply, w) \<and> an_status reply \<in> {400, 413}"
proof -
  obtain e where e: "host_request X J H name headers body = Inl e"
    using assms(5) by (cases "host_request X J H name headers body")
      (auto simp: host_request_def bind_r_Inr_iff split: if_splits)
  then have "host_serve X J T H S name headers body w = (host_error_response H J e, w)"
    by (simp add: host_serve_def host_invoke_def)
  then show ?thesis using host_request_bad [OF assms(1-4) e] by (simp add: host_error_response_def)
qed

theorem refused_request_costs_nothing_witness:
  "\<exists>reply. host_serve ref_ext ref_json_text ref_text ref_headers demo_host ''no such name'' [] ''in'' demo_world = (reply, demo_world)
     \<and> an_status reply \<in> {400, 413}"
proof -
  have "fn_headers ref_headers [] = []" by (simp add: fn_headers_def ref_headers_def List.map_filter_simps)
  then have h: "headers_ok (fn_headers ref_headers [])" by (simp add: headers_ok_def)
  have "\<not> list_all (\<lambda>c. is_ascii_alphanumeric c \<or> c = CHR ''-'' \<or> c = CHR ''_'') ''no such name''"
    by (simp add: char_class_defs byte_def)
  then have "function_id_new ''no such name'' \<noteq> Inr f" for f by (simp add: function_id_new_def)
  then have bad: "(\<forall>f. function_id_new ''no such name'' \<noteq> Inr f) \<or> (\<forall>v. request_version ref_headers [] \<noteq> Inr v)
      \<or> (\<forall>n. parse_nonce ref_ext ref_headers [] \<noteq> Inr n) \<or> MAX_INVOKE_BODY_BYTES < length ''in''" by blast
  have n: "utf8_valid ''no such name''" by (simp add: utf8_valid_literal char_class_defs byte_def)
  show ?thesis
    by (rule refused_request_costs_nothing [OF ref_externals.externals_axioms ref_json_text.json_codec_axioms n h bad])
qed

section \<open>What an error shows\<close>

text \<open>
  Of an internal error (a failed run, a trap, the storage or the attestation service) the client
  sees the status 500 and the words \<open>internal error\<close>, so two of them cannot be told apart; no error
  is answered with a status below 400.
\<close>

lemma host_error_opaque:
  assumes "host_invoke X J T H S name headers body w = (Inl e, w')"
  shows "\<exists>reply. host_serve X J T H S name headers body w = (reply, w') \<and> 400 \<le> an_status reply
     \<and> (is_internal e \<longrightarrow> reply = json_reply H J 500 (error_body ''internal error''))"
proof -
  have "host_serve X J T H S name headers body w = (host_error_response H J e, w')"
    by (simp add: host_serve_def assms)
  moreover have "400 \<le> host_status e" by (cases e) simp_all
  moreover have "host_error_response H J e = json_reply H J 500 (error_body ''internal error'')" if "is_internal e"
    using that by (cases e) (simp_all add: host_error_response_def public_message_def)
  ultimately show ?thesis by (simp add: host_error_response_def)
qed

end
