(* ===== verification/Api_Http.thy ===== *)
theory Api_Http
  imports Headers Wire Accounts Publish
begin

text \<open>
  \<open>crates/api/src\<close>: the account routes (\<open>accounts_http.rs\<close>), the catalog and publish routes
  (\<open>http.rs\<close>), the errors they answer with (\<open>error.rs\<close>) and the publish state (\<open>state.rs\<close>). As for
  the host, routing, path and body extraction are the server's: a handler is a function of the
  path's parts, the headers and the body. What the server answers to a body that is not the
  expected JSON document is the parameter \<open>json_extractor\<close>.
\<close>

section \<open>Headers\<close>

definition PAYMENT_SIGNATURE :: string where "PAYMENT_SIGNATURE = ''payment-signature''"
definition X_PAYMENT :: string where "X_PAYMENT = ''x-payment''"
definition PAYMENT_REQUIRED :: string where "PAYMENT_REQUIRED = ''payment-required''"
definition ALLOW_URL_HEADER :: string where "ALLOW_URL_HEADER = ''x-nitrum-fn-allow-url''"

definition http_bearer_secret :: "'h header_lib \<Rightarrow> 'h \<Rightarrow> bearer_secret option" where
  "http_bearer_secret H headers =
     Option.bind (header_str H headers ''authorization'') (\<lambda>raw.
     Option.bind (strip_prefix raw ''Bearer '') (\<lambda>token.
     case bearer_parse (trim token) of Inl _ \<Rightarrow> None | Inr secret \<Rightarrow> Some secret))"

definition payment_header :: "'h header_lib \<Rightarrow> 'h \<Rightarrow> string option" where
  "payment_header H headers =
     List.find (\<lambda>v. v \<noteq> []) (List.map_filter (header_str H headers) [PAYMENT_SIGNATURE, X_PAYMENT])"

definition http_account_id :: "ext \<Rightarrow> string \<Rightarrow> app_error + account_id" where
  "http_account_id X raw = map_err (\<lambda>_. BadRequest ''invalid account id'') (account_id_from_hex X raw)"

definition http_key_id :: "ext \<Rightarrow> string \<Rightarrow> app_error + key_id" where
  "http_key_id X raw = map_err (\<lambda>_. BadRequest ''invalid key id'') (key_id_from_hex X raw)"

definition parse_allow_headers :: "'h header_lib \<Rightarrow> 'h \<Rightarrow> app_error + egress_origin list" where
  "parse_allow_headers H headers =
     bind_r (collect_r (\<lambda>value.
       bind_r (ok_or (BadRequest ''invalid allow-url header'') (hl_to_str H value)) (\<lambda>raw.
       map_err Domain (egress_parse raw))) (hl_get_all H headers ALLOW_URL_HEADER)) (\<lambda>origins.
     map_err Domain (normalize_egress_allow origins))"

section \<open>Bodies\<close>

definition json_num :: "u64 \<Rightarrow> json" where "json_num n = JNumber (JPos n)"

definition created_body :: "ext \<Rightarrow> created_account \<Rightarrow> json" where
  "created_body X c =
     JObject [(''account_id'', JString (account_id_to_hex X (ca_account_id c))),
              (''key_id'', JString (key_id_to_hex X (ca_key_id c))),
              (''secret'', JString (as_str (ca_secret c))), (''balance'', json_num (ca_balance c))]"

definition issued_body :: "ext \<Rightarrow> issued_key \<Rightarrow> json" where
  "issued_body X i =
     JObject [(''key_id'', JString (key_id_to_hex X (ik_key_id i))), (''secret'', JString (as_str (ik_secret i)))]"

definition key_body :: "ext \<Rightarrow> key_meta \<Rightarrow> json" where
  "key_body X k =
     JObject ([(''key_id'', JString (key_id_to_hex X (km_key_id k))), (''revoked'', JBool (km_revoked k)),
               (''capped'', JBool (km_capped k))]
              @ (case km_cap_remaining k of Some n \<Rightarrow> [(''cap_remaining'', json_num n)] | None \<Rightarrow> []))"

definition account_body :: "ext \<Rightarrow> account_view \<Rightarrow> json" where
  "account_body X v =
     JObject [(''account_id'', JString (account_id_to_hex X (av_account_id v))), (''balance'', json_num (av_balance v)),
              (''keys'', JArray (map (key_body X) (av_keys v)))]"

definition balance_body :: "ext \<Rightarrow> account_id \<Rightarrow> u64 \<Rightarrow> u64 \<Rightarrow> json" where
  "balance_body X a balance invokes =
     JObject [(''account_id'', JString (account_id_to_hex X a)), (''balance'', json_num balance), (''invokes'', json_num invokes)]"

text \<open>\<open>spend_cap\<close> may be missing or null, also in the array form.\<close>

definition de_issue_body :: "json \<Rightarrow> u64 option option" where
  "de_issue_body j =
     (if j = JArray [] then Some None
      else case struct_fields [''spend_cap''] j of Some [c] \<Rightarrow> de_option de_u64 c | _ \<Rightarrow> None)"

definition de_invokes_body :: "json \<Rightarrow> u64 option" where
  "de_invokes_body j = (case struct_fields [''invokes''] j of Some [n] \<Rightarrow> de_u64 n | _ \<Rightarrow> None)"

definition publish_body :: "ext \<Rightarrow> publish_response \<Rightarrow> json" where
  "publish_body X r =
     JObject [(''name'', JString (function_id_str (pr_function r))), (''version'', JString (label_str (pr_version r))),
              (''hash'', JString (content_hash_to_hex X (pr_content_hash r))),
              (''wasm_bytes'', json_num (word_of_nat (pr_wasm_bytes r))),
              (''status'', JString (publish_status_str (pr_status r)))]"

definition function_body :: "ext \<Rightarrow> function_version \<Rightarrow> json" where
  "function_body X v =
     JObject [(''name'', JString (function_id_str (fv_id v))), (''version'', JString (label_str (fv_label v))),
              (''hash'', JString (content_hash_to_hex X (fv_content_hash v))),
              (''egress_allow'', JArray (map (\<lambda>o'. JString (origin_str o')) (fv_egress_allow v)))]"

section \<open>Errors\<close>

definition api_error_body :: "string \<Rightarrow> json" where
  "api_error_body msg = JObject [(''error'', JString msg)]"

definition accept_body :: "u64 \<Rightarrow> string \<Rightarrow> string \<Rightarrow> string \<Rightarrow> string \<Rightarrow> json" where
  "accept_body amount asset pay_to res network =
     JObject [(''scheme'', JString ''exact''), (''network'', JString network),
              (''maxAmountRequired'', JString (show_u64 amount)), (''asset'', JString asset),
              (''payTo'', JString pay_to), (''resource'', JString res)]"

definition challenge_body :: "u64 \<Rightarrow> string \<Rightarrow> string \<Rightarrow> string \<Rightarrow> string \<Rightarrow> json" where
  "challenge_body amount asset pay_to res network =
     JObject [(''error'', JString ''payment required''),
              (''accepts'', JArray [accept_body amount asset pay_to res network])]"

definition api_credits_body :: "u64 \<Rightarrow> u64 \<Rightarrow> string \<Rightarrow> u64 option \<Rightarrow> json" where
  "api_credits_body cost balance url cap =
     JObject ([(''error'', JString ''insufficient invoke credits''), (''credit_cost'', json_num cost),
               (''balance'', json_num balance), (''credit_url'', JString url)]
              @ (case cap of Some n \<Rightarrow> [(''spend_cap_remaining'', json_num n)] | None \<Rightarrow> []))"

definition deploy_body :: "u64 \<Rightarrow> u64 \<Rightarrow> string \<Rightarrow> json" where
  "deploy_body minimum balance url =
     JObject [(''error'', JString ''balance below minimum deploy credits''), (''min_deploy_credits'', json_num minimum),
              (''balance'', json_num balance), (''credit_url'', JString url)]"

fun api_status :: "app_error \<Rightarrow> nat" where
  "api_status (NotFound _) = 404"
| "api_status (ArtifactMissing _) = 404"
| "api_status (Conflict _) = 409"
| "api_status Unauthorized = 401"
| "api_status (Domain _) = 400"
| "api_status (HashMismatch _ _) = 400"
| "api_status (BadRequest _) = 400"
| "api_status (Compile _) = 400"
| "api_status (PayloadTooLarge _) = 413"
| "api_status (Timeout _) = 504"
| "api_status (Invoke _) = 500"
| "api_status (Trap _) = 500"
| "api_status (Storage _) = 500"
| "api_status (Attestation _) = 500"
| "api_status (InsufficientCredits _ _ _ _) = 402"
| "api_status (DeployMinimum _ _ _) = 402"
| "api_status (PaymentChallenge _ _ _ _ _ _) = 402"

definition challenge_response :: "ext \<Rightarrow> 'h header_lib \<Rightarrow> json_text \<Rightarrow> json \<Rightarrow> 'h http_answer" where
  "challenge_response X H J body =
     (let encoded = (case jt_to_vec J body of Inr b \<Rightarrow> b | Inl _ \<Rightarrow> ''{}'');
          res = json_reply H J 402 body in
      case hl_value H (b64_encode X encoded) of
        Some v \<Rightarrow> res\<lparr> an_headers := hl_insert H PAYMENT_REQUIRED v (an_headers res) \<rparr>
      | None \<Rightarrow> res)"

fun api_error_response :: "ext \<Rightarrow> 'h header_lib \<Rightarrow> json_text \<Rightarrow> app_error \<Rightarrow> 'h http_answer" where
  "api_error_response X H J (PaymentChallenge invokes amount asset pay_to res network) =
     challenge_response X H J (challenge_body amount asset pay_to res network)"
| "api_error_response X H J (InsufficientCredits cost balance url cap) =
     json_reply H J 402 (api_credits_body cost balance url cap)"
| "api_error_response X H J (DeployMinimum minimum balance url) = json_reply H J 402 (deploy_body minimum balance url)"
| "api_error_response X H J e = json_reply H J (api_status e) (api_error_body (public_message e))"

section \<open>The account routes\<close>

definition api_create_account ::
  "ext \<Rightarrow> json_text \<Rightarrow> 'h header_lib \<Rightarrow> 'w rng \<Rightarrow> 'w accounts \<Rightarrow> ('w, app_error, 'h http_answer) io" where
  "api_create_account X J H rng A =
     bind_io (accounts_create X rng A) (\<lambda>created. ret (axum_json H J (created_body X created)))"

definition api_issue_key ::
  "ext \<Rightarrow> json_text \<Rightarrow> 'h header_lib \<Rightarrow> 'w rng \<Rightarrow> 'w accounts \<Rightarrow> string \<Rightarrow> 'h \<Rightarrow> u64 option
     \<Rightarrow> ('w, app_error, 'h http_answer) io" where
  "api_issue_key X J H rng A ident headers spend_cap =
     bind_io (lift_r (http_account_id X ident)) (\<lambda>a.
     bind_io (accounts_issue_key X rng A a (http_bearer_secret H headers) spend_cap) (\<lambda>issued.
     ret (axum_json H J (issued_body X issued))))"

definition api_revoke_key ::
  "ext \<Rightarrow> 'h header_lib \<Rightarrow> 'w accounts \<Rightarrow> string \<Rightarrow> string \<Rightarrow> 'h \<Rightarrow> ('w, app_error, 'h http_answer) io" where
  "api_revoke_key X H A ident key headers =
     bind_io (lift_r (http_account_id X ident)) (\<lambda>a.
     bind_io (lift_r (http_key_id X key)) (\<lambda>k.
     bind_io (accounts_revoke X A a k (http_bearer_secret H headers)) (\<lambda>_.
     ret \<lparr> an_status = 200, an_headers = hl_empty H, an_body = [] \<rparr>)))"

definition api_get_account ::
  "ext \<Rightarrow> json_text \<Rightarrow> 'h header_lib \<Rightarrow> 'w accounts \<Rightarrow> string \<Rightarrow> 'h \<Rightarrow> ('w, app_error, 'h http_answer) io" where
  "api_get_account X J H A ident headers =
     bind_io (lift_r (http_account_id X ident)) (\<lambda>a.
     bind_io (lift_r (ok_or Unauthorized (http_bearer_secret H headers))) (\<lambda>secret.
     bind_io (accounts_read X A secret) (\<lambda>view.
     if av_account_id view \<noteq> a then throw Unauthorized else ret (axum_json H J (account_body X view)))))"

definition api_credit ::
  "ext \<Rightarrow> json_text \<Rightarrow> 'h header_lib \<Rightarrow> 'w accounts \<Rightarrow> string \<Rightarrow> 'h \<Rightarrow> u64 \<Rightarrow> ('w, app_error, 'h http_answer) io" where
  "api_credit X J H A ident headers invokes =
     bind_io (lift_r (http_account_id X ident)) (\<lambda>a.
     bind_io (accounts_credit X A a invokes (payment_header H headers)) (\<lambda>balance.
     ret (axum_json H J (balance_body X a balance invokes))))"

section \<open>The catalog and publish routes\<close>

record 'w publish_state =
  ps_publish :: "'w publish_function"
  ps_accounts :: "'w accounts"
  ps_min_deploy_credits :: u64

text \<open>The minimum balance a publisher must hold, when there is one.\<close>

definition deploy_gate ::
  "ext \<Rightarrow> 'h header_lib \<Rightarrow> 'w publish_state \<Rightarrow> 'h \<Rightarrow> ('w, app_error, unit) io" where
  "deploy_gate X H S headers =
     (if ps_min_deploy_credits S > 0 then
        bind_io (lift_r (ok_or Unauthorized (http_bearer_secret H headers))) (\<lambda>secret.
        bind_io (accounts_read X (ps_accounts S) secret) (\<lambda>view.
        if av_balance view < ps_min_deploy_credits S then
          throw (DeployMinimum (ps_min_deploy_credits S) (av_balance view)
                   (credit_url X (ps_accounts S) (av_account_id view)))
        else ret ()))
      else ret ())"

definition api_publish ::
  "ext \<Rightarrow> json_text \<Rightarrow> 'h header_lib \<Rightarrow> 'w publish_state \<Rightarrow> string \<Rightarrow> 'h \<Rightarrow> bytes \<Rightarrow> ('w, app_error, 'h http_answer) io" where
  "api_publish X J H S name headers body =
     bind_io (deploy_gate X H S headers) (\<lambda>_.
     bind_io (lift_r (map_err Domain (function_id_new name))) (\<lambda>function.
     bind_io (lift_r (parse_allow_headers H headers)) (\<lambda>egress_allow.
     bind_io (publish_execute X (ps_publish S)
       \<lparr> pq_function = function, pq_wasm = body, pq_egress_allow = egress_allow \<rparr>) (\<lambda>response.
     ret (json_reply H J 200 (publish_body X response))))))"

definition api_get_function ::
  "ext \<Rightarrow> json_text \<Rightarrow> 'h header_lib \<Rightarrow> 'w function_catalog \<Rightarrow> string \<Rightarrow> ('w, app_error, 'h http_answer) io" where
  "api_get_function X J H C name =
     bind_io (lift_r (map_err Domain (function_id_new name))) (\<lambda>function.
     bind_io (fc_resolve C function latest) (\<lambda>version.
     ret (axum_json H J (function_body X version))))"

section \<open>Serving\<close>

text \<open>What the server sends for a handler's result, and for a route that takes a JSON body.\<close>

definition api_serve ::
  "ext \<Rightarrow> json_text \<Rightarrow> 'h header_lib \<Rightarrow> ('w, app_error, 'h http_answer) io \<Rightarrow> 'w \<Rightarrow> 'h http_answer \<times> 'w" where
  "api_serve X J H m w =
     (case m w of (Inr answer, w') \<Rightarrow> (answer, w') | (Inl e, w') \<Rightarrow> (api_error_response X H J e, w'))"

record 'h json_extractor =
  je_accepts :: "'h \<Rightarrow> bool"
  je_unsupported :: "'h http_answer"
  je_reject :: "string \<Rightarrow> 'h http_answer"

definition with_json ::
  "json_text \<Rightarrow> 'h json_extractor \<Rightarrow> string \<Rightarrow> (json \<Rightarrow> 'a option) \<Rightarrow> 'h \<Rightarrow> bytes
     \<Rightarrow> ('a \<Rightarrow> 'w \<Rightarrow> 'h http_answer \<times> 'w) \<Rightarrow> 'w \<Rightarrow> 'h http_answer \<times> 'w" where
  "with_json J E ty de headers body k w =
     (if \<not> je_accepts E headers then (je_unsupported E, w)
      else case from_slice_as J ty de body of Inl e \<Rightarrow> (je_reject E e, w) | Inr a \<Rightarrow> k a w)"

definition serve_issue_key ::
  "ext \<Rightarrow> json_text \<Rightarrow> 'h header_lib \<Rightarrow> 'h json_extractor \<Rightarrow> 'w rng \<Rightarrow> 'w accounts \<Rightarrow> string \<Rightarrow> 'h \<Rightarrow> bytes \<Rightarrow> 'w
     \<Rightarrow> 'h http_answer \<times> 'w" where
  "serve_issue_key X J H E rng A ident headers body =
     with_json J E ''IssueBody'' de_issue_body headers body
       (\<lambda>spend_cap. api_serve X J H (api_issue_key X J H rng A ident headers spend_cap))"

definition serve_credit ::
  "ext \<Rightarrow> json_text \<Rightarrow> 'h header_lib \<Rightarrow> 'h json_extractor \<Rightarrow> 'w accounts \<Rightarrow> string \<Rightarrow> 'h \<Rightarrow> bytes \<Rightarrow> 'w
     \<Rightarrow> 'h http_answer \<times> 'w" where
  "serve_credit X J H E A ident headers body =
     with_json J E ''InvokesBody'' de_invokes_body headers body
       (\<lambda>invokes. api_serve X J H (api_credit X J H A ident headers invokes))"

end
