(* ===== verification/Api_Properties.thy ===== *)
theory Api_Properties
  imports Api_Http Accounts_Properties Publish_Properties Host_Properties
begin

text \<open>
  What the API's routes promise: publishing takes an account with enough credits when a minimum is
  set, an account is shown only to the holder of one of its keys, and no error shows an internal
  message.
\<close>

section \<open>Reading an account\<close>

context account_ledger
begin

lemma read_law:
  assumes "inv w" and "ac_store A = st" and "accounts_read X A secret w = (r, w')"
  shows "led w' = led w \<and> inv w' \<and> (\<forall>view. r = Inr view \<longrightarrow>
     (\<exists>lk. lg_key (led w) (secret_hash_to_hex X (secret_hash_of X secret)) = Some lk
           \<and> lk_owner lk = account_id_to_hex X (av_account_id view)))"
proof -
  have key: "frames inv led (presented_key X A bearer)" for bearer
    unfolding presented_key_def assms(2)
    using key_by_hash_reads by (auto intro!: framesI [of inv "st_key_by_hash _ _"] split: option.split)
  have acc: "frames inv led (st_account st a)" "frames inv led (st_list_keys st a)" for a
    using account_reads list_keys_reads by (blast intro: framesI)+
  have "frames inv led (accounts_read X A secret)"
    unfolding accounts_read_def assms(2) by (intro frames_bind frames_ret frames_map_err frames_if key acc)
  from framesD [OF this assms(1,3)] have same: "led w' = led w \<and> inv w'" .
  have "\<exists>lk. lg_key (led w) (secret_hash_to_hex X (secret_hash_of X secret)) = Some lk
           \<and> lk_owner lk = account_id_to_hex X (av_account_id view)" if ok: "r = Inr view" for view
  proof -
    obtain k w1 acc w2 where k: "st_key_by_hash st (secret_hash_of X secret) w = (Inr (Some k), w1)"
      and a: "st_account st (kr_account_id k) w1 = (Inr (Some acc), w2)" and v: "av_account_id view = acc_id acc"
      using assms(2,3) ok
      by (auto simp: accounts_read_def presented_key_def bind_io_Inr_iff map_err_io_iff split: if_splits)
    have "inv w1" using key_by_hash_reads [OF assms(1) k] by blast
    from account_same [OF this a] key_by_hash_owner [OF assms(1) k] v show ?thesis by auto
  qed
  with same show ?thesis by blast
qed

end

section \<open>A concrete account\<close>

lemma ref_accounts_sel [simp]:
  "ac_store ref_accounts = dynamo_account_store ref_ext ref_store" "ac_credit_base ref_accounts = ''https://api''"
  by (simp_all add: ref_accounts_def accounts_new_def trim_end_matches_def)

definition demo_account_view :: account_view where
  "demo_account_view = \<lparr> av_account_id = acc_id demo_account, av_balance = 5, av_keys = [key_meta_from demo_key] \<rparr>"

lemma demo_list_keys: "store_list_keys ref_ext ref_store (acc_id demo_account) demo_world = (Inr [key_meta_from demo_key], demo_world)"
proof -
  have "ref_items ''keys'' (rd_entries demo_world) = [key_item ref_ext demo_key]" "rd_faults demo_world = []"
    by (simp_all add: demo_world_def empty_world_def demo_entries_def ref_items_def)
  moreover have "key_item ref_ext demo_key ACCOUNT_ID = Some (AvS demo_hex)"
    by (simp add: key_item_def)
  ultimately have "ddb_query (ref_client ref_schema) ''keys'' KEYS_GSI (ACCOUNT_ID, AvS demo_hex) None demo_world
      = (Inr [key_item ref_ext demo_key], demo_world)"
    by (simp add: ref_client_def ref_read_def next_fault_def)
  then show ?thesis
    by (simp add: store_list_keys_def bind_io_def map_err_io_def ref_externals.key_item_roundtrip)
qed

lemma demo_read: "accounts_read ref_ext ref_accounts demo_secret demo_world = (Inr demo_account_view, demo_world)"
proof -
  have calm: "rd_faults demo_world = []" by (simp add: demo_world_def empty_world_def)
  have k: "store_key_by_hash ref_ext ref_store demo_hash demo_world = (Inr (Some demo_key), demo_world)"
    using calm demo_view(2) [of "[]"]
    by (simp add: store_key_by_hash_def bind_io_def map_err_io_def ref_get_calm demo_world_faulty [symmetric] ref_externals.key_item_roundtrip)
  have a: "store_account ref_ext ref_store (acc_id demo_account) demo_world = (Inr (Some demo_account), demo_world)"
    using calm demo_view(1) [of "[]"]
    by (simp add: store_account_def bind_io_def map_err_io_def ref_get_calm demo_world_faulty [symmetric] ref_externals.account_item_roundtrip)
  show ?thesis
    by (simp add: accounts_read_def presented_key_def demo_hash_def [symmetric] dynamo_account_store_def k a demo_list_keys
        bind_io_def map_err_io_def demo_account_view_def)
qed

lemma ref_read_accounts: "keeps ref_view (accounts_read ref_ext ref_accounts secret)"
  unfolding accounts_read_def presented_key_def option.case
  by (simp only: ref_accounts_sel dynamo_account_store_def account_store.simps)
    (intro keeps_bind keeps_ret keeps_map_err keeps_if ref_store.key_by_hash_keeps ref_store.account_keeps ref_store.list_keys_keeps)

lemma demo_bearer: "http_bearer_secret ref_headers demo_headers = Some demo_secret"
proof -
  obtain raw where "header_str ref_headers demo_headers ''authorization'' = Some raw" and
    t: "\<exists>t. strip_prefix raw ''Bearer '' = Some t \<and> trim t = as_str demo_secret"
    using demo_header_values(1) by (auto simp: invoke_bearer_def Option.bind_eq_Some_conv)
  moreover have "bearer_parse (trim (as_str demo_secret)) = Inr demo_secret"
    using demo_presented by (auto simp: presented_bearer_def split: if_splits sum.splits)
  moreover have "trim (as_str demo_secret) = as_str demo_secret"
    by (rule trim_graphic) (rule demo_secret_graphic)
  ultimately show ?thesis by (auto simp: http_bearer_secret_def)
qed

section \<open>The deploy minimum\<close>

lemma deploy_gate_passed:
  assumes "account_ledger X (ac_store (ps_accounts S)) led good" and "good w" and "0 < ps_min_deploy_credits S"
    and "deploy_gate X H S headers w = (Inr u, w')"
  shows "\<exists>secret lk view. http_bearer_secret H headers = Some secret
     \<and> accounts_read X (ps_accounts S) secret w = (Inr view, w') \<and> led w' = led w
     \<and> lg_key (led w) (secret_hash_to_hex X (secret_hash_of X secret)) = Some lk
     \<and> lk_owner lk = account_id_to_hex X (av_account_id view) \<and> ps_min_deploy_credits S \<le> av_balance view"
proof -
  obtain secret view where s: "http_bearer_secret H headers = Some secret"
    "accounts_read X (ps_accounts S) secret w = (Inr view, w')" "ps_min_deploy_credits S \<le> av_balance view"
    using assms(3,4) by (auto simp: deploy_gate_def bind_io_Inr_iff split: if_splits)
  with account_ledger.read_law [OF assms(1,2) refl s(2)] show ?thesis by blast
qed

lemma deploy_gate_keeps:
  assumes "\<And>secret. keeps v (accounts_read X (ps_accounts S) secret)"
  shows "keeps v (deploy_gate X H S headers)"
  unfolding deploy_gate_def by (intro keeps_bind keeps_ret keeps_if assms)

text \<open>
  C39: When a deploy minimum is set, a publish that succeeds or changes anything beyond what reading
  an account changes was made by the presenter of a registered key whose account was read with at
  least the minimum; without it nothing is validated, stored, locked or pointed at.
\<close>

theorem publish_requires_credits:
  assumes "account_ledger X (ac_store (ps_accounts S)) led good" and "good w" and "0 < ps_min_deploy_credits S"
    and "\<And>secret. keeps v (accounts_read X (ps_accounts S) secret)"
    and "api_publish X J H S name headers body w = (r, w')" and "v w' \<noteq> v w \<or> (\<exists>answer. r = Inr answer)"
  shows "\<exists>secret lk view w1. http_bearer_secret H headers = Some secret
     \<and> accounts_read X (ps_accounts S) secret w = (Inr view, w1)
     \<and> lg_key (led w) (secret_hash_to_hex X (secret_hash_of X secret)) = Some lk
     \<and> lk_owner lk = account_id_to_hex X (av_account_id view) \<and> ps_min_deploy_credits S \<le> av_balance view"
proof -
  obtain g w1 where g: "deploy_gate X H S headers w = (g, w1)" by fastforce
  show ?thesis
  proof (cases g)
    case (Inl e)
    then have "r = Inl e" "w' = w1" using assms(5) g by (simp_all add: api_publish_def bind_io_def)
    moreover have "v w1 = v w" using keepsD [OF deploy_gate_keeps [OF assms(4)] g] .
    ultimately show ?thesis using assms(6) by simp
  next
    case (Inr u)
    from deploy_gate_passed [OF assms(1,2,3) g [unfolded Inr]] show ?thesis by blast
  qed
qed

definition demo_publish_state :: "ref_world publish_state" where
  "demo_publish_state = \<lparr> ps_publish = ref_publish, ps_accounts = ref_accounts, ps_min_deploy_credits = 5 \<rparr>"

definition demo_publish_headers :: "(string \<times> bytes) list" where
  "demo_publish_headers = demo_headers @ [(ALLOW_URL_HEADER, ''https://a.io'')]"

theorem publish_requires_credits_witness:
  "\<exists>answer w'. api_publish ref_ext ref_json_text ref_headers demo_publish_state ''new'' demo_publish_headers ''echo'' demo_world
       = (Inr answer, w') \<and> an_status answer = 200
     \<and> (\<exists>secret lk view w1. http_bearer_secret ref_headers demo_publish_headers = Some secret
     \<and> accounts_read ref_ext (ps_accounts demo_publish_state) secret demo_world = (Inr view, w1)
     \<and> lg_key (ref_ledger demo_world) (secret_hash_to_hex ref_ext (secret_hash_of ref_ext secret)) = Some lk
     \<and> lk_owner lk = account_id_to_hex ref_ext (av_account_id view) \<and> ps_min_deploy_credits demo_publish_state \<le> av_balance view)"
proof -
  have str: "header_str ref_headers demo_publish_headers ''authorization'' = header_str ref_headers demo_headers ''authorization''"
    by (simp add: ref_header_str demo_publish_headers_def demo_headers_def)
  have bearer: "http_bearer_secret ref_headers demo_publish_headers = Some demo_secret"
    using demo_bearer by (simp add: http_bearer_secret_def str)
  have gate: "deploy_gate ref_ext ref_headers demo_publish_state demo_publish_headers demo_world = (Inr (), demo_world)"
    by (simp add: deploy_gate_def bearer demo_publish_state_def bind_io_def demo_read demo_account_view_def)
  have "hl_get_all ref_headers demo_publish_headers ALLOW_URL_HEADER = [''https://a.io'']"
    by (simp add: ref_get_all demo_publish_headers_def demo_headers_def ALLOW_URL_HEADER_def NONCE_HEADER_def)
  moreover have "hl_to_str ref_headers ''https://a.io'' = Some ''https://a.io''" by (simp add: ref_headers_def byte_def)
  moreover have "egress_parse ''https://a.io'' = Inr (EgressOrigin ''https://a.io'')"
    using egress_parse_host [OF demo_host] by simp
  ultimately have allow: "parse_allow_headers ref_headers demo_publish_headers = Inr [EgressOrigin ''https://a.io'']"
    by (simp add: parse_allow_headers_def normalize_egress_allow_def MAX_EGRESS_ALLOW_def)
  have name: "function_id_new ''new'' = Inr (FunctionId ''new'')"
    by (simp add: function_id_new_def char_class_defs byte_def)
  obtain res w' where "publish_execute ref_ext ref_publish demo_publish demo_world = (Inr res, w')"
    using demo_publish_ready by blast
  then have run: "api_publish ref_ext ref_json_text ref_headers demo_publish_state ''new'' demo_publish_headers ''echo'' demo_world
      = (Inr (json_reply ref_headers ref_json_text 200 (publish_body ref_ext res)), w')"
    by (simp add: api_publish_def bind_io_def gate name allow demo_publish_def) (simp add: demo_publish_state_def)
  have led: "account_ledger ref_ext (ac_store (ps_accounts demo_publish_state)) (\<lambda>w. ref_ledger w)
      (store_invariant ref_store ref_view ref_hist)"
    by (simp add: demo_publish_state_def ref_store.dynamo_is_ledger)
  have inv: "store_invariant ref_store ref_view ref_hist demo_world" unfolding demo_world_faulty by (rule demo_invariant)
  have "0 < ps_min_deploy_credits demo_publish_state" by (simp add: demo_publish_state_def)
  moreover have "keeps ref_view (accounts_read ref_ext (ps_accounts demo_publish_state) secret)" for secret
    by (simp add: demo_publish_state_def ref_read_accounts)
  ultimately have "\<exists>secret lk view w1. http_bearer_secret ref_headers demo_publish_headers = Some secret
     \<and> accounts_read ref_ext (ps_accounts demo_publish_state) secret demo_world = (Inr view, w1)
     \<and> lg_key (ref_ledger demo_world) (secret_hash_to_hex ref_ext (secret_hash_of ref_ext secret)) = Some lk
     \<and> lk_owner lk = account_id_to_hex ref_ext (av_account_id view) \<and> ps_min_deploy_credits demo_publish_state \<le> av_balance view"
    by (rule publish_requires_credits [OF led inv _ _ run]) blast
  with run show ?thesis by auto
qed

section \<open>Who sees an account\<close>

text \<open>
  C40: The account route answers only the presenter of a key that belongs to the account in the
  path, with that account's own view; it never writes the ledger, and any other request is an
  error.
\<close>

theorem account_shown_to_owner:
  assumes "account_ledger X (ac_store A) led good" and "good w" and "externals X"
    and "api_get_account X J H A ident headers w = (r, w')"
  shows "led w' = led w \<and> (\<forall>answer. r = Inr answer \<longrightarrow>
     (\<exists>a secret lk view. http_account_id X ident = Inr a \<and> http_bearer_secret H headers = Some secret
        \<and> lg_key (led w) (secret_hash_to_hex X (secret_hash_of X secret)) = Some lk
        \<and> lk_owner lk = to_ascii_lowercase ident \<and> av_account_id view = a
        \<and> accounts_read X A secret w = (Inr view, w') \<and> answer = axum_json H J (account_body X view)))"
proof (cases "\<exists>a secret. http_account_id X ident = Inr a \<and> http_bearer_secret H headers = Some secret")
  case False
  then have "w' = w" "\<forall>answer. r \<noteq> Inr answer"
    using assms(4) by (cases "http_account_id X ident"; cases "http_bearer_secret H headers";
        auto simp: api_get_account_def)+
  then show ?thesis by blast
next
  case True
  then obtain a secret where s: "http_account_id X ident = Inr a" "http_bearer_secret H headers = Some secret" by blast
  have hex: "account_id_to_hex X a = to_ascii_lowercase ident"
    using s(1) externals.id_from_hex_ok(1) [OF assms(3)] by (auto simp: http_account_id_def)
  obtain r1 w1 where rd: "accounts_read X A secret w = (r1, w1)" by fastforce
  note law = account_ledger.read_law [OF assms(1,2) refl rd]
  have res: "(r, w') = (case r1 of Inl e \<Rightarrow> (Inl e, w1)
      | Inr view \<Rightarrow> if av_account_id view \<noteq> a then (Inl Unauthorized, w1) else (Inr (axum_json H J (account_body X view)), w1))"
    using assms(4) rd by (cases r1) (auto simp: api_get_account_def s bind_io_def)
  show ?thesis
  proof (cases r1)
    case (Inl e)
    with res law show ?thesis by simp
  next
    case (Inr view)
    with res law s hex rd show ?thesis by (auto split: if_splits)
  qed
qed

theorem account_shown_to_owner_witness:
  "\<exists>answer. api_get_account ref_ext ref_json_text ref_headers ref_accounts demo_hex demo_headers demo_world = (Inr answer, demo_world)
     \<and> jt_from_slice ref_json_text (an_body answer) = Inr (account_body ref_ext demo_account_view)"
proof -
  have a: "http_account_id ref_ext demo_hex = Inr (acc_id demo_account)"
    using ref_externals.id_hex_roundtrip(1) [OF demo_key_facts(8)] by (simp add: http_account_id_def)
  have v: "av_account_id demo_account_view = acc_id demo_account" by (simp add: demo_account_view_def)
  have run: "api_get_account ref_ext ref_json_text ref_headers ref_accounts demo_hex demo_headers demo_world
      = (Inr (axum_json ref_headers ref_json_text (account_body ref_ext demo_account_view)), demo_world)"
    by (simp add: api_get_account_def a demo_bearer bind_io_def demo_read v)
  have inv: "store_invariant ref_store ref_view ref_hist demo_world" unfolding demo_world_faulty by (rule demo_invariant)
  have led: "account_ledger ref_ext (ac_store ref_accounts) (\<lambda>w. ref_ledger w) (store_invariant ref_store ref_view ref_hist)"
    by (simp add: ref_store.dynamo_is_ledger)
  obtain view where view: "accounts_read ref_ext ref_accounts demo_secret demo_world = (Inr view, demo_world)"
    "axum_json ref_headers ref_json_text (account_body ref_ext demo_account_view) = axum_json ref_headers ref_json_text (account_body ref_ext view)"
    using account_shown_to_owner [OF led inv ref_externals.externals_axioms run] demo_bearer by auto
  have ok: "json_ok (account_body ref_ext demo_account_view)"
    using ref_externals.henc_graphic
    by (auto simp: account_body_def demo_account_view_def key_body_def key_meta_from_def json_num_def account_id_to_hex_def
        key_id_to_hex_def utf8_valid_literal char_class_defs byte_def intro!: utf8_valid_ascii graphic_ascii)
  obtain b where "jt_to_vec ref_json_text (account_body ref_ext demo_account_view) = Inr b"
    using ref_json_text.to_vec_total [OF ok] by blast
  with run ref_json_text.from_to [OF ok this] show ?thesis by (simp add: axum_json_def)
qed

section \<open>What an error shows\<close>

text \<open>
  Of an internal error of a route the client sees the status 500 and the words \<open>internal error\<close>;
  every error has a status of at least 400, and 402 is exactly what can be cured by a payment.
\<close>

lemma api_error_opaque:
  assumes "m w = (Inl e, w')"
  shows "\<exists>answer. api_serve X J H m w = (answer, w') \<and> 400 \<le> an_status answer
     \<and> (is_internal e \<longrightarrow> answer = json_reply H J 500 (api_error_body ''internal error''))
     \<and> (an_status answer = 402 \<longleftrightarrow> (\<exists>c b u s. e = InsufficientCredits c b u s) \<or> (\<exists>m b u. e = DeployMinimum m b u)
          \<or> (\<exists>i am asset p res n. e = PaymentChallenge i am asset p res n))"
proof -
  have "api_serve X J H m w = (api_error_response X H J e, w')" by (simp add: api_serve_def assms)
  then show ?thesis
    by (cases e) (auto simp: public_message_def challenge_response_def Let_def split: option.split)
qed

end
