(* ===== verification/Cli.thy ===== *)
theory Cli
  imports Headers Wire Domain_Account Domain_Function
begin

text \<open>
  \<open>crates/cli/src/commands\<close>: paying for credits (\<open>x402.rs\<close>, \<open>account.rs\<close>), invoking a function and
  checking its attestation (\<open>invoke.rs\<close>), and what a deployment sends (\<open>deploy.rs\<close>, \<open>describe.rs\<close>).
  An \<open>anyhow\<close> error is the text the command prints; a command returns the lines it prints to the
  standard output, the notes to the standard error are left out. The HTTP client, the secp256k1 and Keccak primitives, the attestation verifier,
  the terminal and the file system are parameters.
\<close>

section \<open>The outside\<close>

text \<open>
  Texts of errors of the standard library and the decoders, and what \<open>from_utf8_lossy\<close> makes of
  bytes that are not UTF-8.
\<close>

record cli_text =
  lt_parse_int :: "string \<Rightarrow> string"
  lt_hex :: "string \<Rightarrow> string"
  lt_base64 :: "string \<Rightarrow> string"
  lt_lossy :: "bytes \<Rightarrow> string"
  lt_status :: "nat \<Rightarrow> string"

definition from_utf8_lossy :: "cli_text \<Rightarrow> bytes \<Rightarrow> string" where
  "from_utf8_lossy T b = (if utf8_valid b then b else lt_lossy T b)"

definition with_context :: "string \<Rightarrow> string + 'a \<Rightarrow> string + 'a" where
  "with_context ctx r = map_err (\<lambda>e. ctx @ '': '' @ e) r"

record 'k ecdsa =
  ec_from_slice :: "bytes \<Rightarrow> string + 'k"
  ec_point :: "'k \<Rightarrow> bytes"
  ec_sign :: "'k \<Rightarrow> bytes \<Rightarrow> string + bytes \<times> nat"
  ec_keccak :: "bytes \<Rightarrow> bytes"

text \<open>
  A request of the HTTP client: the URL, the headers and the body of a \<open>POST\<close> or \<open>PUT\<close>. The answer
  is a status, headers, and the bytes of the body or the error of reading them. A header value that
  is no header value (a version or a key with control characters) is an error of the request.
\<close>

record ('w, 'h) cli_http =
  ch_post :: "string \<Rightarrow> 'h \<Rightarrow> bytes \<Rightarrow> ('w, string, nat \<times> 'h \<times> (string + bytes)) io"
  ch_put :: "string \<Rightarrow> 'h \<Rightarrow> bytes \<Rightarrow> ('w, string, nat \<times> 'h \<times> (string + bytes)) io"

definition is_success :: "nat \<Rightarrow> bool" where
  "is_success status \<longleftrightarrow> 200 \<le> status \<and> status < 300"

section \<open>Payment challenges and signatures\<close>

record challenge_accept =
  cl_amount :: u64
  cl_pay_to :: string
  cl_asset :: string
  cl_network :: string

definition challenge_str :: "json \<Rightarrow> string \<Rightarrow> string + string" where
  "challenge_str v key = ok_or (''challenge missing '' @ key) (Option.bind (json_get key v) json_as_str)"

definition parse_challenge :: "json_text \<Rightarrow> cli_text \<Rightarrow> string \<Rightarrow> string + challenge_accept" where
  "parse_challenge J T body =
     bind_r (with_context ''payment challenge'' (jt_from_slice J body)) (\<lambda>v.
     bind_r (ok_or ''challenge missing accepts''
       (Option.bind (Option.bind (json_get ''accepts'' v) json_as_array)
         (\<lambda>a. case a of [] \<Rightarrow> None | x # _ \<Rightarrow> Some x))) (\<lambda>accept.
     bind_r (ok_or ''challenge missing amount'' (Option.bind (json_get ''maxAmountRequired'' accept) json_as_str)) (\<lambda>s.
     bind_r (with_context ''challenge amount'' (ok_or (lt_parse_int T s) (parse_u64 s))) (\<lambda>amount.
     bind_r (challenge_str accept ''payTo'') (\<lambda>pay_to.
     bind_r (challenge_str accept ''asset'') (\<lambda>asset.
     bind_r (challenge_str accept ''network'') (\<lambda>network.
     Inr \<lparr> cl_amount = amount, cl_pay_to = pay_to, cl_asset = asset, cl_network = network \<rparr>)))))))"

text \<open>\<open>trim_start_matches("0x")\<close>.\<close>

fun trim_0x :: "string \<Rightarrow> string" where
  "trim_0x (c # d # s) = (if c = CHR ''0'' \<and> d = CHR ''x'' then trim_0x s else c # d # s)"
| "trim_0x s = s"

definition hex_text :: "ext \<Rightarrow> cli_text \<Rightarrow> string \<Rightarrow> string + bytes" where
  "hex_text X T s = ok_or (lt_hex T (trim_0x (trim s))) (hex_decode X (trim_0x (trim s)))"

definition signing_key :: "ext \<Rightarrow> cli_text \<Rightarrow> 'k ecdsa \<Rightarrow> string \<Rightarrow> string + 'k" where
  "signing_key X T E hex_key =
     bind_r (with_context ''private key hex'' (hex_text X T hex_key)) (\<lambda>raw.
     if length raw \<noteq> 32 then Inl ''private key must be 32 bytes''
     else with_context ''private key'' (ec_from_slice E raw))"

definition address_of :: "ext \<Rightarrow> 'k ecdsa \<Rightarrow> 'k \<Rightarrow> string" where
  "address_of X E key = ''0x'' @ hex_encode X (drop 12 (ec_keccak E (drop 1 (ec_point E key))))"

definition u64_be :: "u64 \<Rightarrow> bytes" where
  "u64_be v = map (\<lambda>i. chr (unat v div 256 ^ (7 - i) mod 256)) [0..<8]"

definition word_u256 :: "u64 \<Rightarrow> bytes" where
  "word_u256 v = replicate 24 (CHR 0x00) @ u64_be v"

definition word_address :: "ext \<Rightarrow> cli_text \<Rightarrow> string \<Rightarrow> string + bytes" where
  "word_address X T addr =
     bind_r (with_context ''address'' (hex_text X T addr)) (\<lambda>raw.
     if length raw \<noteq> 20 then Inl ''address must be 20 bytes''
     else Inr (replicate 12 (CHR 0x00) @ raw))"

definition DOMAIN_TYPE :: string where
  "DOMAIN_TYPE = ''EIP712Domain(string name,string version,uint256 chainId,address verifyingContract)''"

definition STRUCT_TYPE :: string where
  "STRUCT_TYPE = ''TransferWithAuthorization(address from,address to,uint256 value,uint256 validAfter,''
     @ ''uint256 validBefore,bytes32 nonce)''"

definition eip712_digest ::
  "ext \<Rightarrow> cli_text \<Rightarrow> 'k ecdsa \<Rightarrow> string \<Rightarrow> string \<Rightarrow> u64 \<Rightarrow> u64 \<Rightarrow> bytes \<Rightarrow> u64 \<Rightarrow> string \<Rightarrow> string + bytes" where
  "eip712_digest X T E sender recipient amount valid_before nonce chain_id asset =
     (let keccak = ec_keccak E in
      bind_r (word_address X T asset) (\<lambda>contract.
      let domain_separator = keccak (keccak DOMAIN_TYPE @ keccak ''USD Coin'' @ keccak ''2'' @ word_u256 chain_id @ contract) in
      bind_r (word_address X T sender) (\<lambda>from_word.
      bind_r (word_address X T recipient) (\<lambda>to_word.
      let struct_hash = keccak (keccak STRUCT_TYPE @ from_word @ to_word @ word_u256 amount @ word_u256 0
                                @ word_u256 valid_before @ nonce) in
      Inr (keccak ([CHR 0x19, CHR 0x01] @ domain_separator @ struct_hash))))))"

definition signature_hex :: "ext \<Rightarrow> bytes \<Rightarrow> nat \<Rightarrow> string" where
  "signature_hex X rs recid = ''0x'' @ hex_encode X (rs @ [chr (recid + 27)])"

definition nonce_hex :: "ext \<Rightarrow> bytes \<Rightarrow> string" where
  "nonce_hex X nonce = ''0x'' @ hex_encode X nonce"

definition random_bytes32 :: "'w rng \<Rightarrow> string \<Rightarrow> ('w, string, bytes) io" where
  "random_bytes32 rng msg = map_err_io (\<lambda>_. msg) (rng 32)"

definition payment_payload :: "challenge_accept \<Rightarrow> string \<Rightarrow> string \<Rightarrow> u64 \<Rightarrow> string \<Rightarrow> json" where
  "payment_payload accept signature sender valid_before nonce =
     JObject
       [(''asset'', JString (cl_asset accept)), (''network'', JString (cl_network accept)),
        (''payload'', JObject
          [(''authorization'', JObject
             [(''from'', JString sender), (''nonce'', JString nonce), (''to'', JString (cl_pay_to accept)),
              (''validAfter'', JString ''0''), (''validBefore'', JString (show_u64 valid_before)),
              (''value'', JString (show_u64 (cl_amount accept)))]),
           (''signature'', JString signature)]),
        (''scheme'', JString ''exact''), (''x402Version'', JNumber (JPos 1))]"

definition payment_signature ::
  "ext \<Rightarrow> json_text \<Rightarrow> cli_text \<Rightarrow> 'k ecdsa \<Rightarrow> 'w rng \<Rightarrow> string \<Rightarrow> challenge_accept \<Rightarrow> u64 \<Rightarrow> u64 \<Rightarrow> ('w, string, string) io" where
  "payment_signature X J T E rng private_key_hex accept chain_id valid_before =
     bind_io (lift_r (signing_key X T E private_key_hex)) (\<lambda>signing.
     let sender = address_of X E signing in
     bind_io (random_bytes32 rng ''payment nonce'') (\<lambda>nonce.
     bind_io (lift_r (eip712_digest X T E sender (cl_pay_to accept) (cl_amount accept) valid_before nonce chain_id
       (cl_asset accept))) (\<lambda>digest.
     bind_io (lift_r (with_context ''sign payment'' (ec_sign E signing digest))) (\<lambda>(sig, recid).
     bind_io (lift_r (jt_to_vec J
       (payment_payload accept (signature_hex X sig recid) sender valid_before (nonce_hex X nonce)))) (\<lambda>payload.
     ret (b64_encode X payload))))))"

section \<open>Buying credits\<close>

definition credit_request_body :: "json_text \<Rightarrow> u64 \<Rightarrow> string + bytes" where
  "credit_request_body J invokes = jt_to_vec J (JObject [(''invokes'', JNumber (JPos invokes))])"

datatype price_verdict = Sign | Ask | Refuse string

definition price_decision :: "u64 \<Rightarrow> u64 option \<Rightarrow> bool \<Rightarrow> bool \<Rightarrow> price_verdict" where
  "price_decision amount max_usdc yes interactive =
     (case max_usdc of
        Some m \<Rightarrow>
          if amount > m then
            Refuse (''price '' @ show_u64 amount @ '' atomic USDC exceeds --max-usdc '' @ show_u64 m)
          else Sign
      | None \<Rightarrow>
          if yes then Sign
          else if interactive then Ask
          else Refuse ''pass --max-usdc <atomic USDC> or --yes to sign without a prompt'')"

definition format_usdc :: "u64 \<Rightarrow> string" where
  "format_usdc atomic =
     (let whole = show_u64 (atomic div 1000000); frac = show_u64 (atomic mod 1000000) in
      whole @ ''.'' @ replicate (6 - length frac) (CHR ''0'') @ frac)"

text \<open>The terminal: whether there is one, and the line the user types after a prompt.\<close>

record 'w cli_terminal =
  tm_interactive :: "'w \<Rightarrow> bool"
  tm_prompt :: "string \<Rightarrow> ('w, string, string) io"
  tm_now :: "'w \<Rightarrow> int \<times> 'w"

definition confirm :: "'w cli_terminal \<Rightarrow> string \<Rightarrow> ('w, string, bool) io" where
  "confirm TM prompt =
     bind_io (tm_prompt TM prompt) (\<lambda>line.
     ret (to_ascii_lowercase (trim line) \<in> {''y'', ''yes''}))"

text \<open>Seconds since the epoch, 0 for a clock before it.\<close>

definition cli_unix_now :: "'w cli_terminal \<Rightarrow> ('w, string, u64) io" where
  "cli_unix_now TM w = (case tm_now TM w of (t, w') \<Rightarrow> (Inr (if t < 0 then 0 else word_of_int t), w'))"

definition json_field_str :: "string \<Rightarrow> json \<Rightarrow> string" where
  "json_field_str k v = (case Option.bind (json_get k v) json_as_str of Some s \<Rightarrow> s | None \<Rightarrow> [])"

definition json_field_u64 :: "string \<Rightarrow> json \<Rightarrow> u64" where
  "json_field_u64 k v = (case Option.bind (json_get k v) json_as_u64 of Some n \<Rightarrow> n | None \<Rightarrow> 0)"

definition print_balance :: "json_text \<Rightarrow> bytes \<Rightarrow> string + string" where
  "print_balance J b =
     bind_r (with_context ''decode response'' (jt_from_slice J b)) (\<lambda>v.
     Inr (''account_id='' @ json_field_str ''account_id'' v @ '' balance='' @ show_u64 (json_field_u64 ''balance'' v)
          @ '' invokes='' @ show_u64 (json_field_u64 ''invokes'' v)))"

definition error_text :: "json_text \<Rightarrow> cli_text \<Rightarrow> bytes \<Rightarrow> string" where
  "error_text J T b =
     (case jt_from_slice J b of
        Inl _ \<Rightarrow> from_utf8_lossy T b
      | Inr v \<Rightarrow> (case Option.bind (json_get ''error'' v) json_as_str of Some s \<Rightarrow> s | None \<Rightarrow> from_utf8_lossy T b))"

record account_create_args =
  cc_url :: string

definition account_create ::
  "json_text \<Rightarrow> cli_text \<Rightarrow> 'h header_lib \<Rightarrow> ('w, 'h) cli_http \<Rightarrow> account_create_args \<Rightarrow> ('w, string, string) io" where
  "account_create J T H C args =
     (let endpoint = trim_end_matches CHR ''/'' (cc_url args) @ ''/accounts'' in
      bind_io (map_err_io (\<lambda>e. ''POST '' @ endpoint @ '': '' @ e) (ch_post C endpoint (hl_empty H) [])) (\<lambda>(status, _, body).
      bind_io (lift_r (with_context ''read response'' body)) (\<lambda>b.
      if \<not> is_success status then
        throw (''account create failed ('' @ lt_status T status @ ''): '' @ error_text J T b)
      else
        bind_io (lift_r (with_context ''decode response'' (jt_from_slice J b))) (\<lambda>v.
        ret (''account_id='' @ json_field_str ''account_id'' v @ CHR 0x0A # ''key_id='' @ json_field_str ''key_id'' v
             @ CHR 0x0A # ''secret='' @ json_field_str ''secret'' v
             @ CHR 0x0A # ''balance='' @ show_u64 (json_field_u64 ''balance'' v))))))"

record credit_args =
  cg_account :: string
  cg_invokes :: u64
  cg_url :: string
  cg_private_key :: "string option"
  cg_chain_id :: u64
  cg_max_usdc :: "u64 option"
  cg_yes :: bool

text \<open>\<open>Ok\<close> when the quoted price may be signed.\<close>

definition consent :: "'w cli_terminal \<Rightarrow> credit_args \<Rightarrow> u64 \<Rightarrow> ('w, string, unit) io" where
  "consent TM args amount w =
     (case price_decision amount (cg_max_usdc args) (cg_yes args) (tm_interactive TM w) of
        Sign \<Rightarrow> ret () w
      | Ask \<Rightarrow> bind_io (confirm TM ''Sign and pay? [y/N] '') (\<lambda>ok.
                if ok then ret () else throw ''cancelled; nothing was signed'') w
      | Refuse reason \<Rightarrow> throw (reason @ ''; nothing was signed'') w)"

definition credit_headers :: "'h header_lib \<Rightarrow> string option \<Rightarrow> 'h" where
  "credit_headers H payment =
     (let hs = hl_append H ''content-type'' ''application/json'' (hl_empty H) in
      case payment of None \<Rightarrow> hs | Some p \<Rightarrow> hl_append H ''payment-signature'' p hs)"

definition finish_credit :: "json_text \<Rightarrow> cli_text \<Rightarrow> nat \<Rightarrow> string + bytes \<Rightarrow> string + string" where
  "finish_credit J T status body =
     bind_r (with_context ''read response'' body) (\<lambda>b.
     if \<not> is_success status then Inl (''account credit failed ('' @ lt_status T status @ ''): '' @ error_text J T b)
     else print_balance J b)"

text \<open>What follows a 402 answer.\<close>

definition pay_challenge ::
  "ext \<Rightarrow> json_text \<Rightarrow> cli_text \<Rightarrow> 'h header_lib \<Rightarrow> 'k ecdsa \<Rightarrow> 'w rng \<Rightarrow> ('w, 'h) cli_http \<Rightarrow> 'w cli_terminal
     \<Rightarrow> credit_args \<Rightarrow> string \<Rightarrow> bytes \<Rightarrow> bytes \<Rightarrow> ('w, string, string) io" where
  "pay_challenge X J T H E rng C TM args endpoint body challenge_bytes =
     bind_io (lift_r (parse_challenge J T (from_utf8_lossy T challenge_bytes))) (\<lambda>challenge.
     case cg_private_key args of
       None \<Rightarrow> throw (''payment required for '' @ show_u64 (cl_amount challenge) @ '' atomic USDC to ''
                  @ cl_pay_to challenge @ ''; set --private-key to sign the retry'')
     | Some private_key \<Rightarrow>
         bind_io (consent TM args (cl_amount challenge)) (\<lambda>_.
         bind_io (cli_unix_now TM) (\<lambda>now.
         bind_io (payment_signature X J T E rng private_key challenge (cg_chain_id args) (saturating_add_u64 now 600))
           (\<lambda>signature.
         bind_io (map_err_io (\<lambda>e. ''POST '' @ endpoint @ '': '' @ e)
           (ch_post C endpoint (credit_headers H (Some signature)) body)) (\<lambda>(status, _, b).
         lift_r (finish_credit J T status b))))))"

definition account_credit ::
  "ext \<Rightarrow> json_text \<Rightarrow> cli_text \<Rightarrow> 'h header_lib \<Rightarrow> 'k ecdsa \<Rightarrow> 'w rng \<Rightarrow> ('w, 'h) cli_http \<Rightarrow> 'w cli_terminal
     \<Rightarrow> credit_args \<Rightarrow> ('w, string, string) io" where
  "account_credit X J T H E rng C TM args =
     (if cg_invokes args = 0 then throw ''--invokes must be greater than zero''
      else
        let endpoint = trim_end_matches CHR ''/'' (cg_url args) @ ''/accounts/'' @ cg_account args @ ''/credit'' in
        bind_io (lift_r (credit_request_body J (cg_invokes args))) (\<lambda>body.
        bind_io (map_err_io (\<lambda>e. ''POST '' @ endpoint @ '': '' @ e)
          (ch_post C endpoint (credit_headers H None) body)) (\<lambda>(status, _, b).
        if status \<noteq> 402 then lift_r (finish_credit J T status b)
        else
          bind_io (lift_r (with_context ''read challenge'' b)) (\<lambda>challenge_bytes.
          pay_challenge X J T H E rng C TM args endpoint body challenge_bytes))))"

section \<open>Invoking a function\<close>

definition CLI_SHASUM_HEADER :: string where "CLI_SHASUM_HEADER = ''x-nitrum-fn-shasum''"
definition CLI_NONCE_HEADER :: string where "CLI_NONCE_HEADER = ''x-nitrum-fn-nonce''"
definition CLI_ATTESTATION_HEADER :: string where "CLI_ATTESTATION_HEADER = ''x-nitrum-fn-attestation''"

record invoke_args =
  iv_name :: string
  iv_url :: string
  iv_data :: string
  iv_version :: "string option"
  iv_fn_shasum :: "string option"
  iv_pcr0 :: "string option"
  iv_attestation_out :: "string option"
  iv_api_key :: "string option"

text \<open>
  The attestation verifier with the options the command sets, and what it reads from a document;
  writing the document to a file.
\<close>

record verify_options =
  vo_nonce :: bytes
  vo_max_age_ms :: nat
  vo_pcr0 :: string

type_synonym 'w attestation_verifier = "bytes \<Rightarrow> verify_options \<Rightarrow> ('w, string, bytes option) io"
type_synonym 'w file_writer = "string \<Rightarrow> bytes \<Rightarrow> ('w, string, unit) io"

definition resolve_fn_shasum :: "ext \<Rightarrow> string option \<Rightarrow> string + string option" where
  "resolve_fn_shasum X raw =
     (case raw of
        None \<Rightarrow> Inr None
      | Some raw \<Rightarrow>
          let h = to_ascii_lowercase (trim raw) in
          bind_r (with_context ''invalid --fn-shasum'' (map_err show_domain_error (content_hash_from_hex X h))) (\<lambda>_.
          Inr (Some h)))"

definition bearer_headers :: "'h header_lib \<Rightarrow> string option \<Rightarrow> 'h \<Rightarrow> 'h" where
  "bearer_headers H api_key hs =
     (case api_key of
        None \<Rightarrow> hs
      | Some k \<Rightarrow> if trim k = [] then hs else hl_append H ''authorization'' (''Bearer '' @ trim k) hs)"

definition invoke_headers :: "ext \<Rightarrow> 'h header_lib \<Rightarrow> invoke_args \<Rightarrow> bytes option \<Rightarrow> 'h" where
  "invoke_headers X H args nonce =
     (let hs = hl_append H ''content-type'' ''application/json'' (hl_empty H);
          hs = (case iv_version args of None \<Rightarrow> hs | Some v \<Rightarrow> hl_append H ''x-nitrum-fn-version'' v hs);
          hs = (case nonce of None \<Rightarrow> hs | Some n \<Rightarrow> hl_append H CLI_NONCE_HEADER (b64_encode X n) hs) in
      bearer_headers H (iv_api_key args) hs)"

definition check_user_data :: "ext \<Rightarrow> string \<Rightarrow> bytes \<Rightarrow> bytes \<Rightarrow> string + unit" where
  "check_user_data X fn_shasum_hex body user_data =
     (if length user_data \<noteq> 64 then
        Inl (''attestation user_data must be 64 bytes (H || sha256(body)), got '' @ show_nat (length user_data))
      else
        bind_r (map_err show_domain_error (content_hash_from_hex X fn_shasum_hex)) (\<lambda>fn_shasum.
        let body_hash = content_hash_from_bytes X body in
        if take 32 user_data \<noteq> content_hash_bytes fn_shasum then
          Inl (''attestation user_data wasm hash mismatch: expected '' @ content_hash_to_hex X fn_shasum
               @ '', got '' @ hex_encode X (take 32 user_data))
        else if drop 32 user_data \<noteq> content_hash_bytes body_hash then
          Inl (''attestation user_data body hash mismatch: expected '' @ content_hash_to_hex X body_hash
               @ '', got '' @ hex_encode X (drop 32 user_data))
        else Inr ()))"

definition verify_invoke_attestation ::
  "ext \<Rightarrow> 'w attestation_verifier \<Rightarrow> 'w file_writer \<Rightarrow> bytes \<Rightarrow> bytes \<Rightarrow> string \<Rightarrow> string \<Rightarrow> bytes \<Rightarrow> string option
     \<Rightarrow> ('w, string, unit) io" where
  "verify_invoke_attestation X V write document nonce pcr0_hex fn_shasum_hex body attestation_out =
     bind_io (map_err_io (\<lambda>e. ''attestation verify failed: '' @ e)
       (V document \<lparr> vo_nonce = nonce, vo_max_age_ms = 5 * 60 * 1000, vo_pcr0 = to_ascii_lowercase (trim pcr0_hex) \<rparr>)) (\<lambda>ud.
     bind_io (lift_r (ok_or ''attestation missing user_data'' ud)) (\<lambda>user_data.
     bind_io (lift_r (check_user_data X fn_shasum_hex body user_data)) (\<lambda>_.
     case attestation_out of
       None \<Rightarrow> ret ()
     | Some path \<Rightarrow> map_err_io (\<lambda>e. ''write attestation to '' @ path @ '': '' @ e) (write path document))))"

definition check_reported_hash :: "string option \<Rightarrow> string option \<Rightarrow> string + unit" where
  "check_reported_hash fn_shasum reported =
     (case fn_shasum of
        None \<Rightarrow> Inr ()
      | Some expected \<Rightarrow>
          (case reported of
             Some got \<Rightarrow>
               if eq_ignore_ascii_case got expected then Inr ()
               else Inl (''hash mismatch: expected '' @ expected @ '', got '' @ got)
           | None \<Rightarrow> Inl (''missing '' @ CLI_SHASUM_HEADER @ ''; cannot verify --fn-shasum'')))"

definition de_error_body :: "json \<Rightarrow> string option" where
  "de_error_body j = (case struct_fields [''error''] j of Some [e] \<Rightarrow> de_string e | _ \<Rightarrow> None)"

text \<open>
  What the command makes of an answer. The two \<open>expect\<close>s, which end the process, are errors here;
  \<open>clap\<close> requires \<open>--fn-shasum\<close> with \<open>--pcr0\<close>, and the nonce is there exactly when \<open>--pcr0\<close> is.
\<close>

definition check_answer ::
  "ext \<Rightarrow> json_text \<Rightarrow> cli_text \<Rightarrow> 'h header_lib \<Rightarrow> 'w attestation_verifier \<Rightarrow> 'w file_writer \<Rightarrow> invoke_args
     \<Rightarrow> string option \<Rightarrow> bytes option \<Rightarrow> nat \<Rightarrow> 'h \<Rightarrow> bytes \<Rightarrow> ('w, string, string) io" where
  "check_answer X J T H V write args fn_shasum nonce status headers body_bytes =
     (let body = from_utf8_lossy T body_bytes in
      if \<not> is_success status then
        throw (''invoke failed ('' @ lt_status T status @ ''): ''
          @ (case from_slice_as J ''ErrorBody'' de_error_body body of Inr msg \<Rightarrow> msg | Inl _ \<Rightarrow> body))
      else
        bind_io (lift_r (check_reported_hash fn_shasum (header_str H headers CLI_SHASUM_HEADER))) (\<lambda>_.
        case iv_pcr0 args of
          None \<Rightarrow> ret body
        | Some pcr0 \<Rightarrow>
            bind_io (lift_r (ok_or ''nonce set when --pcr0'' nonce)) (\<lambda>n.
            bind_io (lift_r (ok_or ''clap requires --fn-shasum'' fn_shasum)) (\<lambda>expected.
            bind_io (lift_r (ok_or (''missing '' @ CLI_ATTESTATION_HEADER @ ''; host crypto API not configured?'')
              (header_str H headers CLI_ATTESTATION_HEADER))) (\<lambda>b64.
            bind_io (lift_r (with_context ''decode attestation header''
              (ok_or (lt_base64 T (trim b64)) (b64_decode X (trim b64))))) (\<lambda>doc.
            bind_io (verify_invoke_attestation X V write doc n pcr0 expected body_bytes (iv_attestation_out args)) (\<lambda>_.
            ret body)))))))"

definition cli_invoke ::
  "ext \<Rightarrow> json_text \<Rightarrow> cli_text \<Rightarrow> 'h header_lib \<Rightarrow> 'w rng \<Rightarrow> ('w, 'h) cli_http \<Rightarrow> 'w attestation_verifier
     \<Rightarrow> 'w file_writer \<Rightarrow> invoke_args \<Rightarrow> ('w, string, string) io" where
  "cli_invoke X J T H rng C V write args =
     bind_io (lift_r (resolve_fn_shasum X (iv_fn_shasum args))) (\<lambda>fn_shasum.
     let endpoint = trim_end_matches CHR ''/'' (iv_url args) @ ''/invoke/'' @ iv_name args in
     bind_io (case iv_pcr0 args of
         Some _ \<Rightarrow> bind_io (random_bytes32 rng ''generate nonce'') (\<lambda>n. ret (Some n))
       | None \<Rightarrow> ret None) (\<lambda>nonce.
     bind_io (map_err_io (\<lambda>e. ''POST '' @ endpoint @ '': '' @ e)
       (ch_post C endpoint (invoke_headers X H args nonce) (iv_data args))) (\<lambda>(status, headers, b).
     bind_io (lift_r (with_context ''read response'' b)) (\<lambda>body_bytes.
     check_answer X J T H V write args fn_shasum nonce status headers body_bytes))))"

section \<open>Deploying and describing\<close>

text \<open>
  The file system and the TOML reader: a file's bytes, a file's text, and the \<open>allow_urls\<close> of a
  config text (none when the key is missing).
\<close>

record 'w cli_files =
  fl_read :: "string \<Rightarrow> ('w, string, bytes) io"
  fl_read_text :: "string \<Rightarrow> ('w, string, string) io"
  fl_toml_urls :: "string \<Rightarrow> string + string list"

record deploy_args =
  dp_wasm :: string
  dp_name :: string
  dp_url :: string
  dp_allow_urls :: "string list"
  dp_config :: "string option"
  dp_api_key :: "string option"

definition normal_origins :: "string list \<Rightarrow> string + egress_origin list" where
  "normal_origins raw =
     bind_r (with_context ''invalid allow-url'' (map_err show_domain_error (collect_r egress_parse raw))) (\<lambda>origins.
     with_context ''egress allowlist'' (map_err show_domain_error (normalize_egress_allow origins)))"

definition collect_allow_urls :: "'w cli_files \<Rightarrow> deploy_args \<Rightarrow> ('w, string, egress_origin list) io" where
  "collect_allow_urls F args =
     bind_io (case dp_config args of
         None \<Rightarrow> ret []
       | Some path \<Rightarrow>
           bind_io (map_err_io (\<lambda>e. ''read config '' @ path @ '': '' @ e) (fl_read_text F path)) (\<lambda>config.
           lift_r (with_context (''parse config '' @ path) (fl_toml_urls F config)))) (\<lambda>more.
     lift_r (normal_origins (dp_allow_urls args @ more)))"

definition deploy_headers :: "'h header_lib \<Rightarrow> egress_origin list \<Rightarrow> string option \<Rightarrow> 'h" where
  "deploy_headers H allow_urls api_key =
     bearer_headers H api_key
       (foldl (\<lambda>hs origin. hl_append H ''x-nitrum-fn-allow-url'' (origin_str origin) hs)
         (hl_append H ''content-type'' ''application/wasm'' (hl_empty H)) allow_urls)"

definition de_publish_body :: "json \<Rightarrow> (string \<times> string \<times> string \<times> u64 \<times> string) option" where
  "de_publish_body j =
     (case struct_fields [''name'', ''version'', ''hash'', ''wasm_bytes'', ''status''] j of
        Some [n, v, h, b, s] \<Rightarrow>
          (case (de_string n, de_string v, de_string h, de_u64 b, de_string s) of
             (Some n, Some v, Some h, Some b, Some s) \<Rightarrow> Some (n, v, h, b, s)
           | _ \<Rightarrow> None)
      | _ \<Rightarrow> None)"

definition cli_deploy ::
  "json_text \<Rightarrow> cli_text \<Rightarrow> 'h header_lib \<Rightarrow> ('w, 'h) cli_http \<Rightarrow> 'w cli_files \<Rightarrow> deploy_args \<Rightarrow> ('w, string, string) io" where
  "cli_deploy J T H C F args =
     bind_io (collect_allow_urls F args) (\<lambda>allow_urls.
     bind_io (map_err_io (\<lambda>e. ''read '' @ dp_wasm args @ '': '' @ e) (fl_read F (dp_wasm args))) (\<lambda>wasm.
     let endpoint = trim_end_matches CHR ''/'' (dp_url args) @ ''/functions/'' @ dp_name args in
     bind_io (map_err_io (\<lambda>e. ''PUT '' @ endpoint @ '': '' @ e)
       (ch_put C endpoint (deploy_headers H allow_urls (dp_api_key args)) wasm)) (\<lambda>(status, _, body).
     bind_io (lift_r (with_context ''read response'' body)) (\<lambda>b.
     if \<not> is_success status then
       throw (''deploy failed ('' @ lt_status T status @ ''): ''
         @ (case from_slice_as J ''ErrorBody'' de_error_body b of Inr msg \<Rightarrow> msg | Inl _ \<Rightarrow> from_utf8_lossy T b))
     else
       bind_io (lift_r (with_context ''decode response'' (from_slice_as J ''PublishBody'' de_publish_body b)))
         (\<lambda>(name, version, hash, wasm_bytes, status).
       ret (''deployed '' @ name @ ''@'' @ version @ '' hash='' @ hash @ '' wasm_bytes='' @ show_u64 wasm_bytes
            @ '' status='' @ status))))))"

definition hash_wasm :: "ext \<Rightarrow> 'w cli_files \<Rightarrow> string \<Rightarrow> ('w, string, content_hash \<times> nat) io" where
  "hash_wasm X F path =
     bind_io (map_err_io (\<lambda>e. ''read '' @ path @ '': '' @ e) (fl_read F path)) (\<lambda>wasm.
     if wasm = [] then throw ''empty wasm'' else ret (content_hash_from_bytes X wasm, length wasm))"

definition cli_describe :: "ext \<Rightarrow> 'w cli_files \<Rightarrow> string \<Rightarrow> ('w, string, string) io" where
  "cli_describe X F path =
     bind_io (hash_wasm X F path) (\<lambda>(hash, n).
     ret (''hash='' @ content_hash_to_hex X hash @ CHR 0x0A # ''wasm_bytes='' @ show_nat n))"

end
