(* ===== verification/Cli_Properties.thy ===== *)
theory Cli_Properties
  imports Cli Api_Properties
begin

text \<open>
  The command line client against the two servers: the payment it signs for a quote is the one the
  API accepts, the answers it accepts are exactly the attested answers of the module the user named,
  and the allowlist it sends is the allowlist the API reads.
\<close>

section \<open>Paying a quote\<close>

context externals
begin

lemma hex_ascii: "is_ascii c" if "c \<in> set (hex_encode X b)"
  using henc_graphic [OF that] by (rule graphic_ascii)

lemma hex_utf8: "utf8_valid (hex_encode X b)"
  by (rule utf8_valid_ascii) (rule hex_ascii)

lemma hex_0x_utf8: "utf8_valid (''0x'' @ hex_encode X b)"
  by (rule utf8_valid_ascii) (use hex_ascii in \<open>auto simp: char_class_defs byte_def\<close>)

end

lemma show_u64_utf8: "utf8_valid (show_u64 n)"
  by (rule utf8_valid_ascii) (use show_nat_digits in \<open>fastforce simp: show_u64_def char_class_defs\<close>)

lemma literal_utf8_cli:
  "utf8_valid ''exact''" "utf8_valid ''0''" "utf8_valid ''payment required''" "utf8_valid ''error''"
  "utf8_valid ''accepts''" "utf8_valid ''scheme''" "utf8_valid ''network''" "utf8_valid ''maxAmountRequired''"
  "utf8_valid ''asset''" "utf8_valid ''payTo''" "utf8_valid ''resource''" "utf8_valid ''payload''"
  "utf8_valid ''authorization''" "utf8_valid ''from''" "utf8_valid ''nonce''" "utf8_valid ''to''"
  "utf8_valid ''validAfter''" "utf8_valid ''validBefore''" "utf8_valid ''value''" "utf8_valid ''signature''"
  "utf8_valid ''x402Version''"
  by (rule utf8_valid_literal, simp add: char_class_defs byte_def)+

text \<open>The client reads the quote back from the API's answer.\<close>

lemma challenge_read:
  assumes "json_codec J" and "utf8_valid asset" and "utf8_valid pay_to" and "utf8_valid res" and "utf8_valid network"
  shows "parse_challenge J T (from_utf8_lossy T (an_body
      (api_error_response X H J (PaymentChallenge invokes amount asset pay_to res network))))
    = Inr \<lparr> cl_amount = amount, cl_pay_to = pay_to, cl_asset = asset, cl_network = network \<rparr>"
proof -
  let ?j = "challenge_body amount asset pay_to res network"
  have ok: "json_ok ?j" using assms(2-5) by (simp add: challenge_body_def accept_body_def literal_utf8_cli show_u64_utf8)
  obtain b where b: "jt_to_vec J ?j = Inr b" using json_codec.to_vec_total [OF assms(1) ok] by blast
  have body: "an_body (api_error_response X H J (PaymentChallenge invokes amount asset pay_to res network)) = b"
    using b by (simp add: challenge_response_def Let_def split: option.split)
  have lossy: "from_utf8_lossy T b = b" using json_codec.to_vec_utf8 [OF assms(1) ok b] by (simp add: from_utf8_lossy_def)
  have "jt_from_slice J b = Inr ?j" by (rule json_codec.from_to [OF assms(1) ok b])
  then show ?thesis
    unfolding body lossy parse_challenge_def
    by (simp add: with_context_def challenge_body_def accept_body_def challenge_str_def)
qed

text \<open>The API reads the authorization back from the header the client made.\<close>

lemma payment_read:
  assumes "externals X" and "json_codec J" and "jx_parse K = jt_from_slice J"
    and "utf8_valid (cl_asset accept)" and "utf8_valid (cl_pay_to accept)" and "utf8_valid (cl_network accept)"
    and "utf8_valid signature" and "utf8_valid sender" and "utf8_valid nonce"
    and "jt_to_vec J (payment_payload accept signature sender valid_before nonce) = Inr b"
  shows "parse_payment X K (b64_encode X b) = Inr \<lparr> ea_value = cl_amount accept, ea_asset = cl_asset accept,
     ea_pay_to = cl_pay_to accept, ea_valid_before = valid_before, ea_nonce = nonce \<rparr>"
proof -
  let ?j = "payment_payload accept signature sender valid_before nonce" and ?h = "b64_encode X b"
  have codec: "base64_codec (b64_encode X) (b64_decode X)" using assms(1) by (rule externals.axioms(3))
  have ok: "json_ok ?j" using assms(4-9) by (simp add: payment_payload_def literal_utf8_cli show_u64_utf8)
  have doc: "utf8_valid b" "jx_parse K b = Inr ?j"
    using json_codec.to_vec_utf8 [OF assms(2) ok assms(10)] json_codec.from_to [OF assms(2) ok assms(10)] assms(3) by simp_all
  have raw: "trim ?h = ?h" "b64_decode X ?h = Some b"
    using base64_codec.benc_trim [OF codec] base64_codec.bdec_benc [OF codec] by simp_all
  have brace: "\<not> starts_with ?h ''{''"
    using base64_codec.benc_no_brace [OF codec, of b] by (auto elim!: starts_withE)
  show ?thesis
    unfolding parse_payment_def raw Let_def
    by (simp add: brace raw(2) doc payment_payload_def json_str_def json_u64_def)
qed

text \<open>
  C12: A payment the client signs for a quote of the API is accepted by the API's check of that
  quote, as long as its time has not passed: the client reads the amount, asset, recipient and
  network of the quote, authorizes exactly that amount with a fresh nonce, and the API's check
  returns that nonce, under which the credit is booked.
\<close>

theorem quoted_payment_accepted:
  fixes P :: "'w x402_settler"
  assumes "externals X" and "json_codec J" and "jx_parse K = jt_from_slice J"
    and "utf8_valid (xs_asset P)" and "utf8_valid (xs_pay_to P)" and "utf8_valid (xs_network P)"
    and "utf8_valid (xs_credit_base P)"
    and "x402_challenge X P a invokes v = (Inr c, v')"
    and "parse_challenge J T (from_utf8_lossy T (an_body (api_error_response X H J
        (PaymentChallenge (pc_invokes c) (pc_amount c) (pc_asset c) (pc_pay_to c) (pc_resource c) (pc_network c))))) = Inr accept"
    and "payment_signature X J T E rng private_key accept chain_id valid_before w = (Inr header, w')"
    and "fst (xs_now P u) < valid_before"
  shows "\<exists>nonce w1. rng 32 w = (Inr nonce, w1)
     \<and> x402_payment_nonce X K P invokes header u = (Inr (nonce_hex X nonce), snd (xs_now P u))"
proof -
  obtain r where r: "requirements P invokes = Inr r" "pc_amount c = er_amount r" "pc_asset c = er_asset r"
    "pc_pay_to c = er_pay_to r" "pc_network c = xs_network P" "pc_resource c = resource X P a"
    using assms(8) by (auto simp: x402_challenge_def bind_io_Inr_iff)
  then have er: "er_asset r = xs_asset P" "er_pay_to r = xs_pay_to P" by (auto simp: requirements_Inr)
  have "utf8_valid (resource X P a)"
    unfolding resource_def account_id_to_hex_def
    by (intro utf8_valid_append assms(7) externals.hex_utf8 [OF assms(1)])
      (simp_all add: utf8_valid_literal char_class_defs byte_def)
  then have accept: "accept = \<lparr> cl_amount = er_amount r, cl_pay_to = xs_pay_to P, cl_asset = xs_asset P, cl_network = xs_network P \<rparr>"
    using assms(9) challenge_read [OF assms(2), where T = T and X = X and H = H and asset = "xs_asset P"
      and pay_to = "xs_pay_to P" and res = "resource X P a" and network = "xs_network P"] assms(4-6)
    by (simp add: r er)
  obtain k nonce w1 sig recid b where n: "rng 32 w = (Inr nonce, w1)"
    and b: "jt_to_vec J (payment_payload accept (signature_hex X sig recid) (address_of X E k) valid_before (nonce_hex X nonce)) = Inr b"
    and header: "header = b64_encode X b"
    using assms(10)
    by (auto simp: payment_signature_def Let_def bind_io_Inr_iff random_bytes32_def map_err_io_iff split: prod.splits)
  have auth: "parse_payment X K header = Inr \<lparr> ea_value = er_amount r, ea_asset = xs_asset P,
     ea_pay_to = xs_pay_to P, ea_valid_before = valid_before, ea_nonce = nonce_hex X nonce \<rparr>"
    using payment_read [OF assms(1,2,3) _ _ _ _ _ _ b] assms(4-6) externals.hex_0x_utf8 [OF assms(1)]
    by (simp add: header accept signature_hex_def address_of_def nonce_hex_def)
  have "trim (nonce_hex X nonce) = nonce_hex X nonce"
    using externals.axioms(1) [OF assms(1)] hex_codec.henc_graphic
    by (intro trim_graphic) (fastforce simp: nonce_hex_def graphic_def byte_def)
  then have "trim (nonce_hex X nonce) \<noteq> []" by (simp add: nonce_hex_def)
  with auth r(1) er assms(11) n show ?thesis
    by (cases "xs_now P u") (auto simp: payment_nonce_Inr check_exact_Inr_iff eq_addr_def eq_ignore_ascii_case_def)
qed

text \<open>A client with a toy curve whose addresses are 20 zero bytes, and a settler in that asset.\<close>

definition demo_ecdsa :: "bytes ecdsa" where
  "demo_ecdsa = \<lparr> ec_from_slice = Inr, ec_point = (\<lambda>k. CHR 0x04 # replicate 64 (CHR 0x00)),
     ec_sign = (\<lambda>k d. Inr (d @ d, 1)), ec_keccak = ref_sha \<rparr>"

definition demo_address :: string where "demo_address = ''0x'' @ hex_encode ref_ext (replicate 20 (CHR 0x00))"

definition demo_json_ext :: json_ext where
  "demo_json_ext = \<lparr> jx_parse = jt_from_slice ref_json_text, jx_b64_error = (\<lambda>_. ''Invalid byte''),
     jx_utf8_error = (\<lambda>_. ''invalid utf-8 sequence'') \<rparr>"

definition demo_settler :: "unit x402_settler" where
  "demo_settler = x402_settler_new (\<lambda>_ _ _ _. ret ()) 1000 demo_address demo_address ''base'' ''https://api'' (\<lambda>u. (1700000000, u))"

definition demo_rng :: "'w rng" where "demo_rng n = ret (replicate n (CHR ''r''))"

lemma trim_0x_hex: "trim_0x (''0x'' @ hex_encode ref_ext b) = hex_encode ref_ext b"
proof -
  have "trim_0x s = s" if "CHR ''x'' \<notin> set s" for s using that by (induction s rule: trim_0x.induct) auto
  moreover have "CHR ''x'' \<notin> set (hex_encode ref_ext b)"
  proof
    assume "CHR ''x'' \<in> set (hex_encode ref_ext b)"
    then have "is_ascii_hexdigit CHR ''x''" using ref_externals.henc_chars by blast
    then show False by (simp add: char_class_defs byte_def)
  qed
  ultimately show ?thesis by simp
qed

lemma hex_text_hex: "hex_text ref_ext T (''0x'' @ hex_encode ref_ext b) = Inr b"
proof -
  have "trim (''0x'' @ hex_encode ref_ext b) = ''0x'' @ hex_encode ref_ext b"
    using ref_externals.henc_graphic by (intro trim_graphic) (fastforce simp: graphic_def byte_def)
  then show ?thesis by (simp add: hex_text_def trim_0x_hex ref_externals.hdec_henc del: append_Cons append_Nil)
qed

lemma word_address_hex: "length b = 20 \<Longrightarrow> word_address ref_ext T (''0x'' @ hex_encode ref_ext b) = Inr (replicate 12 (CHR 0x00) @ b)"
  unfolding word_address_def hex_text_hex by (simp add: with_context_def)

definition demo_cli_text :: cli_text where
  "demo_cli_text = \<lparr> lt_parse_int = (\<lambda>_. ''invalid digit''), lt_hex = (\<lambda>_. ''invalid hex''),
     lt_base64 = (\<lambda>_. ''Invalid byte''), lt_lossy = (\<lambda>_. ''?''), lt_status = show_nat \<rparr>"

definition demo_private_key :: string where
  "demo_private_key = ''0x'' @ hex_encode ref_ext (replicate 32 (CHR ''k''))"

definition demo_accept :: challenge_accept where
  "demo_accept = \<lparr> cl_amount = 7000, cl_pay_to = demo_address, cl_asset = demo_address, cl_network = ''base'' \<rparr>"

lemma demo_signs:
  "\<exists>header. payment_signature ref_ext ref_json_text demo_cli_text demo_ecdsa demo_rng demo_private_key demo_accept 8453
     1700000600 w = (Inr header, w)"
proof -
  let ?k = "replicate 32 (CHR ''k'')" and ?n = "replicate 32 (CHR ''r'')"
  have k: "signing_key ref_ext T demo_ecdsa demo_private_key = Inr ?k" for T
    unfolding signing_key_def demo_private_key_def hex_text_hex by (simp add: with_context_def demo_ecdsa_def)
  have a: "address_of ref_ext demo_ecdsa ?k = demo_address"
    by (simp add: address_of_def demo_ecdsa_def demo_address_def ref_sha_def)
  have d: "\<exists>d. eip712_digest ref_ext T demo_ecdsa demo_address demo_address 7000 1700000600 ?n 8453 demo_address = Inr d" for T
    unfolding eip712_digest_def Let_def demo_address_def by (simp add: word_address_hex del: append_Cons append_Nil)
  have r: "random_bytes32 demo_rng msg w = (Inr ?n, w)" for msg
    by (simp add: random_bytes32_def demo_rng_def map_err_io_def)
  have s: "ec_sign demo_ecdsa ?k b = Inr (b @ b, 1)" for b by (simp add: demo_ecdsa_def)
  have v: "jt_to_vec ref_json_text v = Inr (print_json v)" for v by (simp add: ref_json_text_def)
  show ?thesis
    using d [of demo_cli_text] by (auto simp: payment_signature_def bind_io_def k a r s v demo_accept_def with_context_def)
qed

theorem quoted_payment_accepted_witness:
  "\<exists>header w'. payment_signature ref_ext ref_json_text demo_cli_text demo_ecdsa demo_rng demo_private_key demo_accept 8453
       1700000600 () = (Inr header, w')
   \<and> x402_payment_nonce ref_ext demo_json_ext demo_settler 7 header () = (Inr (nonce_hex ref_ext (replicate 32 (CHR ''r''))), ())"
proof -
  let ?c = "\<lparr> pc_invokes = 7, pc_amount = 7000, pc_asset = demo_address, pc_pay_to = demo_address,
     pc_resource = resource ref_ext demo_settler (acc_id demo_account), pc_network = ''base'' \<rparr>"
  have P: "xs_asset demo_settler = demo_address" "xs_pay_to demo_settler = demo_address" "xs_network demo_settler = ''base''"
    "xs_credit_base demo_settler = ''https://api''" "xs_now demo_settler u = (1700000000, u)" for u
    by (simp_all add: demo_settler_def x402_settler_new_def trim_end_matches_def)
  have addr: "utf8_valid demo_address" unfolding demo_address_def by (rule ref_externals.hex_0x_utf8)
  have lit: "utf8_valid ''base''" "utf8_valid ''https://api''" by (simp_all add: utf8_valid_literal char_class_defs byte_def)
  have c: "x402_challenge ref_ext demo_settler (acc_id demo_account) 7 () = (Inr ?c, ())"
    by (simp add: x402_challenge_def requirements_def due_usdc_def checked_mul_u64_def demo_settler_def x402_settler_new_def)
  have "utf8_valid (resource ref_ext demo_settler (acc_id demo_account))"
    unfolding resource_def account_id_to_hex_def P(4)
    by (intro utf8_valid_append lit ref_externals.hex_utf8) (simp_all add: utf8_valid_literal char_class_defs byte_def)
  then have res: "utf8_valid (pc_resource ?c)" by simp
  have quote: "parse_challenge ref_json_text demo_cli_text (from_utf8_lossy demo_cli_text (an_body
      (api_error_response ref_ext ref_headers ref_json_text (PaymentChallenge (pc_invokes ?c) (pc_amount ?c) (pc_asset ?c)
        (pc_pay_to ?c) (pc_resource ?c) (pc_network ?c))))) = Inr demo_accept"
    using challenge_read [where J = ref_json_text and asset = demo_address and pay_to = demo_address
       and res = "pc_resource ?c" and network = "''base''" and T = demo_cli_text and X = ref_ext and H = ref_headers
       and invokes = 7 and amount = 7000, OF ref_json_text.json_codec_axioms addr addr res lit(1)]
    unfolding demo_accept_def payment_challenge.select_convs .
  obtain header where sign: "payment_signature ref_ext ref_json_text demo_cli_text demo_ecdsa demo_rng demo_private_key
      demo_accept 8453 1700000600 () = (Inr header, ())"
    using demo_signs [where w = "()"] by (rule exE)
  have "jx_parse demo_json_ext = jt_from_slice ref_json_text" by (simp add: demo_json_ext_def)
  note accepted = quoted_payment_accepted [OF ref_externals.externals_axioms ref_json_text.json_codec_axioms this _ _ _ _ c quote sign]
  have "\<exists>nonce w1. demo_rng 32 () = (Inr nonce, w1)
     \<and> x402_payment_nonce ref_ext demo_json_ext demo_settler 7 header () = (Inr (nonce_hex ref_ext nonce), ())"
    using accepted [of "()"] by (simp only: P addr lit fst_conv snd_conv) simp
  then have "x402_payment_nonce ref_ext demo_json_ext demo_settler 7 header () = (Inr (nonce_hex ref_ext (replicate 32 (CHR ''r''))), ())"
    by (simp only: demo_rng_def io_apply) auto
  with sign show ?thesis by blast
qed

section \<open>A price cap\<close>

text \<open>
  With \<open>--max-usdc\<close> a quote above it is refused: the command ends right after the first answer,
  draws no randomness, signs nothing and sends nothing more.
\<close>

lemma price_cap_holds:
  assumes "cg_max_usdc args = Some m" and "cg_invokes args \<noteq> 0" and "credit_request_body J (cg_invokes args) = Inr body"
    and "ch_post C (trim_end_matches CHR ''/'' (cg_url args) @ ''/accounts/'' @ cg_account args @ ''/credit'')
        (credit_headers H None) body w = (Inr (402, hs, Inr b), w1)"
    and "parse_challenge J T (from_utf8_lossy T b) = Inr c" and "m < cl_amount c"
  shows "\<exists>msg. account_credit X J T H E rng C TM args w = (Inl msg, w1)"
  using assms
  by (cases "cg_private_key args")
    (auto simp: account_credit_def bind_io_def map_err_io_def with_context_def pay_challenge_def Let_def consent_def
      price_decision_def)

section \<open>Checking an answer\<close>

lemma check_user_data_iff:
  assumes "externals X" and "content_hash_from_hex X s = Inr h"
  shows "check_user_data X s body ud = Inr u \<longleftrightarrow> ud = content_hash_bytes h @ sha256 X body"
proof -
  have "length (content_hash_bytes h) = 32"
    using externals.content_hash_from_hex_ok [OF assms] by (simp add: content_hash_ok_def)
  moreover have "length (sha256 X body) = 32" using externals.axioms(2) [OF assms(1)] by (rule sha256_fn.sha_length)
  ultimately show ?thesis
    by (auto simp: check_user_data_def assms(2) content_hash_from_bytes_def Let_def) (metis append_take_drop_id)
qed

lemma resolve_shasum:
  assumes "externals X" and "resolve_fn_shasum X raw = Inr (Some s)"
  shows "\<exists>t h. raw = Some t \<and> s = to_ascii_lowercase (trim t) \<and> content_hash_from_hex X s = Inr h"
  using assms(2) by (auto simp: resolve_fn_shasum_def with_context_def Let_def bind_r_Inr_iff split: option.splits)

text \<open>An accepted answer of a command with \<open>--pcr0\<close>, as a chain of steps.\<close>

lemma check_answer_pcr0:
  assumes "iv_pcr0 args = Some p"
  shows "check_answer X J T H V wr args fn_shasum nonce status headers body w = (Inr out, w') \<longleftrightarrow>
    is_success status \<and> out = from_utf8_lossy T body
    \<and> check_reported_hash fn_shasum (header_str H headers CLI_SHASUM_HEADER) = Inr ()
    \<and> (\<exists>n s b64 doc. nonce = Some n \<and> fn_shasum = Some s \<and> header_str H headers CLI_ATTESTATION_HEADER = Some b64
        \<and> b64_decode X (trim b64) = Some doc
        \<and> verify_invoke_attestation X V wr doc n p s body (iv_attestation_out args) w = (Inr (), w'))"
  unfolding check_answer_def Let_def assms with_context_def
  by (cases "is_success status") (simp_all add: bind_io_Inr_iff, blast+)

lemma verify_invoke_attestation_user_data:
  assumes "verify_invoke_attestation X V wr doc n p s body path w = (Inr (), w')"
  shows "\<exists>ud w1. V doc \<lparr> vo_nonce = n, vo_max_age_ms = 5 * 60 * 1000, vo_pcr0 = to_ascii_lowercase (trim p) \<rparr> w
      = (Inr (Some ud), w1) \<and> check_user_data X s body ud = Inr ()"
proof -
  obtain ud w1 where v: "V doc \<lparr> vo_nonce = n, vo_max_age_ms = 5 * 60 * 1000, vo_pcr0 = to_ascii_lowercase (trim p) \<rparr> w
      = (Inr ud, w1)"
    and rest: "bind_io (lift_r (ok_or ''attestation missing user_data'' ud)) (\<lambda>user_data.
     bind_io (lift_r (check_user_data X s body user_data)) (\<lambda>_.
     case path of
       None \<Rightarrow> ret ()
     | Some path \<Rightarrow> map_err_io (\<lambda>e. ''write attestation to '' @ path @ '': '' @ e) (wr path doc))) w1 = (Inr (), w')"
    using assms unfolding verify_invoke_attestation_def by (rule bind_io_InrE) (auto simp only: map_err_io_iff map_err_Inr_iff)
  obtain u where u: "ud = Some u" using rest by (cases ud) (simp_all add: bind_io_def)
  with rest have "check_user_data X s body u = Inr ()"
    by (cases "check_user_data X s body u") (simp_all add: bind_io_def)
  with v u show ?thesis by blast
qed

text \<open>What an accepted answer of a command with \<open>--pcr0\<close> was.\<close>

lemma check_answer_attested:
  assumes "externals X" and "iv_pcr0 args = Some p" and "iv_fn_shasum args = raw" and "resolve_fn_shasum X raw = Inr fn_shasum"
    and "check_answer X J T H V wr args fn_shasum (Some nonce) status headers body w = (Inr out, w')"
  shows "\<exists>t h doc w1. raw = Some t \<and> content_hash_from_hex X (to_ascii_lowercase (trim t)) = Inr h \<and> is_success status
     \<and> V doc \<lparr> vo_nonce = nonce, vo_max_age_ms = 5 * 60 * 1000, vo_pcr0 = to_ascii_lowercase (trim p) \<rparr> w
         = (Inr (Some (content_hash_bytes h @ sha256 X body)), w1)
     \<and> out = from_utf8_lossy T body"
proof -
  obtain s b64 doc w1 where s: "fn_shasum = Some s" and ok: "is_success status" and out: "out = from_utf8_lossy T body"
    and v: "verify_invoke_attestation X V wr doc nonce p s body (iv_attestation_out args) w = (Inr (), w1)"
    using check_answer_pcr0 [OF assms(2)] assms(5) by (metis option.inject)
  obtain t h where t: "raw = Some t" "s = to_ascii_lowercase (trim t)" "content_hash_from_hex X s = Inr h"
    using resolve_shasum [OF assms(1)] assms(4) s by blast
  obtain ud w2 where v2: "V doc \<lparr> vo_nonce = nonce, vo_max_age_ms = 5 * 60 * 1000, vo_pcr0 = to_ascii_lowercase (trim p) \<rparr> w
      = (Inr (Some ud), w2)" and ud: "check_user_data X s body ud = Inr ()"
    using verify_invoke_attestation_user_data [OF v] by blast
  have "ud = content_hash_bytes h @ sha256 X body" using ud unfolding check_user_data_iff [OF assms(1) t(3)] .
  with v2 have v3: "V doc \<lparr> vo_nonce = nonce, vo_max_age_ms = 5 * 60 * 1000, vo_pcr0 = to_ascii_lowercase (trim p) \<rparr> w
      = (Inr (Some (content_hash_bytes h @ sha256 X body)), w2)" by simp
  show ?thesis by (rule exI)+ (intro conjI; rule t(1) t(3) [unfolded t(2)] ok v3 out)
qed

lemma cli_invoke_pcr0:
  assumes "iv_pcr0 args = Some p" and "cli_invoke X J T H rng C V wr args w = (Inr out, w')"
  obtains fn_shasum nonce w1 status headers body w2 where
    "resolve_fn_shasum X (iv_fn_shasum args) = Inr fn_shasum" "rng 32 w = (Inr nonce, w1)"
    "ch_post C (trim_end_matches CHR ''/'' (iv_url args) @ ''/invoke/'' @ iv_name args)
         (invoke_headers X H args (Some nonce)) (iv_data args) w1 = (Inr (status, headers, Inr body), w2)"
    "check_answer X J T H V wr args fn_shasum (Some nonce) status headers body w2 = (Inr out, w')"
proof -
  obtain s where s: "resolve_fn_shasum X (iv_fn_shasum args) = Inr s"
    using assms(2) by (cases "resolve_fn_shasum X (iv_fn_shasum args)") (simp_all add: cli_invoke_def)
  obtain n w1 where n: "rng 32 w = (Inr n, w1)"
    using assms s by (cases "rng 32 w"; cases "fst (rng 32 w)")
      (simp_all add: cli_invoke_def bind_io_def random_bytes32_def map_err_io_def Let_def)
  let ?post = "ch_post C (trim_end_matches CHR ''/'' (iv_url args) @ ''/invoke/'' @ iv_name args)
         (invoke_headers X H args (Some n)) (iv_data args) w1"
  obtain st hs b w2 where p: "?post = (Inr (st, hs, b), w2)"
    using assms s n by (cases ?post; cases "fst ?post")
      (auto simp: cli_invoke_def bind_io_def random_bytes32_def map_err_io_def Let_def)
  obtain body where body: "b = Inr body"
    using assms s n p by (cases b)
      (simp_all add: cli_invoke_def bind_io_def random_bytes32_def map_err_io_def Let_def with_context_def)
  show thesis
    using that [OF s n p [unfolded body]] assms s n p body
    by (simp add: cli_invoke_def bind_io_def random_bytes32_def map_err_io_def Let_def with_context_def)
qed

text \<open>
  C11: When an invoke with \<open>--pcr0\<close> succeeds, the user named a module hash, the answer had a success
  status, and the verifier accepted a document for the pinned PCR0 and for the nonce drawn at random
  in this very call, not older than five minutes, whose user data is exactly that hash and the
  digest of the body that is printed.
\<close>

theorem attested_invoke_sound:
  assumes "externals X" and "iv_pcr0 args = Some p" and "cli_invoke X J T H rng C V wr args w = (Inr out, w')"
  shows "\<exists>t h nonce w1 status headers body w2 doc w3.
     iv_fn_shasum args = Some t \<and> content_hash_from_hex X (to_ascii_lowercase (trim t)) = Inr h
     \<and> rng 32 w = (Inr nonce, w1)
     \<and> ch_post C (trim_end_matches CHR ''/'' (iv_url args) @ ''/invoke/'' @ iv_name args)
         (invoke_headers X H args (Some nonce)) (iv_data args) w1 = (Inr (status, headers, Inr body), w2)
     \<and> is_success status
     \<and> V doc \<lparr> vo_nonce = nonce, vo_max_age_ms = 5 * 60 * 1000, vo_pcr0 = to_ascii_lowercase (trim p) \<rparr> w2
         = (Inr (Some (content_hash_bytes h @ sha256 X body)), w3)
     \<and> out = from_utf8_lossy T body"
proof -
  obtain fn_shasum nonce w1 status headers body w2 where
    s: "resolve_fn_shasum X (iv_fn_shasum args) = Inr fn_shasum" and n: "rng 32 w = (Inr nonce, w1)"
    and p: "ch_post C (trim_end_matches CHR ''/'' (iv_url args) @ ''/invoke/'' @ iv_name args)
         (invoke_headers X H args (Some nonce)) (iv_data args) w1 = (Inr (status, headers, Inr body), w2)"
    and c: "check_answer X J T H V wr args fn_shasum (Some nonce) status headers body w2 = (Inr out, w')"
    by (rule cli_invoke_pcr0 [OF assms(2,3)])
  from check_answer_attested [OF assms(1,2) refl s c] n p show ?thesis by blast
qed

section \<open>The client and the host agree\<close>

lemma same_headers:
  "CLI_SHASUM_HEADER = SHASUM_HEADER" "CLI_ATTESTATION_HEADER = ATTESTATION_HEADER" "CLI_NONCE_HEADER = NONCE_HEADER"
  by (simp_all add: CLI_SHASUM_HEADER_def SHASUM_HEADER_def CLI_ATTESTATION_HEADER_def ATTESTATION_HEADER_def
      CLI_NONCE_HEADER_def NONCE_HEADER_def)

lemma check_answer_host:
  assumes "externals X" and "answers_for X H S (Some n) response w1 reply w'" and "is_success (an_status reply)"
    and "iv_pcr0 args = Some p" and "iv_attestation_out args = None" and "content_hash_ok h"
    and doc: "\<And>ud r u u'. hs_attestor S ud n u = (Inr r, u') \<Longrightarrow>
        \<exists>doc. r = Some doc \<and> (\<forall>v. V doc \<lparr> vo_nonce = n, vo_max_age_ms = 5 * 60 * 1000, vo_pcr0 = to_ascii_lowercase (trim p) \<rparr> v = (Inr (Some ud), v))"
  shows "(\<exists>out v'. check_answer X J T H V wr args (Some (content_hash_to_hex X h)) (Some n) (an_status reply)
      (an_headers reply) (an_body reply) v = (Inr out, v')) \<longleftrightarrow> h = ir_content_hash response"
proof
  let ?h = "ir_content_hash response"
  have hdr: "header_str H (an_headers reply) CLI_SHASUM_HEADER = Some (content_hash_to_hex X ?h)"
    using assms(2) by (simp add: answers_for_def same_headers)
  have low: "to_ascii_lowercase (content_hash_to_hex X k) = content_hash_to_hex X k" for k
    using externals.axioms(1) [OF assms(1)] by (simp add: content_hash_to_hex_def hex_codec.henc_lower)
  have rep: "check_reported_hash (Some (content_hash_to_hex X h)) (Some (content_hash_to_hex X ?h)) = Inr u \<longleftrightarrow> h = ?h" for u
    using externals.content_hash_to_hex_inj [OF assms(1)]
    by (auto simp: check_reported_hash_def eq_ignore_ascii_case_def low)
  assume "\<exists>out v'. check_answer X J T H V wr args (Some (content_hash_to_hex X h)) (Some n) (an_status reply)
      (an_headers reply) (an_body reply) v = (Inr out, v')"
  then show "h = ?h" unfolding check_answer_pcr0 [OF assms(4)] hdr rep by simp
next
  let ?h = "ir_content_hash response"
  assume h: "h = ?h"
  have hdr: "header_str H (an_headers reply) CLI_SHASUM_HEADER = Some (content_hash_to_hex X ?h)"
    using assms(2) by (simp add: answers_for_def same_headers)
  obtain r where r: "hs_attestor S (content_hash_bytes ?h @ sha256 X (an_body reply)) n w1 = (Inr r, w')"
    "case r of None \<Rightarrow> True | Some doc \<Rightarrow> header_str H (an_headers reply) ATTESTATION_HEADER = Some (b64_encode X doc)"
    using assms(2) by (auto simp: answers_for_def)
  obtain d where d: "r = Some d" "\<And>v. V d \<lparr> vo_nonce = n, vo_max_age_ms = 5 * 60 * 1000, vo_pcr0 = to_ascii_lowercase (trim p) \<rparr> v
      = (Inr (Some (content_hash_bytes ?h @ sha256 X (an_body reply))), v)"
    using doc [OF r(1)] by blast
  have codec: "base64_codec (b64_encode X) (b64_decode X)" using assms(1) by (rule externals.axioms(3))
  have ud: "check_user_data X (content_hash_to_hex X ?h) (an_body reply) (content_hash_bytes ?h @ sha256 X (an_body reply)) = Inr ()"
    using check_user_data_iff [OF assms(1) externals.content_hash_roundtrip [OF assms(1,6)]] h by simp
  have verified: "verify_invoke_attestation X V wr d n p (content_hash_to_hex X ?h) (an_body reply) None v = (Inr (), v)"
    unfolding verify_invoke_attestation_def bind_io_def map_err_io_def d(2) by (simp add: ud)
  have raw: "b64_decode X (trim (b64_encode X d)) = Some d"
    using base64_codec.benc_trim [OF codec] base64_codec.bdec_benc [OF codec] by simp
  have "check_reported_hash (Some (content_hash_to_hex X ?h)) (Some (content_hash_to_hex X ?h)) = Inr ()"
    by (simp add: check_reported_hash_def eq_ignore_ascii_case_def)
  moreover have "header_str H (an_headers reply) CLI_ATTESTATION_HEADER = Some (b64_encode X d)"
    using r(2) d(1) by (simp add: same_headers)
  ultimately have "check_answer X J T H V wr args (Some (content_hash_to_hex X h)) (Some n) (an_status reply)
      (an_headers reply) (an_body reply) v = (Inr (from_utf8_lossy T (an_body reply)), v)"
    using assms(3) raw verified unfolding check_answer_pcr0 [OF assms(4)] hdr h assms(5) by blast
  then show "\<exists>out v'. check_answer X J T H V wr args (Some (content_hash_to_hex X h)) (Some n) (an_status reply)
      (an_headers reply) (an_body reply) v = (Inr out, v')" by blast
qed

text \<open>
  C10: For an answer of the host with a success status to a request with a nonce, from an attestor
  whose documents the verifier reads back, the client's check with \<open>--pcr0\<close> succeeds for exactly
  one module hash: that of the module that ran, even if the guest sets the hash and attestation
  headers itself.
\<close>

theorem client_accepts_only_what_ran:
  assumes "externals X" and "header_map H" and "host_invoke X J T' H S name headers body w = (Inr reply, w')"
    and "parse_nonce X H headers = Inr (Some n)" and "is_success (an_status reply)"
    and "iv_pcr0 args = Some p" and "iv_attestation_out args = None"
    and "\<And>ud r u u'. hs_attestor S ud n u = (Inr r, u') \<Longrightarrow>
        \<exists>doc. r = Some doc \<and> (\<forall>v. V doc \<lparr> vo_nonce = n, vo_max_age_ms = 5 * 60 * 1000, vo_pcr0 = to_ascii_lowercase (trim p) \<rparr> v = (Inr (Some ud), v))"
  shows "\<exists>req response w1. host_request X J H name headers body = Inr (req, Some n)
     \<and> paid_execute X (hs_invoke S) (invoke_bearer H headers) req w = (Inr response, w1)
     \<and> (\<forall>h v. content_hash_ok h \<longrightarrow>
          (\<exists>out v'. check_answer X J T H V wr args (Some (content_hash_to_hex X h)) (Some n) (an_status reply)
             (an_headers reply) (an_body reply) v = (Inr out, v')) \<longleftrightarrow> h = ir_content_hash response)"
proof -
  obtain req nonce response w1 where a: "host_request X J H name headers body = Inr (req, nonce)"
    "paid_execute X (hs_invoke S) (invoke_bearer H headers) req w = (Inr response, w1)"
    "answers_for X H S nonce response w1 reply w'"
    using host_answer_bound [OF assms(1-3)] by blast
  have "nonce = Some n" using host_request_nonce [OF a(1)] assms(4) by simp
  with a(3) have "answers_for X H S (Some n) response w1 reply w'" by simp
  then have "(\<exists>out v'. check_answer X J T H V wr args (Some (content_hash_to_hex X h)) (Some n) (an_status reply)
             (an_headers reply) (an_body reply) v = (Inr out, v')) \<longleftrightarrow> h = ir_content_hash response"
    if "content_hash_ok h" for h v
    using check_answer_host [OF assms(1) _ assms(5-7) that, where S = S and n = n and V = V] assms(8) by blast
  with a(1,2) \<open>nonce = Some n\<close> show ?thesis by blast
qed

text \<open>A verifier of the demo attestor's documents, which are the user data and the nonce.\<close>

definition demo_verifier :: "'w attestation_verifier" where
  "demo_verifier doc opts =
     (let n = length doc - length (vo_nonce opts) in
      if drop n doc = vo_nonce opts then ret (Some (take n doc)) else throw ''nonce mismatch'')"

definition demo_invoke_args :: invoke_args where
  "demo_invoke_args = \<lparr> iv_name = ''echo'', iv_url = ''https://host'', iv_data = ''in'', iv_version = None,
     iv_fn_shasum = Some (content_hash_to_hex ref_ext (fv_content_hash echo_version)), iv_pcr0 = Some ''00'',
     iv_attestation_out = None, iv_api_key = Some (as_str demo_secret) \<rparr>"

definition no_writer :: "'w file_writer" where "no_writer path b = throw ''read-only''"

lemma demo_verified:
  assumes "hs_attestor demo_host ud n u = (Inr r, u')"
  shows "\<exists>doc. r = Some doc \<and> (\<forall>v. demo_verifier doc \<lparr> vo_nonce = n, vo_max_age_ms = 5 * 60 * 1000, vo_pcr0 = p \<rparr> v = (Inr (Some ud), v))"
  using assms by (auto simp: demo_host_def demo_verifier_def Let_def)

theorem client_accepts_only_what_ran_witness:
  "\<exists>reply w'. host_invoke ref_ext ref_json_text ref_text ref_headers demo_host ''echo'' demo_headers ''in'' demo_world = (Inr reply, w')
   \<and> (\<forall>h. content_hash_ok h \<longrightarrow>
        (\<exists>out v'. check_answer ref_ext ref_json_text demo_cli_text ref_headers demo_verifier no_writer demo_invoke_args
             (Some (content_hash_to_hex ref_ext h)) (Some demo_nonce) (an_status reply) (an_headers reply) (an_body reply) ()
           = (Inr out, v')) \<longleftrightarrow> h = fv_content_hash echo_version)"
proof -
  obtain reply w' where h: "host_invoke ref_ext ref_json_text ref_text ref_headers demo_host ''echo'' demo_headers ''in'' demo_world
     = (Inr reply, w')" "an_status reply = 200"
    using demo_host_answers by blast
  have args: "iv_pcr0 demo_invoke_args = Some ''00''" "iv_attestation_out demo_invoke_args = None"
    by (simp_all add: demo_invoke_args_def)
  have ok: "is_success (an_status reply)" by (simp add: h(2) is_success_def)
  have "\<exists>req response w1. host_request ref_ext ref_json_text ref_headers ''echo'' demo_headers ''in'' = Inr (req, Some demo_nonce)
    \<and> paid_execute ref_ext (hs_invoke demo_host) (invoke_bearer ref_headers demo_headers) req demo_world = (Inr response, w1)
    \<and> (\<forall>h (v :: unit). content_hash_ok h \<longrightarrow>
        (\<exists>out v'. check_answer ref_ext ref_json_text demo_cli_text ref_headers demo_verifier no_writer demo_invoke_args
             (Some (content_hash_to_hex ref_ext h)) (Some demo_nonce) (an_status reply) (an_headers reply) (an_body reply) v
           = (Inr out, v')) \<longleftrightarrow> h = ir_content_hash response)"
    by (rule client_accepts_only_what_ran
        [OF ref_externals.externals_axioms ref_headers.header_map_axioms h(1) demo_header_values(2) ok args])
      (erule demo_verified)
  then obtain req response w1 where
    req: "host_request ref_ext ref_json_text ref_headers ''echo'' demo_headers ''in'' = Inr (req, Some demo_nonce)"
    and p: "paid_execute ref_ext (hs_invoke demo_host) (invoke_bearer ref_headers demo_headers) req demo_world = (Inr response, w1)"
    and c: "\<forall>h (v :: unit). content_hash_ok h \<longrightarrow>
        (\<exists>out v'. check_answer ref_ext ref_json_text demo_cli_text ref_headers demo_verifier no_writer demo_invoke_args
             (Some (content_hash_to_hex ref_ext h)) (Some demo_nonce) (an_status reply) (an_headers reply) (an_body reply) v
           = (Inr out, v')) \<longleftrightarrow> h = ir_content_hash response"
    by (elim exE conjE) (rule that)
  obtain b where "req = demo_request b" using demo_host_request req by auto
  then have "ir_content_hash response = fv_content_hash echo_version"
    using p hi_paid_invoke [of b] by (auto simp: demo_header_values)
  with c h(1) show ?thesis by auto
qed

text \<open>A server that answers a request with the demo nonce of the client by the attested \<open>hi\<close>.\<close>

definition hi_document :: bytes where
  "hi_document = content_hash_bytes (fv_content_hash echo_version) @ sha256 ref_ext ''hi'' @ replicate 32 (CHR ''r'')"

definition hi_server :: "('w, (string \<times> bytes) list) cli_http" where
  "hi_server = \<lparr> ch_post = (\<lambda>_ _ _. ret (200, [(CLI_SHASUM_HEADER, content_hash_to_hex ref_ext (fv_content_hash echo_version)),
       (CLI_ATTESTATION_HEADER, b64_encode ref_ext hi_document)], Inr ''hi'')),
     ch_put = (\<lambda>_ _ _. throw ''connection refused'') \<rparr>"

lemma hi_hash:
  "content_hash_ok (fv_content_hash echo_version)"
  "resolve_fn_shasum ref_ext (iv_fn_shasum demo_invoke_args)
     = Inr (Some (content_hash_to_hex ref_ext (fv_content_hash echo_version)))"
proof -
  show ok: "content_hash_ok (fv_content_hash echo_version)"
    by (simp add: echo_version_def ref_externals.content_hash_from_bytes_ok)
  have g: "trim (content_hash_to_hex ref_ext h) = content_hash_to_hex ref_ext h" for h
    unfolding content_hash_to_hex_def by (rule trim_graphic) (rule ref_externals.henc_graphic)
  have l: "to_ascii_lowercase (content_hash_to_hex ref_ext h) = content_hash_to_hex ref_ext h" for h
    by (simp add: content_hash_to_hex_def)
  show "resolve_fn_shasum ref_ext (iv_fn_shasum demo_invoke_args)
     = Inr (Some (content_hash_to_hex ref_ext (fv_content_hash echo_version)))"
    by (simp add: resolve_fn_shasum_def demo_invoke_args_def g l with_context_def ref_externals.content_hash_roundtrip [OF ok])
qed

lemma hi_checked:
  "check_answer ref_ext ref_json_text demo_cli_text ref_headers demo_verifier no_writer demo_invoke_args
     (Some (content_hash_to_hex ref_ext (fv_content_hash echo_version))) (Some (replicate 32 (CHR ''r''))) 200
     [(CLI_SHASUM_HEADER, content_hash_to_hex ref_ext (fv_content_hash echo_version)),
       (CLI_ATTESTATION_HEADER, b64_encode ref_ext hi_document)] ''hi'' w = (Inr ''hi'', w)"
proof -
  let ?h = "fv_content_hash echo_version" and ?n = "replicate 32 (CHR ''r'')"
  let ?hs = "[(CLI_SHASUM_HEADER, content_hash_to_hex ref_ext ?h), (CLI_ATTESTATION_HEADER, b64_encode ref_ext hi_document)]"
  have p: "iv_pcr0 demo_invoke_args = Some ''00''" "iv_attestation_out demo_invoke_args = None"
    by (simp_all add: demo_invoke_args_def)
  have names: "CLI_SHASUM_HEADER \<noteq> CLI_ATTESTATION_HEADER"
    by (simp add: CLI_SHASUM_HEADER_def CLI_ATTESTATION_HEADER_def)
  have "hl_to_str ref_headers (content_hash_to_hex ref_ext ?h) = Some (content_hash_to_hex ref_ext ?h)"
    unfolding content_hash_to_hex_def by (rule ref_headers.str_graphic) (rule ref_externals.henc_graphic)
  then have sha: "header_str ref_headers ?hs CLI_SHASUM_HEADER = Some (content_hash_to_hex ref_ext ?h)"
    using names by (simp add: ref_header_str)
  have "hl_to_str ref_headers (b64_encode ref_ext hi_document) = Some (b64_encode ref_ext hi_document)"
    by (metis ref_headers.str_graphic ref_externals.benc_chars)
  then have att: "header_str ref_headers ?hs CLI_ATTESTATION_HEADER = Some (b64_encode ref_ext hi_document)"
    using names by (simp add: ref_header_str)
  have rep: "check_reported_hash (Some (content_hash_to_hex ref_ext ?h)) (Some (content_hash_to_hex ref_ext ?h)) = Inr ()"
    by (simp add: check_reported_hash_def eq_ignore_ascii_case_def)
  have doc: "b64_decode ref_ext (trim (b64_encode ref_ext hi_document)) = Some hi_document"
    by (simp add: ref_externals.benc_trim ref_externals.bdec_benc)
  have ud: "demo_verifier hi_document \<lparr> vo_nonce = ?n, vo_max_age_ms = 5 * 60 * 1000, vo_pcr0 = q \<rparr> v
      = (Inr (Some (content_hash_bytes ?h @ sha256 ref_ext ''hi'')), v)" for q and v :: 'x
    by (simp add: demo_verifier_def hi_document_def Let_def)
  have cud: "check_user_data ref_ext (content_hash_to_hex ref_ext ?h) ''hi'' (content_hash_bytes ?h @ sha256 ref_ext ''hi'') = Inr ()"
    unfolding check_user_data_iff [OF ref_externals.externals_axioms ref_externals.content_hash_roundtrip [OF hi_hash(1)]] ..
  have ver: "verify_invoke_attestation ref_ext demo_verifier no_writer hi_document ?n ''00'' (content_hash_to_hex ref_ext ?h) ''hi'' None w
      = (Inr (), w)"
    unfolding verify_invoke_attestation_def bind_io_def map_err_io_def ud by (simp add: cud)
  have "utf8_valid ''hi''" by (simp add: utf8_valid_literal char_class_defs byte_def)
  then have out: "''hi'' = from_utf8_lossy demo_cli_text ''hi''" by (simp add: from_utf8_lossy_def)
  have ok: "is_success 200" by (simp add: is_success_def)
  show ?thesis
    unfolding check_answer_pcr0 [OF p(1)] sha att p(2) by (intro conjI exI) (rule ok out rep doc ver refl)+
qed

theorem attested_invoke_sound_witness:
  "\<exists>nonce doc. cli_invoke ref_ext ref_json_text demo_cli_text ref_headers demo_rng hi_server demo_verifier no_writer
       demo_invoke_args () = (Inr ''hi'', ()) \<and> demo_rng 32 () = (Inr nonce, ())
   \<and> demo_verifier doc \<lparr> vo_nonce = nonce, vo_max_age_ms = 5 * 60 * 1000, vo_pcr0 = to_ascii_lowercase (trim ''00'') \<rparr> ()
       = (Inr (Some (content_hash_bytes (fv_content_hash echo_version) @ sha256 ref_ext ''hi'')), ())"
proof -
  have args: "iv_pcr0 demo_invoke_args = Some ''00''" by (simp add: demo_invoke_args_def)
  have r: "random_bytes32 demo_rng msg = ret (replicate 32 (CHR ''r''))" for msg
    by (simp add: random_bytes32_def demo_rng_def map_err_io_def fun_eq_iff)
  have post: "ch_post hi_server url hs b = ret (200, [(CLI_SHASUM_HEADER, content_hash_to_hex ref_ext (fv_content_hash echo_version)),
       (CLI_ATTESTATION_HEADER, b64_encode ref_ext hi_document)], Inr ''hi'')" for url hs b
    by (simp add: hi_server_def)
  have run: "cli_invoke ref_ext ref_json_text demo_cli_text ref_headers demo_rng hi_server demo_verifier no_writer
       demo_invoke_args () = (Inr ''hi'', ())"
    unfolding cli_invoke_def hi_hash(2) bind_io_ret Let_def args option.case
    by (simp add: bind_io_def r post map_err_io_def with_context_def hi_checked)
  from attested_invoke_sound [OF ref_externals.externals_axioms args run]
  obtain t h nonce w1 status headers body w2 doc w3 where f: "iv_fn_shasum demo_invoke_args = Some t"
    "content_hash_from_hex ref_ext (to_ascii_lowercase (trim t)) = Inr h" "demo_rng 32 () = (Inr nonce, w1)"
    "ch_post hi_server (trim_end_matches CHR ''/'' (iv_url demo_invoke_args) @ ''/invoke/'' @ iv_name demo_invoke_args)
         (invoke_headers ref_ext ref_headers demo_invoke_args (Some nonce)) (iv_data demo_invoke_args) w1
      = (Inr (status, headers, Inr body), w2)"
    "demo_verifier doc \<lparr> vo_nonce = nonce, vo_max_age_ms = 5 * 60 * 1000, vo_pcr0 = to_ascii_lowercase (trim ''00'') \<rparr> w2
         = (Inr (Some (content_hash_bytes h @ sha256 ref_ext body)), w3)"
    by (elim exE conjE) (rule that)
  have "h = fv_content_hash echo_version" "body = ''hi''"
    using hi_hash(2) f(1,2,4) ref_externals.content_hash_to_hex_inj
    by (auto simp: resolve_fn_shasum_def Let_def with_context_def post ref_externals.content_hash_roundtrip [OF hi_hash(1)])
  with f(3,5) run show ?thesis by (intro exI conjI) simp_all
qed

section \<open>The allowlist\<close>

lemma origin_graphic:
  assumes "origin_normal e" and "c \<in> set (origin_str e)"
  shows "graphic c"
proof -
  have "graphic x" if "validate_host h = Inr ()" "x \<in> set h" for h x
    using that host_char_facts by (auto simp: validate_host_Inr_iff)
  moreover have "graphic x" if "x \<in> set (show_nat k)" for k x using that show_nat_digits digit_facts by blast
  moreover have "graphic x" if "x \<in> set ''https://'' \<or> x = CHR '':''" for x using that by (auto simp: graphic_def byte_def)
  ultimately show ?thesis using assms unfolding origin_normal_def by (auto; fastforce)
qed

lemma deploy_allow_values:
  assumes "header_map H"
  shows "hl_get_all H (deploy_headers H origins api_key) ALLOW_URL_HEADER = map origin_str origins"
proof -
  have "hl_get_all H (foldl (\<lambda>hs origin. hl_append H ''x-nitrum-fn-allow-url'' (origin_str origin) hs) hs origins)
      ALLOW_URL_HEADER = hl_get_all H hs ALLOW_URL_HEADER @ map origin_str origins" for hs
    by (induction origins arbitrary: hs) (simp_all add: header_map.get_all_append [OF assms] ALLOW_URL_HEADER_def)
  moreover have "hl_get_all H (bearer_headers H api_key hs) ALLOW_URL_HEADER = hl_get_all H hs ALLOW_URL_HEADER" for hs
    by (simp add: bearer_headers_def header_map.get_all_append [OF assms] ALLOW_URL_HEADER_def split: option.split)
  ultimately show ?thesis
    by (simp add: deploy_headers_def header_map.get_all_append [OF assms] header_map.get_all_empty [OF assms] ALLOW_URL_HEADER_def)
qed

lemma normal_origins_Inr:
  assumes "normal_origins raw = Inr origins"
  shows "(\<forall>e \<in> set origins. origin_normal e) \<and> distinct origins \<and> length origins \<le> MAX_EGRESS_ALLOW"
proof -
  obtain es where es: "collect_r egress_parse raw = Inr es" "normalize_loop [] es = Inr origins"
    using assms by (auto simp: normal_origins_def with_context_def bind_r_Inr_iff normalize_egress_allow_def)
  have "\<exists>s. egress_parse s = Inr e" if "e \<in> set es" for e using collect_r_Inr_set [OF es(1)] that by blast
  then show ?thesis using normalize_loop_Inr [OF es(2)] egress_parse_normal by auto
qed

text \<open>
  The allowlist a deployment sends is the allowlist the API reads: whatever list of URLs the
  user gave that the client accepts, the headers it makes of them parse on the server to the same
  origins in the same order, with or without an API key.
\<close>

lemma allowlist_sent_is_read:
  assumes "header_map H" and "normal_origins raw = Inr origins"
  shows "parse_allow_headers H (deploy_headers H origins api_key) = Inr origins"
proof -
  note ok = normal_origins_Inr [OF assms(2)]
  have "bind_r (ok_or (BadRequest ''invalid allow-url header'') (hl_to_str H (origin_str e)))
      (\<lambda>raw. map_err Domain (egress_parse raw)) = Inr e" if "e \<in> set origins" for e
    using that ok header_map.str_graphic [OF assms(1)] origin_graphic egress_parse_fixpoint by fastforce
  then have "collect_r (\<lambda>value. bind_r (ok_or (BadRequest ''invalid allow-url header'') (hl_to_str H value))
      (\<lambda>raw. map_err Domain (egress_parse raw))) (map origin_str origins) = Inr origins"
    by (rule collect_r_map)
  then show ?thesis
    using ok normalize_loop_append [of "[]" origins]
    by (simp add: parse_allow_headers_def deploy_allow_values [OF assms(1)] normalize_egress_allow_def)
qed

end
