(* ===== verification/Deployment.thy ===== *)
theory Deployment
  imports Host_Http Api_Http Publish_Lock Publish Payments
begin

text \<open>
  How the two servers are put together: the configuration (\<open>config.rs\<close> of \<open>crates/api\<close> and
  \<open>crates/host\<close>), the services \<open>main.rs\<close> builds from it, and the routers in front of the handlers.
  The loader of layered configuration files, the AWS clients and the server library are parameters.
\<close>

section \<open>Configuration\<close>

record server_config =
  sv_port :: u16

record artifacts_config =
  af_bucket :: string
  af_prefix :: string
  af_endpoint :: "string option"

record accounts_config =
  at_table :: string
  at_keys_table :: string
  at_receipts_table :: string
  at_endpoint :: "string option"

record host_catalog_config =
  hk_table :: string
  hk_endpoint :: "string option"

record host_billing_config =
  hb_invoke_credit_cost :: u64
  hb_api_public_url :: string

record host_config =
  hc_server :: server_config
  hc_artifacts :: artifacts_config
  hc_catalog :: host_catalog_config
  hc_accounts :: accounts_config
  hc_billing :: host_billing_config
  hc_run_env :: string

record api_catalog_config =
  ak_table :: string
  ak_publish_lock_table :: string
  ak_endpoint :: "string option"

record api_billing_config =
  ab_usdc_per_invoke :: u64
  ab_min_deploy_credits :: u64
  ab_pay_to :: string
  ab_asset :: string
  ab_network :: string
  ab_facilitator_url :: string
  ab_api_public_url :: string

record api_config =
  apc_server :: server_config
  apc_artifacts :: artifacts_config
  apc_catalog :: api_catalog_config
  apc_accounts :: accounts_config
  apc_billing :: api_billing_config

text \<open>
  What loading sees of the process: \<open>NITRUM_FN_ENV\<close>, the directory of the executable, whether a
  path is a directory, and the loader, which merges the named files in order and the environment.
\<close>

record 'c config_env =
  ce_run_env :: "string option"
  ce_exe_dir :: "string option"
  ce_is_dir :: "string \<Rightarrow> bool"
  ce_build :: "string list \<Rightarrow> string + 'c"

definition overlay_name :: "string option \<Rightarrow> string" where
  "overlay_name var = (case var of Some s \<Rightarrow> if s = [] then ''local'' else s | None \<Rightarrow> ''local'')"

definition config_root :: "'c config_env \<Rightarrow> string" where
  "config_root C =
     (case ce_exe_dir C of
        Some dir \<Rightarrow> if ce_is_dir C (dir @ ''/config'') then dir else ''.''
      | None \<Rightarrow> ''.'')"

definition host_config_load :: "host_config config_env \<Rightarrow> string + host_config" where
  "host_config_load C =
     (let run_env = overlay_name (ce_run_env C); root = config_root C in
      bind_r (ce_build C [root @ ''/config/shared/base'', root @ ''/config/shared/'' @ run_env,
                          root @ ''/config/host/base'', root @ ''/config/host/'' @ run_env]) (\<lambda>config.
      Inr (config\<lparr> hc_run_env := run_env \<rparr>)))"

definition api_config_load :: "api_config config_env \<Rightarrow> string + api_config" where
  "api_config_load C =
     (let run_env = overlay_name (ce_run_env C) in
      ce_build C [''config/shared/base'', ''config/shared/'' @ run_env, ''config/api/base'', ''config/api/'' @ run_env])"

section \<open>The services\<close>

text \<open>The AWS clients, at the default endpoint or at a given one.\<close>

record 'w aws =
  aws_s3 :: "string option \<Rightarrow> 'w s3_client"
  aws_ddb :: "string option \<Rightarrow> 'w ddb_client"

text \<open>\<open>endpoint.or(other)\<close>.\<close>

definition or_endpoint :: "string option \<Rightarrow> string option \<Rightarrow> string option" where
  "or_endpoint a b = (case a of Some e \<Rightarrow> Some e | None \<Rightarrow> b)"

definition config_artifacts :: "'w aws \<Rightarrow> artifacts_config \<Rightarrow> 'w s3_artifacts" where
  "config_artifacts W c = s3_artifacts_new (aws_s3 W (af_endpoint c)) (af_bucket c) (af_prefix c)"

definition config_catalog :: "'w aws \<Rightarrow> string option \<Rightarrow> string \<Rightarrow> 'w catalog_db" where
  "config_catalog W endpoint table = \<lparr> cd_client = aws_ddb W endpoint, cd_table = table \<rparr>"

definition config_accounts :: "'w aws \<Rightarrow> string option \<Rightarrow> accounts_config \<Rightarrow> 'w account_db" where
  "config_accounts W endpoint c =
     \<lparr> adb_client = aws_ddb W (or_endpoint (at_endpoint c) endpoint), adb_accounts = at_table c,
       adb_keys = at_keys_table c, adb_receipts = at_receipts_table c \<rparr>"

definition host_app ::
  "ext \<Rightarrow> 'w aws \<Rightarrow> 'w function_runner \<Rightarrow> 'w function_attestor \<Rightarrow> host_config \<Rightarrow> 'w host_state" where
  "host_app X W runner crypto c =
     (let catalog = dynamo_catalog X (config_catalog W (hk_endpoint (hc_catalog c)) (hk_table (hc_catalog c)));
          artifacts = s3_artifact_store X (config_artifacts W (hc_artifacts c));
          attestor = (if hc_run_env c = ''local'' then noop_attestor else crypto);
          accounts = dynamo_account_store X (config_accounts W (hk_endpoint (hc_catalog c)) (hc_accounts c));
          invoke = paid_invoke_new (hb_invoke_credit_cost (hc_billing c)) (hb_api_public_url (hc_billing c)) accounts
            \<lparr> if_catalog = catalog, if_artifacts = artifacts, if_runner = runner \<rparr> in
      \<lparr> hs_invoke = invoke, hs_attestor = attestor \<rparr>)"

text \<open>
  \<open>ApiState\<close>. The clocks of the lock (seconds), of the settler (seconds) and of the publisher
  (milliseconds), the facilitator's client and the JSON parser of payment headers are arguments.
\<close>

record 'w api_state =
  ai_publish :: "'w publish_function"
  ai_catalog :: "'w function_catalog"
  ai_accounts :: "'w accounts"
  ai_min_deploy_credits :: u64

definition facilitator_new :: "(string \<Rightarrow> json \<Rightarrow> ('w, string, http_reply) io) \<Rightarrow> string \<Rightarrow> 'w http_facilitator" where
  "facilitator_new post base_url = \<lparr> hf_post = post, hf_base_url = trim_end_matches CHR ''/'' base_url \<rparr>"

definition x402_from_config ::
  "(string \<Rightarrow> json \<Rightarrow> ('w, string, http_reply) io) \<Rightarrow> ('w \<Rightarrow> u64 \<times> 'w)
     \<Rightarrow> string \<Rightarrow> u64 \<Rightarrow> string \<Rightarrow> string \<Rightarrow> string \<Rightarrow> string \<Rightarrow> 'w x402_settler" where
  "x402_from_config post now facilitator_url usdc_per_invoke asset pay_to network credit_base =
     x402_settler_new (http_settle_exact (facilitator_new post facilitator_url))
       usdc_per_invoke asset pay_to network credit_base now"

definition api_app ::
  "ext \<Rightarrow> 'w aws \<Rightarrow> 'w function_runner \<Rightarrow> json_ext \<Rightarrow> (string \<Rightarrow> json \<Rightarrow> ('w, string, http_reply) io)
     \<Rightarrow> ('w \<Rightarrow> u64 \<times> 'w) \<Rightarrow> ('w \<Rightarrow> int \<times> 'w) \<Rightarrow> api_config \<Rightarrow> 'w api_state" where
  "api_app X W runner K post now_s now_ms c =
     (let endpoint = ak_endpoint (apc_catalog c); b = apc_billing c;
          catalog = dynamo_catalog X (config_catalog W endpoint (ak_table (apc_catalog c)));
          artifacts = s3_artifact_store X (config_artifacts W (apc_artifacts c));
          lock = dynamo_publish_lock X
            \<lparr> lk_client = aws_ddb W endpoint, lk_table = ak_publish_lock_table (apc_catalog c), lk_now = now_s \<rparr>;
          account_store = dynamo_account_store X (config_accounts W endpoint (apc_accounts c));
          settler = x402_from_config post now_s (ab_facilitator_url b)
            (ab_usdc_per_invoke b) (ab_asset b) (ab_pay_to b) (ab_network b) (ab_api_public_url b);
          accounts = accounts_new account_store (x402_credit_settler X K settler) (ab_api_public_url b);
          publish = publish_new artifacts catalog lock runner now_ms in
      \<lparr> ai_publish = publish, ai_catalog = catalog, ai_accounts = accounts,
        ai_min_deploy_credits = ab_min_deploy_credits b \<rparr>)"

section \<open>Routers\<close>

text \<open>
  A request as the server hands it over: the method, the decoded segments of the path, the headers
  and the body. The answers the server makes itself, for a path or a method without a route and for
  a body over the limit of its route, are a parameter; a route for \<open>GET\<close> also serves \<open>HEAD\<close>, with no
  body. The body of a route without an extractor for it is not read.
\<close>

record 'h http_request =
  rq_method :: string
  rq_path :: "string list"
  rq_headers :: 'h
  rq_body :: bytes

record 'h server_answers =
  sa_not_found :: "'h http_answer"
  sa_not_allowed :: "string list \<Rightarrow> 'h http_answer"
  sa_too_large :: "'h http_answer"

definition DEFAULT_BODY_LIMIT :: nat where "DEFAULT_BODY_LIMIT = 2097152"

definition ok_empty :: "'h header_lib \<Rightarrow> 'h http_answer" where
  "ok_empty H = \<lparr> an_status = 200, an_headers = hl_empty H, an_body = [] \<rparr>"

definition get_route ::
  "'h server_answers \<Rightarrow> 'h http_request \<Rightarrow> ('w \<Rightarrow> 'h http_answer \<times> 'w) \<Rightarrow> 'w \<Rightarrow> 'h http_answer \<times> 'w" where
  "get_route A rq k w =
     (if rq_method rq = ''GET'' then k w
      else if rq_method rq = ''HEAD'' then (case k w of (answer, w') \<Rightarrow> (answer\<lparr> an_body := [] \<rparr>, w'))
      else (sa_not_allowed A [''GET'', ''HEAD''], w))"

definition post_route ::
  "'h server_answers \<Rightarrow> 'h http_request \<Rightarrow> ('w \<Rightarrow> 'h http_answer \<times> 'w) \<Rightarrow> 'w \<Rightarrow> 'h http_answer \<times> 'w" where
  "post_route A rq k w = (if rq_method rq = ''POST'' then k w else (sa_not_allowed A [''POST''], w))"

definition limited ::
  "'h server_answers \<Rightarrow> nat \<Rightarrow> 'h http_request \<Rightarrow> ('w \<Rightarrow> 'h http_answer \<times> 'w) \<Rightarrow> 'w \<Rightarrow> 'h http_answer \<times> 'w" where
  "limited A n rq k w = (if length (rq_body rq) > n then (sa_too_large A, w) else k w)"

definition host_router ::
  "ext \<Rightarrow> json_text \<Rightarrow> codec_text \<Rightarrow> 'h header_lib \<Rightarrow> 'h server_answers \<Rightarrow> 'w host_state \<Rightarrow> 'h http_request
     \<Rightarrow> 'w \<Rightarrow> 'h http_answer \<times> 'w" where
  "host_router X J T H A S rq =
     (case rq_path rq of
        [a] \<Rightarrow> if a = ''healthz'' then get_route A rq (\<lambda>w. (ok_empty H, w)) else Pair (sa_not_found A)
      | [a, name] \<Rightarrow>
          if a = ''invoke'' \<and> name \<noteq> [] then
            post_route A rq (limited A MAX_INVOKE_BODY_BYTES rq
              (host_serve X J T H S name (rq_headers rq) (rq_body rq)))
          else Pair (sa_not_found A)
      | _ \<Rightarrow> Pair (sa_not_found A))"

definition accounts_router ::
  "ext \<Rightarrow> json_text \<Rightarrow> 'h header_lib \<Rightarrow> 'h json_extractor \<Rightarrow> 'h server_answers \<Rightarrow> 'w rng \<Rightarrow> 'w accounts \<Rightarrow> 'h http_request
     \<Rightarrow> 'w \<Rightarrow> 'h http_answer \<times> 'w" where
  "accounts_router X J H E A rng acc rq =
     (let headers = rq_headers rq; body = rq_body rq;
          json_limited = (\<lambda>k w. if je_accepts E headers then limited A DEFAULT_BODY_LIMIT rq k w else k w) in
      case rq_path rq of
        [_] \<Rightarrow> post_route A rq (api_serve X J H (api_create_account X J H rng acc))
      | [_, ident] \<Rightarrow> get_route A rq (api_serve X J H (api_get_account X J H acc ident headers))
      | [_, ident, c] \<Rightarrow>
          if c = ''keys'' then post_route A rq (json_limited (serve_issue_key X J H E rng acc ident headers body))
          else if c = ''credit'' then post_route A rq (json_limited (serve_credit X J H E acc ident headers body))
          else Pair (sa_not_found A)
      | [_, ident, c, key, d] \<Rightarrow>
          if c = ''keys'' \<and> d = ''revoke'' then
            post_route A rq (api_serve X J H (api_revoke_key X H acc ident key headers))
          else Pair (sa_not_found A)
      | _ \<Rightarrow> Pair (sa_not_found A))"

text \<open>\<open>/functions/{name}\<close> is a route of the catalog (\<open>GET\<close>) and of the publisher (\<open>PUT\<close>).\<close>

definition functions_route ::
  "ext \<Rightarrow> json_text \<Rightarrow> 'h header_lib \<Rightarrow> 'h server_answers \<Rightarrow> 'w api_state \<Rightarrow> string \<Rightarrow> 'h http_request
     \<Rightarrow> 'w \<Rightarrow> 'h http_answer \<times> 'w" where
  "functions_route X J H A S name rq =
     (if rq_method rq = ''PUT'' then
        limited A MAX_WASM_BYTES rq (api_serve X J H (api_publish X J H
          \<lparr> ps_publish = ai_publish S, ps_accounts = ai_accounts S, ps_min_deploy_credits = ai_min_deploy_credits S \<rparr>
          name (rq_headers rq) (rq_body rq)))
      else if rq_method rq = ''GET'' \<or> rq_method rq = ''HEAD'' then
        get_route A rq (api_serve X J H (api_get_function X J H (ai_catalog S) name))
      else Pair (sa_not_allowed A [''GET'', ''HEAD'', ''PUT'']))"

definition api_router ::
  "ext \<Rightarrow> json_text \<Rightarrow> 'h header_lib \<Rightarrow> 'h json_extractor \<Rightarrow> 'h server_answers \<Rightarrow> 'w rng \<Rightarrow> 'w api_state \<Rightarrow> 'h http_request
     \<Rightarrow> 'w \<Rightarrow> 'h http_answer \<times> 'w" where
  "api_router X J H E A rng S rq =
     (if [] \<in> set (rq_path rq) then Pair (sa_not_found A)
      else case rq_path rq of
        [] \<Rightarrow> Pair (sa_not_found A)
      | a # rest \<Rightarrow>
          if a = ''accounts'' then accounts_router X J H E A rng (ai_accounts S) rq
          else
            (case rest of
               [] \<Rightarrow> if a = ''healthz'' then get_route A rq (\<lambda>w. (ok_empty H, w)) else Pair (sa_not_found A)
             | [name] \<Rightarrow> if a = ''functions'' then functions_route X J H A S name rq else Pair (sa_not_found A)
             | _ \<Rightarrow> Pair (sa_not_found A)))"

end
