(* ===== verification/System.thy ===== *)
theory System
  imports Deployment Invoke Api_Properties
begin

text \<open>
  Both servers on one ledger. What a request to either of them may do to it is stated over the
  routers, for the services a configuration builds: the locale \<open>system_env\<close> is what the routers rely
  on, \<open>deployment\<close> what makes it true of a configuration (one DynamoDB service, the catalog and the
  lock in tables of their own, and everything else outside the tables).
\<close>

section \<open>Requests\<close>

text \<open>
  The operations a request may apply to the ledger: accounts are opened empty, a debit is of the
  configured cost, and credits are booked under a nonce the settler gave out for them.
\<close>

fun allowed_op :: "u64 \<Rightarrow> 'w credit_settler \<Rightarrow> ledger_op \<Rightarrow> bool" where
  "allowed_op cost settler (OpCreate account key) = (acc_balance account = 0)"
| "allowed_op cost settler (OpPutKey key) = True"
| "allowed_op cost settler (OpRevoke a h) = True"
| "allowed_op cost settler (OpDebit h a c capped) = (c = cost)"
| "allowed_op cost settler (OpRefund rc) = False"
| "allowed_op cost settler (OpCredit a v nn) = (\<exists>header w1 w2. cs_settle settler a v header w1 = (Inr nn, w2))"

definition request_effect :: "ext \<Rightarrow> u64 \<Rightarrow> 'w credit_settler \<Rightarrow> ledger \<Rightarrow> ledger \<Rightarrow> bool" where
  "request_effect X cost settler L L' \<longleftrightarrow>
     L' = L \<or> (\<exists>op. allowed_op cost settler op \<and> op_spec X op L = Some L')"

text \<open>One request to one of the two servers, and any number of them.\<close>

inductive request_step ::
  "ext \<Rightarrow> json_text \<Rightarrow> codec_text \<Rightarrow> 'h header_lib \<Rightarrow> 'h json_extractor \<Rightarrow> 'h server_answers \<Rightarrow> 'w rng
     \<Rightarrow> 'w api_state \<Rightarrow> 'w host_state \<Rightarrow> 'w \<Rightarrow> 'w \<Rightarrow> bool"
  for X J T H E A rng S G where
  to_api: "api_router X J H E A rng S rq w = (answer, w') \<Longrightarrow> request_step X J T H E A rng S G w w'"
| to_host: "host_router X J T H A G rq w = (answer, w') \<Longrightarrow> request_step X J T H E A rng S G w w'"

inductive_cases request_stepE: "request_step X J T H E A rng S G w w'"

inductive requests ::
  "ext \<Rightarrow> json_text \<Rightarrow> codec_text \<Rightarrow> 'h header_lib \<Rightarrow> 'h json_extractor \<Rightarrow> 'h server_answers \<Rightarrow> 'w rng
     \<Rightarrow> 'w api_state \<Rightarrow> 'w host_state \<Rightarrow> 'w \<Rightarrow> 'w \<Rightarrow> bool"
  for X J T H E A rng S G where
  no_request: "requests X J T H E A rng S G w w"
| more_requests: "requests X J T H E A rng S G w w1 \<Longrightarrow> request_step X J T H E A rng S G w1 w2
    \<Longrightarrow> requests X J T H E A rng S G w w2"

section \<open>What a request does to the ledger\<close>

lemma ledger_run_append: "ledger_run X (ops @ ops') L = Option.bind (ledger_run X ops L) (ledger_run X ops')"
  by (induction ops arbitrary: L) (auto split: option.split)

locale system_env =
  acc: accounts_env X "ai_accounts S" led inv rng + paid: paid_env X "hs_invoke G" led inv
  for X :: ext and S :: "'w api_state" and G :: "'w host_state" and led :: "'w \<Rightarrow> ledger" and inv :: "'w \<Rightarrow> bool"
    and rng :: "'w rng" +
  assumes publish_frame: "frames inv led (publish_execute X (ai_publish S) req)"
    and resolve_frame: "frames inv led (fc_resolve (ai_catalog S) f l)"
    and attest_frame: "frames inv led (hs_attestor G ud n)"
begin

abbreviation effect :: "ledger \<Rightarrow> ledger \<Rightarrow> bool" where
  "effect \<equiv> request_effect X (pi_cost (hs_invoke G)) (ac_settler (ai_accounts S))"

text \<open>A computation, and a route, that keeps the invariant and changes the ledger by at most one allowed operation.\<close>

definition io_ok :: "('w, 'e, 'a) io \<Rightarrow> bool" where
  "io_ok m \<longleftrightarrow> (\<forall>w r w'. inv w \<longrightarrow> m w = (r, w') \<longrightarrow> inv w' \<and> effect (led w) (led w'))"

definition route_ok :: "('w \<Rightarrow> 'h http_answer \<times> 'w) \<Rightarrow> bool" where
  "route_ok k \<longleftrightarrow> (\<forall>w r w'. inv w \<longrightarrow> k w = (r, w') \<longrightarrow> inv w' \<and> effect (led w) (led w'))"

lemma io_okI: "(\<And>w r w'. inv w \<Longrightarrow> m w = (r, w') \<Longrightarrow> inv w' \<and> effect (led w) (led w')) \<Longrightarrow> io_ok m"
  by (auto simp: io_ok_def)

lemma effect_op: "op_spec X op L = Some L' \<Longrightarrow> allowed_op (pi_cost (hs_invoke G)) (ac_settler (ai_accounts S)) op \<Longrightarrow> effect L L'"
  by (auto simp: request_effect_def)

lemma effect_refl [simp]: "effect L L"
  by (simp add: request_effect_def)

lemma io_ok_frames: "frames inv led m \<Longrightarrow> io_ok m"
  by (rule io_okI) (auto dest: framesD)

lemma io_ok_bind_after:
  assumes "frames inv led m" and "\<And>a. io_ok (f a)"
  shows "io_ok (bind_io m f)"
proof (rule io_okI)
  fix w r w' assume w: "inv w" "bind_io m f w = (r, w')"
  obtain r1 w1 where m: "m w = (r1, w1)" by fastforce
  note f1 = framesD [OF assms(1) w(1) m]
  show "inv w' \<and> effect (led w) (led w')"
  proof (cases r1)
    case (Inl e)
    with w(2) m f1 show ?thesis by (simp add: bind_io_def)
  next
    case (Inr a)
    with w(2) m have "f a w1 = (r, w')" by (simp add: bind_io_def)
    with assms(2) [of a] f1 show ?thesis unfolding io_ok_def by metis
  qed
qed

lemma io_ok_bind_before:
  assumes "io_ok m" and "\<And>a. frames inv led (f a)"
  shows "io_ok (bind_io m f)"
proof (rule io_okI)
  fix w r w' assume w: "inv w" "bind_io m f w = (r, w')"
  obtain r1 w1 where m: "m w = (r1, w1)" by fastforce
  have m1: "inv w1 \<and> effect (led w) (led w1)" using assms(1) w(1) m unfolding io_ok_def by blast
  show "inv w' \<and> effect (led w) (led w')"
  proof (cases r1)
    case (Inl e)
    with w(2) m m1 show ?thesis by (simp add: bind_io_def)
  next
    case (Inr a)
    with w(2) m have "f a w1 = (r, w')" by (simp add: bind_io_def)
    with framesD [OF assms(2) _ this] m1 show ?thesis by simp
  qed
qed

text \<open>A check that has no effect before a computation.\<close>

lemma io_ok_lift: "(\<And>a. c = Inr a \<Longrightarrow> io_ok (f a)) \<Longrightarrow> io_ok (bind_io (lift_r c) f)"
  by (cases c) (simp_all add: io_ok_frames)

lemma route_ok_Pair: "route_ok (Pair answer)"
  by (simp add: route_ok_def)

lemma route_ok_same: "route_ok (\<lambda>w. (f w, w))"
  by (simp add: route_ok_def)

lemma route_ok_serve: "io_ok m \<Longrightarrow> route_ok (api_serve X J H m)"
  unfolding io_ok_def route_ok_def api_serve_def by (auto split: prod.splits sum.splits)

lemma route_ok_get: "route_ok k \<Longrightarrow> route_ok (get_route A rq k)"
  unfolding route_ok_def get_route_def by (auto split: prod.splits if_splits)

lemma route_ok_post: "route_ok k \<Longrightarrow> route_ok (post_route A rq k)"
  unfolding route_ok_def post_route_def by (auto split: if_splits)

lemma route_ok_limited: "route_ok k \<Longrightarrow> route_ok (limited A n rq k)"
  unfolding route_ok_def limited_def by (auto split: if_splits)

lemma route_ok_json: "(\<And>a. route_ok (k a)) \<Longrightarrow> route_ok (with_json J E ty de headers body k)"
  unfolding route_ok_def with_json_def by (auto split: sum.splits if_splits)

lemma route_ok_if: "route_ok k \<Longrightarrow> route_ok k' \<Longrightarrow> route_ok (if b then k else k')"
  by simp

lemmas route_rules = route_ok_Pair route_ok_same route_ok_serve route_ok_get route_ok_post route_ok_limited
  route_ok_json route_ok_if

subsection \<open>The handlers\<close>

lemma create_ok: "io_ok (accounts_create X rng (ai_accounts S))"
  unfolding accounts_create_def
proof (rule io_okI)
  fix w r w'
  assume w: "inv w" and run: "bind_io (map_err_io Domain (account_open rng)) (\<lambda>account.
     bind_io (map_err_io Domain (new_key_issue X rng (acc_id account) None)) (\<lambda>issued.
     bind_io (map_err_io (app_of_store X) (st_create (ac_store (ai_accounts S)) account (nk_record issued))) (\<lambda>_.
     ret \<lparr> ca_account_id = acc_id account, ca_key_id = kr_key_id (nk_record issued),
           ca_secret = nk_secret issued, ca_balance = 0 \<rparr>))) w = (r, w')"
  obtain r1 w1 where o: "account_open rng w = (r1, w1)" by fastforce
  note f1 = framesD [OF acc.account_open_frame w o]
  show "inv w' \<and> effect (led w) (led w')"
  proof (cases r1)
    case (Inl e)
    with run o f1 show ?thesis by (auto simp: bind_io_step map_err_io_step)
  next
    case acc: (Inr account)
    have a: "account_id_ok (acc_id account)" "acc_balance account = 0"
      using acc.rng.account_open_ok o acc by auto
    obtain r2 w2 where n: "new_key_issue X rng (acc_id account) None w1 = (r2, w2)" by fastforce
    note f2 = framesD [OF acc.new_key_frame _ n]
    show ?thesis
    proof (cases r2)
      case (Inl e)
      with run o n acc f1 f2 show ?thesis by (auto simp: bind_io_step map_err_io_step)
    next
      case (Inr nk)
      have ok: "op_ok (OpCreate account (nk_record nk))"
        using acc.ext.new_key_issue_ok(1) [OF acc.rng.rng_fills_axioms a(1) n [unfolded Inr]] by (simp add: key_record_ok_def)
      obtain r3 w3 where c: "st_create (ac_store (ai_accounts S)) account (nk_record nk) w2 = (r3, w3)" by fastforce
      have "w' = w3" using run o n acc Inr c by (cases r3) (auto simp: bind_io_step map_err_io_step)
      moreover have "inv w3 \<and> once X (OpCreate account (nk_record nk)) (led w2) (led w3)"
        using acc.led.create_law [OF _ ok c] f1 f2 by blast
      ultimately show ?thesis using f1 f2 a(2) by (auto simp: once_def request_effect_def intro!: exI [of _ "OpCreate account (nk_record nk)"])
    qed
  qed
qed

lemma effect_cases: "L' = L \<or> (\<exists>x. op_spec X (f x) L = Some L') \<Longrightarrow>
    (\<And>x. allowed_op (pi_cost (hs_invoke G)) (ac_settler (ai_accounts S)) (f x)) \<Longrightarrow> effect L L'"
  by (auto intro: effect_op)

lemma issue_ok:
  assumes "account_id_ok a"
  shows "io_ok (accounts_issue_key X rng (ai_accounts S) a bearer cap)"
proof (rule io_okI)
  fix w r w' assume "inv w" "accounts_issue_key X rng (ai_accounts S) a bearer cap w = (r, w')"
  note law = acc.issue_key_law [OF this(1) assms this(2)]
  show "inv w' \<and> effect (led w) (led w')"
    using law effect_cases [of "led w'" "led w" OpPutKey] by auto
qed

lemma revoke_ok: "io_ok (accounts_revoke X (ai_accounts S) a kid bearer)"
proof (rule io_okI)
  fix w r w' assume "inv w" "accounts_revoke X (ai_accounts S) a kid bearer w = (r, w')"
  note law = acc.revoke_law [OF this]
  show "inv w' \<and> effect (led w) (led w')"
    using law effect_cases [of "led w'" "led w" "OpRevoke a"] by auto
qed

lemma credit_ok: "io_ok (accounts_credit X (ai_accounts S) a v header)"
proof (rule io_okI)
  fix w r w' assume "inv w" "accounts_credit X (ai_accounts S) a v header w = (r, w')"
  from acc.credit_law [OF this] show "inv w' \<and> effect (led w) (led w')"
  proof (elim conjE disjE exE)
    fix h nn w1 w2 nn' w3
    assume i: "inv w'" and "cs_settle (ac_settler (ai_accounts S)) a v h w2 = (Inr nn', w3)"
      and op: "once X (OpCredit a v nn') (led w) (led w')"
    then have "allowed_op (pi_cost (hs_invoke G)) (ac_settler (ai_accounts S)) (OpCredit a v nn')"
      by (simp only: allowed_op.simps) blast
    note credited = effect_op [OF _ this]
    from op have "led w' = led w \<or> op_spec X (OpCredit a v nn') (led w) = Some (led w')" unfolding once_def .
    then show ?thesis using i credited by (elim disjE) simp_all
  qed simp
qed

lemma read_frame: "frames inv led (accounts_read X (ai_accounts S) secret)"
  by (rule framesI) (use acc.led.read_law in blast)

lemma gate_frame:
  "frames inv led (deploy_gate X H \<lparr> ps_publish = P, ps_accounts = ai_accounts S, ps_min_deploy_credits = m \<rparr> headers)"
  unfolding deploy_gate_def by (auto intro!: frames_bind frames_if read_frame)

lemma paid_ok: "io_ok (paid_execute X (hs_invoke G) bearer req)"
proof (cases "pi_cost (hs_invoke G) = 0")
  case True
  then show ?thesis using io_ok_frames [OF paid.invoke_frame] by (simp add: paid_execute_def)
next
  case False
  show ?thesis
  proof (rule io_okI)
    fix w r w' assume "inv w" "paid_execute X (hs_invoke G) bearer req w = (r, w')"
    from paid.paid_execute_law [OF this(1) False this(2)] show "inv w' \<and> effect (led w) (led w')"
      by (auto simp: request_effect_def)
  qed
qed

lemma host_reply_frame: "frames inv led (host_reply X J T H G nonce response)"
  unfolding host_reply_def attest_header_def attest_invoke_def Let_def
  by (intro frames_bind frames_ret) (auto intro!: frames_bind attest_frame split: option.split)

lemma host_ok: "route_ok (host_serve X J T H G name headers body)"
proof -
  have "io_ok (host_invoke X J T H G name headers body)"
    unfolding host_invoke_def
    by (rule io_ok_lift) (auto intro: io_ok_bind_before paid_ok host_reply_frame split: prod.split)
  then show ?thesis unfolding io_ok_def route_ok_def host_serve_def by (auto split: prod.splits sum.splits)
qed

lemma handlers_ok:
  "io_ok (api_create_account X J H rng (ai_accounts S))"
  "io_ok (api_issue_key X J H rng (ai_accounts S) ident headers cap)"
  "io_ok (api_revoke_key X H (ai_accounts S) ident key headers)"
  "io_ok (api_get_account X J H (ai_accounts S) ident headers)"
  "io_ok (api_credit X J H (ai_accounts S) ident headers v)"
  "io_ok (api_get_function X J H (ai_catalog S) name)"
  "io_ok (api_publish X J H \<lparr> ps_publish = ai_publish S, ps_accounts = ai_accounts S, ps_min_deploy_credits = m \<rparr> name headers body)"
proof -
  have a: "account_id_ok a" if "http_account_id X ident = Inr a" for a
    using that acc.ext.id_from_hex_ok(1) by (auto simp: http_account_id_def)
  show "io_ok (api_create_account X J H rng (ai_accounts S))"
    unfolding api_create_account_def by (auto intro!: io_ok_bind_before create_ok)
  show "io_ok (api_issue_key X J H rng (ai_accounts S) ident headers cap)"
    unfolding api_issue_key_def by (rule io_ok_lift) (auto intro!: io_ok_bind_before issue_ok a)
  show "io_ok (api_revoke_key X H (ai_accounts S) ident key headers)"
    unfolding api_revoke_key_def by (intro io_ok_lift io_ok_bind_before revoke_ok frames_ret)
  show "io_ok (api_get_account X J H (ai_accounts S) ident headers)"
    unfolding api_get_account_def by (rule io_ok_frames) (intro frames_bind frames_if frames_ret read_frame)
  show "io_ok (api_credit X J H (ai_accounts S) ident headers v)"
    unfolding api_credit_def by (intro io_ok_lift io_ok_bind_before credit_ok frames_ret)
  show "io_ok (api_get_function X J H (ai_catalog S) name)"
    unfolding api_get_function_def by (rule io_ok_frames) (intro frames_bind frames_ret resolve_frame)
  show "io_ok (api_publish X J H \<lparr> ps_publish = ai_publish S, ps_accounts = ai_accounts S, ps_min_deploy_credits = m \<rparr> name headers body)"
    unfolding api_publish_def by (rule io_ok_frames) (simp, intro frames_bind frames_ret gate_frame publish_frame)
qed

subsection \<open>The routers\<close>

lemma accounts_router_ok: "route_ok (accounts_router X J H E A rng (ai_accounts S) rq)"
proof -
  have limited: "route_ok (\<lambda>w. if je_accepts E hs then limited A n rq k w else k w)" if "route_ok k" for hs n k
    using that route_ok_limited [OF that, of A n rq] by (cases "je_accepts E hs") simp_all
  have "route_ok (serve_issue_key X J H E rng (ai_accounts S) ident hs body)"
    "route_ok (serve_credit X J H E (ai_accounts S) ident hs body)" for ident hs body
    unfolding serve_issue_key_def serve_credit_def by (intro route_rules handlers_ok)+
  note json = this
  show ?thesis
    unfolding accounts_router_def Let_def
    by (auto split: list.split intro!: route_rules handlers_ok limited json)
qed

lemma functions_route_ok: "route_ok (functions_route X J H A S name rq)"
  unfolding functions_route_def by (intro route_rules handlers_ok)

lemma api_router_ok: "route_ok (api_router X J H E A rng S rq)"
  unfolding api_router_def
  by (auto split: list.split intro!: route_rules accounts_router_ok functions_route_ok)

lemma host_router_ok: "route_ok (host_router X J T H A G rq)"
  unfolding host_router_def
  by (auto split: list.split intro!: route_rules host_ok)

lemma request_step_ok:
  assumes "request_step X J T H E A rng S G w w'" and "inv w"
  shows "inv w' \<and> effect (led w) (led w')"
  using assms(1)
proof cases
  case (to_api rq answer)
  with api_router_ok assms(2) show ?thesis unfolding route_ok_def by blast
next
  case (to_host rq answer)
  with host_router_ok assms(2) show ?thesis unfolding route_ok_def by blast
qed

text \<open>A history of requests is a run of allowed operations.\<close>

lemma requests_run:
  "requests X J T H E A rng S G w w' \<Longrightarrow> inv w \<Longrightarrow>
     inv w' \<and> (\<exists>ops. ledger_run X ops (led w) = Some (led w')
        \<and> (\<forall>op \<in> set ops. allowed_op (pi_cost (hs_invoke G)) (ac_settler (ai_accounts S)) op))"
proof (induction rule: requests.induct)
  case (no_request w)
  then show ?case by (intro conjI exI [of _ "[]"]) simp_all
next
  case (more_requests w w1 w2)
  then obtain ops where ops: "inv w1" "ledger_run X ops (led w) = Some (led w1)"
    "\<forall>op \<in> set ops. allowed_op (pi_cost (hs_invoke G)) (ac_settler (ai_accounts S)) op" by blast
  from request_step_ok [OF more_requests.hyps(2) ops(1)] have inv2: "inv w2" and e: "effect (led w1) (led w2)" by auto
  from e show ?case
    unfolding request_effect_def
  proof (elim disjE exE conjE)
    assume "led w2 = led w1"
    with inv2 ops show ?thesis by auto
  next
    fix op assume "allowed_op (pi_cost (hs_invoke G)) (ac_settler (ai_accounts S)) op" "op_spec X op (led w1) = Some (led w2)"
    with inv2 ops show ?thesis by (intro conjI exI [of _ "ops @ [op]"]) (auto simp: ledger_run_append)
  qed
qed

end

section \<open>Other tables of the same service\<close>

definition own_tables :: "'w account_db \<Rightarrow> string set" where
  "own_tables S = {adb_accounts S, adb_keys S, adb_receipts S}"

lemma ledger_of_cong:
  assumes "\<And>t. t \<in> own_tables S \<Longrightarrow> db' t = db t"
  shows "ledger_of S db' = ledger_of S db" and "tables_ok S db' = tables_ok S db"
  using assms by (simp_all add: own_tables_def ledger_of_def tables_ok_def)

context dynamo_store
begin

lemma foreign_same:
  assumes "store_inv w" and "\<And>t. t \<in> own_tables S \<Longrightarrow> view w' t = view w t"
    and "set (hist w') \<subseteq> insert (view w') (set (hist w))"
  shows "led w' = led w \<and> store_inv w'"
proof -
  have same: "ledger_of S (view w') = ledger_of S (view w)" "tables_ok S (view w') = tables_ok S (view w)"
    using ledger_of_cong [where S = S and db' = "view w'" and db = "view w"] assms(2) by blast+
  have "older old (view w')" if "old \<in> set (hist w)" for old
    using that assms(1) same by (simp add: store_inv_def older_def)
  moreover have "older (view w') (view w')" using older_refl store_inv_tables [OF assms(1)] same by blast
  ultimately show ?thesis using same assms(3) by (auto simp: store_inv_def)
qed

lemma foreign_put:
  assumes "t \<notin> own_tables S"
  shows "frames store_inv led (ddb_put (adb_client S) t i c)"
proof (intro framesI foreign_same)
  fix w r w' t' assume run: "ddb_put (adb_client S) t i c w = (r, w')"
  then show "set (hist w') \<subseteq> insert (view w') (set (hist w))" by (rule ddb.put_hist)
  assume "t' \<in> own_tables S"
  then show "view w' t' = view w t'"
    using write_outcome_other [OF ddb.put_outcome [OF run], of t'] assms by fastforce
qed

lemma foreign_delete:
  assumes "t \<notin> own_tables S"
  shows "frames store_inv led (ddb_delete (adb_client S) t k c)"
proof (intro framesI foreign_same)
  fix w r w' t' assume run: "ddb_delete (adb_client S) t k c w = (r, w')"
  then show "set (hist w') \<subseteq> insert (view w') (set (hist w))" by (rule ddb.delete_hist)
  assume "t' \<in> own_tables S"
  then show "view w' t' = view w t'"
    using write_outcome_other [OF ddb.delete_outcome [OF run], of t'] assms by fastforce
qed

lemma foreign_get: "frames store_inv led (ddb_get (adb_client S) t k)"
  by (intro framesI foreign_same) (auto dest: keepsD [OF ddb.get_keeps] keepsD [OF ddb.get_hist])

lemma resolve_frames:
  assumes "cd_client D = adb_client S"
  shows "frames store_inv led (catalog_resolve X D f l)"
  unfolding catalog_resolve_def assms
  by (rule frames_bind [OF frames_map_err [OF foreign_get]]) (auto split: option.split)

lemma catalog_frames:
  assumes "cd_client D = adb_client S" and "cd_table D \<notin> own_tables S"
  shows "frames store_inv led (catalog_upsert X D f l h q eg)"
  unfolding catalog_upsert_def assms(1)
  by (rule frames_match [OF foreign_put [OF assms(2)]]) (auto split: sdk_error.split)

lemma lock_frames:
  assumes "lk_client K = adb_client S" and "lk_table K \<notin> own_tables S" and "frames store_inv led (read_clock (lk_now K) :: ('w, unit, u64) io)"
  shows "frames store_inv led (lock_acquire X K f h q)" and "frames store_inv led (lock_release X K f h)"
proof -
  show "frames store_inv led (lock_release X K f h)"
    unfolding lock_release_def assms(1)
    by (rule frames_match [OF foreign_delete [OF assms(2)]]) (auto split: sdk_error.split)
  have "frames store_inv led (match_io (ddb_put (adb_client S) (lk_table K) it c) (\<lambda>_. ret ()) (\<lambda>err. case err of
          ConditionalCheckFailed _ \<Rightarrow> throw (Conflict msg) | _ \<Rightarrow> throw (Storage (show_sdk_error err))))" for it c msg
    by (rule frames_match [OF foreign_put [OF assms(2)]]) (auto split: sdk_error.split)
  note m = this
  show "frames store_inv led (lock_acquire X K f h q)"
  proof (rule framesI)
    fix w r w' assume w: "store_inv w" "lock_acquire X K f h q w = (r, w')"
    obtain now w1 where n: "lk_now K w = (now, w1)" by fastforce
    then have "(read_clock (lk_now K) :: ('w, unit, u64) io) w = (Inr now, w1)" by (simp add: read_clock_def)
    from framesD [OF assms(3) w(1) this] have w1: "led w1 = led w" "store_inv w1" by auto
    show "led w' = led w \<and> store_inv w'"
      using w(2) framesD [OF m w1(2)] w1(1) by (simp add: lock_acquire_def n Let_def assms(1))
  qed
qed

text \<open>A debit leaves the other tables alone, and a calm service calm.\<close>

lemma debit_other_table:
  assumes fresh: "ddb_fresh (adb_client S) view schema calm" and t: "t \<notin> own_tables S"
  shows "frames calm (\<lambda>w. view w t) (store_debit X S h cost)"
proof -
  have get: "frames calm (\<lambda>w. view w t) (ddb_get (adb_client S) t' k)" for t' k
  proof (rule framesI)
    fix w r w' assume "calm w" "ddb_get (adb_client S) t' k w = (r, w')"
    then show "view w' t = view w t \<and> calm w'"
      using ddb_fresh.get_fresh [OF fresh, of w t' k] keepsD [OF ddb.get_keeps] by fastforce
  qed
  have transact: "frames calm (\<lambda>w. view w t) (ddb_transact (adb_client S) (debit_writes X S h a cost c))" for a c
  proof (rule framesI)
    fix w r w' assume w: "calm w" "ddb_transact (adb_client S) (debit_writes X S h a cost c) w = (r, w')"
    have "view w' t = view w t"
      by (rule write_outcome_other [OF ddb.transact_outcome [OF w(2)]])
        (use t in \<open>auto simp: debit_writes_def own_tables_def split: if_splits\<close>)
    then show "view w' t = view w t \<and> calm w'"
      using w ddb_fresh.transact_fresh [OF fresh w(1), of "debit_writes X S h a cost c"] by auto
  qed
  have reads: "frames calm (\<lambda>w. view w t) (store_key_by_hash X S h)" "frames calm (\<lambda>w. view w t) (store_account X S a)" for a
    unfolding store_key_by_hash_def store_account_def by (auto intro!: frames_bind frames_map_err get split: option.split)
  have "frames calm (\<lambda>w. view w t) (store_debit_recheck X S h cost)"
    unfolding store_debit_recheck_def by (auto intro!: frames_bind reads split: option.split)
  then show ?thesis
    unfolding store_debit_def by (auto intro!: frames_bind frames_match reads transact split: option.split)
qed

end

section \<open>What a configuration must give\<close>

text \<open>
  Both servers are configured for the same account tables of one DynamoDB service, the catalog and
  the lock table are none of them, and the other parties (S3, the runners, the facilitator, the
  attestor, the clocks, the random source) do not write the tables.
\<close>

text \<open>A computation that writes no table.\<close>

definition outside :: "('w \<Rightarrow> tables) \<Rightarrow> ('w \<Rightarrow> tables list) \<Rightarrow> ('w, 'e, 'a) io \<Rightarrow> bool" where
  "outside view hist m \<longleftrightarrow> keeps (\<lambda>w. (view w, hist w)) m"

locale deployment =
  dynamo_store "config_accounts W (ak_endpoint (apc_catalog ac)) (apc_accounts ac)" view schema hist X + rng: rng_fills rng
  for W :: "'w aws" and ac :: api_config and hc :: host_config and view :: "'w \<Rightarrow> tables" and schema and hist and X
    and rng :: "'w rng" +
  fixes K :: json_ext and api_runner :: "'w function_runner" and host_runner :: "'w function_runner" and crypto :: "'w function_attestor"
    and post :: "string \<Rightarrow> json \<Rightarrow> ('w, string, http_reply) io"
    and now_s :: "'w \<Rightarrow> u64 \<times> 'w" and now_ms :: "'w \<Rightarrow> int \<times> 'w"
  assumes one_service:
      "aws_ddb W (ak_endpoint (apc_catalog ac)) = adb_client (config_accounts W (ak_endpoint (apc_catalog ac)) (apc_accounts ac))"
      "aws_ddb W (hk_endpoint (hc_catalog hc)) = aws_ddb W (ak_endpoint (apc_catalog ac))"
    and same_accounts:
      "config_accounts W (hk_endpoint (hc_catalog hc)) (hc_accounts hc)
         = config_accounts W (ak_endpoint (apc_catalog ac)) (apc_accounts ac)"
    and tables_apart:
      "ak_table (apc_catalog ac) \<notin> own_tables (config_accounts W (ak_endpoint (apc_catalog ac)) (apc_accounts ac))"
      "ak_publish_lock_table (apc_catalog ac) \<notin> own_tables (config_accounts W (ak_endpoint (apc_catalog ac)) (apc_accounts ac))"
      "ak_publish_lock_table (apc_catalog ac) \<noteq> ak_table (apc_catalog ac)"
    and table_keys: "schema (ak_table (apc_catalog ac)) = [ATTR_FN_ID, ATTR_LABEL]"
      "schema (ak_publish_lock_table (apc_catalog ac)) = [ATTR_FN_ID]"
    and s3_outside: "outside view hist (s3_get_object (aws_s3 W ep) b k)" "outside view hist (s3_put_object (aws_s3 W ep) b k d)"
    and runner_outside: "outside view hist (fr_validate api_runner wasm)" "outside view hist (fr_run host_runner h wasm i al)"
    and crypto_outside: "outside view hist (crypto ud n)"
    and post_outside: "outside view hist (post url body)"
    and random_outside: "outside view hist (rng len)"
    and clock_outside: "view (snd (now_s w)) = view w \<and> hist (snd (now_s w)) = hist w"
      "view (snd (now_ms w)) = view w \<and> hist (snd (now_ms w)) = hist w"
begin

abbreviation the_api :: "'w api_state" where
  "the_api \<equiv> api_app X W api_runner K post now_s now_ms ac"

abbreviation the_host :: "'w host_state" where
  "the_host \<equiv> host_app X W host_runner crypto hc"

lemma outside_frames: "outside view hist m \<Longrightarrow> frames store_inv led m"
  by (rule framesI) (auto simp: outside_def store_inv_def dest!: keepsD)

lemma outside_keeps: "outside view hist m \<Longrightarrow> keeps (\<lambda>w. view w t) m"
  by (rule keepsI) (auto simp: outside_def dest!: keepsD)

lemmas s3_frames = s3_outside [THEN outside_frames]
lemmas runner_frames = runner_outside [THEN outside_frames]
lemmas crypto_frame = crypto_outside [THEN outside_frames]
lemmas post_frame = post_outside [THEN outside_frames]
lemmas random_frame = random_outside [THEN outside_frames]

lemma clock_frames: "store_inv w \<Longrightarrow> led (snd (now_s w)) = led w \<and> store_inv (snd (now_s w))"
  "store_inv w \<Longrightarrow> led (snd (now_ms w)) = led w \<and> store_inv (snd (now_ms w))"
  by (simp_all add: clock_outside store_inv_def)

lemma now_ms_step: "now_ms w = (t, w') \<Longrightarrow> view w' = view w"
  using clock_outside(2) [of w] by simp

lemma read_clock_frame: "frames store_inv led (read_clock now_s :: ('w, 'e, u64) io)"
  by (rule read_clock_frames) (rule clock_frames(1))

lemma now_ms_frame: "pf_clock P = now_ms \<Longrightarrow> frames store_inv led (unix_now_ms P)"
  using clock_frames(2) by (auto simp: unix_now_ms_def frames_def split: prod.splits) (metis snd_conv)+

lemma facilitator_frame: "frames store_inv led (http_settle_exact (facilitator_new post base) h r n rs)"
  unfolding http_settle_exact_def facilitator_new_def
  by (intro frames_bind frames_map_err frames_if frames_ret) (simp add: post_frame)

lemma artifact_frames:
  "frames store_inv led (s3_get X (config_artifacts W c) h)" "frames store_inv led (s3_put X (config_artifacts W c) b)"
proof -
  have g: "frames store_inv led (get_object X (config_artifacts W c) k h m)" for k h m
    unfolding get_object_def Let_def
    by (rule frames_match) (auto simp: config_artifacts_def s3_artifacts_new_def s3_frames split: option.split)
  show "frames store_inv led (s3_get X (config_artifacts W c) h)"
    unfolding s3_get_def Let_def by (intro frames_bind frames_if frames_ret g)
  show "frames store_inv led (s3_put X (config_artifacts W c) b)"
    unfolding s3_put_def put_object_def Let_def
    by (intro frames_bind frames_map_err frames_ret) (simp add: config_artifacts_def s3_artifacts_new_def s3_frames)
qed

lemma publish_parts:
  "pf_runner (ai_publish the_api) = api_runner" "pf_clock (ai_publish the_api) = now_ms"
  "pf_artifacts (ai_publish the_api) = s3_artifact_store X (config_artifacts W (apc_artifacts ac))"
  "pf_catalog (ai_publish the_api)
     = dynamo_catalog X (config_catalog W (ak_endpoint (apc_catalog ac)) (ak_table (apc_catalog ac)))"
  "pf_lock (ai_publish the_api) = dynamo_publish_lock X \<lparr> lk_client = aws_ddb W (ak_endpoint (apc_catalog ac)),
     lk_table = ak_publish_lock_table (apc_catalog ac), lk_now = now_s \<rparr>"
  by (simp_all add: api_app_def publish_new_def Let_def)

lemma publish_frame_app: "frames store_inv led (publish_execute X (ai_publish the_api) req)"
proof -
  let ?P = "ai_publish the_api"
  note sel = publish_parts
  have lock: "frames store_inv led (pl_acquire (pf_lock ?P) f h q)" "frames store_inv led (pl_release (pf_lock ?P) f h)" for f h q
    unfolding sel dynamo_publish_lock_def publish_lock.select_convs
    by (rule lock_frames; simp add: one_service tables_apart read_clock_frame)+
  have catalog: "frames store_inv led (fc_upsert (pf_catalog ?P) f l h q eg)" for f l h q eg
    unfolding sel dynamo_catalog_def function_catalog.select_convs
    by (rule catalog_frames) (simp_all add: config_catalog_def one_service tables_apart)
  have put: "frames store_inv led (as_put (pf_artifacts ?P) b)" for b
    by (simp add: sel s3_artifact_store_def artifact_frames)
  have release: "frames store_inv led (or_release ?P f h m)" if "frames store_inv led m" for f h and m :: "('w, app_error, 'b) io"
    unfolding or_release_def by (intro frames_match that frames_ret lock)
  have clock: "frames store_inv led (unix_now_ms ?P)" by (rule now_ms_frame) (rule sel(2))
  have validate: "frames store_inv led (fr_validate (pf_runner ?P) b)" for b by (simp add: sel runner_frames)
  show ?thesis
    unfolding publish_execute_def Let_def
    by (intro frames_if frames_bind frames_ret validate clock lock release put catalog)
qed

lemma row_frame: "keeps (\<lambda>w. view w t) m \<Longrightarrow> frames (\<lambda>_. True) (\<lambda>w. (view w t, \<lambda>_ :: content_hash. True)) m"
  by (rule framesI) (auto dest: keepsD)

lemma host_parts:
  "pi_accounts (hs_invoke the_host)
     = dynamo_account_store X (config_accounts W (ak_endpoint (apc_catalog ac)) (apc_accounts ac))"
  "pi_invoke (hs_invoke the_host) = \<lparr> if_catalog = dynamo_catalog X
      (config_catalog W (hk_endpoint (hc_catalog hc)) (hk_table (hc_catalog hc))),
     if_artifacts = s3_artifact_store X (config_artifacts W (hc_artifacts hc)), if_runner = host_runner \<rparr>"
  by (simp_all add: host_app_def paid_invoke_new_def Let_def same_accounts)

text \<open>The publisher of the API is a publisher of the catalog's table, with whatever is stored where.\<close>

lemma publish_rows:
  "publish_env X (ai_publish the_api) (\<lambda>w. view w (ak_table (apc_catalog ac))) (\<lambda>_ _. True) (\<lambda>_. True)"
proof -
  let ?P = "ai_publish the_api" and ?t = "ak_table (apc_catalog ac)" and ?e = "ak_endpoint (apc_catalog ac)"
  let ?K = "\<lparr> lk_client = aws_ddb W ?e, lk_table = ak_publish_lock_table (apc_catalog ac), lk_now = now_s \<rparr>"
  have service: "ddb_service (aws_ddb W ?e) view schema" unfolding one_service by (rule ddb.ddb_service_axioms)
  have lock: "lock_service ?K view schema X"
    by (simp add: lock_service_def lock_service_axioms_def service ext.externals_axioms table_keys clock_outside)
  have catalog: "catalog_service (config_catalog W ?e ?t) view schema"
    by (simp add: catalog_service_def catalog_service_axioms_def config_catalog_def service table_keys)
  have puts: "keeps (\<lambda>w. view w ?t) (s3_put X (config_artifacts W c) b)" for c b
    unfolding s3_put_def put_object_def Let_def
    by (intro keeps_bind keeps_map_err keeps_ret outside_keeps)
      (simp add: config_artifacts_def s3_artifacts_new_def s3_outside)
  show ?thesis
  proof
    fix b f h q l eg and r :: "app_error + content_hash" and ap and w w' :: 'w
    show "frames (\<lambda>_. True) (\<lambda>w. (view w ?t, \<lambda>_ :: content_hash. True)) (fr_validate (pf_runner ?P) b)"
      unfolding publish_parts by (rule row_frame, rule outside_keeps, rule runner_outside)
    show "frames (\<lambda>_. True) (\<lambda>w. (view w ?t, \<lambda>_ :: content_hash. True)) (unix_now_ms ?P)"
      by (rule row_frame, rule keepsI) (auto simp: unix_now_ms_def publish_parts dest: now_ms_step split: prod.splits)
    show "frames (\<lambda>_. True) (\<lambda>w. (view w ?t, \<lambda>_ :: content_hash. True)) (pl_acquire (pf_lock ?P) f h q)"
      "frames (\<lambda>_. True) (\<lambda>w. (view w ?t, \<lambda>_ :: content_hash. True)) (pl_release (pf_lock ?P) f h)"
      unfolding publish_parts dynamo_publish_lock_def publish_lock.select_convs
      by (rule row_frame, rule keepsI; erule lock_service.lock_other_table [OF lock, rotated]; use tables_apart in simp)+
    show "True \<and> view w' ?t = view w ?t \<and> (\<forall>h :: content_hash. True \<longrightarrow> True)
        \<and> (\<forall>h. r = Inr h \<longrightarrow> h = content_hash_from_bytes X b \<and> True)"
      if "as_put (pf_artifacts ?P) b w = (r, w')"
      using that keepsD [OF puts] by (auto simp: publish_parts s3_artifact_store_def s3_put_def bind_io_Inr_iff Let_def)
    show "True \<and> (\<lambda>_ :: content_hash. True) = (\<lambda>_. True)
        \<and> (view w' ?t = view w ?t \<or> view w' ?t = (view w ?t)(catalog_pkey f l \<mapsto> catalog_item X f l h q eg))
        \<and> (ap = Inr True \<longrightarrow> view w' ?t = (view w ?t)(catalog_pkey f l \<mapsto> catalog_item X f l h q eg))
        \<and> (ap = Inr False \<longrightarrow> view w' ?t = view w ?t)"
      if "fc_upsert (pf_catalog ?P) f l h q eg w = (ap, w')"
    proof -
      have "put_at (?t, k) (Some i) db ?t = (db ?t)(k \<mapsto> i)" for k i and db :: tables by (auto simp: put_at_def)
      then show ?thesis
        using catalog_service.upsert_law [OF catalog that [unfolded publish_parts dynamo_catalog_def function_catalog.select_convs]]
        by (auto simp: config_catalog_def)
    qed
  qed
qed

lemma system: "system_env X the_api the_host led store_inv rng"
proof -
  let ?S = "config_accounts W (ak_endpoint (apc_catalog ac)) (apc_accounts ac)"
  have store: "ac_store (ai_accounts the_api) = dynamo_account_store X ?S"
    by (simp add: api_app_def accounts_new_def Let_def)
  have credit: "ac_settler (ai_accounts the_api) = x402_credit_settler X K
      (x402_settler_new (http_settle_exact (facilitator_new post (ab_facilitator_url (apc_billing ac))))
        (ab_usdc_per_invoke (apc_billing ac)) (ab_asset (apc_billing ac)) (ab_pay_to (apc_billing ac))
        (ab_network (apc_billing ac)) (ab_api_public_url (apc_billing ac)) now_s)"
    by (simp add: api_app_def x402_from_config_def accounts_new_def Let_def)
  have settler: "frames store_inv led (cs_challenge (ac_settler (ai_accounts the_api)) a v)"
    "frames store_inv led (cs_payment_nonce (ac_settler (ai_accounts the_api)) v header)"
    "frames store_inv led (cs_settle (ac_settler (ai_accounts the_api)) a v header)" for a v header
    unfolding credit x402_credit_settler_def credit_settler.select_convs
    by (rule settler_frames; simp add: x402_settler_new_def clock_frames facilitator_frame)+
  have invoke: "frames store_inv led (invoke_execute (pi_invoke (hs_invoke the_host)) req)" for req
  proof (rule invoke_execute_frames)
    note sel = host_parts(2)
    have c: "cd_client (config_catalog W (hk_endpoint (hc_catalog hc)) (hk_table (hc_catalog hc))) = adb_client ?S"
      by (simp add: config_catalog_def one_service)
    show "frames store_inv led (fc_resolve (if_catalog (pi_invoke (hs_invoke the_host))) f l)" for f l
      using resolve_frames [OF c] by (simp add: sel dynamo_catalog_def)
    show "frames store_inv led (as_get (if_artifacts (pi_invoke (hs_invoke the_host))) h)" for h
      by (simp add: sel s3_artifact_store_def artifact_frames)
    show "frames store_inv led (fr_run (if_runner (pi_invoke (hs_invoke the_host))) h b i e)" for h b i e
      by (simp add: sel runner_frames)
  qed
  have resolve: "frames store_inv led (fc_resolve (ai_catalog the_api) f l)" for f l
    using resolve_frames [of "config_catalog W (ak_endpoint (apc_catalog ac)) (ak_table (apc_catalog ac))"]
    by (simp add: api_app_def Let_def dynamo_catalog_def config_catalog_def one_service)
  have attest: "frames store_inv led (hs_attestor the_host ud n)" for ud n
    using crypto_frame [of ud n]
    by (cases "hc_run_env hc = ''local''") (simp_all add: host_app_def Let_def noop_attestor_def frames_ret)
  show ?thesis
    unfolding system_env_def system_env_axioms_def accounts_env_def accounts_env_axioms_def paid_env_def paid_env_axioms_def
      store host_parts(1)
    by (simp add: dynamo_is_ledger rng.rng_fills_axioms ext.externals_axioms random_frame settler invoke publish_frame_app
        resolve attest)
qed

text \<open>
  On a calm service the host runs the version in the row of the function: a module with the row's
  hash, with the row's allowlist.
\<close>

lemma invoked_version:
  assumes fresh: "ddb_fresh (aws_ddb W (hk_endpoint (hc_catalog hc))) view schema calm" and "calm w"
    and same: "hk_table (hc_catalog hc) = ak_table (apc_catalog ac)"
    and run: "paid_execute X (hs_invoke the_host) bearer req w = (Inr response, w')"
    and row: "view w (ak_table (apc_catalog ac)) (catalog_pkey (iq_function req) (iq_version req)) = Some it"
      "version_from_item X it = Inr v"
  shows "ir_content_hash response = fv_content_hash v
    \<and> (\<exists>wasm w1. content_hash_from_bytes X wasm = fv_content_hash v
         \<and> fr_run host_runner (fv_content_hash v) wasm (iq_payload req) (fv_egress_allow v) w1
             = (Inr \<lparr> ro_output = ir_output response \<rparr>, w'))"
proof -
  let ?t = "ak_table (apc_catalog ac)" and ?S = "config_accounts W (ak_endpoint (apc_catalog ac)) (apc_accounts ac)"
  have client: "aws_ddb W (hk_endpoint (hc_catalog hc)) = adb_client ?S" by (simp only: one_service)
  obtain w1 where w1: "calm w1" "view w1 ?t = view w ?t"
    "invoke_execute (pi_invoke (hs_invoke the_host)) req w1 = (Inr response, w')"
  proof (cases "pi_cost (hs_invoke the_host) = 0")
    case True
    with run assms(2) show ?thesis by (intro that [of w]) (simp_all add: paid_execute_def)
  next
    case False
    then obtain secret receipt w1 where
      d: "store_debit X ?S (secret_hash_of X secret) (pi_cost (hs_invoke the_host)) w = (Inr receipt, w1)"
      and r: "run_or_refund (hs_invoke the_host) receipt req w1 = (Inr response, w')"
      using run by (auto simp: paid_execute_def bind_io_Inr_iff map_err_io_iff host_parts(1) dynamo_account_store_def split: option.splits)
    have "view w1 ?t = view w ?t \<and> calm w1"
      by (rule framesD [OF debit_other_table [OF fresh [unfolded client] tables_apart(1)] assms(2) d])
    moreover have "invoke_execute (pi_invoke (hs_invoke the_host)) req w1 = (Inr response, w')"
      using r by (auto simp: run_or_refund_def match_io_def split: prod.splits sum.splits if_splits)
    ultimately show ?thesis by (intro that) simp_all
  qed
  obtain v' wasm w2 w3 where e:
    "fc_resolve (if_catalog (pi_invoke (hs_invoke the_host))) (iq_function req) (iq_version req) w1 = (Inr v', w2)"
    "as_get (if_artifacts (pi_invoke (hs_invoke the_host))) (fv_content_hash v') w2 = (Inr wasm, w3)"
    "fr_run (if_runner (pi_invoke (hs_invoke the_host))) (fv_content_hash v') wasm (iq_payload req) (fv_egress_allow v') w3
       = (Inr \<lparr> ro_output = ir_output response \<rparr>, w')"
    "ir_content_hash response = fv_content_hash v'"
    by (rule invoke_execute_Inr [OF w1(3)])
  have "v' = v"
    using e(1) row w1(2) ddb_fresh.get_fresh [OF fresh w1(1), of ?t "catalog_pkey (iq_function req) (iq_version req)"]
    by (auto simp: host_parts(2) dynamo_catalog_def catalog_resolve_def config_catalog_def same bind_io_Inr_iff map_err_io_iff)
  moreover have "content_hash_from_bytes X wasm = fv_content_hash v'"
    using e(2) by (auto simp: host_parts(2) dest: s3.get_verified)
  ultimately show ?thesis using e(3,4) by (auto simp: host_parts(2))
qed

end

sublocale deployment \<subseteq> system: system_env X the_api the_host led store_inv rng
  by (rule system)

end
