(* ===== verification/System_Properties.thy ===== *)
theory System_Properties
  imports System Publish_Properties Host_Properties Accounts_Properties
begin

text \<open>
  The two deployed servers: a deployment on the reference world, what any history of requests to
  them does to the ledger, and that a function published through the API is what the host runs.
\<close>

section \<open>A deployment\<close>

definition ref_aws :: "ref_world aws" where
  "ref_aws = \<lparr> aws_s3 = (\<lambda>_. ref_s3), aws_ddb = (\<lambda>_. ref_client ref_schema) \<rparr>"

definition demo_accounts_config :: accounts_config where
  "demo_accounts_config = \<lparr> at_table = ''accounts'', at_keys_table = ''keys'', at_receipts_table = ''receipts'',
     at_endpoint = None \<rparr>"

definition demo_artifacts_config :: artifacts_config where
  "demo_artifacts_config = \<lparr> af_bucket = ''artifacts'', af_prefix = ''/wasm/'', af_endpoint = None \<rparr>"

definition demo_api_config :: api_config where
  "demo_api_config =
     \<lparr> apc_server = \<lparr> sv_port = 8081 \<rparr>, apc_artifacts = demo_artifacts_config,
       apc_catalog = \<lparr> ak_table = ''catalog'', ak_publish_lock_table = ''locks'', ak_endpoint = None \<rparr>,
       apc_accounts = demo_accounts_config,
       apc_billing = \<lparr> ab_usdc_per_invoke = 1000, ab_min_deploy_credits = 1, ab_pay_to = ''0xplatform'',
         ab_asset = ''0xusdc'', ab_network = ''base'', ab_facilitator_url = ''https://pay/'',
         ab_api_public_url = ''https://api/'' \<rparr> \<rparr>"

definition demo_host_config :: "string \<Rightarrow> u64 \<Rightarrow> host_config" where
  "demo_host_config run_env cost =
     \<lparr> hc_server = \<lparr> sv_port = 8080 \<rparr>, hc_artifacts = demo_artifacts_config,
       hc_catalog = \<lparr> hk_table = ''catalog'', hk_endpoint = None \<rparr>, hc_accounts = demo_accounts_config,
       hc_billing = \<lparr> hb_invoke_credit_cost = cost, hb_api_public_url = ''https://api/'' \<rparr>, hc_run_env = run_env \<rparr>"

text \<open>A facilitator that accepts every payment, a clock in seconds and one in milliseconds.\<close>

definition ref_post :: "string \<Rightarrow> json \<Rightarrow> (ref_world, string, http_reply) io" where
  "ref_post url body = ret \<lparr> hr_status = 200, hr_status_text = ''200 OK'', hr_json = Inr (JObject [(''success'', JBool True)]) \<rparr>"

definition ref_now_s :: "ref_world \<Rightarrow> u64 \<times> ref_world" where
  "ref_now_s w = (of_nat (rw_clock_ms w div 1000), w)"

definition ref_now_ms :: "ref_world \<Rightarrow> int \<times> ref_world" where
  "ref_now_ms w = (int (rw_clock_ms w), w)"

lemma demo_config [simp]:
  "config_accounts ref_aws (ak_endpoint (apc_catalog demo_api_config)) (apc_accounts demo_api_config) = ref_store"
  "config_accounts ref_aws (hk_endpoint (hc_catalog (demo_host_config e n))) (hc_accounts (demo_host_config e n)) = ref_store"
  "aws_ddb ref_aws x = ref_client ref_schema" "aws_s3 ref_aws x = ref_s3"
  "ak_table (apc_catalog demo_api_config) = ''catalog''" "ak_publish_lock_table (apc_catalog demo_api_config) = ''locks''"
  by (simp_all add: demo_api_config_def demo_host_config_def demo_accounts_config_def config_accounts_def or_endpoint_def
      ref_aws_def ref_store_def)

abbreviation ref_runner_port :: "ref_world function_runner" where
  "ref_runner_port \<equiv> wasmtime_function_runner ref_ext ref_json_text ref_runner"

lemma ref_outside_fields:
  assumes "\<And>w r w'. m w = (r, w') \<Longrightarrow> rd_entries w' = rd_entries w \<and> rd_past w' = rd_past w"
  shows "outside ref_view ref_hist m"
  unfolding outside_def by (rule keepsI) (simp add: ref_view_def ref_hist_def assms)

lemma ref_outside:
  "outside ref_view ref_hist (s3_get_object ref_s3 b k)"
  "outside ref_view ref_hist (s3_put_object ref_s3 b k d)"
  "outside ref_view ref_hist (fr_validate ref_runner_port c)"
  "outside ref_view ref_hist (runner_run ref_ext ref_json_text ref_runner h c i al)"
  "outside ref_view ref_hist (ref_rng n)"
  "outside ref_view ref_hist (ref_post url body)"
  "outside ref_view ref_hist (ret x :: (ref_world, app_error, 'a) io)"
proof -
  show "outside ref_view ref_hist (runner_run ref_ext ref_json_text ref_runner h c i al)"
    unfolding outside_def by (rule keepsI) (simp add: ref_run_tables)
qed (rule ref_outside_fields; auto simp: ref_s3_def ref_rng_def ref_post_def wasmtime_function_runner_def dest: ref_validate_keeps
    split: if_splits option.splits)+

abbreviation ref_crypto :: "ref_world function_attestor" where
  "ref_crypto \<equiv> \<lambda>ud n. ret (Some (ud @ n))"

text \<open>Any runner that leaves the tables alone makes a deployment.\<close>

lemma demo_deployment:
  assumes "\<And>h c i al. outside ref_view ref_hist (fr_run runner h c i al)"
  shows "deployment ref_aws demo_api_config (demo_host_config e n) ref_view ref_schema ref_hist ref_ext ref_rng
    ref_runner_port runner ref_crypto ref_post ref_now_s ref_now_ms"
  unfolding deployment_def deployment_axioms_def demo_config
  by (simp add: assms ref_store.dynamo_store_axioms ref_rng.rng_fills_axioms own_tables_def ref_outside ref_schema_def
      catalog_attrs ref_now_s_def ref_now_ms_def)

interpretation ref_deployment: deployment ref_aws demo_api_config "demo_host_config ''prod'' 3" ref_view ref_schema ref_hist
    ref_ext ref_rng ref_json ref_runner_port ref_runner_port ref_crypto ref_post ref_now_s ref_now_ms
  by (rule demo_deployment) (simp add: ref_outside)

section \<open>The ledger of a deployed system\<close>

definition deployed_ledger :: "'w aws \<Rightarrow> api_config \<Rightarrow> ('w \<Rightarrow> tables) \<Rightarrow> 'w \<Rightarrow> ledger" where
  "deployed_ledger W ac view w =
     ledger_of (config_accounts W (ak_endpoint (apc_catalog ac)) (apc_accounts ac)) (view w)"

lemma allowed_refunds: "\<forall>op \<in> set ops. allowed_op cost settler op \<Longrightarrow> total (refunded X a) ops = 0"
proof (induction ops)
  case (Cons op ops)
  then show ?case by (cases op) simp_all
qed simp

text \<open>
  C4: The ledger of a deployed system: whatever requests the two servers get one after another,
  on any paths and with any methods, headers and bodies, and whatever the database loses or delays
  meanwhile, their effect on the ledger is one list of operations in which accounts start empty,
  every debit is of the configured cost and every credit has a nonce that the payment settler gave
  out for exactly that account and that many credits. No nonce is credited twice, every balance
  moved by exactly the credits minus the debits, no balance or cap became negative, and a key that
  was revoked is still revoked and paid for nothing. (Transactions of concurrent callers interleave
  in the properties of the store.)
\<close>

theorem system_ledger:
  assumes "deployment W ac hc view schema hist X rng api_runner host_runner crypto post now_s now_ms"
    and "store_invariant (config_accounts W (ak_endpoint (apc_catalog ac)) (apc_accounts ac)) view hist w"
    and "requests X J T H E A rng (api_app X W api_runner K post now_s now_ms ac) (host_app X W host_runner crypto hc) w w'"
  shows "\<exists>ops. ledger_run X ops (deployed_ledger W ac view w) = Some (deployed_ledger W ac view w')
     \<and> (\<forall>op \<in> set ops. allowed_op (hb_invoke_credit_cost (hc_billing hc))
          (ac_settler (ai_accounts (api_app X W api_runner K post now_s now_ms ac))) op)
     \<and> distinct (credit_nonces ops)
     \<and> (\<forall>a. balance_or_0 (deployed_ledger W ac view w') a = balance_or_0 (deployed_ledger W ac view w) a
          + total (credited X a) ops - total (debited X a) ops)
     \<and> (solvent (deployed_ledger W ac view w) \<longrightarrow> solvent (deployed_ledger W ac view w'))
     \<and> (\<forall>h. revoked_at h (deployed_ledger W ac view w) \<longrightarrow>
          revoked_at h (deployed_ledger W ac view w') \<and> (\<forall>op \<in> set ops. \<not> debits_key X h op))"
proof -
  have cost: "pi_cost (hs_invoke (host_app X W host_runner crypto hc)) = hb_invoke_credit_cost (hc_billing hc)"
    by (simp add: host_app_def paid_invoke_new_def Let_def)
  note run = system_env.requests_run [OF deployment.system [OF assms(1), of K] assms(3,2), unfolded cost,
      folded deployed_ledger_def]
  obtain ops where ops: "ledger_run X ops (deployed_ledger W ac view w) = Some (deployed_ledger W ac view w')"
    "\<forall>op \<in> set ops. allowed_op (hb_invoke_credit_cost (hc_billing hc))
       (ac_settler (ai_accounts (api_app X W api_runner K post now_s now_ms ac))) op"
    using run [THEN conjunct2] by (elim exE conjE) (rule that)
  show ?thesis
    using ops ledger_run_nonces [OF ops(1)] ledger_run_balance [OF ops(1)] allowed_refunds [OF ops(2)]
      ledger_run_solvent [OF ops(1)] ledger_run_revoked [OF ops(1)]
    by (intro exI [of _ ops]) simp
qed

text \<open>
  Two requests on the demo world, with a host whose guests answer \<open>hi\<close>: \<open>echo\<close> is invoked and paid
  for, then an account is opened.
\<close>

definition demo_api :: "ref_world api_state" where
  "demo_api = api_app ref_ext ref_aws ref_runner_port ref_json ref_post ref_now_s ref_now_ms demo_api_config"

definition demo_answers :: "(string \<times> bytes) list server_answers" where
  "demo_answers = \<lparr> sa_not_found = \<lparr> an_status = 404, an_headers = [], an_body = [] \<rparr>,
     sa_not_allowed = (\<lambda>_. \<lparr> an_status = 405, an_headers = [], an_body = [] \<rparr>),
     sa_too_large = \<lparr> an_status = 413, an_headers = [], an_body = [] \<rparr> \<rparr>"

definition demo_extractor :: "(string \<times> bytes) list json_extractor" where
  "demo_extractor = \<lparr> je_accepts = (\<lambda>_. True), je_unsupported = \<lparr> an_status = 415, an_headers = [], an_body = [] \<rparr>,
     je_reject = (\<lambda>_. \<lparr> an_status = 422, an_headers = [], an_body = [] \<rparr>) \<rparr>"

definition open_request :: "(string \<times> bytes) list http_request" where
  "open_request = \<lparr> rq_method = ''POST'', rq_path = [''accounts''], rq_headers = [], rq_body = [] \<rparr>"

definition echo_request :: "(string \<times> bytes) list http_request" where
  "echo_request = \<lparr> rq_method = ''POST'', rq_path = [''invoke'', ''echo''], rq_headers = demo_headers, rq_body = ''in'' \<rparr>"

lemma demo_host_app: "host_app ref_ext ref_aws hi_runner ref_crypto (demo_host_config ''prod'' 3) = demo_host"
proof -
  have "config_artifacts ref_aws (hc_artifacts (demo_host_config ''prod'' 3)) = ref_artifacts"
    "config_catalog ref_aws (hk_endpoint (hc_catalog (demo_host_config ''prod'' 3)))
       (hk_table (hc_catalog (demo_host_config ''prod'' 3))) = ref_catalog"
    by (simp_all add: config_artifacts_def ref_artifacts_def config_catalog_def ref_catalog_def demo_host_config_def
        demo_artifacts_config_def)
  moreover have "hb_invoke_credit_cost (hc_billing (demo_host_config ''prod'' 3)) = 3"
    "hb_api_public_url (hc_billing (demo_host_config ''prod'' 3)) = ''https://api/''" "hc_run_env (demo_host_config ''prod'' 3) = ''prod''"
    by (simp_all add: demo_host_config_def)
  ultimately show ?thesis
    by (simp add: host_app_def Let_def demo_host_def ref_paid_def paid_invoke_new_def ref_invoke_def)
qed

lemma hi_outside: "outside ref_view ref_hist (fr_run hi_runner h c i al)"
  by (rule ref_outside_fields) (auto simp: hi_runner_def)

lemma hi_deployment: "deployment ref_aws demo_api_config (demo_host_config ''prod'' n) ref_view ref_schema ref_hist ref_ext ref_rng
    ref_runner_port hi_runner ref_crypto ref_post ref_now_s ref_now_ms"
  by (rule demo_deployment) (rule hi_outside)

theorem system_ledger_witness:
  "\<exists>reply opened w1 w2 ops. host_router ref_ext ref_json_text ref_text ref_headers demo_answers demo_host echo_request demo_world
       = (reply, w1) \<and> an_status reply = 200 \<and> an_body reply = ''hi''
     \<and> api_router ref_ext ref_json_text ref_headers demo_extractor demo_answers ref_rng demo_api open_request w1 = (opened, w2)
     \<and> ledger_run ref_ext ops (ref_ledger demo_world) = Some (ref_ledger w2)
     \<and> distinct (credit_nonces ops) \<and> solvent (ref_ledger w2)"
proof -
  obtain reply w1 where h: "host_invoke ref_ext ref_json_text ref_text ref_headers demo_host ''echo'' demo_headers ''in'' demo_world
     = (Inr reply, w1)" "an_status reply = 200" "an_body reply = ''hi''"
    using demo_host_answers by blast
  have one: "host_router ref_ext ref_json_text ref_text ref_headers demo_answers demo_host echo_request demo_world = (reply, w1)"
    by (simp add: host_router_def echo_request_def post_route_def limited_def MAX_INVOKE_BODY_BYTES_def host_serve_def h(1))
  obtain opened w2 where two:
    "api_router ref_ext ref_json_text ref_headers demo_extractor demo_answers ref_rng demo_api open_request w1 = (opened, w2)"
    by fastforce
  have "requests ref_ext ref_json_text ref_text ref_headers demo_extractor demo_answers ref_rng demo_api demo_host demo_world w2"
    by (rule more_requests [OF more_requests [OF no_request to_host [OF one]] to_api [OF two]])
  note run = this [folded demo_host_app, unfolded demo_api_def]
  have inv: "store_invariant (config_accounts ref_aws (ak_endpoint (apc_catalog demo_api_config)) (apc_accounts demo_api_config))
      ref_view ref_hist demo_world"
    unfolding demo_config demo_world_faulty by (rule demo_invariant)
  have led: "deployed_ledger ref_aws demo_api_config ref_view w = ref_ledger w" for w
    by (simp add: deployed_ledger_def)
  obtain ops where "ledger_run ref_ext ops (ref_ledger demo_world) = Some (ref_ledger w2)"
    "distinct (credit_nonces ops)" "solvent (ref_ledger w2)"
    using system_ledger [OF hi_deployment inv run, unfolded led] demo_solvent by blast
  with one two h(2,3) show ?thesis by blast
qed

section \<open>From publish to invoke\<close>

lemma published_row:
  assumes "deployment W ac hc view schema hist X rng api_runner host_runner crypto post now_s now_ms"
    and "publish_execute X (ai_publish (api_app X W api_runner K post now_s now_ms ac)) req w = (Inr res, w')"
    and "pr_status res = Ready"
  shows "pr_content_hash res = content_hash_from_bytes X (pq_wasm req)
    \<and> (\<exists>q. view w' (ak_table (apc_catalog ac)) (catalog_pkey (pq_function req) latest) =
    Some (catalog_item X (pq_function req) latest (content_hash_from_bytes X (pq_wasm req)) q (pq_egress_allow req)))"
proof -
  note env = deployment.publish_rows [OF assms(1), of K]
  from triple_ok [OF publish_env.publish_triple [OF env] _ assms(2), of w] assms(3)
  show ?thesis by (auto simp: publish_env.pointed_def [OF env])
qed

text \<open>
  What is published through the API is what the host runs. After a publish that reported
  \<open>ready\<close>, and as long as no other publish of that function has replaced its row, every answer the
  deployed host gives on a calm service for that function at \<open>latest\<close> comes from one run of a
  module with the published bytes' hash, under exactly the published allowlist; the hash header
  names that hash and the answer is what the output of that run decodes to.
\<close>

lemma deployed_is_invoked:
  assumes "deployment W ac hc view schema hist X rng api_runner host_runner crypto post now_s now_ms"
    and "ddb_fresh (aws_ddb W (hk_endpoint (hc_catalog hc))) view schema calm"
    and "hk_table (hc_catalog hc) = ak_table (apc_catalog ac)" and "header_map H"
    and "function_id_new (function_id_str (pq_function req)) = Inr (pq_function req)"
    and "\<forall>e \<in> set (pq_egress_allow req). origin_normal e"
    and "publish_execute X (ai_publish (api_app X W api_runner K post now_s now_ms ac)) req w = (Inr res, w1)"
    and "pr_status res = Ready" and "calm w2"
    and "view w2 (ak_table (apc_catalog ac)) (catalog_pkey (pq_function req) latest)
         = view w1 (ak_table (apc_catalog ac)) (catalog_pkey (pq_function req) latest)"
    and "request_version H headers = Inr latest"
    and "host_invoke X J T H (host_app X W host_runner crypto hc) (function_id_str (pq_function req)) headers body w2 = (Inr reply, w3)"
  shows "header_str H (an_headers reply) SHASUM_HEADER = Some (content_hash_to_hex X (content_hash_from_bytes X (pq_wasm req)))
    \<and> (\<exists>rq nonce wasm w4 out w5 response.
         host_request X J H (function_id_str (pq_function req)) headers body = Inr (rq, nonce)
         \<and> content_hash_from_bytes X wasm = content_hash_from_bytes X (pq_wasm req)
         \<and> fr_run host_runner (content_hash_from_bytes X (pq_wasm req)) wasm (iq_payload rq) (pq_egress_allow req) w4
             = (Inr \<lparr> ro_output = out \<rparr>, w5)
         \<and> decode_response X J T out = Inr response
         \<and> an_status reply = status_of_u16 (rs_status response) \<and> an_body reply = rs_body response)"
proof -
  let ?h = "content_hash_from_bytes X (pq_wasm req)" and ?G = "host_app X W host_runner crypto hc"
  let ?v = "\<lparr> fv_id = pq_function req, fv_label = latest, fv_content_hash = ?h, fv_egress_allow = pq_egress_allow req \<rparr>"
  have ext: "externals X" using dynamo_store.axioms(2) [OF deployment.axioms(1) [OF assms(1)]] .
  obtain q where row: "view w2 (ak_table (apc_catalog ac)) (catalog_pkey (pq_function req) latest) =
      Some (catalog_item X (pq_function req) latest ?h q (pq_egress_allow req))"
    using published_row [OF assms(1,7,8)] assms(10) by auto
  have "version_ok ?v"
    using assms(5,6) externals.content_hash_from_bytes_ok [OF ext] by (simp add: version_ok_def version_label_ok_def latest_def)
  from version_read_back [OF ext this, of q]
  have v: "version_from_item X (catalog_item X (pq_function req) latest ?h q (pq_egress_allow req)) = Inr ?v" by simp
  obtain rq nonce response w4 out v2 hs where
    r: "host_request X J H (function_id_str (pq_function req)) headers body = Inr (rq, nonce)"
    and run: "paid_execute X (hs_invoke ?G) (invoke_bearer H headers) rq w2 = (Inr response, w4)"
    and dec: "decode_response X J T (ir_output response) = Inr out"
    and reply: "reply = bytes_reply H (status_of_u16 (rs_status out)) hs (rs_body out)"
    using host_invoke_Inr [OF assms(12)] by metis
  have rq: "iq_function rq = pq_function req" "iq_version rq = latest"
    using r assms(5,11) by (auto simp: host_request_def bind_r_Inr_iff split: if_splits)
  have "view w2 (ak_table (apc_catalog ac)) (catalog_pkey (iq_function rq) (iq_version rq)) =
      Some (catalog_item X (pq_function req) latest ?h q (pq_egress_allow req))" by (simp add: rq row)
  note ran = deployment.invoked_version [OF assms(1-2,9,3) run this v]
  have "header_str H (an_headers reply) SHASUM_HEADER = Some (content_hash_to_hex X (ir_content_hash response))"
    using host_answer_bound [OF ext assms(4,12)] r run by (auto simp: answers_for_def)
  moreover obtain wasm w5 where "content_hash_from_bytes X wasm = ?h"
    "fr_run host_runner ?h wasm (iq_payload rq) (pq_egress_allow req) w5 = (Inr \<lparr> ro_output = ir_output response \<rparr>, w4)"
    using ran by auto
  moreover have "an_body reply = rs_body out" "an_status reply = status_of_u16 (rs_status out)"
    by (simp_all add: reply bytes_reply_def)
  ultimately show ?thesis
    using ran r dec
    by (intro conjI exI [of _ rq] exI [of _ nonce] exI [of _ wasm] exI [of _ w5] exI [of _ "ir_output response"]
        exI [of _ w4] exI [of _ out]) simp_all
qed

text \<open>On the reference world: \<open>new\<close> is published and then invoked, at no cost, by a host whose guests answer \<open>hi\<close>.\<close>

lemma demo_api_publish: "ai_publish demo_api = ref_publish"
proof -
  have "config_artifacts ref_aws (apc_artifacts demo_api_config) = ref_artifacts"
    "config_catalog ref_aws (ak_endpoint (apc_catalog demo_api_config)) ''catalog'' = ref_catalog"
    by (simp_all add: config_artifacts_def ref_artifacts_def config_catalog_def ref_catalog_def demo_api_config_def
        demo_artifacts_config_def)
  moreover have "\<lparr> lk_client = ref_client ref_schema, lk_table = ''locks'', lk_now = ref_now_s \<rparr> = ref_lock"
    by (simp add: ref_lock_def ref_now_s_def [abs_def])
  ultimately show ?thesis
    by (simp add: demo_api_def api_app_def Let_def ref_publish_def ref_now_ms_def [abs_def])
qed

lemma new_name: "function_id_new ''new'' = Inr (FunctionId ''new'')"
  by (simp add: function_id_new_def char_class_defs byte_def)

lemma demo_origins: "\<forall>e \<in> set (pq_egress_allow demo_publish). origin_normal e"
  unfolding demo_publish_def origin_normal_def using demo_host by auto

lemma new_published:
  "\<exists>res w1. publish_execute ref_ext (ai_publish demo_api) demo_publish demo_world = (Inr res, w1) \<and> pr_status res = Ready
     \<and> rd_faults w1 = []
     \<and> catalog_resolve ref_ext ref_catalog (FunctionId ''new'') latest w1 = (Inr \<lparr> fv_id = FunctionId ''new'', fv_label = latest,
          fv_content_hash = content_hash_from_bytes ref_ext ''echo'', fv_egress_allow = [EgressOrigin ''https://a.io''] \<rparr>, w1)
     \<and> (\<exists>b. s3_get ref_ext ref_artifacts (content_hash_from_bytes ref_ext ''echo'') w1 = (Inr b, w1))"
proof -
  let ?h = "content_hash_from_bytes ref_ext ''echo''" and ?eg = "[EgressOrigin ''https://a.io'']"
  let ?v = "\<lparr> fv_id = FunctionId ''new'', fv_label = latest, fv_content_hash = ?h, fv_egress_allow = ?eg \<rparr>"
  obtain res w1 where run: "rd_faults w1 = []" "publish_execute ref_ext ref_publish demo_publish demo_world = (Inr res, w1)"
    "pr_status res = Ready" using demo_publish_ready by fastforce
  have p: "pq_function demo_publish = FunctionId ''new''" "pq_wasm demo_publish = ''echo''" "pq_egress_allow demo_publish = ?eg"
    by (simp_all add: demo_publish_def)
  obtain q where q: "ref_view w1 ''catalog'' (catalog_pkey (FunctionId ''new'') latest)
      = Some (catalog_item ref_ext (FunctionId ''new'') latest ?h q ?eg)"
    using published_row [OF hi_deployment run(2) [folded demo_api_publish, unfolded demo_api_def] run(3)] by (auto simp: p)
  have "version_ok ?v"
    using demo_origins new_name ref_externals.content_hash_from_bytes_ok
    by (simp add: version_ok_def version_label_ok_def latest_def p)
  from version_read_back [OF ref_externals.externals_axioms this, of q] q run(1)
  have "catalog_resolve ref_ext ref_catalog (FunctionId ''new'') latest w1 = (Inr ?v, w1)"
    by (simp add: catalog_resolve_def bind_io_def map_err_io_def ref_get_calm)
  moreover have "ref_stored w1 ?h"
    using triple_ok [OF ref_publish.publish_triple _ run(2), of demo_world] by (simp add: p)
  then have "\<exists>b. s3_get ref_ext ref_artifacts ?h w1 = (Inr b, w1)"
    by (auto simp: ref_stored_def ref_s3_def s3_get_def get_object_def match_io_def bind_io_def Let_def)
  ultimately show ?thesis using run by (auto simp: demo_api_publish)
qed

lemma hi_host_reply:
  "\<exists>reply. host_reply ref_ext ref_json_text ref_text ref_headers S None
     \<lparr> ir_output = print_json (wire_response ref_ext hi_response), ir_content_hash = h \<rparr> w = (Inr reply, w)
     \<and> an_status reply = 200 \<and> an_body reply = ''hi''"
proof -
  have "decode_response ref_ext ref_json_text ref_text (print_json (wire_response ref_ext hi_response)) = Inr hi_response"
    by (rule response_read_back [OF ref_externals.externals_axioms ref_json_text.json_codec_axioms hi_response_ok])
      (simp add: encode_response_def ref_json_text_def)
  moreover have "rs_status hi_response = 200" "rs_body hi_response = ''hi''" by (simp_all add: hi_response_def from_parts_def)
  ultimately show ?thesis
    by (simp add: host_reply_def Let_def bind_io_def ref_externals.hex_header [OF ref_headers.header_map_axioms]
        attest_header_def bytes_reply_def status_of_u16_def)
qed

lemma new_invoked:
  assumes "catalog_resolve ref_ext ref_catalog (FunctionId ''new'') latest w = (Inr v, w)"
    and "s3_get ref_ext ref_artifacts (fv_content_hash v) w = (Inr b, w)"
    and none: "parse_nonce ref_ext ref_headers hs = Inr None" "request_version ref_headers hs = Inr latest"
  shows "\<exists>reply. host_invoke ref_ext ref_json_text ref_text ref_headers
     (host_app ref_ext ref_aws hi_runner ref_crypto (demo_host_config ''prod'' 0)) ''new'' hs ''in'' w = (Inr reply, w)
     \<and> an_status reply = 200 \<and> an_body reply = ''hi''"
proof -
  let ?G = "host_app ref_ext ref_aws hi_runner ref_crypto (demo_host_config ''prod'' 0)"
  obtain b' where rq: "host_request ref_ext ref_json_text ref_headers ''new'' hs ''in''
      = Inr (\<lparr> iq_function = FunctionId ''new'', iq_version = latest, iq_payload = b' \<rparr>, None)"
    by (simp add: host_request_def new_name none MAX_INVOKE_BODY_BYTES_def encode_request_def ref_json_text_def)
  have parts: "pi_cost (hs_invoke ?G) = 0" "pi_invoke (hs_invoke ?G) = ref_invoke\<lparr> if_runner := hi_runner \<rparr>"
    by (simp_all add: host_app_def Let_def paid_invoke_new_def ref_invoke_def demo_host_config_def config_artifacts_def
        ref_artifacts_def config_catalog_def ref_catalog_def demo_artifacts_config_def)
  have hi_run: "fr_run hi_runner h c i al w = (Inr \<lparr> ro_output = print_json (wire_response ref_ext hi_response) \<rparr>, w)" for h c i al
    by (simp add: hi_runner_def)
  have "paid_execute ref_ext (hs_invoke ?G) bearer \<lparr> iq_function = FunctionId ''new'', iq_version = latest, iq_payload = b' \<rparr> w =
     (Inr \<lparr> ir_output = print_json (wire_response ref_ext hi_response), ir_content_hash = fv_content_hash v \<rparr>, w)" for bearer
    unfolding paid_execute_def parts by (simp add: invoke_execute_def bind_io_def assms hi_run Let_def)
  with hi_host_reply [of ?G "fv_content_hash v" w] show ?thesis
    by (auto simp: host_invoke_def rq bind_io_def)
qed

end
