(* ===== verification/Client_Server.thy ===== *)
theory Client_Server
  imports Cli_Properties System_Properties
begin

text \<open>
  The client's commands over HTTP against the routers of the two servers. The locale \<open>http_reach\<close> is
  what the commands rely on of the HTTP client and the network: an answer comes from one call of the
  server's router for the request that was sent. Inside it are what an accepted \<open>deploy\<close> and an
  accepted \<open>invoke\<close> did on the server, and the last part puts them together: a user runs what the
  user deployed.
\<close>

section \<open>Requests that arrive\<close>

text \<open>
  A path segment that no part of the way rewrites, and the headers the commands set or read, which
  arrive with the values that were sent.
\<close>

definition plain_segment :: "string \<Rightarrow> bool" where
  "plain_segment s \<longleftrightarrow> s \<noteq> [] \<and> list_all (\<lambda>c. is_ascii_alphanumeric c \<or> c = CHR ''-'' \<or> c = CHR ''_'') s"

definition end_to_end_headers :: "string list" where
  "end_to_end_headers = [''authorization'', ''x-nitrum-fn-version'', NONCE_HEADER, ALLOW_URL_HEADER, PAYMENT_SIGNATURE,
     SHASUM_HEADER, ATTESTATION_HEADER]"

definition carried :: "'h header_lib \<Rightarrow> 'h \<Rightarrow> 'h \<Rightarrow> bool" where
  "carried H sent arrived \<longleftrightarrow> (\<forall>name \<in> set end_to_end_headers. hl_get_all H arrived name = hl_get_all H sent name)"

text \<open>
  The client follows redirects on its own, so nothing is said of the answer to a request that was
  answered with one, except that the request was made.
\<close>

definition is_redirect :: "nat \<Rightarrow> bool" where
  "is_redirect status \<longleftrightarrow> status \<in> {301, 302, 303, 307, 308}"

definition answered_by ::
  "'h header_lib \<Rightarrow> ('h http_request \<Rightarrow> 'w \<Rightarrow> 'h http_answer \<times> 'w) \<Rightarrow> string \<Rightarrow> string list \<Rightarrow> 'h \<Rightarrow> bytes \<Rightarrow> 'w
     \<Rightarrow> nat \<times> 'h \<times> bytes \<Rightarrow> 'w \<Rightarrow> bool" where
  "answered_by H router meth path hs body w got w' \<longleftrightarrow>
     (\<exists>rq answer w1. rq_method rq = meth \<and> rq_path rq = path \<and> rq_body rq = body \<and> carried H hs (rq_headers rq)
        \<and> router rq w = (answer, w1)
        \<and> (is_redirect (an_status answer) \<or>
            w' = w1 \<and> fst got = an_status answer \<and> carried H (an_headers answer) (fst (snd got)) \<and> snd (snd got) = an_body answer))"

locale http_reach =
  fixes H :: "'h header_lib" and C :: "('w, 'h) cli_http" and base :: string
    and router :: "'h http_request \<Rightarrow> 'w \<Rightarrow> 'h http_answer \<times> 'w"
  assumes post_law: "plain_segment a \<Longrightarrow> plain_segment b
      \<Longrightarrow> ch_post C (base @ ''/'' @ a @ ''/'' @ b) hs body w = (Inr (status, ahs, Inr bs), w')
      \<Longrightarrow> answered_by H router ''POST'' [a, b] hs body w (status, ahs, bs) w'"
    and put_law: "plain_segment a \<Longrightarrow> plain_segment b
      \<Longrightarrow> ch_put C (base @ ''/'' @ a @ ''/'' @ b) hs body w = (Inr (status, ahs, Inr bs), w')
      \<Longrightarrow> answered_by H router ''PUT'' [a, b] hs body w (status, ahs, bs) w'"

lemma plain_routes [simp]: "plain_segment ''invoke''" "plain_segment ''functions''"
  by (simp_all add: plain_segment_def char_class_defs byte_def)

lemma plain_name: "function_id_new s = Inr f \<Longrightarrow> plain_segment s \<and> f = FunctionId s"
  by (auto simp: plain_segment_def function_id_new_Inr_iff list_all_iff)

lemma carried_str: "carried H hs hs' \<Longrightarrow> name \<in> set end_to_end_headers \<Longrightarrow> header_str H hs' name = header_str H hs name"
  by (simp add: carried_def header_str_def hl_get_def)

text \<open>The server's own refusals are errors.\<close>

definition refusals_fail :: "'h server_answers \<Rightarrow> bool" where
  "refusals_fail A \<longleftrightarrow> 400 \<le> an_status (sa_not_found A) \<and> (\<forall>ms. 400 \<le> an_status (sa_not_allowed A ms))
     \<and> 400 \<le> an_status (sa_too_large A)"

lemma failed_status: "400 \<le> n \<Longrightarrow> \<not> is_success n \<and> \<not> is_redirect n"
  by (auto simp: is_success_def is_redirect_def)

lemma error_statuses:
  "400 \<le> api_status e" "400 \<le> host_status e" "400 \<le> an_status (api_error_response X H J e)"
  "400 \<le> an_status (host_error_response H J e)"
  by (cases e; simp add: challenge_response_def Let_def host_error_response_def split: option.split)+

section \<open>A deployment that was accepted\<close>

lemma publish_body_ok:
  assumes "externals X" and "function_id_new name = Inr f" and "pr_function r = f" and "pr_version r = latest"
  shows "json_ok (publish_body X r)"
proof -
  have "utf8_valid name"
    by (rule utf8_valid_ascii) (use assms(2) in \<open>auto simp: function_id_new_Inr_iff char_class_defs byte_def\<close>)
  then show ?thesis
    using plain_name [OF assms(2)] assms(3,4) externals.hex_utf8 [OF assms(1)]
    by (cases "pr_status r") (simp_all add: publish_body_def latest_def content_hash_to_hex_def json_num_def utf8_valid_literal
        char_class_defs byte_def)
qed

lemma publish_body_read:
  "de_publish_body (publish_body X r) = Some (function_id_str (pr_function r), label_str (pr_version r),
     content_hash_to_hex X (pr_content_hash r), word_of_nat (pr_wasm_bytes r), publish_status_str (pr_status r))"
  by (simp add: publish_body_def de_publish_body_def json_num_def)

text \<open>The \<open>PUT\<close> route answers a success only for a publish that went through.\<close>

lemma put_route_success:
  assumes "functions_route X J H A S name rq w = (answer, w')" and "rq_method rq = ''PUT''" and "\<not> 400 \<le> an_status answer"
    and "refusals_fail A"
  obtains w1 f egress res where "function_id_new name = Inr f" "parse_allow_headers H (rq_headers rq) = Inr egress"
    "publish_execute X (ai_publish S) \<lparr> pq_function = f, pq_wasm = rq_body rq, pq_egress_allow = egress \<rparr> w1 = (Inr res, w')"
    "answer = json_reply H J 200 (publish_body X res)"
proof -
  let ?S = "\<lparr> ps_publish = ai_publish S, ps_accounts = ai_accounts S, ps_min_deploy_credits = ai_min_deploy_credits S \<rparr>"
  have "api_publish X J H ?S name (rq_headers rq) (rq_body rq) w = (Inr answer, w')"
    using assms error_statuses(3)
    by (auto simp: functions_route_def limited_def refusals_fail_def api_serve_def split: if_splits prod.splits sum.splits)
  then show thesis
    by (auto simp: api_publish_def bind_io_Inr_iff map_err_Inr_iff intro: that)
qed

lemma carried_allow:
  assumes "header_map H" and "normal_origins raw = Inr origins" and "carried H (deploy_headers H origins api_key) hs"
  shows "parse_allow_headers H hs = Inr origins"
proof -
  have "hl_get_all H hs ALLOW_URL_HEADER = hl_get_all H (deploy_headers H origins api_key) ALLOW_URL_HEADER"
    using assms(3) by (simp add: carried_def end_to_end_headers_def)
  then show ?thesis using allowlist_sent_is_read [OF assms(1,2), of api_key] by (simp add: parse_allow_headers_def)
qed

text \<open>What a run of \<open>deploy\<close> that printed a line went through.\<close>

lemma cli_deploy_Inr:
  assumes "cli_deploy J T H C F args w = (Inr line, w')"
  obtains origins wa wasm wb status ahs b name version hash n st where "collect_allow_urls F args w = (Inr origins, wa)"
    "fl_read F (dp_wasm args) wa = (Inr wasm, wb)"
    "ch_put C (trim_end_matches CHR ''/'' (dp_url args) @ ''/functions/'' @ dp_name args) (deploy_headers H origins (dp_api_key args))
       wasm wb = (Inr (status, ahs, Inr b), w')"
    "is_success status" "from_slice_as J ''PublishBody'' de_publish_body b = Inr (name, version, hash, n, st)"
    "line = ''deployed '' @ name @ ''@'' @ version @ '' hash='' @ hash @ '' wasm_bytes='' @ show_u64 n @ '' status='' @ st"
  using assms
  by (auto simp: cli_deploy_def bind_io_Inr_iff map_err_io_iff with_context_def map_err_Inr_iff Let_def split: if_splits prod.splits)

lemma collected_origins: "collect_allow_urls F args w = (Inr origins, w') \<Longrightarrow> \<exists>raw. normal_origins raw = Inr origins"
  by (auto simp: collect_allow_urls_def bind_io_Inr_iff)

text \<open>The API behind the HTTP client: what an accepted deployment published.\<close>

locale api_client =
  http_reach H C base "api_router X J H E A rng S" + header_map H
  for H :: "'h header_lib" and C :: "('w, 'h) cli_http" and base :: string and X :: ext and J :: json_text
    and E :: "'h json_extractor" and A :: "'h server_answers" and rng :: "'w rng" and S :: "'w api_state" +
  assumes codec: "json_codec J" and ext: "externals X" and refusals: "refusals_fail A"
begin

lemma deploy_publishes:
  assumes "cli_deploy J T H C F args w = (Inr line, w')" and "trim_end_matches CHR ''/'' (dp_url args) = base"
    and "function_id_new (dp_name args) = Inr f"
  obtains origins wa wasm wb wc res where "collect_allow_urls F args w = (Inr origins, wa)"
    "fl_read F (dp_wasm args) wa = (Inr wasm, wb)"
    "publish_execute X (ai_publish S) \<lparr> pq_function = f, pq_wasm = wasm, pq_egress_allow = origins \<rparr> wc = (Inr res, w')"
    "line = ''deployed '' @ dp_name args @ ''@latest hash='' @ content_hash_to_hex X (pr_content_hash res)
       @ '' wasm_bytes='' @ show_u64 (word_of_nat (length wasm)) @ '' status='' @ publish_status_str (pr_status res)"
proof -
  obtain origins wa wasm wb status ahs b name version hash n st where
    c: "collect_allow_urls F args w = (Inr origins, wa)" "fl_read F (dp_wasm args) wa = (Inr wasm, wb)"
    and put: "ch_put C (base @ ''/'' @ ''functions'' @ ''/'' @ dp_name args) (deploy_headers H origins (dp_api_key args)) wasm wb
       = (Inr (status, ahs, Inr b), w')"
    and ok: "is_success status" "from_slice_as J ''PublishBody'' de_publish_body b = Inr (name, version, hash, n, st)"
    and line: "line = ''deployed '' @ name @ ''@'' @ version @ '' hash='' @ hash @ '' wasm_bytes='' @ show_u64 n @ '' status='' @ st"
    by (rule cli_deploy_Inr [OF assms(1)]) (use assms(2) in auto)
  note name = plain_name [OF assms(3)]
  obtain rq answer w1 where rq: "rq_method rq = ''PUT''" "rq_path rq = [''functions'', dp_name args]" "rq_body rq = wasm"
      "carried H (deploy_headers H origins (dp_api_key args)) (rq_headers rq)"
    and run: "api_router X J H E A rng S rq wb = (answer, w1)"
    and got: "is_redirect (an_status answer) \<or> w' = w1 \<and> status = an_status answer \<and> b = an_body answer"
    using put_law [OF plain_routes(2) name [THEN conjunct1] put] by (auto simp: answered_by_def)
  have route: "functions_route X J H A S (dp_name args) rq wb = (answer, w1)"
    using run rq(2) name by (auto simp: api_router_def plain_segment_def)
  have "\<not> 400 \<le> an_status answer" using got ok(1) failed_status by (auto simp: is_redirect_def)
  then obtain wc f' egress res where p: "function_id_new (dp_name args) = Inr f'"
    "parse_allow_headers H (rq_headers rq) = Inr egress"
    "publish_execute X (ai_publish S) \<lparr> pq_function = f', pq_wasm = rq_body rq, pq_egress_allow = egress \<rparr> wc = (Inr res, w1)"
    "answer = json_reply H J 200 (publish_body X res)"
    using put_route_success [OF route rq(1) _ refusals] by metis
  have f: "f' = f" "egress = origins"
    using p(1,2) assms(3) carried_allow [OF header_map_axioms _ rq(4)] collected_origins [OF c(1)] by auto
  have res: "pr_function res = f" "pr_version res = latest" "pr_wasm_bytes res = length wasm"
    using p(3) by (auto simp: publish_execute_def bind_io_Inr_iff Let_def f rq(3) split: if_splits)
  have "w' = w1" "b = an_body (json_reply H J 200 (publish_body X res))" using got p(4) by (auto simp: is_redirect_def)
  moreover from this(2) have "jt_from_slice J b = Inr (publish_body X res)"
    using json_reply_read [OF codec publish_body_ok [OF ext assms(3) res(1,2)]] by simp
  then have "name = dp_name args" "version = ''latest''" "hash = content_hash_to_hex X (pr_content_hash res)"
    "n = word_of_nat (length wasm)" "st = publish_status_str (pr_status res)"
    using ok(2) name by (auto simp: from_slice_as_def bind_r_Inr_iff publish_body_read res latest_def)
  ultimately show thesis
    using that [OF c] p(3) line by (simp add: f rq(3))
qed

end

section \<open>An invoke that was accepted\<close>

lemma check_answer_out:
  assumes "check_answer X J T H V wr args fn_shasum nonce status headers body w = (Inr out, w')"
  shows "is_success status \<and> out = from_utf8_lossy T body"
proof (cases "iv_pcr0 args")
  case None
  with assms show ?thesis by (auto simp: check_answer_def Let_def bind_io_Inr_iff split: if_splits)
next
  case (Some p)
  from assms [unfolded check_answer_pcr0 [OF this]] show ?thesis by (elim conjE) (rule conjI)
qed

text \<open>What an accepted \<open>invoke\<close> sent and got. The nonce is drawn first, when there is one.\<close>

lemma cli_invoke_Inr:
  assumes "cli_invoke X J T H rng C V wr args w = (Inr out, w')"
  obtains nonce w1 status ahs b w2 where "w1 = w \<or> (\<exists>n. rng 32 w = (Inr n, w1))"
    "ch_post C (trim_end_matches CHR ''/'' (iv_url args) @ ''/invoke/'' @ iv_name args) (invoke_headers X H args nonce)
       (iv_data args) w1 = (Inr (status, ahs, Inr b), w2)"
    "is_success status" "out = from_utf8_lossy T b"
proof -
  obtain fn_shasum where sum: "resolve_fn_shasum X (iv_fn_shasum args) = Inr fn_shasum"
    using assms by (cases "resolve_fn_shasum X (iv_fn_shasum args)") (simp_all add: cli_invoke_def)
  obtain nonce w0 where
    n: "(case iv_pcr0 args of Some _ \<Rightarrow> bind_io (random_bytes32 rng ''generate nonce'') (\<lambda>n. ret (Some n))
        | None \<Rightarrow> ret None) w = (Inr nonce, w0)"
    and rest: "bind_io (map_err_io (\<lambda>e. ''POST '' @ (trim_end_matches CHR ''/'' (iv_url args) @ ''/invoke/'' @ iv_name args) @ '': '' @ e)
       (ch_post C (trim_end_matches CHR ''/'' (iv_url args) @ ''/invoke/'' @ iv_name args) (invoke_headers X H args nonce)
         (iv_data args))) (\<lambda>(status, headers, b).
       bind_io (lift_r (with_context ''read response'' b)) (\<lambda>body_bytes.
       check_answer X J T H V wr args fn_shasum nonce status headers body_bytes)) w0 = (Inr out, w')"
    using assms unfolding cli_invoke_def Let_def sum bind_io_ret by (rule bind_io_InrE) (rule that)
  obtain status ahs r w2 where post: "ch_post C (trim_end_matches CHR ''/'' (iv_url args) @ ''/invoke/'' @ iv_name args)
      (invoke_headers X H args nonce) (iv_data args) w0 = (Inr (status, ahs, r), w2)"
    and chk: "bind_io (lift_r (with_context ''read response'' r)) (\<lambda>body_bytes.
       check_answer X J T H V wr args fn_shasum nonce status ahs body_bytes) w2 = (Inr out, w')"
    using rest by (rule bind_io_InrE) (auto simp only: map_err_io_iff map_err_Inr_iff prod.case split: prod.splits)
  obtain b where b: "r = Inr b" "check_answer X J T H V wr args fn_shasum nonce status ahs b w2 = (Inr out, w')"
    using chk by (cases r) (simp_all add: with_context_def)
  have "w0 = w \<or> (\<exists>n. rng 32 w = (Inr n, w0))"
    using n by (cases "iv_pcr0 args") (auto simp: random_bytes32_def map_err_io_iff bind_io_Inr_iff)
  with post [unfolded b(1)] check_answer_out [OF b(2)] show thesis by (intro that) auto
qed

lemma invoke_version:
  assumes "header_map H" and "iv_version args = None \<or> iv_version args = Some ''latest''"
    and "carried H (invoke_headers X H args nonce) hs"
  shows "request_version H hs = Inr latest"
proof -
  let ?v = "''x-nitrum-fn-version''"
  have "hl_to_str H ''latest'' = Some ''latest''"
    by (rule header_map.str_graphic [OF assms(1)]) (auto simp: graphic_def byte_def)
  moreover have "hl_get_all H (invoke_headers X H args nonce) ?v = (case iv_version args of None \<Rightarrow> [] | Some v \<Rightarrow> [v])"
    by (auto simp: invoke_headers_def bearer_headers_def Let_def header_map.get_all_append [OF assms(1)]
        header_map.get_all_empty [OF assms(1)] CLI_NONCE_HEADER_def split: option.split)
  moreover have "hl_get_all H hs ?v = hl_get_all H (invoke_headers X H args nonce) ?v"
    using assms(3) by (simp add: carried_def end_to_end_headers_def)
  ultimately show ?thesis
    using assms(2) by (auto simp: request_version_def header_str_def hl_get_def version_label_new_def latest_def)
qed

text \<open>The host behind the HTTP client.\<close>

locale host_client =
  http_reach H C base "host_router X J T H A G" + header_map H
  for H :: "'h header_lib" and C :: "('w, 'h) cli_http" and base :: string and X :: ext and J :: json_text
    and T :: codec_text and A :: "'h server_answers" and G :: "'w host_state" +
  assumes refusals: "refusals_fail A"
begin

lemma invoke_runs:
  assumes "cli_invoke X J TC H rng C V wr args w = (Inr out, w')" and "trim_end_matches CHR ''/'' (iv_url args) = base"
    and "function_id_new (iv_name args) = Inr f"
  obtains w1 nonce hs reply w2 where "w1 = w \<or> (\<exists>n. rng 32 w = (Inr n, w1))" "carried H (invoke_headers X H args nonce) hs"
    "host_invoke X J T H G (iv_name args) hs (iv_data args) w1 = (Inr reply, w2)"
    "is_redirect (an_status reply) \<or> out = from_utf8_lossy TC (an_body reply)"
proof -
  obtain nonce w1 status ahs b w2 where w1: "w1 = w \<or> (\<exists>n. rng 32 w = (Inr n, w1))"
    and post: "ch_post C (base @ ''/'' @ ''invoke'' @ ''/'' @ iv_name args) (invoke_headers X H args nonce)
       (iv_data args) w1 = (Inr (status, ahs, Inr b), w2)"
    and ok: "is_success status" "out = from_utf8_lossy TC b"
    by (rule cli_invoke_Inr [OF assms(1)]) (use assms(2) in auto)
  note name = plain_name [OF assms(3)]
  obtain rq answer w3 where rq: "rq_method rq = ''POST''" "rq_path rq = [''invoke'', iv_name args]" "rq_body rq = iv_data args"
      "carried H (invoke_headers X H args nonce) (rq_headers rq)"
    and run: "host_router X J T H A G rq w1 = (answer, w3)"
    and got: "is_redirect (an_status answer) \<or> status = an_status answer \<and> b = an_body answer"
    using post_law [OF plain_routes(1) name [THEN conjunct1] post] by (auto simp: answered_by_def)
  have "\<not> 400 \<le> an_status answer" using got ok(1) failed_status by blast
  then have "host_invoke X J T H G (iv_name args) (rq_headers rq) (iv_data args) w1 = (Inr answer, w3)"
    using run rq name refusals error_statuses(4)
    by (auto simp: host_router_def post_route_def limited_def refusals_fail_def host_serve_def plain_segment_def
        split: if_splits prod.splits sum.splits)
  with w1 rq(4) got ok(2) show thesis by (intro that) auto
qed

end

section \<open>A client next to a server\<close>

text \<open>A client whose requests reach one server as they are.\<close>

definition direct ::
  "string \<Rightarrow> ('h http_request \<Rightarrow> 'w \<Rightarrow> 'h http_answer \<times> 'w) \<Rightarrow> string \<Rightarrow> string \<Rightarrow> 'h \<Rightarrow> bytes
     \<Rightarrow> ('w, string, nat \<times> 'h \<times> (string + bytes)) io" where
  "direct base router meth url hs body w =
     (case strip_prefix url (base @ ''/'') of
        None \<Rightarrow> (Inl ''error sending request'', w)
      | Some path \<Rightarrow>
          (case router \<lparr> rq_method = meth, rq_path = split_on CHR ''/'' path, rq_headers = hs, rq_body = body \<rparr> w of
             (answer, w') \<Rightarrow> (Inr (an_status answer, an_headers answer, Inr (an_body answer)), w')))"

definition direct_client :: "string \<Rightarrow> ('h http_request \<Rightarrow> 'w \<Rightarrow> 'h http_answer \<times> 'w) \<Rightarrow> ('w, 'h) cli_http" where
  "direct_client base router = \<lparr> ch_post = direct base router ''POST'', ch_put = direct base router ''PUT'' \<rparr>"

lemma direct_path:
  assumes "plain_segment a" and "plain_segment b"
  shows "direct base router meth (base @ ''/'' @ a @ ''/'' @ b) hs body w =
    (case router \<lparr> rq_method = meth, rq_path = [a, b], rq_headers = hs, rq_body = body \<rparr> w of
       (answer, w') \<Rightarrow> (Inr (an_status answer, an_headers answer, Inr (an_body answer)), w'))"
proof -
  have slash: "CHR ''/'' \<notin> set s" if "plain_segment s" for s
    using that by (auto simp: plain_segment_def list_all_iff char_class_defs byte_def)
  have "strip_prefix (base @ ''/'' @ a @ ''/'' @ b) (base @ ''/'') = Some (a @ CHR ''/'' # b)"
    by (simp add: strip_prefix_Some_iff)
  moreover have "split_on CHR ''/'' (a @ CHR ''/'' # b) = [a, b]"
    by (simp add: split_on_append_sep split_on_no_sep slash assms)
  ultimately show ?thesis by (simp add: direct_def)
qed

lemma direct_answered:
  assumes "plain_segment a" and "plain_segment b"
    and "direct base router meth (base @ ''/'' @ a @ ''/'' @ b) hs body w = (Inr (status, ahs, Inr bs), w')"
  shows "answered_by H router meth [a, b] hs body w (status, ahs, bs) w'"
  unfolding answered_by_def
  by (rule exI [of _ "\<lparr> rq_method = meth, rq_path = [a, b], rq_headers = hs, rq_body = body \<rparr>"])
    (use assms(3) [unfolded direct_path [OF assms(1,2)]] in \<open>auto simp: carried_def split: prod.splits\<close>)

lemma direct_reach: "http_reach H (direct_client base router) base router"
  by unfold_locales (simp only: direct_client_def cli_http.select_convs, erule (2) direct_answered)+

abbreviation demo_api_router :: "(string \<times> bytes) list http_request \<Rightarrow> ref_world \<Rightarrow> (string \<times> bytes) list http_answer \<times> ref_world" where
  "demo_api_router \<equiv> api_router ref_ext ref_json_text ref_headers demo_extractor demo_answers ref_rng demo_api"

abbreviation free_host :: "ref_world host_state" where
  "free_host \<equiv> host_app ref_ext ref_aws hi_runner ref_crypto (demo_host_config ''prod'' 0)"

abbreviation free_host_router :: "(string \<times> bytes) list http_request \<Rightarrow> ref_world \<Rightarrow> (string \<times> bytes) list http_answer \<times> ref_world" where
  "free_host_router \<equiv> host_router ref_ext ref_json_text ref_text ref_headers demo_answers free_host"

lemma demo_refusals: "refusals_fail demo_answers"
  by (simp add: refusals_fail_def demo_answers_def)

interpretation demo_reach: http_reach ref_headers "direct_client base router" base router
  for base and router :: "(string \<times> bytes) list http_request \<Rightarrow> ref_world \<Rightarrow> (string \<times> bytes) list http_answer \<times> ref_world"
  by (rule direct_reach)

interpretation demo_api_client: api_client ref_headers "direct_client ''http://api'' demo_api_router" "''http://api''"
    ref_ext ref_json_text demo_extractor demo_answers ref_rng demo_api
  by unfold_locales (simp_all add: demo_refusals ref_json_text.json_codec_axioms ref_externals.externals_axioms)

interpretation demo_host_client: host_client ref_headers "direct_client ''http://host'' free_host_router" "''http://host''"
    ref_ext ref_json_text ref_text demo_answers free_host
  by unfold_locales (rule demo_refusals)

section \<open>From deploy to invoke\<close>

lemma ready_line:
  "ends_with (a @ name @ b @ hash @ c @ n @ d @ publish_status_str st) ''status=ready'' \<Longrightarrow> st = Ready"
  by (cases st) (auto simp: ends_with_def)

text \<open>
  C9: A user runs what the user deployed, as long as the catalog is read fresh. Suppose that \<open>deploy\<close>
  printed that a file is ready, and that when \<open>invoke\<close> is called for that name the row it wrote still
  stands, so nobody has deployed the name again; that the host reads the table the API writes; that the
  invoke names no version, or \<open>latest\<close>; that the network delivers both calls to the servers; and that
  the catalog's service is calm when the invoke is called, and still so once the nonce is drawn, so that its \<open>get_item\<close>, which is eventually consistent, returns the
  row that stands and is not lost. A read that is not fresh may return the row before the
  deploy, and then the module of that row runs. Under these conditions an \<open>invoke\<close> that the client
  accepts from the host of the deployment prints the body of a response that one run made, unless the
  function answered with a redirect, of which nothing is said: the run was of a module with the hash of
  the file, which \<open>deploy\<close> printed, under exactly the origins the user allowed on the command line and in
  the config file, on a \<open>POST\<close> request with the user's data as its body.
\<close>

theorem user_runs_what_they_deployed:
  assumes "deployment W ac hc view schema hist X rng api_runner host_runner crypto post now_s now_ms"
    and "ddb_fresh (aws_ddb W (hk_endpoint (hc_catalog hc))) view schema calm"
    and "hk_table (hc_catalog hc) = ak_table (apc_catalog ac)"
    and "api_client H C (trim_end_matches CHR ''/'' (dp_url dargs)) X J E A rng (api_app X W api_runner K post now_s now_ms ac)"
    and "host_client H C' (trim_end_matches CHR ''/'' (iv_url iargs)) X J T A (host_app X W host_runner crypto hc)"
    and "function_id_new (dp_name dargs) = Inr f" and "iv_name iargs = dp_name dargs"
    and "iv_version iargs = None \<or> iv_version iargs = Some ''latest''"
    and "cli_deploy J TC H C F dargs w = (Inr line, w1)" and "ends_with line ''status=ready''"
    and "calm w2" and "frames calm view (crng 32)"
    and "view w2 (ak_table (apc_catalog ac)) (catalog_pkey f latest) = view w1 (ak_table (apc_catalog ac)) (catalog_pkey f latest)"
    and "cli_invoke X J TC H crng C' V wr iargs w2 = (Inr out, w3)"
  shows "\<exists>origins wa wasm wb hs payload wasm' w4 raw_out w5 response.
     collect_allow_urls F dargs w = (Inr origins, wa) \<and> fl_read F (dp_wasm dargs) wa = (Inr wasm, wb)
     \<and> line = ''deployed '' @ dp_name dargs @ ''@latest hash='' @ content_hash_to_hex X (content_hash_from_bytes X wasm)
          @ '' wasm_bytes='' @ show_u64 (word_of_nat (length wasm)) @ '' status=ready''
     \<and> encode_request X J (request_new ''POST'' (''/invoke/'' @ dp_name dargs) hs (iv_data iargs)) = Inr payload
     \<and> content_hash_from_bytes X wasm' = content_hash_from_bytes X wasm
     \<and> fr_run host_runner (content_hash_from_bytes X wasm) wasm' payload origins w4 = (Inr \<lparr> ro_output = raw_out \<rparr>, w5)
     \<and> decode_response X J T raw_out = Inr response
     \<and> (is_redirect (status_of_u16 (rs_status response)) \<or> out = from_utf8_lossy TC (rs_body response))"
proof -
  obtain origins wa wasm wb wc res where d: "collect_allow_urls F dargs w = (Inr origins, wa)"
    "fl_read F (dp_wasm dargs) wa = (Inr wasm, wb)"
    "publish_execute X (ai_publish (api_app X W api_runner K post now_s now_ms ac))
       \<lparr> pq_function = f, pq_wasm = wasm, pq_egress_allow = origins \<rparr> wc = (Inr res, w1)"
    "line = ''deployed '' @ dp_name dargs @ ''@latest hash='' @ content_hash_to_hex X (pr_content_hash res)
       @ '' wasm_bytes='' @ show_u64 (word_of_nat (length wasm)) @ '' status='' @ publish_status_str (pr_status res)"
    by (rule api_client.deploy_publishes [OF assms(4,9) refl assms(6)])
  have ready: "pr_status res = Ready" by (rule ready_line [OF assms(10) [unfolded d(4)]])
  have hash: "pr_content_hash res = content_hash_from_bytes X wasm" using published_row [OF assms(1) d(3) ready, THEN conjunct1] by simp
  obtain w2' nonce hs reply w3' where w2: "w2' = w2 \<or> (\<exists>n. crng 32 w2 = (Inr n, w2'))"
    and hs: "carried H (invoke_headers X H iargs nonce) hs"
    and inv: "host_invoke X J T H (host_app X W host_runner crypto hc) (dp_name dargs) hs (iv_data iargs) w2' = (Inr reply, w3')"
    and out: "is_redirect (an_status reply) \<or> out = from_utf8_lossy TC (an_body reply)"
    by (rule host_client.invoke_runs [OF assms(5,14) refl assms(6) [folded assms(7)], unfolded assms(7)]) (rule that)
  have calm: "calm w2'" "view w2' = view w2" using w2 framesD [OF assms(12,11)] assms(11) by auto
  have name: "f = FunctionId (dp_name dargs)" using plain_name [OF assms(6)] by simp
  let ?req = "\<lparr> pq_function = f, pq_wasm = wasm, pq_egress_allow = origins \<rparr>"
  have hm: "header_map H" by (rule host_client.axioms(2) [OF assms(5)])
  have ids: "function_id_new (function_id_str (pq_function ?req)) = Inr (pq_function ?req)"
    "\<forall>e \<in> set (pq_egress_allow ?req). origin_normal e"
    using assms(6) collected_origins [OF d(1)] normal_origins_Inr by (auto simp: name)
  have row: "view w2' (ak_table (apc_catalog ac)) (catalog_pkey (pq_function ?req) latest)
      = view w1 (ak_table (apc_catalog ac)) (catalog_pkey (pq_function ?req) latest)" using assms(13) calm(2) by simp
  have inv': "host_invoke X J T H (host_app X W host_runner crypto hc) (function_id_str (pq_function ?req)) hs
      (iv_data iargs) w2' = (Inr reply, w3')" using inv by (simp add: name)
  obtain rq nn wasm' w4 raw_out w5 response where r:
    "host_request X J H (dp_name dargs) hs (iv_data iargs) = Inr (rq, nn)"
    "content_hash_from_bytes X wasm' = content_hash_from_bytes X wasm"
    "fr_run host_runner (content_hash_from_bytes X wasm) wasm' (iq_payload rq) origins w4 = (Inr \<lparr> ro_output = raw_out \<rparr>, w5)"
    "decode_response X J T raw_out = Inr response"
    "an_status reply = status_of_u16 (rs_status response)" "an_body reply = rs_body response"
    using deployed_is_invoked [OF assms(1-3) hm ids d(3) ready calm(1) row invoke_version [OF hm assms(8) hs] inv', THEN conjunct2]
    by (simp only: publish_request.select_convs name function_id.sel) (elim exE conjE, rule that)
  have "\<exists>hs. encode_request X J (request_new ''POST'' (''/invoke/'' @ dp_name dargs) hs (iv_data iargs)) = Inr (iq_payload rq)"
    using r(1) by (auto simp: host_request_def bind_r_Inr_iff split: if_splits)
  then obtain hs' where "encode_request X J (request_new ''POST'' (''/invoke/'' @ dp_name dargs) hs' (iv_data iargs)) = Inr (iq_payload rq)"
    by (rule exE)
  note enc = this
  have line: "line = ''deployed '' @ dp_name dargs @ ''@latest hash='' @ content_hash_to_hex X (content_hash_from_bytes X wasm)
      @ '' wasm_bytes='' @ show_u64 (word_of_nat (length wasm)) @ '' status=ready''"
    unfolding d(4) hash ready by simp
  show ?thesis
    by ((rule exI)+, intro conjI, (rule d(1,2) line enc r(2-4) out [unfolded r(5,6)])+)
qed

text \<open>
  On the reference world: the owner of the demo account deploys a file as \<open>new\<close> and invokes it on the
  free host whose guests answer \<open>hi\<close>.
\<close>

definition demo_files :: "'w cli_files" where
  "demo_files = \<lparr> fl_read = (\<lambda>path. ret ''echo''), fl_read_text = (\<lambda>path. ret []), fl_toml_urls = (\<lambda>text. Inr []) \<rparr>"

definition demo_deploy_args :: deploy_args where
  "demo_deploy_args = \<lparr> dp_wasm = ''echo.wasm'', dp_name = ''new'', dp_url = ''http://api/'', dp_allow_urls = [''https://a.io''],
     dp_config = None, dp_api_key = Some (as_str demo_secret) \<rparr>"

definition demo_call_args :: invoke_args where
  "demo_call_args = \<lparr> iv_name = ''new'', iv_url = ''http://host'', iv_data = ''in'', iv_version = None, iv_fn_shasum = None,
     iv_pcr0 = None, iv_attestation_out = None, iv_api_key = None \<rparr>"

lemma demo_deploy_bases:
  "trim_end_matches CHR ''/'' (dp_url demo_deploy_args) = ''http://api''"
  "trim_end_matches CHR ''/'' (iv_url demo_call_args) = ''http://host''"
  by (simp_all add: demo_deploy_args_def demo_call_args_def trim_end_matches_def)

lemma normal_a_io: "normal_origins [''https://a.io''] = Inr [EgressOrigin ''https://a.io'']"
  using egress_parse_host [OF demo_host] by (simp add: normal_origins_def with_context_def normalize_egress_allow_def MAX_EGRESS_ALLOW_def)

abbreviation demo_sent :: "(string \<times> bytes) list" where
  "demo_sent \<equiv> deploy_headers ref_headers [EgressOrigin ''https://a.io''] (Some (as_str demo_secret))"

lemma demo_sent_bearer: "http_bearer_secret ref_headers demo_sent = Some demo_secret"
proof -
  have "trim (as_str demo_secret) = as_str demo_secret" by (rule trim_graphic) (rule demo_secret_graphic)
  moreover have "as_str demo_secret \<noteq> []" by (simp add: demo_secret_def SECRET_PREFIX_def)
  ultimately have "demo_sent = [(''content-type'', ''application/wasm''), (''x-nitrum-fn-allow-url'', ''https://a.io''),
      (''authorization'', ''Bearer '' @ as_str demo_secret)]"
    by (simp add: deploy_headers_def bearer_headers_def ref_headers_def)
  then have "header_str ref_headers demo_sent ''authorization'' = header_str ref_headers demo_headers ''authorization''"
    by (simp add: ref_header_str demo_headers_def)
  then show ?thesis using demo_bearer by (simp add: http_bearer_secret_def)
qed

lemma read_same_store: "ac_store A = ac_store A' \<Longrightarrow> accounts_read X A secret = accounts_read X A' secret"
  by (simp add: accounts_read_def presented_key_def cong: if_cong)

lemma demo_api_publishes:
  "\<exists>res w1. demo_api_router \<lparr> rq_method = ''PUT'', rq_path = [''functions'', ''new''], rq_headers = demo_sent, rq_body = ''echo'' \<rparr>
       demo_world = (json_reply ref_headers ref_json_text 200 (publish_body ref_ext res), w1)
     \<and> publish_execute ref_ext (ai_publish demo_api) demo_publish demo_world = (Inr res, w1)"
proof -
  let ?S = "\<lparr> ps_publish = ai_publish demo_api, ps_accounts = ai_accounts demo_api, ps_min_deploy_credits = ai_min_deploy_credits demo_api \<rparr>"
  have store: "ac_store (ai_accounts demo_api) = ac_store ref_accounts"
    by (simp add: demo_api_def api_app_def accounts_new_def Let_def ref_accounts_def)
  have min: "ai_min_deploy_credits demo_api = 1"
    by (simp add: demo_api_def api_app_def Let_def) (simp add: demo_api_config_def)
  obtain res w1 where run: "publish_execute ref_ext (ai_publish demo_api) demo_publish demo_world = (Inr res, w1)"
    using new_published by blast
  have gate: "deploy_gate ref_ext ref_headers ?S demo_sent demo_world = (Inr (), demo_world)"
    by (simp add: deploy_gate_def demo_sent_bearer bind_io_def read_same_store [OF store] min demo_read demo_account_view_def)
  have allow: "parse_allow_headers ref_headers demo_sent = Inr [EgressOrigin ''https://a.io'']"
    by (rule allowlist_sent_is_read [OF ref_headers.header_map_axioms normal_a_io])
  have "api_publish ref_ext ref_json_text ref_headers ?S ''new'' demo_sent ''echo'' demo_world
      = (Inr (json_reply ref_headers ref_json_text 200 (publish_body ref_ext res)), w1)"
    using run by (simp add: api_publish_def bind_io_def gate new_name allow demo_publish_def)
  then have "functions_route ref_ext ref_json_text ref_headers demo_answers demo_api ''new''
     \<lparr> rq_method = ''PUT'', rq_path = [''functions'', ''new''], rq_headers = demo_sent, rq_body = ''echo'' \<rparr> demo_world
       = (json_reply ref_headers ref_json_text 200 (publish_body ref_ext res), w1)"
    by (simp add: functions_route_def limited_def MAX_WASM_BYTES_def api_serve_def)
  with run show ?thesis by (intro exI conjI) (simp_all add: api_router_def)
qed

lemma ends_with_append: "ends_with (s @ t) t"
  by (simp add: ends_with_def)

lemma demo_deployed:
  "\<exists>res w1 line. publish_execute ref_ext (ai_publish demo_api) demo_publish demo_world = (Inr res, w1)
     \<and> cli_deploy ref_json_text demo_cli_text ref_headers (direct_client ''http://api'' demo_api_router) demo_files demo_deploy_args
         demo_world = (Inr line, w1) \<and> ends_with line (''status='' @ publish_status_str (pr_status res))"
proof -
  obtain res w1 where run: "demo_api_router \<lparr> rq_method = ''PUT'', rq_path = [''functions'', ''new''], rq_headers = demo_sent,
       rq_body = ''echo'' \<rparr> demo_world = (json_reply ref_headers ref_json_text 200 (publish_body ref_ext res), w1)"
    "publish_execute ref_ext (ai_publish demo_api) demo_publish demo_world = (Inr res, w1)"
    using demo_api_publishes by blast
  have p: "pr_function res = FunctionId ''new''" "pr_version res = latest"
    using run(2) by (auto simp: publish_execute_def bind_io_Inr_iff Let_def demo_publish_def split: if_splits)
  let ?j = "publish_body ref_ext res"
  have read: "jt_from_slice ref_json_text (an_body (json_reply ref_headers ref_json_text 200 ?j)) = Inr ?j"
    by (rule json_reply_read [OF ref_json_text.json_codec_axioms
        publish_body_ok [OF ref_externals.externals_axioms new_name p]])
  have put: "direct ''http://api'' demo_api_router ''PUT'' ''http://api/functions/new'' demo_sent ''echo'' demo_world
      = (Inr (200, an_headers (json_reply ref_headers ref_json_text 200 ?j),
           Inr (an_body (json_reply ref_headers ref_json_text 200 ?j))), w1)"
    using direct_path [of "''functions''" "''new''" "''http://api''" demo_api_router "''PUT''" demo_sent "''echo''" demo_world]
      plain_name [OF new_name] run(1) by simp
  have origins: "collect_allow_urls demo_files demo_deploy_args w = (Inr [EgressOrigin ''https://a.io''], w)" for w :: ref_world
    by (simp add: collect_allow_urls_def demo_deploy_args_def normal_a_io)
  have args: "dp_name demo_deploy_args = ''new''" "dp_api_key demo_deploy_args = Some (as_str demo_secret)"
    by (simp_all add: demo_deploy_args_def)
  have disk: "fl_read demo_files p w = (Inr ''echo'', w)" for p and w :: ref_world
    by (simp add: demo_files_def)
  let ?line = "''deployed '' @ ''new'' @ ''@'' @ ''latest'' @ '' hash='' @ content_hash_to_hex ref_ext (pr_content_hash res)
      @ '' wasm_bytes='' @ show_u64 (word_of_nat (pr_wasm_bytes res)) @ '' status='' @ publish_status_str (pr_status res)"
  have "cli_deploy ref_json_text demo_cli_text ref_headers (direct_client ''http://api'' demo_api_router) demo_files demo_deploy_args
      demo_world = (Inr ?line, w1)"
    by (simp add: cli_deploy_def bind_io_def map_err_io_def Let_def origins disk demo_deploy_bases args direct_client_def put
        is_success_def from_slice_as_def read publish_body_read p latest_def with_context_def)
  moreover have "ends_with ?line (''status='' @ publish_status_str (pr_status res))"
    using ends_with_append [of "''deployed '' @ ''new'' @ ''@'' @ ''latest'' @ '' hash='' @ content_hash_to_hex ref_ext (pr_content_hash res)
      @ '' wasm_bytes='' @ show_u64 (word_of_nat (pr_wasm_bytes res)) @ '' ''" "''status='' @ publish_status_str (pr_status res)"]
    by simp
  ultimately show ?thesis using run(2) by blast
qed

lemma demo_called:
  assumes "catalog_resolve ref_ext ref_catalog (FunctionId ''new'') latest w = (Inr v, w)"
    and "s3_get ref_ext ref_artifacts (fv_content_hash v) w = (Inr b, w)"
  shows "cli_invoke ref_ext ref_json_text demo_cli_text ref_headers demo_rng (direct_client ''http://host'' free_host_router)
     demo_verifier no_writer demo_call_args w = (Inr ''hi'', w)"
proof -
  let ?hs = "[(''content-type'', ''application/json'')]"
  have "parse_nonce ref_ext ref_headers ?hs = Inr None" "request_version ref_headers ?hs = Inr latest"
    by (simp_all add: parse_nonce_def request_version_def ref_header_str NONCE_HEADER_def)
  then obtain reply where reply: "host_invoke ref_ext ref_json_text ref_text ref_headers free_host ''new'' ?hs ''in'' w = (Inr reply, w)"
    "an_status reply = 200" "an_body reply = ''hi''"
    using new_invoked [OF assms] by blast
  have "free_host_router \<lparr> rq_method = ''POST'', rq_path = [''invoke'', ''new''], rq_headers = ?hs, rq_body = ''in'' \<rparr> w = (reply, w)"
    by (simp add: host_router_def post_route_def limited_def MAX_INVOKE_BODY_BYTES_def host_serve_def reply(1))
  then have post: "direct ''http://host'' free_host_router ''POST'' ''http://host/invoke/new'' ?hs ''in'' w
      = (Inr (200, an_headers reply, Inr ''hi''), w)"
    using direct_path [of "''invoke''" "''new''" "''http://host''" free_host_router "''POST''" ?hs "''in''" w]
      plain_name [OF new_name] reply(2,3) by simp
  have hs: "invoke_headers ref_ext ref_headers demo_call_args None = ?hs"
    by (simp add: invoke_headers_def bearer_headers_def demo_call_args_def ref_headers_def)
  have args: "iv_name demo_call_args = ''new''" "iv_data demo_call_args = ''in''" "iv_pcr0 demo_call_args = None"
    "iv_fn_shasum demo_call_args = None"
    by (simp_all add: demo_call_args_def)
  have "utf8_valid ''hi''" by (simp add: utf8_valid_literal char_class_defs byte_def)
  then show ?thesis
    by (simp add: cli_invoke_def bind_io_def map_err_io_def Let_def resolve_fn_shasum_def demo_deploy_bases args direct_client_def
        hs post with_context_def check_answer_def is_success_def check_reported_hash_def from_utf8_lossy_def)
qed

theorem user_runs_what_they_deployed_witness:
  "\<exists>line w1 wasm' payload w4 w5. cli_deploy ref_json_text demo_cli_text ref_headers (direct_client ''http://api'' demo_api_router)
       demo_files demo_deploy_args demo_world = (Inr line, w1) \<and> ends_with line ''status=ready''
     \<and> cli_invoke ref_ext ref_json_text demo_cli_text ref_headers demo_rng (direct_client ''http://host'' free_host_router)
         demo_verifier no_writer demo_call_args w1 = (Inr ''hi'', w1)
     \<and> fr_run hi_runner (content_hash_from_bytes ref_ext ''echo'') wasm' payload [EgressOrigin ''https://a.io''] w4
         = (Inr \<lparr> ro_output = print_json (wire_response ref_ext hi_response) \<rparr>, w5)"
proof -
  obtain res w1 b where pub: "publish_execute ref_ext (ai_publish demo_api) demo_publish demo_world = (Inr res, w1)"
    "pr_status res = Ready" "rd_faults w1 = []"
    "catalog_resolve ref_ext ref_catalog (FunctionId ''new'') latest w1 = (Inr \<lparr> fv_id = FunctionId ''new'', fv_label = latest,
       fv_content_hash = content_hash_from_bytes ref_ext ''echo'', fv_egress_allow = [EgressOrigin ''https://a.io''] \<rparr>, w1)"
    "s3_get ref_ext ref_artifacts (content_hash_from_bytes ref_ext ''echo'') w1 = (Inr b, w1)"
    using new_published by blast
  obtain line where dep: "cli_deploy ref_json_text demo_cli_text ref_headers (direct_client ''http://api'' demo_api_router) demo_files
      demo_deploy_args demo_world = (Inr line, w1)" "ends_with line ''status=ready''"
    using demo_deployed pub(1,2) by auto
  have call: "cli_invoke ref_ext ref_json_text demo_cli_text ref_headers demo_rng (direct_client ''http://host'' free_host_router)
      demo_verifier no_writer demo_call_args w1 = (Inr ''hi'', w1)"
    by (rule demo_called [OF pub(4)]) (simp add: pub(5))
  have fresh: "ddb_fresh (aws_ddb ref_aws (hk_endpoint (hc_catalog (demo_host_config ''prod'' 0)))) ref_view ref_schema
      (\<lambda>w. rd_faults w = [])"
    by (simp add: ref_ddb_fresh.ddb_fresh_axioms)
  have same: "hk_table (hc_catalog (demo_host_config ''prod'' 0)) = ak_table (apc_catalog demo_api_config)"
    by (simp add: demo_host_config_def)
  have args: "iv_name demo_call_args = dp_name demo_deploy_args" "iv_version demo_call_args = None"
    "function_id_new (dp_name demo_deploy_args) = Inr (FunctionId ''new'')"
    by (simp_all add: demo_call_args_def demo_deploy_args_def new_name)
  have drawn: "frames (\<lambda>w. rd_faults w = []) ref_view (demo_rng 32)"
    by (rule framesI) (auto simp: demo_rng_def)
  have api: "api_client ref_headers (direct_client ''http://api'' demo_api_router)
      (trim_end_matches CHR ''/'' (dp_url demo_deploy_args)) ref_ext ref_json_text demo_extractor demo_answers ref_rng demo_api"
    unfolding demo_deploy_bases by (rule demo_api_client.api_client_axioms)
  have host: "host_client ref_headers (direct_client ''http://host'' free_host_router)
      (trim_end_matches CHR ''/'' (iv_url demo_call_args)) ref_ext ref_json_text ref_text demo_answers free_host"
    unfolding demo_deploy_bases by (rule demo_host_client.host_client_axioms)
  obtain origins wa wasm wb hs payload wasm' w4 raw_out w5 response where r:
    "collect_allow_urls demo_files demo_deploy_args demo_world = (Inr origins, wa)"
    "fl_read demo_files (dp_wasm demo_deploy_args) wa = (Inr wasm, wb)"
    "fr_run hi_runner (content_hash_from_bytes ref_ext wasm) wasm' payload origins w4 = (Inr \<lparr> ro_output = raw_out \<rparr>, w5)"
    using user_runs_what_they_deployed [OF hi_deployment fresh same api [unfolded demo_api_def] host args(3,1)
        disjI1 [OF args(2)] dep [unfolded demo_api_def] pub(3) drawn refl call]
    by (elim exE conjE) (rule that)
  have "origins = [EgressOrigin ''https://a.io'']" "wasm = ''echo''"
    using r(1,2) by (simp_all add: collect_allow_urls_def demo_deploy_args_def normal_a_io demo_files_def)
  moreover have "raw_out = print_json (wire_response ref_ext hi_response)"
    using r(3) by (simp add: hi_runner_def)
  ultimately show ?thesis using dep call r(3) by blast
qed

end
