(* ===== verification/F64.thy ===== *)
theory F64
  imports Complex_Main Rust_Str
begin

text \<open>
  The type \<open>f64\<close> of the standard library as the price oracle uses it: conversion of integers,
  multiplication rounded to nearest with ties to even, \<open>round\<close> (ties away from zero) and the
  saturating cast to \<open>u64\<close>. A finite number is its mantissa and its exponent; two zeros are not told
  apart, which none of these operations does. The last part bounds the error of one rounding.
\<close>

datatype f64 = Finite int int | Infinite bool | NotANumber

text \<open>\<open>Finite m e\<close> is \<open>m * 2 ^ e\<close>; \<open>Infinite True\<close> is the negative infinity.\<close>

function bit_length :: "int \<Rightarrow> nat" where
  "bit_length n = (if n \<le> 0 then 0 else Suc (bit_length (n div 2)))"
  by pat_completeness auto
termination by (relation "measure nat") auto

declare bit_length.simps [simp del]

text \<open>\<open>n / 2 ^ s\<close> to the nearest integer, a tie to the even one.\<close>

definition half_even :: "int \<Rightarrow> nat \<Rightarrow> int" where
  "half_even n s =
     (let q = n div 2 ^ s; r = 2 * (n mod 2 ^ s) in
      if r < 2 ^ s then q else if r > 2 ^ s then q + 1 else if even q then q else q + 1)"

text \<open>The double nearest to \<open>m * 2 ^ e\<close>: 53 bits, no exponent below \<open>-1074\<close>, infinite from \<open>2 ^ 1024\<close> on.\<close>

definition round_f64 :: "int \<Rightarrow> int \<Rightarrow> f64" where
  "round_f64 m e =
     (let n = \<bar>m\<bar>; s = nat (max (int (bit_length n) - 53) (- 1074 - e)); q = half_even n s in
      if m = 0 then Finite 0 0 else if int (bit_length q) + e + int s > 1024 then Infinite (m < 0)
      else Finite (sgn m * q) (e + int s))"

definition f64_of_int :: "int \<Rightarrow> f64" where "f64_of_int i = round_f64 i 0"

fun f64_mul :: "f64 \<Rightarrow> f64 \<Rightarrow> f64" where
  "f64_mul (Finite m e) (Finite n f) = round_f64 (m * n) (e + f)"
| "f64_mul (Finite m e) (Infinite neg) = (if m = 0 then NotANumber else Infinite ((m < 0) \<noteq> neg))"
| "f64_mul (Infinite neg) (Finite m e) = (if m = 0 then NotANumber else Infinite ((m < 0) \<noteq> neg))"
| "f64_mul (Infinite a) (Infinite b) = Infinite (a \<noteq> b)"
| "f64_mul _ _ = NotANumber"

fun f64_round :: "f64 \<Rightarrow> f64" where
  "f64_round (Finite m e) =
     (if e \<ge> 0 then Finite m e
      else Finite (sgn m * ((2 * \<bar>m\<bar> + 2 ^ nat (- e)) div (2 * 2 ^ nat (- e)))) 0)"
| "f64_round x = x"

fun f64_to_u64 :: "f64 \<Rightarrow> u64" where
  "f64_to_u64 (Finite m e) =
     (if m \<le> 0 then 0
      else let n = (if e \<ge> 0 then m * 2 ^ nat e else m div 2 ^ nat (- e)) in
        if n < 2 ^ 64 then word_of_int n else - 1)"
| "f64_to_u64 (Infinite neg) = (if neg then 0 else - 1)"
| "f64_to_u64 NotANumber = 0"

section \<open>The error of a rounding\<close>

fun f64_real :: "f64 \<Rightarrow> real" where
  "f64_real (Finite m e) = of_int m * 2 powi e"
| "f64_real _ = 0"

fun is_finite :: "f64 \<Rightarrow> bool" where
  "is_finite (Finite m e) = True"
| "is_finite _ = False"

lemma bit_length_bounds: "0 < n \<Longrightarrow> 2 ^ (bit_length n - 1) \<le> n \<and> n < 2 ^ bit_length n"
proof (induction n rule: bit_length.induct)
  case (1 n)
  show ?case
  proof (cases "n = 1")
    case True
    then show ?thesis by (simp add: bit_length.simps)
  next
    case False
    with 1 have h: "2 ^ (bit_length (n div 2) - 1) \<le> n div 2" "n div 2 < 2 ^ bit_length (n div 2)" by auto
    have b: "bit_length n = Suc (bit_length (n div 2))" using 1(2) by (simp add: bit_length.simps [of n])
    have "bit_length (n div 2) \<noteq> 0" using h False 1(2) by (cases "bit_length (n div 2)") auto
    then have "2 ^ bit_length (n div 2) = 2 * (2 ^ (bit_length (n div 2) - 1) :: int)" by (simp flip: power_Suc)
    then obtain p :: int where p: "2 ^ (bit_length (n div 2) - 1) = p" "2 ^ bit_length (n div 2) = 2 * p" by blast
    have "2 * p \<le> n" "n < 2 * (2 * p)" using h unfolding p by presburger+
    then show ?thesis unfolding b by (simp add: p)
  qed
qed

lemma bit_length_le: "n < 2 ^ k \<Longrightarrow> bit_length n \<le> k"
proof (cases "n \<le> 0")
  case False
  assume "n < 2 ^ k"
  moreover have "2 ^ (bit_length n - 1) \<le> n" using bit_length_bounds [of n] False by simp
  ultimately have "(2 :: int) ^ (bit_length n - 1) < 2 ^ k" by (rule le_less_trans [rotated])
  then have "bit_length n - 1 < k" by (rule power_less_imp_less_exp [rotated]) simp
  then show ?thesis by simp
qed (simp add: bit_length.simps)

text \<open>Half a unit of the last place.\<close>

lemma half_even_near: "\<bar>real_of_int (half_even n s) * 2 ^ s - real_of_int n\<bar> \<le> 2 ^ s / 2"
proof -
  define p where "p = (2 :: int) ^ s"
  have p: "(2 :: real) ^ s = real_of_int p" "0 < p" by (simp_all add: p_def)
  have "2 * \<bar>half_even n s * p - n\<bar> \<le> p"
  proof (cases "half_even n s = n div p")
    case True
    then have "2 * (n mod p) \<le> p" by (auto simp: half_even_def Let_def p_def split: if_splits)
    moreover have "n div p * p - n = - (n mod p)" using div_mult_mod_eq [of n p] by linarith
    ultimately show ?thesis using p(2) by (simp add: True)
  next
    case False
    then have h: "half_even n s = n div p + 1" and m: "p \<le> 2 * (n mod p)"
      by (auto simp: half_even_def Let_def p_def split: if_splits)
    have "(n div p + 1) * p - n = p - n mod p" using div_mult_mod_eq [of n p] unfolding distrib_right by linarith
    moreover have "n mod p < p" using p(2) by simp
    ultimately show ?thesis using m by (simp add: h)
  qed
  then have "real_of_int (2 * \<bar>half_even n s * p - n\<bar>) \<le> real_of_int p" by (simp only: of_int_le_iff)
  then show ?thesis unfolding p by simp
qed

lemma powi_less_iff: "(2 :: real) powi a < 2 powi b \<longleftrightarrow> a < b"
  using power_int_strict_increasing [of a b "2 :: real"] power_int_increasing [of b a "2 :: real"] by fastforce

lemma powi_le_iff: "(2 :: real) powi a \<le> 2 powi b \<longleftrightarrow> a \<le> b"
  using powi_less_iff [of b a] by (metis linorder_not_le)

lemma round_f64_near:
  assumes "0 < m" and "1 / 4 \<le> real_of_int m * 2 powi e" and "real_of_int m * 2 powi e \<le> 2 ^ 60"
  shows "\<exists>m' e'. round_f64 m e = Finite m' e' \<and> 0 \<le> m'
    \<and> \<bar>real_of_int m' * 2 powi e' - real_of_int m * 2 powi e\<bar> \<le> real_of_int m * 2 powi e / 2 ^ 53"
proof -
  define b where "b = bit_length m"
  have bn: "2 ^ (b - 1) \<le> real_of_int m" "real_of_int m < 2 ^ b"
    using bit_length_bounds [OF assms(1)] unfolding b_def
    by (metis of_int_le_iff of_int_less_iff of_int_numeral of_int_power)+
  have b1: "1 \<le> b" using assms(1) by (simp add: b_def bit_length.simps [of m])
  have "(2 :: real) powi (- 2) < 2 powi (int b + e)"
  proof -
    have "(2 :: real) powi (- 2) \<le> real_of_int m * 2 powi e" using assms(2) by (simp add: power_int_minus)
    also have "\<dots> < 2 ^ b * 2 powi e" using bn(2) by simp
    finally show ?thesis by (simp add: power_int_add)
  qed
  then have lo: "- 2 < int b + e" by (simp only: powi_less_iff)
  have "(2 :: real) powi (int (b - 1) + e) \<le> 2 powi 60"
  proof -
    have "(2 :: real) powi (int (b - 1) + e) = 2 ^ (b - 1) * 2 powi e" by (simp add: power_int_add)
    also have "\<dots> \<le> real_of_int m * 2 powi e" using bn(1) by simp
    finally show ?thesis using assms(3) by simp
  qed
  then have "int (b - 1) + e \<le> 60" by (simp only: powi_le_iff)
  with b1 have hi: "int b + e \<le> 61" by simp
  define s where "s = b - 53"
  have s: "nat (max (int b - 53) (- 1074 - e)) = s" using lo by (simp add: s_def max_def nat_diff_distrib)
  define q where "q = half_even m s"
  have "q \<le> m div 2 ^ s + 1" by (simp add: q_def half_even_def Let_def)
  moreover have "m div 2 ^ s < 2 ^ 53"
  proof -
    have "m < 2 ^ b" using bn(2) by (metis of_int_less_iff of_int_numeral of_int_power)
    also have "(2 :: int) ^ b \<le> 2 ^ (53 + s)" by (rule power_increasing) (simp_all add: s_def)
    finally have "m < 2 ^ 53 * 2 ^ s" by (simp only: power_add)
    moreover have "0 \<le> m mod 2 ^ s" by simp
    ultimately have "m div 2 ^ s * 2 ^ s < 2 ^ 53 * 2 ^ s" using div_mult_mod_eq [of m "2 ^ s"] by linarith
    then show ?thesis by (simp only: mult_less_cancel_right) simp
  qed
  ultimately have "bit_length q \<le> 54" by (intro bit_length_le) simp
  then have fits: "\<not> int (bit_length q) + e + int s > 1024" using hi lo by (simp add: s_def)
  have err: "\<bar>real_of_int q * 2 ^ s - real_of_int m\<bar> \<le> real_of_int m / 2 ^ 53"
  proof (cases "b \<le> 53")
    case True
    then have "q = m" by (simp add: q_def s_def half_even_def)
    with True assms(1) show ?thesis by (simp add: s_def)
  next
    case False
    have "\<bar>real_of_int q * 2 ^ s - real_of_int m\<bar> \<le> 2 ^ s / 2" unfolding q_def by (rule half_even_near)
    also have "(2 :: real) ^ s / 2 = 2 ^ (b - 1) / 2 ^ 53"
    proof -
      have "s + 53 = b - 1 + 1" using False by (simp add: s_def)
      then have "(2 :: real) ^ s * 2 ^ 53 = 2 ^ (b - 1) * 2" by (metis power_add power_one_right)
      then show ?thesis by (simp add: field_simps)
    qed
    also have "\<dots> \<le> real_of_int m / 2 ^ 53" using bn(1) by (simp add: divide_right_mono)
    finally show ?thesis .
  qed
  have "real_of_int q * 2 powi (e + int s) - real_of_int m * 2 powi e = (real_of_int q * 2 ^ s - real_of_int m) * 2 powi e"
    by (simp add: power_int_add algebra_simps)
  then have "\<bar>real_of_int q * 2 powi (e + int s) - real_of_int m * 2 powi e\<bar> = \<bar>real_of_int q * 2 ^ s - real_of_int m\<bar> * 2 powi e"
    by (simp add: abs_mult)
  also have "\<dots> \<le> real_of_int m / 2 ^ 53 * 2 powi e" using err by (intro mult_right_mono) simp_all
  finally have "\<bar>real_of_int q * 2 powi (e + int s) - real_of_int m * 2 powi e\<bar> \<le> real_of_int m * 2 powi e / 2 ^ 53" by simp
  moreover have "round_f64 m e = Finite q (e + int s)"
    using fits assms(1) less_imp_neq [OF assms(1)] unfolding round_f64_def Let_def abs_of_pos [OF assms(1)] b_def [symmetric] s q_def [symmetric] by simp
  moreover have "0 \<le> q" using assms(1) by (simp add: q_def half_even_def Let_def pos_imp_zdiv_nonneg_iff)
  ultimately show ?thesis by blast
qed

lemma nearest_div:
  assumes "\<bar>real_of_int n / real_of_int p - real d\<bar> < 1 / 2" and "0 < p"
  shows "(2 * n + p) div (2 * p) = int d"
proof -
  have p: "0 < real_of_int p" using assms(2) by simp
  have a: "real_of_int n / real_of_int p < real d + 1 / 2" "real d - 1 / 2 < real_of_int n / real_of_int p"
    using assms(1) by linarith+
  have "real_of_int n < (real d + 1 / 2) * real_of_int p" using a(1) p by (simp only: divide_less_eq if_True)
  then have "real_of_int (2 * n + p) < real_of_int (2 * p * (int d + 1))" by (simp add: algebra_simps)
  moreover have "(real d - 1 / 2) * real_of_int p < real_of_int n" using a(2) p by (simp only: less_divide_eq if_True)
  then have "real_of_int (2 * p * int d) < real_of_int (2 * n + p)" by (simp add: algebra_simps)
  ultimately have "2 * n + p < 2 * p * (int d + 1)" "2 * p * int d \<le> 2 * n + p"
    by (simp_all only: of_int_less_iff less_imp_le)
  then show ?thesis using assms(2) by (intro int_div_pos_eq [where r = "2 * n + p - 2 * p * int d"]) (simp_all add: algebra_simps)
qed

text \<open>Rounding and casting a value within less than a half of an integer gives the integer.\<close>

lemma f64_round_cast:
  assumes "0 \<le> m" and "\<bar>real_of_int m * 2 powi e - real d\<bar> < 1 / 2" and "0 < d" and "d < 2 ^ 64"
  shows "f64_to_u64 (f64_round (Finite m e)) = word_of_nat d"
proof -
  have "0 < m"
  proof (rule ccontr)
    assume "\<not> 0 < m"
    with assms(1,2) have "real d < 1 / 2" by simp
    with assms(3) show False by simp
  qed
  show ?thesis
  proof (cases "0 \<le> e")
    case True
    then have "real_of_int m * 2 powi e = real_of_int (m * 2 ^ nat e)" by (simp add: power_int_def)
    with assms(2) have "\<bar>real_of_int (m * 2 ^ nat e) - real_of_int (int d)\<bar> < 1 / 2" by simp
    then have "m * 2 ^ nat e = int d" by linarith
    with True \<open>0 < m\<close> assms(4) show ?thesis by (simp add: Let_def)
  next
    case False
    define p where "p = (2 :: int) ^ nat (- e)"
    have "(2 :: real) powi e = inverse (real_of_int p)"
      using False by (simp only: power_int_def power_inverse if_False p_def of_int_power of_int_numeral)
    with assms(2) have "\<bar>real_of_int m / real_of_int p - real d\<bar> < 1 / 2" by (simp only: divide_inverse)
    then have "(2 * m + p) div (2 * p) = int d" by (rule nearest_div) (simp add: p_def)
    with False \<open>0 < m\<close> assms(3,4) show ?thesis by (simp add: Let_def p_def)
  qed
qed

text \<open>
  A double within one unit of the last place of a positive price of \<open>d\<close> units of \<open>10 ^ -8\<close>,
  scaled by \<open>10 ^ 8\<close>, rounded and cast, is \<open>d\<close> again, for \<open>d\<close> below \<open>2 ^ 50\<close>.
\<close>

lemma scale_exact:
  assumes "is_finite v" and "0 < d" and "d < 2 ^ 50"
    and "\<bar>f64_real v - real d / 10 ^ 8\<bar> \<le> real d / 10 ^ 8 / 2 ^ 52"
  shows "f64_to_u64 (f64_round (f64_mul v (Finite (10 ^ 8) 0))) = word_of_nat d"
proof -
  obtain m e where v: "v = Finite m e" using assms(1) by (cases v) auto
  define x where "x = real_of_int (m * 10 ^ 8) * 2 powi e"
  have x10: "x = f64_real v * 10 ^ 8" by (simp add: x_def v)
  have d: "1 \<le> real d" "real d < 2 ^ 50"
    using assms(2,3) of_nat_less_iff [of d "2 ^ 50", where 'a = real] by (simp_all del: of_nat_less_iff)
  have "\<bar>x - real d\<bar> = \<bar>(f64_real v - real d / 10 ^ 8) * 10 ^ 8\<bar>" by (simp add: x10 algebra_simps)
  also have "\<dots> = \<bar>f64_real v - real d / 10 ^ 8\<bar> * 10 ^ 8" by (simp only: abs_mult) simp
  finally have "\<bar>x - real d\<bar> = \<bar>f64_real v - real d / 10 ^ 8\<bar> * 10 ^ 8" .
  with assms(4) have xd: "\<bar>x - real d\<bar> \<le> real d / 2 ^ 52" by (simp add: field_simps)
  have "real d / 2 ^ 52 \<le> real d / 4" by simp
  then have x: "1 / 4 \<le> x" "x \<le> 2 ^ 51" using xd d power_Suc [of "2 :: real" 50]
    by (simp_all only: abs_le_iff Suc_numeral add_num_simps) linarith+
  have "0 < x" using x(1) by linarith
  then have "0 < m" using order.asym [OF zero_less_power_int [of "2 :: real" e]]
    by (auto simp: x_def zero_less_mult_iff)
  then have m: "0 < m * 10 ^ 8" by simp
  obtain m' e' where r: "round_f64 (m * 10 ^ 8) e = Finite m' e'" "0 \<le> m'"
    "\<bar>real_of_int m' * 2 powi e' - x\<bar> \<le> x / 2 ^ 53"
    using round_f64_near [OF m, of e] x unfolding x_def [symmetric] by auto
  have "x \<le> 2 * real d" using xd \<open>real d / 2 ^ 52 \<le> real d / 4\<close> d(1) by (simp only: abs_le_iff) linarith
  then have "x / 2 ^ 53 \<le> 2 * real d / 2 ^ 53" by (rule divide_right_mono) simp
  then have "x / 2 ^ 53 \<le> real d / 2 ^ 52" by simp
  moreover have "real d / 2 ^ 52 < 1 / 4" using d(2) by simp
  ultimately have "\<bar>real_of_int m' * 2 powi e' - real d\<bar> < 1 / 2"
    using r(3) xd by (simp only: abs_le_iff abs_less_iff) linarith
  moreover have "d < 2 ^ 64" using assms(3) by simp
  ultimately have "f64_to_u64 (f64_round (Finite m' e')) = word_of_nat d"
    using r(2) assms(2) by (intro f64_round_cast)
  with r(1) show ?thesis by (simp add: v del: f64_round.simps f64_to_u64.simps)
qed

end
