(* ===== verification/Oracle.thy ===== *)
theory Oracle
  imports Guest_Runtime F64
begin

text \<open>
  The guests of the repository: the price oracle \<open>examples/oracle/enclave/src/lib.rs\<close>, which reads
  prices in dollars from a web service and answers with a canonical JSON text of fixed-point prices,
  and the sample \<open>examples/hello-world\<close>, which is also the template of new projects. The fetch is a
  parameter, as is the value serde\_json gives to the text of a number with a fraction or an exponent.
\<close>

section \<open>Reading\<close>

text \<open>
  \<open>InvokeBody\<close>: a missing \<open>ids\<close> is the empty list, in an object and in an array.
\<close>

fun de_invoke_body :: "json \<Rightarrow> string list option" where
  "de_invoke_body (JArray []) = Some []"
| "de_invoke_body j =
     (case struct_fields [''ids''] j of
        Some [None] \<Rightarrow> Some []
      | Some [v] \<Rightarrow> de_list de_string v
      | _ \<Rightarrow> None)"

fun de_f64 :: "(string \<Rightarrow> f64) \<Rightarrow> json option \<Rightarrow> f64 option" where
  "de_f64 float (Some (JNumber (JPos n))) = Some (f64_of_int (uint n))"
| "de_f64 float (Some (JNumber (JNeg i))) = Some (f64_of_int i)"
| "de_f64 float (Some (JNumber (JFloat s))) = Some (float s)"
| "de_f64 float _ = None"

record coin_gecko_price = cg_usd :: f64

definition de_coin_gecko_price :: "(string \<Rightarrow> f64) \<Rightarrow> json \<Rightarrow> coin_gecko_price option" where
  "de_coin_gecko_price float j =
     (case struct_fields [''usd''] j of
        Some [v] \<Rightarrow> map_option (\<lambda>usd. \<lparr> cg_usd = usd \<rparr>) (de_f64 float v)
      | _ \<Rightarrow> None)"

text \<open>The \<open>HashMap\<close>: the last entry of a key counts, and every entry has to be a price.\<close>

fun de_price_map :: "(string \<Rightarrow> f64) \<Rightarrow> json \<Rightarrow> (string \<rightharpoonup> coin_gecko_price) option" where
  "de_price_map float (JObject fs) =
     map_option (\<lambda>kvs. map_of (rev kvs))
       (those (map (\<lambda>(k, v). map_option (Pair k) (de_coin_gecko_price float v)) fs))"
| "de_price_map float _ = None"

section \<open>Writing\<close>

definition in_quotes :: "string \<Rightarrow> string" where
  "in_quotes s = [CHR 0x22] @ s @ [CHR 0x22]"

text \<open>\<open>encode_canonical\<close>: no white space, and a comma before every element but the first.\<close>

definition encode_canonical :: "string list \<Rightarrow> u64 list \<Rightarrow> string" where
  "encode_canonical ids prices =
     ''{'' @ in_quotes ''ids'' @ '':[''
     @ concat (map (\<lambda>(i, name). (if i > 0 then '','' else []) @ in_quotes name) (enumerate 0 ids))
     @ ''],'' @ in_quotes ''prices'' @ '':[''
     @ concat (map (\<lambda>(i, price). (if i > 0 then '','' else []) @ show_u64 price) (enumerate 0 prices))
     @ '']}''"

definition usd_to_fixed :: "f64 \<Rightarrow> u64" where
  "usd_to_fixed usd = f64_to_u64 (f64_round (f64_mul usd (f64_of_int 100000000)))"

definition is_safe_id :: "string \<Rightarrow> bool" where
  "is_safe_id name \<longleftrightarrow> name \<noteq> []
     \<and> list_all (\<lambda>b. is_ascii_lowercase b \<or> is_ascii_digit b \<or> b = CHR ''-'' \<or> b = CHR ''_'') name"

definition err_json :: "string \<Rightarrow> fn_response" where
  "err_json msg =
     with_body (''{'' @ in_quotes ''error'' @ '':'' @ in_quotes msg @ ''}'')
       (with_header ''content-type'' ''application/json'' (with_status 400 response_builder))"

definition map_id :: "string \<Rightarrow> string" where
  "map_id name = (if name = ''btc'' then ''bitcoin'' else if name = ''eth'' then ''ethereum'' else name)"

section \<open>The handler\<close>

text \<open>The identifiers of the web service, \<open>None\<close> when an id is not safe.\<close>

fun service_ids :: "string list \<Rightarrow> string list option" where
  "service_ids [] = Some []"
| "service_ids (name # ids) = (if is_safe_id name then map_option (Cons (map_id name)) (service_ids ids) else None)"

text \<open>The prices in the order of the request, \<open>Inl\<close> the first id without one.\<close>

fun fixed_prices :: "(string \<rightharpoonup> coin_gecko_price) \<Rightarrow> (string \<times> string) list \<Rightarrow> string + u64 list" where
  "fixed_prices raw [] = Inr []"
| "fixed_prices raw ((alias, cg_id) # rest) =
     (case raw cg_id of
        None \<Rightarrow> Inl alias
      | Some entry \<Rightarrow> bind_r (fixed_prices raw rest) (\<lambda>ps. Inr (usd_to_fixed (cg_usd entry) # ps)))"

fun join :: "string \<Rightarrow> string list \<Rightarrow> string" where
  "join sep [] = []"
| "join sep [s] = s"
| "join sep (s # t # ss) = s @ sep @ join sep (t # ss)"

definition price_url :: "string list \<Rightarrow> string" where
  "price_url cg_ids =
     ''https://api.coingecko.com/api/v3/simple/price?ids='' @ join '','' cg_ids @ ''&vs_currencies=usd''"

definition price_reply :: "(string \<rightharpoonup> coin_gecko_price) \<Rightarrow> string list \<Rightarrow> string list \<Rightarrow> fn_response" where
  "price_reply raw ids cg_ids =
     (case fixed_prices raw (zip ids cg_ids) of
        Inl alias \<Rightarrow> err_json (''missing price for '' @ alias)
      | Inr prices \<Rightarrow>
          with_body (encode_canonical ids prices) (with_header ''content-type'' ''application/json'' response_builder))"

text \<open>The handler after the check for an empty list, and the handler.\<close>

definition priced_ids ::
  "json_text \<Rightarrow> (string \<Rightarrow> f64) \<Rightarrow> (string \<Rightarrow> ('w, rt_fault, fn_response) io) \<Rightarrow> string list \<Rightarrow> ('w, rt_fault, reply) io" where
  "priced_ids J float fetch ids =
     (case service_ids ids of
        None \<Rightarrow> ret (RResponse (err_json ''id must be lowercase alphanumeric / hyphen / underscore''))
      | Some cg_ids \<Rightarrow>
          bind_io (await_request fetch (builder_send (client_get (price_url cg_ids)))) (\<lambda>upstream.
          if rs_status upstream \<noteq> 200 then
            ret (RResponse (err_json (''upstream status '' @ show_nat (unat (rs_status upstream)))))
          else
            bind_io (lift_r (map_err Fails (rs_json J ''HashMap'' (de_price_map float) upstream))) (\<lambda>raw.
            ret (RResponse (price_reply raw ids cg_ids)))))"

definition oracle_handler ::
  "json_text \<Rightarrow> (string \<Rightarrow> f64) \<Rightarrow> (string \<Rightarrow> ('w, rt_fault, fn_response) io) \<Rightarrow> ('w, reply) service" where
  "oracle_handler J float fetch req =
     bind_io (lift_r (map_err Fails (rq_json J ''InvokeBody'' de_invoke_body req))) (\<lambda>ids.
     if ids = [] then ret (RResponse (err_json ''ids must not be empty'')) else priced_ids J float fetch ids)"

text \<open>The handler of \<open>hello-world\<close> and of the project template.\<close>

definition hello_handler :: "('w, reply) service" where
  "hello_handler req = ret (RValue (JObject [(''message'', JString ''Hello, world!'')]))"

section \<open>What it answers\<close>

lemma service_ids_safe: "service_ids ids = Some cg \<Longrightarrow> list_all is_safe_id ids \<and> cg = map map_id ids"
  by (induction ids arbitrary: cg) (auto split: if_splits)

lemma fixed_prices_of:
  "fixed_prices raw (zip ids (map map_id ids)) = Inr prices \<Longrightarrow>
   length prices = length ids
   \<and> (\<forall>i < length ids. \<exists>entry. raw (map_id (ids ! i)) = Some entry \<and> prices ! i = usd_to_fixed (cg_usd entry))"
proof (induction ids arbitrary: prices)
  case (Cons name ids)
  then obtain entry ps where "raw (map_id name) = Some entry" "prices = usd_to_fixed (cg_usd entry) # ps"
    "fixed_prices raw (zip ids (map map_id ids)) = Inr ps"
    by (auto simp: bind_r_Inr_iff split: option.splits)
  with Cons.IH [of ps] show ?case by (auto simp: less_Suc_eq_0_disj)
qed simp

text \<open>
  An answer with status 200 is the canonical text of what the web service said, in the order asked
  for; every other answer has status 400.
\<close>

lemma oracle_answer:
  assumes "oracle_handler J float fetch req w = (Inr (RResponse res), w')"
  obtains (prices) ids raw prices upstream where
      "rq_json J ''InvokeBody'' de_invoke_body req = Inr ids" "ids \<noteq> []" "list_all is_safe_id ids"
      "fetch (price_url (map map_id ids)) w = (Inr upstream, w')" "rs_status upstream = 200"
      "rs_json J ''HashMap'' (de_price_map float) upstream = Inr raw"
      "length prices = length ids"
      "\<forall>i < length ids. \<exists>entry. raw (map_id (ids ! i)) = Some entry \<and> prices ! i = usd_to_fixed (cg_usd entry)"
      "res = from_parts 200 [(''content-type'', ''application/json'')] (encode_canonical ids prices)"
  | (refused) msg where "res = err_json msg"
proof (cases "\<exists>msg. res = err_json msg")
  case True
  then show ?thesis using refused by blast
next
  case False
  obtain ids w0 where ids: "rq_json J ''InvokeBody'' de_invoke_body req = Inr ids" "w0 = w"
    and rest: "(if ids = [] then ret (RResponse (err_json ''ids must not be empty'')) else priced_ids J float fetch ids) w0
       = (Inr (RResponse res), w')"
    using assms unfolding oracle_handler_def by (auto simp: bind_io_Inr_iff map_err_Inr_iff)
  then obtain cg where ids: "rq_json J ''InvokeBody'' de_invoke_body req = Inr ids" "ids \<noteq> []" "service_ids ids = Some cg"
    and rest: "priced_ids J float fetch ids w = (Inr (RResponse res), w')"
    using False by (auto simp: priced_ids_def split: if_splits option.splits)
  note cg = service_ids_safe [OF ids(3)]
  obtain upstream raw where up: "fetch (price_url cg) w = (Inr upstream, w')" "rs_status upstream = 200"
    "rs_json J ''HashMap'' (de_price_map float) upstream = Inr raw"
    and out: "res = price_reply raw ids cg"
    using rest False ids(3)
    by (auto simp: priced_ids_def await_request_send bind_io_Inr_iff map_err_Inr_iff split: if_splits)
  obtain prices where "fixed_prices raw (zip ids cg) = Inr prices"
    "res = with_body (encode_canonical ids prices) (with_header ''content-type'' ''application/json'' response_builder)"
    using out False by (auto simp: price_reply_def split: sum.splits)
  note up = up this
  from prices [OF ids(1,2) _ up(1,2) [unfolded cg [THEN conjunct2]] up(3)] fixed_prices_of [of raw ids prices] up(4,5) cg
  show ?thesis by (auto simp: with_body_def with_header_def response_builder_def from_parts_def)
qed

lemma err_json_400: "rs_status (err_json msg) = 400"
  by (simp add: err_json_def with_body_def with_header_def with_status_def response_builder_def)

text \<open>Prices up to some eleven million dollars come through exactly.\<close>

lemma usd_to_fixed_near:
  assumes "is_finite v" and "0 < d" and "d < 2 ^ 50"
    and "\<bar>f64_real v - real d / 10 ^ 8\<bar> \<le> real d / 10 ^ 8 / 2 ^ 52"
  shows "usd_to_fixed v = word_of_nat d"
proof -
  have "f64_of_int 100000000 = Finite (10 ^ 8) 0" by code_simp
  then show ?thesis using scale_exact [OF assms] by (simp add: usd_to_fixed_def)
qed

end
