(* ===== verification/Price_Json.thy ===== *)
theory Price_Json
  imports Oracle
begin

text \<open>
  \<open>examples/oracle/contracts/src/CanonicalPriceJson.sol\<close>: the parser and the printer of the
  contract. A transaction that reverts is an error value; checked arithmetic and indices out of
  range revert with a panic. Lengths and indices of byte arrays are natural numbers, as no array in
  memory reaches \<open>2 ^ 256\<close> bytes. What the parser accepts is exactly what the printer prints, and the
  printer prints what the guest does.
\<close>

type_synonym uint256 = "256 word"

datatype sol_error =
    InvalidJson | LengthMismatch | SolPanic | RevertText string
  | NotOwner | EnclaveNotSet | MissingPcr0 | InvalidPcr0 | DebugPcr0 | AttestationTooOld | StaleTimestamp
  | MissingUserData | InvalidUserDataLength | ContentHashMismatch | BodyHashMismatch | CanonicalBodyMismatch | UnknownId

section \<open>Parsing\<close>

definition expect_at :: "bytes \<Rightarrow> nat \<Rightarrow> bytes \<Rightarrow> sol_error + nat" where
  "expect_at body i needle =
     (if i + length needle > length body then Inl InvalidJson
      else if list_all (\<lambda>k. body ! (i + k) = needle ! k) [0..<length needle] then Inr (i + length needle)
      else Inl InvalidJson)"

definition is_digit_at :: "bytes \<Rightarrow> nat \<Rightarrow> bool" where
  "is_digit_at body i \<longleftrightarrow> i < length body \<and> byte (body ! i) \<ge> byte (CHR ''0'') \<and> byte (body ! i) \<le> byte (CHR ''9'')"

definition id_char :: "char \<Rightarrow> bool" where
  "id_char c \<longleftrightarrow> (byte c \<ge> byte (CHR ''a'') \<and> byte c \<le> byte (CHR ''z''))
     \<or> (byte c \<ge> byte (CHR ''0'') \<and> byte c \<le> byte (CHR ''9'')) \<or> c = CHR ''-'' \<or> c = CHR ''_''"

function scan_id :: "bytes \<Rightarrow> nat \<Rightarrow> sol_error + nat" where
  "scan_id body i =
     (if i < length body \<and> body ! i \<noteq> CHR 0x22 then
        (if id_char (body ! i) then scan_id body (i + 1) else Inl InvalidJson)
      else Inr i)"
  by pat_completeness auto
termination by (relation "measure (\<lambda>(body, i). length body - i)") auto

definition parse_quoted_string :: "bytes \<Rightarrow> nat \<Rightarrow> sol_error + string \<times> nat" where
  "parse_quoted_string body i =
     (if i \<ge> length body \<or> body ! i \<noteq> CHR 0x22 then Inl InvalidJson
      else
        (let start = i + 1 in
         bind_r (scan_id body start) (\<lambda>i.
         if i \<ge> length body \<or> start = i then Inl InvalidJson
         else Inr (map (\<lambda>k. body ! (start + k)) [0..<i - start], i + 1))))"

function scan_uint :: "bytes \<Rightarrow> uint256 \<Rightarrow> nat \<Rightarrow> sol_error + uint256 \<times> nat" where
  "scan_uint body v i =
     (if is_digit_at body i then
        (if unat v * 10 + byte (body ! i) \<ge> 2 ^ 256 then Inl SolPanic
         else scan_uint body (v * 10 + word_of_nat (byte (body ! i)) - 48) (i + 1))
      else Inr (v, i))"
  by pat_completeness auto
termination by (relation "measure (\<lambda>(body, v, i). length body - i)") (auto simp: is_digit_at_def)

definition parse_uint256 :: "bytes \<Rightarrow> nat \<Rightarrow> sol_error + uint256 \<times> nat" where
  "parse_uint256 body i =
     (if \<not> is_digit_at body i then Inl InvalidJson
      else if body ! i = CHR ''0'' then (if is_digit_at body (i + 1) then Inl InvalidJson else Inr (0, i + 1))
      else scan_uint body 0 i)"

text \<open>One more than the commas before the next bracket, and where that is.\<close>

function count_elements :: "bytes \<Rightarrow> nat \<Rightarrow> nat \<Rightarrow> nat \<times> nat" where
  "count_elements body count j =
     (if j < length body \<and> body ! j \<noteq> CHR '']'' then
        count_elements body (if body ! j = CHR '','' then count + 1 else count) (j + 1)
      else (count, j))"
  by pat_completeness auto
termination by (relation "measure (\<lambda>(body, count, j). length body - j)") auto

declare scan_id.simps [simp del] scan_uint.simps [simp del] count_elements.simps [simp del]

text \<open>The loop over the elements; \<open>n\<close> of them are left.\<close>

fun parse_elements :: "(bytes \<Rightarrow> nat \<Rightarrow> sol_error + 'a \<times> nat) \<Rightarrow> bytes \<Rightarrow> nat \<Rightarrow> nat \<Rightarrow> sol_error + 'a list \<times> nat" where
  "parse_elements element body 0 i = Inr ([], i)"
| "parse_elements element body (Suc n) i =
     bind_r (element body i) (\<lambda>(x, i).
     bind_r (if n > 0 then expect_at body i '','' else Inr i) (\<lambda>i.
     bind_r (parse_elements element body n i) (\<lambda>(xs, i). Inr (x # xs, i))))"

definition parse_array :: "(bytes \<Rightarrow> nat \<Rightarrow> sol_error + 'a \<times> nat) \<Rightarrow> bytes \<Rightarrow> nat \<Rightarrow> sol_error + 'a list \<times> nat" where
  "parse_array element body i =
     (if i \<ge> length body then Inl InvalidJson
      else if body ! i = CHR '']'' then Inr ([], i)
      else
        (case count_elements body 1 i of
           (count, j) \<Rightarrow> if j \<ge> length body then Inl InvalidJson else parse_elements element body count i))"

definition parse_string_array :: "bytes \<Rightarrow> nat \<Rightarrow> sol_error + string list \<times> nat" where
  "parse_string_array = parse_array parse_quoted_string"

definition parse_uint_array :: "bytes \<Rightarrow> nat \<Rightarrow> sol_error + uint256 list \<times> nat" where
  "parse_uint_array = parse_array parse_uint256"

definition IDS_OPEN :: bytes where "IDS_OPEN = ''{'' @ in_quotes ''ids'' @ '':[''"
definition PRICES_OPEN :: bytes where "PRICES_OPEN = ''],'' @ in_quotes ''prices'' @ '':[''"

record price_payload =
  pp_ids :: "string list"
  pp_prices :: "uint256 list"

definition parse_prices :: "bytes \<Rightarrow> sol_error + price_payload" where
  "parse_prices body =
     bind_r (expect_at body 0 IDS_OPEN) (\<lambda>i.
     bind_r (parse_string_array body i) (\<lambda>(ids, i).
     bind_r (expect_at body i PRICES_OPEN) (\<lambda>i.
     bind_r (parse_uint_array body i) (\<lambda>(prices, i).
     bind_r (expect_at body i '']}'') (\<lambda>i.
     if i \<noteq> length body then Inl InvalidJson
     else if length ids \<noteq> length prices then Inl LengthMismatch
     else if length ids = 0 then Inl InvalidJson
     else Inr \<lparr> pp_ids = ids, pp_prices = prices \<rparr>)))))"

section \<open>Printing\<close>

fun count_digits :: "nat \<Rightarrow> nat" where
  "count_digits temp = (if temp = 0 then 0 else Suc (count_digits (temp div 10)))"

fun fill_digits :: "string \<Rightarrow> nat \<Rightarrow> nat \<Rightarrow> string" where
  "fill_digits buffer digits v =
     (if v = 0 then buffer else fill_digits (buffer[digits - 1 := chr (48 + v mod 10)]) (digits - 1) (v div 10))"

declare count_digits.simps [simp del] fill_digits.simps [simp del]

definition uint_to_string :: "uint256 \<Rightarrow> string" where
  "uint_to_string v =
     (if v = 0 then ''0''
      else let digits = count_digits (unat v) in fill_digits (replicate digits (chr 0)) digits (unat v))"

definition encode_prices :: "string list \<Rightarrow> uint256 list \<Rightarrow> sol_error + bytes" where
  "encode_prices ids prices =
     (if length ids \<noteq> length prices then Inl LengthMismatch
      else if length ids = 0 then Inl InvalidJson
      else Inr (
        IDS_OPEN @ concat (map (\<lambda>(n, alias). (if n > 0 then '','' else []) @ in_quotes alias) (enumerate 0 ids))
        @ PRICES_OPEN @ concat (map (\<lambda>(n, price). (if n > 0 then '','' else []) @ uint_to_string price) (enumerate 0 prices))
        @ '']}''))"

section \<open>Numbers\<close>

lemma fill_digits_show:
  "0 < n \<Longrightarrow> length buffer = count_digits n + k \<Longrightarrow>
   fill_digits (take (count_digits n) buffer @ t) (count_digits n) n = show_nat n @ t"
proof (induction n arbitrary: buffer t k rule: show_nat.induct)
  case (1 n)
  let ?d = "count_digits (n div 10)"
  have d: "count_digits n = Suc ?d" using 1(2) by (simp add: count_digits.simps [of n])
  then have len: "?d < length buffer" using 1(3) by simp
  have upd: "(take (Suc ?d) buffer @ t)[?d := c] = take ?d buffer @ c # t" for c
    using len by (simp add: take_Suc_conv_app_nth list_update_append)
  have "fill_digits (take (count_digits n) buffer @ t) (count_digits n) n
      = fill_digits (take ?d buffer @ chr (48 + n mod 10) # t) ?d (n div 10)"
    using 1(2) unfolding d by (subst fill_digits.simps) (simp add: upd)
  also have "\<dots> = show_nat n @ t"
  proof (cases "n < 10")
    case True
    then have "n div 10 = 0" by simp
    then show ?thesis using True
      by (subst fill_digits.simps) (simp add: count_digits.simps [of 0] show_nat.simps [of n])
  next
    case False
    then have "fill_digits (take ?d buffer @ chr (48 + n mod 10) # t) ?d (n div 10)
        = show_nat (n div 10) @ chr (48 + n mod 10) # t"
      using 1(1) [OF False, of buffer "Suc k"] 1(3) d by simp
    with False show ?thesis by (simp add: show_nat.simps [of n])
  qed
  finally show ?case .
qed

lemma uint_to_string_show: "uint_to_string v = show_nat (unat v)"
proof (cases "v = 0")
  case True
  have "chr 48 = CHR ''0''" using chr_byte [of "CHR ''0''"] by (simp add: byte_def)
  then show ?thesis using True by (simp add: uint_to_string_def show_nat.simps [of 0])
next
  case False
  then have "0 < unat v" by (simp add: unat_gt_0)
  from fill_digits_show [OF this, of "replicate (count_digits (unat v)) (chr 0)" 0 "[]"] False
  show ?thesis by (simp add: uint_to_string_def Let_def)
qed

text \<open>Digits without a leading zero are the number they denote, printed.\<close>

lemma show_digits_val:
  "digits_val 0 ds = Some n \<Longrightarrow> ds \<noteq> [] \<Longrightarrow> hd ds \<noteq> CHR ''0'' \<or> length ds = 1 \<Longrightarrow>
   show_nat n = ds \<and> (hd ds \<noteq> CHR ''0'' \<longrightarrow> 0 < n)"
proof (induction ds arbitrary: n rule: rev_induct)
  case (snoc c ds)
  obtain m where m: "digits_val 0 ds = Some m" "is_ascii_digit c" "n = 10 * m + (byte c - 48)"
    using snoc.prems(1) by (auto simp: digits_val_append split: option.splits if_splits)
  have c: "byte c - 48 < 10" "chr (48 + (byte c - 48)) = c" using m(2) by (auto simp: is_ascii_digit_def chr_byte)
  show ?case
  proof (cases "ds = []")
    case True
    have z: "c \<noteq> CHR ''0'' \<longrightarrow> byte c \<noteq> 48" using byte_inj [of c "CHR ''0''"] by (simp add: byte_def)
    have "n = byte c - 48" using m(1,3) True by simp
    then have "show_nat n = [c]" using c by (subst show_nat.simps) simp
    moreover note \<open>n = byte c - 48\<close>
    ultimately show ?thesis using True z m(2) by (auto simp: is_ascii_digit_def)
  next
    case False
    with snoc m have "show_nat m = ds" "0 < m" by auto
    moreover have "n div 10 = m" "n mod 10 = byte c - 48" "\<not> n < 10" using m(3) c(1) \<open>0 < m\<close> by simp_all
    ultimately show ?thesis using c(2) False m(3) by (subst show_nat.simps) simp
  qed
qed simp

section \<open>The scanners on the rest of the body\<close>

lemma drop_nth: "i < length body \<Longrightarrow> drop i body = body ! i # drop (Suc i) body"
  by (simp add: Cons_nth_drop_Suc)

lemma expect_at_iff:
  "expect_at body i needle = Inr j \<longleftrightarrow>
     (i + length needle \<le> length body \<and> take (length needle) (drop i body) = needle \<and> j = i + length needle)"
proof -
  have "list_all (\<lambda>k. body ! (i + k) = needle ! k) [0..<length needle] \<longleftrightarrow> take (length needle) (drop i body) = needle"
    if "i + length needle \<le> length body"
    using that by (subst list_eq_iff_nth_eq) (auto simp: list_all_iff)
  then show ?thesis by (auto simp: expect_at_def)
qed

lemma expect_at_rest:
  "expect_at body i needle = Inr j \<Longrightarrow> drop i body = needle @ drop j body \<and> j = i + length needle \<and> j \<le> length body"
proof -
  assume "expect_at body i needle = Inr j"
  then have t: "take (length needle) (drop i body) = needle" "j = i + length needle" "j \<le> length body"
    by (auto simp only: expect_at_iff)
  have "drop i body = needle @ drop (length needle) (drop i body)"
    using append_take_drop_id [of "length needle" "drop i body"] unfolding t(1) by (rule sym)
  with t(2,3) show ?thesis by (simp only: drop_drop add.commute)
qed

lemma expect_at_there: "drop i body = needle @ r \<Longrightarrow> i \<le> length body \<Longrightarrow> expect_at body i needle = Inr (i + length needle)"
proof -
  assume r: "drop i body = needle @ r" and i: "i \<le> length body"
  have "length body - i = length needle + length r" using r by (metis length_append length_drop)
  with i have "i + length needle \<le> length body" by simp
  with r show ?thesis by (simp add: expect_at_iff)
qed

lemma scan_id_spec:
  "i \<le> length body \<Longrightarrow> scan_id body i =
     (let s = takeWhile (\<lambda>c. c \<noteq> CHR 0x22) (drop i body) in
      if list_all id_char s then Inr (i + length s) else Inl InvalidJson)"
proof (induction body i rule: scan_id.induct)
  case (1 body i)
  show ?case
  proof (cases "i < length body \<and> body ! i \<noteq> CHR 0x22")
    case True
    then show ?thesis using 1 by (subst scan_id.simps) (auto simp: drop_nth Let_def)
  next
    case False
    then have "takeWhile (\<lambda>c. c \<noteq> CHR 0x22) (drop i body) = []"
      by (cases "i < length body") (auto simp: drop_nth)
    moreover have "scan_id body i = Inr i" using False by (subst scan_id.simps) (simp only: if_False)
    ultimately show ?thesis by (simp add: Let_def)
  qed
qed

lemma id_char_quote: "\<not> id_char (CHR 0x22)"
  by (simp add: id_char_def byte_def)

lemma takeWhile_quote: "list_all id_char s \<Longrightarrow> takeWhile (\<lambda>c. c \<noteq> CHR 0x22) (s @ CHR 0x22 # r) = s"
  using id_char_quote by (subst takeWhile_append2) (auto simp: list_all_iff)

definition valid_id :: "string \<Rightarrow> bool" where
  "valid_id s \<longleftrightarrow> s \<noteq> [] \<and> list_all id_char s"

lemma parse_quoted_string_iff:
  "parse_quoted_string body i = Inr (s, j) \<longleftrightarrow>
     (\<exists>r. drop i body = in_quotes s @ r \<and> valid_id s \<and> j = i + length (in_quotes s))" (is "?l \<longleftrightarrow> ?r")
proof
  assume l: ?l
  let ?t = "takeWhile (\<lambda>c. c \<noteq> CHR 0x22) (drop (Suc i) body)"
  have i: "i < length body" "body ! i = CHR 0x22" using l by (auto simp: parse_quoted_string_def split: if_splits)
  then obtain e where e: "scan_id body (Suc i) = Inr e" "e < length body" "Suc i \<noteq> e" "j = e + 1"
    "s = map (\<lambda>k. body ! (Suc i + k)) [0..<e - Suc i]"
    using l by (auto simp: parse_quoted_string_def Let_def bind_r_Inr_iff split: if_splits)
  have "list_all id_char ?t" "e = Suc i + length ?t"
    using e(1) i(1) scan_id_spec [of "Suc i" body] by (auto simp: Let_def split: if_splits)
  with e have t: "list_all id_char ?t" "Suc i + length ?t < length body" "?t \<noteq> []" "j = Suc i + length ?t + 1"
    "s = map (\<lambda>k. body ! (Suc i + k)) [0..<length ?t]" by auto
  have s1: "s = take (length ?t) (drop (Suc i) body)"
    using t(2) unfolding t(5) by (intro nth_equalityI) auto
  also have "\<dots> = ?t" by (rule takeWhile_eq_take [symmetric])
  finally have s: "s = ?t" .
  have s2: "take (length s) (drop (Suc i) body) = s" using s1 s by simp
  have "drop (Suc i) body ! length ?t = CHR 0x22"
    using nth_length_takeWhile [of "\<lambda>c. c \<noteq> CHR 0x22" "drop (Suc i) body"] t(2) by auto
  then have "drop (Suc i + length s) body = CHR 0x22 # drop (Suc i + length s + 1) body"
    using t(2) unfolding s by (subst drop_nth) simp_all
  then have "drop (Suc i) body = s @ CHR 0x22 # drop (Suc i + length s + 1) body"
    using append_take_drop_id [of "length s" "drop (Suc i) body"] unfolding s2 drop_drop
    by (simp only: add.commute [of "length s"])
  then have "drop i body = in_quotes s @ drop (Suc i + length s + 1) body"
    using i by (simp add: drop_nth in_quotes_def)
  then show ?r using t s by (auto simp: valid_id_def in_quotes_def)
next
  assume ?r
  then obtain r where r: "drop i body = in_quotes s @ r" "valid_id s" "j = i + length (in_quotes s)" by blast
  have len: "length body - i = length s + 2 + length r" using arg_cong [OF r(1), of length] by (simp add: in_quotes_def)
  then have i: "i < length body" by simp
  have b: "body ! i = CHR 0x22" "drop (Suc i) body = s @ CHR 0x22 # r"
    using r(1) drop_nth [OF i] by (simp_all add: in_quotes_def)
  have "map (\<lambda>k. body ! (Suc i + k)) [0..<length s] = s"
  proof (rule nth_equalityI)
    fix k assume "k < length (map (\<lambda>k. body ! (Suc i + k)) [0..<length s])"
    then show "map (\<lambda>k. body ! (Suc i + k)) [0..<length s] ! k = s ! k"
      using i arg_cong [OF b(2), of "\<lambda>xs. xs ! k"] by (simp add: nth_append)
  qed simp
  then show ?l
    using i b len r(2,3)
    by (simp add: parse_quoted_string_def Let_def scan_id_spec takeWhile_quote valid_id_def in_quotes_def)
qed

lemma is_digit_at_iff: "is_digit_at body i \<longleftrightarrow> i < length body \<and> is_ascii_digit (body ! i)"
  by (auto simp: is_digit_at_def is_ascii_digit_def byte_def)

lemma digit_step:
  assumes "is_ascii_digit c" and "unat (v :: uint256) * 10 + byte c < 2 ^ 256"
  shows "unat (v * 10 + word_of_nat (byte c) - 48) = 10 * unat v + (byte c - 48)"
proof -
  have c: "48 \<le> byte c" using assms(1) by (simp add: is_ascii_digit_def)
  have "v * 10 + word_of_nat (byte c) - 48 = word_of_nat (unat v * 10 + byte c - 48)"
    using c by (simp add: of_nat_diff)
  moreover have "unat v * 10 + byte c - 48 < 2 ^ 256" using assms(2) by simp
  ultimately have "unat (v * 10 + word_of_nat (byte c) - 48) = unat v * 10 + byte c - 48"
    by (simp add: unat_of_nat)
  with c show ?thesis by simp
qed

text \<open>The leading digits of the rest, read from \<open>v\<close>.\<close>

abbreviation digits_at :: "bytes \<Rightarrow> nat \<Rightarrow> string" where
  "digits_at body i \<equiv> takeWhile is_ascii_digit (drop i body)"

lemma scan_uint_sound:
  "scan_uint body v i = Inr (x, j) \<Longrightarrow>
     digits_val (unat v) (digits_at body i) = Some (unat x) \<and> j = i + length (digits_at body i)"
proof (induction body v i rule: scan_uint.induct)
  case (1 body v i)
  show ?case
  proof (cases "is_digit_at body i")
    case True
    then have d: "i < length body" "is_ascii_digit (body ! i)" by (simp_all add: is_digit_at_iff)
    have r: "\<not> 2 ^ 256 \<le> unat v * 10 + byte (body ! i)"
      "scan_uint body (v * 10 + word_of_nat (byte (body ! i)) - 48) (i + 1) = Inr (x, j)"
      using 1(2) True by (subst (asm) scan_uint.simps, simp split: if_splits)+
    have "unat (v * 10 + word_of_nat (byte (body ! i)) - 48) = 10 * unat v + (byte (body ! i) - 48)"
      using digit_step [OF d(2)] r(1) by simp
    with 1(1) [OF True r] d show ?thesis by (simp add: drop_nth)
  next
    case False
    then have "digits_at body i = []" by (cases "i < length body") (auto simp: is_digit_at_iff drop_nth)
    moreover have "x = v" "j = i" using 1(2) False by (subst (asm) scan_uint.simps, simp)+
    ultimately show ?thesis by simp
  qed
qed

lemma digits_val_ge: "digits_val a ds = Some n \<Longrightarrow> a \<le> n"
  by (induction ds arbitrary: a) (auto split: if_splits, fastforce)

lemma scan_uint_complete:
  "digits_val (unat v) (digits_at body i) = Some n \<Longrightarrow> n + 48 < 2 ^ 256 \<Longrightarrow>
     scan_uint body v i = Inr (word_of_nat n, i + length (digits_at body i))"
proof (induction body v i rule: scan_uint.induct)
  case (1 body v i)
  show ?case
  proof (cases "is_digit_at body i")
    case True
    then have d: "i < length body" "is_ascii_digit (body ! i)" by (simp_all add: is_digit_at_iff)
    then have v: "digits_val (10 * unat v + (byte (body ! i) - 48)) (digits_at body (i + 1)) = Some n"
      using 1(2) by (simp add: drop_nth)
    have le: "unat v * 10 + byte (body ! i) < 2 ^ 256" using digits_val_ge [OF v] 1(3) by linarith
    have "scan_uint body v i = scan_uint body (v * 10 + word_of_nat (byte (body ! i)) - 48) (i + 1)"
      using True le by (subst scan_uint.simps) (simp only: if_True if_False not_le [symmetric])
    also have "\<dots> = Inr (word_of_nat n, i + 1 + length (digits_at body (i + 1)))"
      using 1(1) [OF True _ _ 1(3)] le v digit_step [OF d(2) le] by simp
    finally show ?thesis using d by (simp add: drop_nth)
  next
    case False
    then have "digits_at body i = []" by (cases "i < length body") (auto simp: is_digit_at_iff drop_nth)
    moreover have "scan_uint body v i = Inr (v, i)" using False by (subst scan_uint.simps) (simp only: if_False)
    moreover have "n = unat v" using 1(2) calculation(1) by simp
    ultimately show ?thesis by simp
  qed
qed

text \<open>What a number of the text looks like: no other digit follows.\<close>

lemma parse_uint256_sound:
  assumes "parse_uint256 body i = Inr (x, j)"
  shows "\<exists>r. drop i body = uint_to_string x @ r \<and> j = i + length (uint_to_string x)"
proof -
  have d: "i < length body" "is_ascii_digit (body ! i)"
    using assms by (auto simp: parse_uint256_def is_digit_at_iff split: if_splits)
  show ?thesis
  proof (cases "body ! i = CHR ''0''")
    case True
    then have "x = 0" "j = i + 1" using assms by (auto simp: parse_uint256_def split: if_splits)
    with True d show ?thesis by (simp add: drop_nth uint_to_string_def)
  next
    case False
    then have "scan_uint body 0 i = Inr (x, j)" using assms by (auto simp: parse_uint256_def split: if_splits)
    from scan_uint_sound [OF this] have v: "digits_val 0 (digits_at body i) = Some (unat x)" "j = i + length (digits_at body i)"
      by simp_all
    have ds: "digits_at body i \<noteq> []" "hd (digits_at body i) \<noteq> CHR ''0''" using d False by (simp_all add: drop_nth)
    then have "show_nat (unat x) = digits_at body i" using show_digits_val [OF v(1)] by simp
    then show ?thesis
      using v(2) takeWhile_dropWhile_id [of is_ascii_digit "drop i body"] unfolding uint_to_string_show by metis
  qed
qed

lemma takeWhile_show_nat:
  assumes "r \<noteq> [] \<longrightarrow> \<not> is_ascii_digit (hd r)"
  shows "takeWhile is_ascii_digit (show_nat n @ r) = show_nat n"
proof -
  have "takeWhile is_ascii_digit r = []" using assms by (cases r) auto
  then show ?thesis using show_nat_digits [of _ n] by (simp add: takeWhile_append2)
qed

lemma show_nat_zero: "hd (show_nat n) = CHR ''0'' \<longleftrightarrow> n = 0"
proof
  have z: "chr (48 + m) = CHR ''0'' \<longleftrightarrow> m = 0" if "m < 10" for m
    using that byte_inj [of "chr (48 + m)" "CHR ''0''"] by (simp add: byte_def [of "CHR ''0''"])
  show "n = 0 \<Longrightarrow> hd (show_nat n) = CHR ''0''" using z [of 0] by (subst show_nat.simps) simp
  show "hd (show_nat n) = CHR ''0'' \<Longrightarrow> n = 0"
  proof (induction n rule: show_nat.induct)
    case (1 n)
    show ?case
    proof (cases "n < 10")
      case True
      with 1(2) z show ?thesis by (subst (asm) show_nat.simps) simp
    next
      case False
      then have "hd (show_nat (n div 10)) = CHR ''0''" using 1(2) by (subst (asm) show_nat.simps) simp
      with 1(1) [OF False] False show ?thesis by simp
    qed
  qed
qed

lemma parse_uint256_complete:
  assumes "drop i body = uint_to_string x @ r" and "unat x + 48 < 2 ^ 256" and "r \<noteq> [] \<longrightarrow> \<not> is_ascii_digit (hd r)"
  shows "parse_uint256 body i = Inr (x, i + length (uint_to_string x))"
proof -
  note b = assms(1) [unfolded uint_to_string_show]
  have "drop i body \<noteq> []" using b by simp
  then have i: "i < length body" by (simp only: drop_eq_Nil not_le)
  have ds: "digits_at body i = show_nat (unat x)" unfolding b using takeWhile_show_nat [OF assms(3)] .
  have hd: "body ! i = hd (show_nat (unat x))" using b drop_nth [OF i] by (metis hd_append2 list.sel(1) show_nat_not_Nil)
  have dig: "is_digit_at body i"
    using i show_nat_digits [of "body ! i" "unat x"] hd by (simp add: is_digit_at_iff)
  show ?thesis
  proof (cases "x = 0")
    case True
    have s: "show_nat 0 = ''0''" using uint_to_string_show [of 0] by (simp add: uint_to_string_def)
    have "\<not> is_digit_at body (i + 1)"
    proof
      assume "is_digit_at body (i + 1)"
      then have *: "i + 1 < length body" "is_ascii_digit (body ! (i + 1))" by (simp_all add: is_digit_at_iff)
      have "drop (i + 1) body = r" using b drop_nth [OF i] by (simp add: True s)
      then have "r = body ! (i + 1) # drop (Suc (i + 1)) body" using drop_nth [OF *(1)] by simp
      with assms(3) *(2) show False by simp
    qed
    with True dig hd s show ?thesis by (simp add: parse_uint256_def uint_to_string_show)
  next
    case False
    then have "body ! i \<noteq> CHR ''0''" using hd show_nat_zero [of "unat x"] by (simp add: unat_eq_0)
    moreover have "digits_val (unat (0 :: uint256)) (digits_at body i) = Some (unat x)"
      by (simp add: ds digits_val_show_nat)
    from scan_uint_complete [OF this assms(2)] have "scan_uint body 0 i = Inr (x, i + length (uint_to_string x))"
      by (simp add: ds uint_to_string_show)
    ultimately show ?thesis using dig by (simp add: parse_uint256_def)
  qed
qed

section \<open>Arrays\<close>

lemma joined_tail:
  "concat (map (\<lambda>(n, x). (if n > 0 then '','' else []) @ pr x) (enumerate (Suc k) xs)) = concat (map (\<lambda>x. '','' @ pr x) xs)"
  by (induction xs arbitrary: k) auto

lemma join_tail: "join sep (x # xs) = x @ concat (map ((@) sep) xs)"
  by (induction xs arbitrary: x) auto

lemma joined:
  "concat (map (\<lambda>(n, x). (if n > 0 then '','' else []) @ pr x) (enumerate 0 xs)) = join '','' (map pr xs)"
proof (cases xs)
  case (Cons x xs)
  then show ?thesis using joined_tail [of pr 0 xs]
    by (simp del: join.simps add: join_tail comp_def)
qed simp

text \<open>
  What the array parser relies on of the parser of its elements: it reads back what \<open>pr\<close> prints,
  before a comma or a bracket, accepts nothing else, and the print has neither of the two.
\<close>

locale element_syntax =
  fixes element :: "bytes \<Rightarrow> nat \<Rightarrow> sol_error + 'a \<times> nat" and pr :: "'a \<Rightarrow> string" and ok :: "'a \<Rightarrow> bool"
    and fits :: "'a \<Rightarrow> bool"
  assumes sound: "element body i = Inr (x, j) \<Longrightarrow> \<exists>r. drop i body = pr x @ r \<and> ok x \<and> j = i + length (pr x)"
    and complete: "drop i body = pr x @ r \<Longrightarrow> ok x \<Longrightarrow> fits x \<Longrightarrow> r \<noteq> [] \<Longrightarrow> hd r = CHR '','' \<or> hd r = CHR '']'' \<Longrightarrow>
        element body i = Inr (x, i + length (pr x))"
    and plain: "ok x \<Longrightarrow> pr x \<noteq> [] \<and> CHR '','' \<notin> set (pr x) \<and> CHR '']'' \<notin> set (pr x)"
begin

lemma drop_more: "drop i body = s @ r \<Longrightarrow> drop (i + length s) body = r"
proof -
  assume "drop i body = s @ r"
  moreover have "drop (i + length s) body = drop (length s) (drop i body)" by (simp add: add.commute)
  ultimately show ?thesis by simp
qed

lemma elements_sound:
  "parse_elements element body n i = Inr (xs, j) \<Longrightarrow>
     length xs = n \<and> list_all ok xs \<and> j = i + length (join '','' (map pr xs))
     \<and> (\<exists>r. drop i body = join '','' (map pr xs) @ r)"
proof (induction n arbitrary: i xs j)
  case (Suc n)
  obtain x k where x: "element body i = Inr (x, k)" using Suc.prems by (auto simp: bind_r_Inr_iff)
  obtain r where r: "drop i body = pr x @ r" "ok x" "k = i + length (pr x)" using sound [OF x] by blast
  show ?case
  proof (cases "n = 0")
    case True
    with Suc.prems x r show ?thesis by auto
  next
    case False
    obtain k' ys where k': "expect_at body k '','' = Inr k'" "parse_elements element body n k' = Inr (ys, j)" "xs = x # ys"
      using Suc.prems x False by (auto simp: bind_r_Inr_iff)
    note c = expect_at_rest [OF k'(1)]
    note ys = Suc.IH [OF k'(2)]
    obtain y zs where yz: "ys = y # zs" using ys False by (cases ys) auto
    have "r = '','' @ drop k' body" using drop_more [OF r(1)] c r(3) by simp
    with r ys k'(3) c yz show ?thesis by auto
  qed
qed simp

lemma count_mono: "count_elements body c i = (c', j) \<Longrightarrow> c \<le> c'"
proof (induction body c i arbitrary: c' rule: count_elements.induct)
  case (1 body c i)
  show ?case
  proof (cases "i < length body \<and> body ! i \<noteq> CHR '']''")
    case True
    then have "count_elements body (if body ! i = CHR '','' then c + 1 else c) (i + 1) = (c', j)"
      using 1(2) by (subst (asm) count_elements.simps) (simp only: True if_True simp_thms)
    from 1(1) [OF True this] show ?thesis by (simp split: if_splits)
  next
    case False
    then show ?thesis using 1(2) by (subst (asm) count_elements.simps) (simp only: if_False prod.inject)
  qed
qed

lemma array_sound:
  assumes "parse_array element body i = Inr (xs, j)"
  shows "list_all ok xs \<and> j = i + length (join '','' (map pr xs)) \<and> (\<exists>r. drop i body = join '','' (map pr xs) @ r)"
proof (cases "body ! i = CHR '']''")
  case True
  with assms show ?thesis by (auto simp: parse_array_def split: if_splits)
next
  case False
  then obtain n where "parse_elements element body n i = Inr (xs, j)"
    using assms by (auto simp: parse_array_def split: if_splits prod.splits)
  then show ?thesis using elements_sound by blast
qed

lemma elements_complete:
  "xs \<noteq> [] \<Longrightarrow> list_all ok xs \<Longrightarrow> list_all fits xs \<Longrightarrow> drop i body = join '','' (map pr xs) @ CHR '']'' # r \<Longrightarrow>
   parse_elements element body (length xs) i = Inr (xs, i + length (join '','' (map pr xs)))"
proof (induction xs arbitrary: i)
  case (Cons x xs)
  show ?case
  proof (cases xs)
    case Nil
    with Cons complete [of i body x "CHR '']'' # r"] show ?thesis by simp
  next
    case (Cons y ys)
    let ?rest = "join '','' (map pr xs) @ CHR '']'' # r"
    have b: "drop i body = pr x @ '','' @ ?rest" using Cons.prems(4) Cons by simp
    have e: "element body i = Inr (x, i + length (pr x))"
      using complete [OF b] Cons.prems(2,3) by simp
    have "drop (i + length (pr x)) body = '','' @ ?rest" using drop_more [OF b] .
    moreover from this have "drop (i + length (pr x)) body \<noteq> []" by simp
    then have "i + length (pr x) \<le> length body" by simp
    ultimately have c: "expect_at body (i + length (pr x)) '','' = Inr (i + length (pr x) + 1)"
      and d: "drop (i + length (pr x) + 1) body = ?rest"
      using expect_at_there [of "i + length (pr x)" body "'',''"] drop_more [of "i + length (pr x)" body "'',''"] by simp_all
    have "parse_elements element body (length xs) (i + length (pr x) + 1)
        = Inr (xs, i + length (pr x) + 1 + length (join '','' (map pr xs)))"
      using Cons.prems Cons by (intro Cons.IH d) simp_all
    with e c Cons show ?thesis by simp
  qed
qed simp

lemma count_elements_text:
  "drop i body = s @ CHR '']'' # r \<Longrightarrow> CHR '']'' \<notin> set s \<Longrightarrow>
   count_elements body c i = (c + length (filter (\<lambda>a. a = CHR '','') s), i + length s)"
proof (induction s arbitrary: c i)
  case Nil
  then have "i < length body" by (metis append_Nil drop_eq_Nil linorder_not_le list.distinct(1))
  moreover from this have "body ! i = CHR '']''" using Nil(1) by (simp add: drop_nth)
  ultimately show ?case by (subst count_elements.simps) simp
next
  case (Cons a s)
  then have i: "i < length body" by (metis append_Cons drop_eq_Nil linorder_not_le list.distinct(1))
  then have b: "body ! i = a" "drop (i + 1) body = s @ CHR '']'' # r" using Cons.prems(1) by (simp_all add: drop_nth)
  with Cons i show ?case by (subst count_elements.simps) auto
qed

lemma commas_joined:
  "list_all ok xs \<Longrightarrow> xs \<noteq> [] \<Longrightarrow>
   length xs = 1 + length (filter (\<lambda>a. a = CHR '','') (join '','' (map pr xs)))
   \<and> CHR '']'' \<notin> set (join '','' (map pr xs)) \<and> join '','' (map pr xs) \<noteq> [] \<and> hd (join '','' (map pr xs)) \<noteq> CHR '']''"
proof (induction xs)
  case (Cons x xs)
  note p = plain [of x]
  have f: "filter (\<lambda>a. a = CHR '','') (pr x) = []" using p Cons.prems(1) by (auto simp: filter_empty_conv)
  have h: "hd (pr x) \<noteq> CHR '']''" using p Cons.prems(1) hd_in_set [of "pr x"] by fastforce
  show ?case
  proof (cases xs)
    case Nil
    with p f h Cons.prems(1) show ?thesis by simp
  next
    case (Cons y ys)
    with Cons.IH Cons.prems(1) p f h show ?thesis by simp
  qed
qed simp

lemma array_complete:
  assumes "xs \<noteq> []" and "list_all ok xs" and "list_all fits xs" and "drop i body = join '','' (map pr xs) @ CHR '']'' # r"
  shows "parse_array element body i = Inr (xs, i + length (join '','' (map pr xs)))"
proof -
  let ?s = "join '','' (map pr xs)"
  note c = commas_joined [OF assms(2,1)]
  have len: "length body - i = length ?s + 1 + length r" using assms(4) by (metis length_append length_drop length_Cons add_Suc_right add.commute plus_1_eq_Suc)
  then have i: "i < length body" "i + length ?s < length body" by linarith+
  have "body ! i = hd ?s" using c assms(4) drop_nth [OF i(1)] by (metis hd_append2 list.sel(1))
  then show ?thesis
    using i c count_elements_text [OF assms(4), of 1] elements_complete [OF assms]
    by (simp add: parse_array_def)
qed

end

definition fits_uint :: "uint256 \<Rightarrow> bool" where
  "fits_uint x \<longleftrightarrow> unat x + 48 < 2 ^ 256"

interpretation id_syntax: element_syntax parse_quoted_string in_quotes valid_id "\<lambda>_. True"
proof unfold_locales
  show "\<exists>r. drop i body = in_quotes x @ r \<and> valid_id x \<and> j = i + length (in_quotes x)"
    if "parse_quoted_string body i = Inr (x, j)" for body i x j
    using that by (simp only: parse_quoted_string_iff)
  show "parse_quoted_string body i = Inr (x, i + length (in_quotes x))"
    if "drop i body = in_quotes x @ r" "valid_id x" for body i x r
    using that by (auto simp: parse_quoted_string_iff)
  show "in_quotes x \<noteq> [] \<and> CHR '','' \<notin> set (in_quotes x) \<and> CHR '']'' \<notin> set (in_quotes x)" if "valid_id x" for x
    using that by (auto simp: in_quotes_def valid_id_def list_all_iff id_char_def byte_def)
qed

interpretation uint_syntax: element_syntax parse_uint256 uint_to_string "\<lambda>_. True" fits_uint
proof unfold_locales
  show "\<exists>r. drop i body = uint_to_string x @ r \<and> True \<and> j = i + length (uint_to_string x)"
    if "parse_uint256 body i = Inr (x, j)" for body i x j
    using parse_uint256_sound [OF that] by simp
  show "parse_uint256 body i = Inr (x, i + length (uint_to_string x))"
    if "drop i body = uint_to_string x @ r" "fits_uint x" "hd r = CHR '','' \<or> hd r = CHR '']''" for body i x r
    using that by (intro parse_uint256_complete) (auto simp: fits_uint_def is_ascii_digit_def byte_def)
  show "uint_to_string x \<noteq> [] \<and> CHR '','' \<notin> set (uint_to_string x) \<and> CHR '']'' \<notin> set (uint_to_string x)" for x
    using show_nat_digits [of _ "unat x"] by (fastforce simp: uint_to_string_show is_ascii_digit_def byte_def)
qed

section \<open>The canonical text\<close>

definition canonical_text :: "string list \<Rightarrow> string list \<Rightarrow> bytes" where
  "canonical_text ids prices = IDS_OPEN @ join '','' (map in_quotes ids) @ PRICES_OPEN @ join '','' prices @ '']}''"

lemma encode_prices_text:
  "encode_prices ids prices =
     (if length ids \<noteq> length prices then Inl LengthMismatch
      else if ids = [] then Inl InvalidJson else Inr (canonical_text ids (map uint_to_string prices)))"
  by (simp add: encode_prices_def canonical_text_def joined)

text \<open>The parser accepts nothing but what the printer prints.\<close>

lemma parse_prices_sound:
  assumes "parse_prices body = Inr p"
  shows "list_all valid_id (pp_ids p) \<and> encode_prices (pp_ids p) (pp_prices p) = Inr body"
proof -
  obtain i1 ids i2 i3 prices i4 i5 where
    e: "expect_at body 0 IDS_OPEN = Inr i1" "parse_string_array body i1 = Inr (ids, i2)"
      "expect_at body i2 PRICES_OPEN = Inr i3" "parse_uint_array body i3 = Inr (prices, i4)"
      "expect_at body i4 '']}'' = Inr i5" "i5 = length body" "length ids = length prices" "ids \<noteq> []"
      "p = \<lparr> pp_ids = ids, pp_prices = prices \<rparr>"
    using assms by (auto simp: parse_prices_def bind_r_Inr_iff split: if_splits)
  note o = expect_at_rest [OF e(1)] expect_at_rest [OF e(3)] expect_at_rest [OF e(5)]
  obtain r1 where s: "list_all valid_id ids" "i2 = i1 + length (join '','' (map in_quotes ids))"
    "drop i1 body = join '','' (map in_quotes ids) @ r1"
    using id_syntax.array_sound [OF e(2) [unfolded parse_string_array_def]] by blast
  obtain r2 where u: "i4 = i3 + length (join '','' (map uint_to_string prices))"
    "drop i3 body = join '','' (map uint_to_string prices) @ r2"
    using uint_syntax.array_sound [OF e(4) [unfolded parse_uint_array_def]] by blast
  have "r1 = drop i2 body" "r2 = drop i4 body"
    using id_syntax.drop_more [OF s(3)] uint_syntax.drop_more [OF u(2)] s(2) u(1) by simp_all
  then have "body = canonical_text ids (map uint_to_string prices)"
    using o s(3) u(2) e(6) by (simp add: canonical_text_def)
  with e(7,8,9) s(1) show ?thesis by (simp add: encode_prices_text)
qed

lemma parse_prices_complete:
  assumes "encode_prices ids prices = Inr body" and "list_all valid_id ids" and "list_all fits_uint prices"
  shows "parse_prices body = Inr \<lparr> pp_ids = ids, pp_prices = prices \<rparr>"
proof -
  let ?a = "join '','' (map in_quotes ids)" and ?b = "join '','' (map uint_to_string prices)"
  have l: "length ids = length prices" "ids \<noteq> []" "prices \<noteq> []"
    and body: "body = IDS_OPEN @ ?a @ PRICES_OPEN @ ?b @ '']}''"
    using assms(1) by (auto simp: encode_prices_text canonical_text_def split: if_splits)
  let ?i1 = "length IDS_OPEN" and ?i2 = "length IDS_OPEN + length ?a"
  let ?i3 = "?i2 + length PRICES_OPEN" let ?i4 = "?i3 + length ?b"
  have e1: "expect_at body 0 IDS_OPEN = Inr ?i1"
    using expect_at_there [of 0 body IDS_OPEN] body by simp
  have d1: "drop ?i1 body = ?a @ CHR '']'' # drop 1 PRICES_OPEN @ ?b @ '']}''"
    unfolding body by (simp add: PRICES_OPEN_def)
  have a: "parse_string_array body ?i1 = Inr (ids, ?i2)"
    unfolding parse_string_array_def by (rule id_syntax.array_complete [OF l(2) assms(2) _ d1]) (simp add: list_all_iff)
  have d2: "drop ?i2 body = PRICES_OPEN @ ?b @ '']}''" unfolding body by simp
  have e2: "expect_at body ?i2 PRICES_OPEN = Inr ?i3" by (rule expect_at_there [OF d2]) (simp add: body)
  have d3: "drop ?i3 body = ?b @ CHR '']'' # ''}''" unfolding body by simp
  have b: "parse_uint_array body ?i3 = Inr (prices, ?i4)"
    unfolding parse_uint_array_def by (rule uint_syntax.array_complete [OF l(3) _ assms(3) d3]) (simp add: list_all_iff)
  have d4: "drop ?i4 body = '']}'' @ []" unfolding body by simp
  have e3: "expect_at body ?i4 '']}'' = Inr (?i4 + 2)"
    using expect_at_there [OF d4] by (simp add: body)
  show ?thesis
    using e1 a e2 b e3 l body by (simp add: parse_prices_def)
qed

text \<open>The guest prints the same text, for the ids it lets through.\<close>

lemma valid_id_safe: "valid_id s \<longleftrightarrow> is_safe_id s"
  by (auto simp: valid_id_def is_safe_id_def id_char_def is_ascii_lowercase_def is_ascii_digit_def byte_def list_all_iff)

lemma uint_of_u64: "uint_to_string (ucast (p :: u64)) = show_u64 p" "fits_uint (ucast p)"
proof -
  have p: "unat p < 2 ^ 64" using unsigned_less [of p, where 'a = nat] by simp
  then have "unat (ucast p :: uint256) = unat p" by (simp add: unsigned_ucast_eq take_bit_nat_eq_self)
  moreover note p
  ultimately show "uint_to_string (ucast p) = show_u64 p" "fits_uint (ucast p)"
    by (simp_all add: uint_to_string_show show_u64_def fits_uint_def)
qed

lemma encode_canonical_text: "encode_canonical ids prices = canonical_text ids (map show_u64 prices)"
  by (simp add: encode_canonical_def canonical_text_def IDS_OPEN_def PRICES_OPEN_def joined)

lemma canonical_agrees:
  assumes "length prices = length ids" and "ids \<noteq> []" and "list_all is_safe_id ids"
  shows "encode_prices ids (map ucast prices) = Inr (encode_canonical ids prices)"
    and "parse_prices (encode_canonical ids prices) = Inr \<lparr> pp_ids = ids, pp_prices = map ucast prices \<rparr>"
proof -
  show e: "encode_prices ids (map ucast prices) = Inr (encode_canonical ids prices)"
    using assms by (simp add: encode_prices_text encode_canonical_text uint_of_u64 comp_def)
  show "parse_prices (encode_canonical ids prices) = Inr \<lparr> pp_ids = ids, pp_prices = map ucast prices \<rparr>"
    by (rule parse_prices_complete [OF e])
      (use assms(3) in \<open>simp_all add: valid_id_safe list_all_iff uint_of_u64\<close>)
qed

end
