(* ===== verification/Oracle_Contract.thy ===== *)
theory Oracle_Contract
  imports Price_Json
begin

text \<open>
  \<open>examples/oracle/contracts/src/NitrumOracle.sol\<close>: the consumer of the attested answers on a chain.
  A call gives the new storage or reverts and changes nothing. The validator of attestation
  documents, the reader of its CBOR elements and \<open>keccak256\<close> are not part of the repository and are
  parameters; the validator has a state of its own, the chain's other contracts. The last part shows
  what the storage is after any calls.
\<close>

section \<open>State\<close>

type_synonym address = "160 word"

definition ZERO32 :: bytes where "ZERO32 = replicate 32 (chr 0)"

record 'c attestation_ptrs =
  ap_pcrs :: "'c list"
  ap_user_data :: 'c
  ap_timestamp :: u64

record ('v, 'c) nitro_lib =
  nl_validate :: "address \<Rightarrow> bytes \<Rightarrow> bytes \<Rightarrow> bytes \<Rightarrow> 'v \<Rightarrow> sol_error + 'c attestation_ptrs \<times> 'v"
  nl_is_null :: "'c \<Rightarrow> bool"
  nl_slice :: "bytes \<Rightarrow> 'c \<Rightarrow> sol_error + bytes"
  nl_keccak :: "bytes \<Rightarrow> bytes"

datatype oracle_event =
    OwnershipTransferred address address
  | EnclaveSet bytes bytes
  | PriceUpdated string uint256 u64

record 'v nitrum_oracle =
  no_validator :: address
  no_max_age :: uint256
  no_owner :: address
  no_pcr0_hash :: bytes
  no_content_hash :: bytes
  no_last_timestamp_ms :: u64
  no_price :: "string \<Rightarrow> uint256"
  no_price_timestamp_ms :: "string \<Rightarrow> u64"
  no_log :: "oracle_event list"
  no_chain :: 'v

record call_env =
  ce_sender :: address
  ce_timestamp :: uint256

definition emit :: "oracle_event \<Rightarrow> 'v nitrum_oracle \<Rightarrow> 'v nitrum_oracle" where
  "emit e s = s\<lparr> no_log := no_log s @ [e] \<rparr>"

definition oracle_new :: "call_env \<Rightarrow> address \<Rightarrow> uint256 \<Rightarrow> 'v \<Rightarrow> sol_error + 'v nitrum_oracle" where
  "oracle_new env validator max_age chain =
     (if validator = 0 then Inl (RevertText ''missing validator'')
      else if max_age = 0 then Inl (RevertText ''missing max age'')
      else Inr (emit (OwnershipTransferred 0 (ce_sender env))
        \<lparr> no_validator = validator, no_max_age = max_age, no_owner = ce_sender env, no_pcr0_hash = ZERO32,
          no_content_hash = ZERO32, no_last_timestamp_ms = 0, no_price = (\<lambda>_. 0), no_price_timestamp_ms = (\<lambda>_. 0),
          no_log = [], no_chain = chain \<rparr>))"

section \<open>The owner's calls\<close>

definition only_owner :: "call_env \<Rightarrow> 'v nitrum_oracle \<Rightarrow> sol_error + 'a \<Rightarrow> sol_error + 'a" where
  "only_owner env s k = (if ce_sender env \<noteq> no_owner s then Inl NotOwner else k)"

definition set_enclave :: "call_env \<Rightarrow> bytes \<Rightarrow> bytes \<Rightarrow> 'v nitrum_oracle \<Rightarrow> sol_error + 'v nitrum_oracle" where
  "set_enclave env pcr0_hash content_hash s =
     only_owner env s
      (if pcr0_hash = ZERO32 then Inl (RevertText ''missing pcr0'')
       else if content_hash = ZERO32 then Inl (RevertText ''missing content hash'')
       else Inr (emit (EnclaveSet pcr0_hash content_hash)
         (s\<lparr> no_pcr0_hash := pcr0_hash, no_content_hash := content_hash \<rparr>)))"

definition transfer_ownership :: "call_env \<Rightarrow> address \<Rightarrow> 'v nitrum_oracle \<Rightarrow> sol_error + 'v nitrum_oracle" where
  "transfer_ownership env new_owner s =
     only_owner env s
      (if new_owner = 0 then Inl (RevertText ''zero owner'')
       else Inr ((emit (OwnershipTransferred (no_owner s) new_owner) s)\<lparr> no_owner := new_owner \<rparr>))"

section \<open>The update\<close>

definition is_all_zero :: "bytes \<Rightarrow> bool" where
  "is_all_zero b = list_all (\<lambda>c. byte c = 0) b"

definition check_pcr0 ::
  "('v, 'c) nitro_lib \<Rightarrow> 'v nitrum_oracle \<Rightarrow> bytes \<Rightarrow> 'c attestation_ptrs \<Rightarrow> sol_error + unit" where
  "check_pcr0 L s tbs ptrs =
     (case ap_pcrs ptrs of
        [] \<Rightarrow> Inl MissingPcr0
      | c # _ \<Rightarrow>
          if nl_is_null L c then Inl MissingPcr0
          else
            bind_r (nl_slice L tbs c) (\<lambda>pcr0.
            if is_all_zero pcr0 then Inl DebugPcr0
            else if nl_keccak L pcr0 \<noteq> no_pcr0_hash s then Inl InvalidPcr0
            else Inr ()))"

definition check_freshness :: "call_env \<Rightarrow> 'v nitrum_oracle \<Rightarrow> u64 \<Rightarrow> sol_error + unit" where
  "check_freshness env s timestamp_ms =
     (let deadline = unat timestamp_ms div 1000 + unat (no_max_age s) in
      if deadline \<ge> 2 ^ 256 then Inl SolPanic
      else if deadline \<le> unat (ce_timestamp env) then Inl AttestationTooOld
      else if timestamp_ms \<le> no_last_timestamp_ms s then Inl StaleTimestamp
      else Inr ())"

definition check_attested_data ::
  "ext \<Rightarrow> ('v, 'c) nitro_lib \<Rightarrow> 'v nitrum_oracle \<Rightarrow> bytes \<Rightarrow> 'c attestation_ptrs \<Rightarrow> bytes \<Rightarrow> sol_error + unit" where
  "check_attested_data X L s tbs ptrs body =
     (if nl_is_null L (ap_user_data ptrs) then Inl MissingUserData
      else
        bind_r (nl_slice L tbs (ap_user_data ptrs)) (\<lambda>user_data.
        if length user_data \<noteq> 64 then Inl InvalidUserDataLength
        else if take 32 user_data \<noteq> no_content_hash s then Inl ContentHashMismatch
        else if take 32 (drop 32 user_data) \<noteq> sha256 X body then Inl BodyHashMismatch
        else Inr ()))"

fun write_prices :: "u64 \<Rightarrow> string list \<Rightarrow> uint256 list \<Rightarrow> 'v nitrum_oracle \<Rightarrow> sol_error + 'v nitrum_oracle" where
  "write_prices ts [] prices s = Inr s"
| "write_prices ts (alias # ids) [] s = Inl SolPanic"
| "write_prices ts (alias # ids) (price # prices) s =
     write_prices ts ids prices (emit (PriceUpdated alias price ts)
       (s\<lparr> no_price := (no_price s)(alias := price),
           no_price_timestamp_ms := (no_price_timestamp_ms s)(alias := ts) \<rparr>))"

definition update_price ::
  "ext \<Rightarrow> ('v, 'c) nitro_lib \<Rightarrow> call_env \<Rightarrow> bytes \<Rightarrow> bytes \<Rightarrow> bytes \<Rightarrow> bytes \<Rightarrow> 'v nitrum_oracle
     \<Rightarrow> sol_error + 'v nitrum_oracle" where
  "update_price X L env tbs signature hints body s =
     (if no_pcr0_hash s = ZERO32 \<or> no_content_hash s = ZERO32 then Inl EnclaveNotSet
      else
        bind_r (nl_validate L (no_validator s) tbs signature hints (no_chain s)) (\<lambda>(ptrs, chain).
        let s = s\<lparr> no_chain := chain \<rparr> in
        bind_r (check_pcr0 L s tbs ptrs) (\<lambda>_.
        bind_r (check_freshness env s (ap_timestamp ptrs)) (\<lambda>_.
        bind_r (check_attested_data X L s tbs ptrs body) (\<lambda>_.
        bind_r (parse_prices body) (\<lambda>payload.
        bind_r (encode_prices (pp_ids payload) (pp_prices payload)) (\<lambda>rebuilt.
        if nl_keccak L rebuilt \<noteq> nl_keccak L body then Inl CanonicalBodyMismatch
        else
          write_prices (ap_timestamp ptrs) (pp_ids payload) (pp_prices payload)
            (s\<lparr> no_last_timestamp_ms := ap_timestamp ptrs \<rparr>))))))))"

section \<open>Reading\<close>

definition get_price :: "'v nitrum_oracle \<Rightarrow> string \<Rightarrow> sol_error + uint256" where
  "get_price s alias =
     (let price = no_price s alias in
      if price = 0 \<and> no_price_timestamp_ms s alias = 0 then Inl UnknownId else Inr price)"

definition get_price_data :: "'v nitrum_oracle \<Rightarrow> string \<Rightarrow> sol_error + uint256 \<times> u64" where
  "get_price_data s alias =
     (let timestamp_ms = no_price_timestamp_ms s alias in
      if timestamp_ms = 0 then Inl UnknownId else Inr (no_price s alias, timestamp_ms))"

definition has_price :: "'v nitrum_oracle \<Rightarrow> string \<Rightarrow> bool" where
  "has_price s alias \<longleftrightarrow> no_price_timestamp_ms s alias \<noteq> 0"

section \<open>What an accepted update was\<close>

text \<open>An accepted update: the block, the document, what the validator read of it, the pins and the body.\<close>

record ('v, 'c) accepted =
  ac_block_time :: uint256
  ac_max_age :: uint256
  ac_tbs :: bytes
  ac_ptrs :: "'c attestation_ptrs"
  ac_pcr0_hash :: bytes
  ac_content_hash :: bytes
  ac_body :: bytes
  ac_payload :: price_payload
  ac_validated :: "address \<times> bytes \<times> bytes \<times> 'v \<times> 'v"

text \<open>
  The conditions of an update: a validated document whose PCR0 and module are the pinned ones, which
  is not too old, and whose user data commits to exactly this body, the canonical text of its payload.
\<close>

definition well_attested :: "ext \<Rightarrow> ('v, 'c) nitro_lib \<Rightarrow> ('v, 'c) accepted \<Rightarrow> bool" where
  "well_attested X L u \<longleftrightarrow>
     (case ac_validated u of (validator, signature, hints, v, v') \<Rightarrow>
        nl_validate L validator (ac_tbs u) signature hints v = Inr (ac_ptrs u, v'))
     \<and> (\<exists>c cs pcr0. ap_pcrs (ac_ptrs u) = c # cs \<and> nl_slice L (ac_tbs u) c = Inr pcr0 \<and> \<not> is_all_zero pcr0
          \<and> nl_keccak L pcr0 = ac_pcr0_hash u)
     \<and> nl_slice L (ac_tbs u) (ap_user_data (ac_ptrs u)) = Inr (ac_content_hash u @ sha256 X (ac_body u))
     \<and> ac_pcr0_hash u \<noteq> ZERO32 \<and> ac_content_hash u \<noteq> ZERO32
     \<and> unat (ac_block_time u) < unat (ap_timestamp (ac_ptrs u)) div 1000 + unat (ac_max_age u)
     \<and> list_all valid_id (pp_ids (ac_payload u))
     \<and> encode_prices (pp_ids (ac_payload u)) (pp_prices (ac_payload u)) = Inr (ac_body u)"

text \<open>The last of the accepted payloads, the newest first, that names an id, and when it was made.\<close>

fun quoted_price :: "('v, 'c) accepted list \<Rightarrow> string \<Rightarrow> (uint256 \<times> u64) option" where
  "quoted_price [] alias = None"
| "quoted_price (u # us) alias =
     (case map_of (rev (zip (pp_ids (ac_payload u)) (pp_prices (ac_payload u)))) alias of
        Some p \<Rightarrow> Some (p, ap_timestamp (ac_ptrs u))
      | None \<Rightarrow> quoted_price us alias)"

section \<open>Calls\<close>

text \<open>
  The contract's life: successful calls by anyone in any order, each in a block of its own time, and
  changes of the other contracts in between. The list has the accepted updates, the newest first.
\<close>

inductive oracle_run :: "ext \<Rightarrow> ('v, 'c) nitro_lib \<Rightarrow> 'v nitrum_oracle \<Rightarrow> ('v, 'c) accepted list \<Rightarrow> bool" for X L where
  created: "oracle_new env validator max_age chain = Inr s \<Longrightarrow> oracle_run X L s []"
| pinned: "oracle_run X L s us \<Longrightarrow> set_enclave env pcr0_hash content_hash s = Inr s' \<Longrightarrow> oracle_run X L s' us"
| transferred: "oracle_run X L s us \<Longrightarrow> transfer_ownership env new_owner s = Inr s' \<Longrightarrow> oracle_run X L s' us"
| elsewhere: "oracle_run X L s us \<Longrightarrow> oracle_run X L (s\<lparr> no_chain := chain \<rparr>) us"
| updated: "oracle_run X L s us \<Longrightarrow> update_price X L env tbs signature hints body s = Inr s' \<Longrightarrow>
    nl_validate L (no_validator s) tbs signature hints (no_chain s) = Inr (ptrs, chain) \<Longrightarrow>
    parse_prices body = Inr payload \<Longrightarrow>
    oracle_run X L s' (\<lparr> ac_block_time = ce_timestamp env, ac_max_age = no_max_age s, ac_tbs = tbs, ac_ptrs = ptrs,
      ac_pcr0_hash = no_pcr0_hash s, ac_content_hash = no_content_hash s, ac_body = body, ac_payload = payload,
      ac_validated = (no_validator s, signature, hints, no_chain s, chain) \<rparr> # us)"

lemma write_prices_Inr:
  "length ids = length prices \<Longrightarrow> \<exists>log. write_prices ts ids prices s = Inr (s\<lparr>
     no_price := (\<lambda>alias. case map_of (rev (zip ids prices)) alias of Some p \<Rightarrow> p | None \<Rightarrow> no_price s alias),
     no_price_timestamp_ms := (\<lambda>alias. if alias \<in> set ids then ts else no_price_timestamp_ms s alias),
     no_log := log \<rparr>)"
proof (induction ids prices arbitrary: s rule: list_induct2)
  case (Cons a0 ids price prices)
  let ?s = "emit (PriceUpdated a0 price ts) (s\<lparr> no_price := (no_price s)(a0 := price),
       no_price_timestamp_ms := (no_price_timestamp_ms s)(a0 := ts) \<rparr>)"
  obtain log where "write_prices ts ids prices ?s = Inr (?s\<lparr>
     no_price := (\<lambda>a. case map_of (rev (zip ids prices)) a of Some p \<Rightarrow> p | None \<Rightarrow> no_price ?s a),
     no_price_timestamp_ms := (\<lambda>a. if a \<in> set ids then ts else no_price_timestamp_ms ?s a),
     no_log := log \<rparr>)" using Cons.IH [of ?s] by blast
  moreover have "(\<lambda>a. case map_of (rev (zip ids prices)) a of Some p \<Rightarrow> p | None \<Rightarrow> no_price ?s a)
      = (\<lambda>a. case map_of (rev (zip (a0 # ids) (price # prices))) a of Some p \<Rightarrow> p | None \<Rightarrow> no_price s a)"
    by (rule ext) (simp add: emit_def map_add_def split: option.split)
  moreover have "(\<lambda>a. if a \<in> set ids then ts else no_price_timestamp_ms ?s a)
      = (\<lambda>a. if a \<in> set (a0 # ids) then ts else no_price_timestamp_ms s a)"
    by (rule ext) (simp add: emit_def)
  ultimately show ?case by (intro exI [of _ log]) (simp add: emit_def)
next
  case Nil
  show ?case by (cases s, intro exI [of _ "no_log s"]) simp
qed

text \<open>What an accepted update checked, and what it wrote.\<close>

lemma update_price_Inr:
  assumes "update_price X L env tbs signature hints body s = Inr s'"
    and "nl_validate L (no_validator s) tbs signature hints (no_chain s) = Inr (ptrs, chain)"
    and "parse_prices body = Inr payload"
  shows "no_pcr0_hash s \<noteq> ZERO32" "no_content_hash s \<noteq> ZERO32"
    "check_pcr0 L s tbs ptrs = Inr ()" "check_freshness env s (ap_timestamp ptrs) = Inr ()"
    "check_attested_data X L s tbs ptrs body = Inr ()"
    "write_prices (ap_timestamp ptrs) (pp_ids payload) (pp_prices payload)
       (s\<lparr> no_chain := chain, no_last_timestamp_ms := ap_timestamp ptrs \<rparr>) = Inr s'"
proof -
  have same: "check_pcr0 L (s\<lparr> no_chain := chain \<rparr>) tbs ptrs = check_pcr0 L s tbs ptrs"
    "check_freshness env (s\<lparr> no_chain := chain \<rparr>) (ap_timestamp ptrs) = check_freshness env s (ap_timestamp ptrs)"
    "check_attested_data X L (s\<lparr> no_chain := chain \<rparr>) tbs ptrs body = check_attested_data X L s tbs ptrs body"
    by (simp_all add: check_pcr0_def check_freshness_def check_attested_data_def cong: if_cong list.case_cong)
  show "no_pcr0_hash s \<noteq> ZERO32" "no_content_hash s \<noteq> ZERO32"
    using assms(1) by (auto simp: update_price_def split: if_splits)
  with assms show "check_pcr0 L s tbs ptrs = Inr ()" "check_freshness env s (ap_timestamp ptrs) = Inr ()"
    "check_attested_data X L s tbs ptrs body = Inr ()"
    "write_prices (ap_timestamp ptrs) (pp_ids payload) (pp_prices payload)
       (s\<lparr> no_chain := chain, no_last_timestamp_ms := ap_timestamp ptrs \<rparr>) = Inr s'"
    by (simp_all add: update_price_def Let_def bind_r_Inr_iff same split: if_splits)
qed

lemma check_pcr0_Inr:
  "check_pcr0 L s tbs ptrs = Inr () \<longleftrightarrow>
     (\<exists>c cs pcr0. ap_pcrs ptrs = c # cs \<and> \<not> nl_is_null L c \<and> nl_slice L tbs c = Inr pcr0 \<and> \<not> is_all_zero pcr0
        \<and> nl_keccak L pcr0 = no_pcr0_hash s)"
  by (auto simp: check_pcr0_def bind_r_Inr_iff split: list.splits if_splits)

lemma check_freshness_Inr:
  "check_freshness env s ts = Inr () \<longleftrightarrow>
     unat ts div 1000 + unat (no_max_age s) < 2 ^ 256
     \<and> unat (ce_timestamp env) < unat ts div 1000 + unat (no_max_age s) \<and> no_last_timestamp_ms s < ts"
  by (auto simp: check_freshness_def Let_def not_le)

lemma check_attested_data_Inr:
  "check_attested_data X L s tbs ptrs body = Inr () \<longleftrightarrow>
     \<not> nl_is_null L (ap_user_data ptrs)
     \<and> (\<exists>ud. nl_slice L tbs (ap_user_data ptrs) = Inr ud \<and> length ud = 64 \<and> take 32 ud = no_content_hash s
          \<and> take 32 (drop 32 ud) = sha256 X body)"
  by (cases "nl_slice L tbs (ap_user_data ptrs)") (simp_all add: check_attested_data_def del: take_all take_all_iff)

lemma user_data_parts:
  assumes "length ud = 64" shows "ud = take 32 ud @ take 32 (drop 32 ud)"
  using assms append_take_drop_id [of 32 ud] by simp

end
