(* ===== verification/Oracle_Properties.thy ===== *)
theory Oracle_Properties
  imports Oracle_Contract Host_Properties Runtime_Properties
begin

text \<open>
  What the price oracle promises from end to end: the contract reads exactly the texts the guest
  writes, its storage is what attested answers said, and a price the guest read in the enclave is
  the price the contract gives out.
\<close>

section \<open>The canonical text\<close>

text \<open>
  C15: Guest and contract agree on the text of the prices. What the contract accepts is exactly
  one print: safe ids, at least one, as many prices, no white space and no leading zeros, so that
  printing the payload again gives the body (the contract's own check of this never fails). And
  whatever the guest prints for safe ids is accepted and read as those ids and prices.
\<close>

theorem canonical_text_agreed:
  shows "(parse_prices body = Inr p \<longrightarrow>
       pp_ids p \<noteq> [] \<and> list_all is_safe_id (pp_ids p) \<and> length (pp_prices p) = length (pp_ids p)
       \<and> encode_prices (pp_ids p) (pp_prices p) = Inr body)
    \<and> (ids \<noteq> [] \<and> list_all is_safe_id ids \<and> length prices = length ids \<longrightarrow>
       parse_prices (encode_canonical ids prices) = Inr \<lparr> pp_ids = ids, pp_prices = map ucast prices \<rparr>)"
  using parse_prices_sound [of body p] canonical_agrees(2) [of prices ids]
  by (auto simp: valid_id_safe [abs_def] encode_prices_text split: if_splits)

theorem canonical_text_agreed_witness:
  "parse_prices (encode_canonical [''eth'', ''btc''] [350012000000, 9500000000000])
     = Inr \<lparr> pp_ids = [''eth'', ''btc''], pp_prices = [350012000000, 9500000000000] \<rparr>
   \<and> encode_prices [''eth'', ''btc''] [350012000000, 9500000000000]
     = Inr (encode_canonical [''eth'', ''btc''] [350012000000, 9500000000000])"
proof -
  have s: "list_all is_safe_id [''eth'', ''btc'']"
    by (simp add: is_safe_id_def is_ascii_lowercase_def byte_def)
  have p: "parse_prices (encode_canonical [''eth'', ''btc''] [350012000000, 9500000000000])
     = Inr \<lparr> pp_ids = [''eth'', ''btc''], pp_prices = [350012000000, 9500000000000] \<rparr>"
    using canonical_text_agreed [of _ _ "[''eth'', ''btc'']" "[350012000000, 9500000000000]"] s by simp
  with canonical_text_agreed [of _ "\<lparr> pp_ids = [''eth'', ''btc''], pp_prices = [350012000000, 9500000000000] \<rparr>"]
  show ?thesis by simp
qed

section \<open>The storage\<close>

text \<open>The storage after the accepted updates \<open>us\<close>, the newest first.\<close>

definition stored_at :: "'v nitrum_oracle \<Rightarrow> (uint256 \<times> u64) option \<Rightarrow> string \<Rightarrow> bool" where
  "stored_at s q a \<longleftrightarrow>
     (case q of
        None \<Rightarrow> no_price s a = 0 \<and> no_price_timestamp_ms s a = 0
      | Some (p, t) \<Rightarrow> no_price s a = p \<and> no_price_timestamp_ms s a = t \<and> t \<noteq> 0)"

definition storage_of :: "'v nitrum_oracle \<Rightarrow> ('v, 'c) accepted list \<Rightarrow> bool" where
  "storage_of s us \<longleftrightarrow>
     (\<forall>a. stored_at s (quoted_price us a) a)
     \<and> no_last_timestamp_ms s = (case us of [] \<Rightarrow> 0 | u # _ \<Rightarrow> ap_timestamp (ac_ptrs u))"

lemma storage_of_cong:
  "no_price s' = no_price s \<Longrightarrow> no_price_timestamp_ms s' = no_price_timestamp_ms s \<Longrightarrow>
   no_last_timestamp_ms s' = no_last_timestamp_ms s \<Longrightarrow> storage_of s' us \<longleftrightarrow> storage_of s us"
  by (simp only: storage_of_def stored_at_def)

lemma map_of_zip_None: "length ids = length prices \<Longrightarrow> map_of (rev (zip ids prices)) a = None \<longleftrightarrow> a \<notin> set ids"
  by (simp add: map_of_eq_None_iff flip: set_map)

lemma written:
  assumes "length ids = length prices" and "write_prices ts ids prices (s\<lparr> no_chain := v, no_last_timestamp_ms := ts \<rparr>) = Inr s'"
  shows "no_price s' a = (case map_of (rev (zip ids prices)) a of Some p \<Rightarrow> p | None \<Rightarrow> no_price s a)"
    "no_price_timestamp_ms s' a = (if a \<in> set ids then ts else no_price_timestamp_ms s a)"
    "no_last_timestamp_ms s' = ts"
proof -
  let ?s = "s\<lparr> no_chain := v, no_last_timestamp_ms := ts \<rparr>"
  obtain log where "write_prices ts ids prices ?s = Inr (?s\<lparr>
     no_price := (\<lambda>a. case map_of (rev (zip ids prices)) a of Some p \<Rightarrow> p | None \<Rightarrow> no_price ?s a),
     no_price_timestamp_ms := (\<lambda>a. if a \<in> set ids then ts else no_price_timestamp_ms ?s a),
     no_log := log \<rparr>)" using write_prices_Inr [OF assms(1), of ts ?s] by blast
  with assms(2) show "no_price s' a = (case map_of (rev (zip ids prices)) a of Some p \<Rightarrow> p | None \<Rightarrow> no_price s a)"
    "no_price_timestamp_ms s' a = (if a \<in> set ids then ts else no_price_timestamp_ms s a)"
    "no_last_timestamp_ms s' = ts"
    by (auto split: option.split)
qed

lemma run_storage:
  "oracle_run X L s us \<Longrightarrow> storage_of s us \<and> list_all (well_attested X L) us
     \<and> sorted_wrt (\<lambda>u v. ap_timestamp (ac_ptrs v) < ap_timestamp (ac_ptrs u)) us"
proof (induction rule: oracle_run.induct)
  case (created env validator max_age chain s)
  then show ?case by (auto simp: oracle_new_def storage_of_def stored_at_def emit_def split: if_splits)
next
  case (pinned s us env pcr0_hash content_hash s')
  then have "no_price s' = no_price s" "no_price_timestamp_ms s' = no_price_timestamp_ms s"
    "no_last_timestamp_ms s' = no_last_timestamp_ms s"
    by (auto simp: set_enclave_def only_owner_def emit_def split: if_splits)
  from storage_of_cong [OF this, of us] pinned.IH show ?case by simp
next
  case (transferred s us env new_owner s')
  then have "no_price s' = no_price s" "no_price_timestamp_ms s' = no_price_timestamp_ms s"
    "no_last_timestamp_ms s' = no_last_timestamp_ms s"
    by (auto simp: transfer_ownership_def only_owner_def emit_def split: if_splits)
  from storage_of_cong [OF this, of us] transferred.IH show ?case by simp
next
  case (elsewhere s us chain)
  with storage_of_cong [of "s\<lparr> no_chain := chain \<rparr>" s us] show ?case by simp
next
  case (updated s us env tbs signature hints body s' ptrs chain payload)
  note u = update_price_Inr [OF updated(2,3,4)]
  note fresh = u(4) [unfolded check_freshness_Inr]
  have pay: "list_all valid_id (pp_ids payload)" "encode_prices (pp_ids payload) (pp_prices payload) = Inr body"
    using parse_prices_sound [OF updated(4)] by simp_all
  then have len: "length (pp_ids payload) = length (pp_prices payload)" by (auto simp: encode_prices_text split: if_splits)
  have pos: "ap_timestamp ptrs \<noteq> 0" using fresh by auto
  note w = written [OF len u(6)]
  let ?u = "\<lparr> ac_block_time = ce_timestamp env, ac_max_age = no_max_age s, ac_tbs = tbs, ac_ptrs = ptrs,
      ac_pcr0_hash = no_pcr0_hash s, ac_content_hash = no_content_hash s, ac_body = body, ac_payload = payload,
      ac_validated = (no_validator s, signature, hints, no_chain s, chain) \<rparr>"
  obtain ud where ud: "nl_slice L tbs (ap_user_data ptrs) = Inr ud" "length ud = 64" "take 32 ud = no_content_hash s"
    "take 32 (drop 32 ud) = sha256 X body" using u(5) [unfolded check_attested_data_Inr] by blast
  have "ud = no_content_hash s @ sha256 X body" using user_data_parts [OF ud(2)] unfolding ud(3,4) .
  then have "well_attested X L ?u"
    using u(1-3) fresh pay ud(1) updated(3) by (auto simp: well_attested_def check_pcr0_Inr)
  moreover have "storage_of s' (?u # us)"
  proof -
    have "stored_at s' (quoted_price (?u # us) a) a" for a
    proof (cases "map_of (rev (zip (pp_ids payload) (pp_prices payload))) a")
      case None
      moreover from this have "a \<notin> set (pp_ids payload)" using map_of_zip_None [OF len, of a] by blast
      moreover have "stored_at s (quoted_price us a) a" using updated.IH by (simp add: storage_of_def)
      ultimately show ?thesis by (auto simp: stored_at_def w split: option.splits)
    next
      case (Some p)
      then have "a \<in> set (pp_ids payload)" by (metis map_of_zip_None [OF len] option.distinct(1))
      with Some pos show ?thesis by (simp add: stored_at_def w)
    qed
    then show ?thesis by (simp add: storage_of_def w)
  qed
  moreover have "ap_timestamp (ac_ptrs v) < ap_timestamp ptrs" if "v \<in> set us" for v
  proof (cases us)
    case (Cons u0 us0)
    then have "ap_timestamp (ac_ptrs v) \<le> ap_timestamp (ac_ptrs u0)" using updated.IH that by auto
    moreover have "ap_timestamp (ac_ptrs u0) < ap_timestamp ptrs"
      using fresh updated.IH Cons by (simp add: storage_of_def)
    ultimately show ?thesis by simp
  qed (use that in simp)
  ultimately show ?case using updated.IH by simp
qed

text \<open>
  C14: The contract's prices are attested prices. Whatever calls anyone makes, in any order, the
  price and the time it gives for an id are those of the newest accepted body that names the id, an
  id that no accepted body names is unknown, and the times of accepted bodies strictly increase.
  Every accepted body is the canonical text of safe ids with their prices, and came with a
  validated document, not too old in that block, whose PCR0 (not that of a debug image) was the
  pinned one and whose user data is the pinned module's hash followed by the hash of that body.
\<close>

theorem prices_are_attested:
  assumes "oracle_run X L s us"
  shows "(\<forall>alias. case quoted_price us alias of
        None \<Rightarrow> get_price s alias = Inl UnknownId \<and> get_price_data s alias = Inl UnknownId \<and> \<not> has_price s alias
      | Some (p, t) \<Rightarrow> get_price s alias = Inr p \<and> get_price_data s alias = Inr (p, t) \<and> has_price s alias)
    \<and> (\<forall>u \<in> set us. well_attested X L u)
    \<and> sorted_wrt (\<lambda>u v. ap_timestamp (ac_ptrs v) < ap_timestamp (ac_ptrs u)) us"
proof -
  note s = run_storage [OF assms]
  have "case quoted_price us a of
        None \<Rightarrow> get_price s a = Inl UnknownId \<and> get_price_data s a = Inl UnknownId \<and> \<not> has_price s a
      | Some (p, t) \<Rightarrow> get_price s a = Inr p \<and> get_price_data s a = Inr (p, t) \<and> has_price s a" for a
    using s [THEN conjunct1, unfolded storage_of_def, THEN conjunct1, rule_format, of a]
    by (auto simp: stored_at_def get_price_def get_price_data_def has_price_def Let_def split: option.splits)
  with s show ?thesis by (simp add: list_all_iff)
qed

section \<open>From the enclave to the chain\<close>

lemma header_str_absent:
  assumes "header_map H"
  shows "name \<noteq> ''content-type'' \<Longrightarrow> header_str H (an_headers (bytes_reply H status out body)) name = header_str H out name"
    and "name \<noteq> ''content-type'' \<Longrightarrow> header_str H (guest_headers H [(''content-type'', v)]) name = None"
proof -
  show "header_str H (an_headers (bytes_reply H status out body)) name = header_str H out name" if "name \<noteq> ''content-type''"
    using that by (simp add: header_str_def hl_get_def bytes_reply_def header_map.get_all_extend [OF assms]
        header_map.get_all_insert [OF assms] header_map.get_all_empty [OF assms])
  have ct: "to_ascii_lowercase ''content-type'' = ''content-type''"
    by (rule to_ascii_lowercase_id) (auto simp: is_ascii_uppercase_def byte_def)
  show "header_str H (guest_headers H [(''content-type'', v)]) name = None" if "name \<noteq> ''content-type''"
    using that header_map.name_lower [OF assms, of "''content-type''", unfolded ct]
    by (auto simp: guest_headers_def header_str_def hl_get_def header_map.get_all_insert [OF assms]
        header_map.get_all_empty [OF assms] split: option.split)
qed

lemma price_reply_ok: "response_ok (from_parts 200 [(''content-type'', ''application/json'')] body)"
  by (simp add: response_ok_def headers_ok_def from_parts_def utf8_valid_literal char_class_defs byte_def)

text \<open>The host passes the guest's answer on, with a document about it when the header has one.\<close>

lemma host_passes_on:
  assumes "externals X" and "json_codec J" and "header_map H"
    and res: "res = from_parts 200 [(''content-type'', ''application/json'')] body"
    and "encode_response X J res = Inr out"
    and "host_reply X J T H S (Some nonce) \<lparr> ir_output = out, ir_content_hash = wasm_hash \<rparr> w2 = (Inr answer, w3)"
    and "header_str H (an_headers answer) ATTESTATION_HEADER = Some (b64_encode X doc)"
  shows "an_body answer = body" "hs_attestor S (invoke_user_data X wasm_hash body) nonce w2 = (Inr (Some doc), w3)"
proof -
  have dec: "decode_response X J T out = Inr res"
    using response_read_back [OF assms(1,2) _ assms(5)] price_reply_ok [of body] by (simp add: res)
  let ?g = "hl_insert H SHASUM_HEADER (content_hash_to_hex X wasm_hash) (guest_headers H (rs_headers res))"
  obtain o' where o': "attest_header X H S wasm_hash (rs_body res) (Some nonce) ?g w2 = (Inr o', w3)"
    "answer = bytes_reply H (status_of_u16 (rs_status res)) o' (rs_body res)"
    using assms(6) dec externals.hex_header [OF assms(1,3)] by (auto simp: host_reply_def Let_def bind_io_Inr_iff)
  show b: "an_body answer = body" by (simp add: o'(2) bytes_reply_def res from_parts_def)
  obtain r where r: "attest_invoke X S wasm_hash (rs_body res) nonce w2 = (Inr r, w3)"
    "o' = (case r of None \<Rightarrow> ?g | Some d \<Rightarrow> hl_insert H ATTESTATION_HEADER (b64_encode X d) ?g)"
    by (rule externals.attest_header_some [OF assms(1,3) o'(1)])
  have ct: "ATTESTATION_HEADER \<noteq> ''content-type''" by (simp add: ATTESTATION_HEADER_def)
  have h: "header_str H o' ATTESTATION_HEADER = Some (b64_encode X doc)"
    using assms(7) header_str_absent(1) [OF assms(3) ct] by (simp add: o'(2))
  have "header_str H ?g ATTESTATION_HEADER = None"
    using header_str_absent(2) [OF assms(3) ct]
    by (simp add: header_map.str_insert_other [OF assms(3)] header_names_distinct res from_parts_def)
  with h r(2) obtain d where d: "r = Some d" by (cases r) auto
  then have "b64_encode X d = b64_encode X doc"
    using h r(2) by (simp add: externals.b64_header_read [OF assms(1,3)])
  then have "d = doc" using assms(1) base64_codec.benc_inj externals.axioms(3) by blast
  with d r(1) show "hs_attestor S (invoke_user_data X wasm_hash body) nonce w2 = (Inr (Some doc), w3)"
    by (simp add: attest_invoke_def res from_parts_def)
qed

text \<open>What the contract does with a body the guest wrote.\<close>

lemma update_lands:
  assumes "externals X" and "length prices = length ids" and "ids \<noteq> []" and "list_all is_safe_id ids"
    and "nl_validate L (no_validator s) tbs signature hints (no_chain s) = Inr (ptrs, chain)"
    and "no_pcr0_hash s \<noteq> ZERO32" and "no_content_hash s \<noteq> ZERO32"
    and "check_pcr0 L s tbs ptrs = Inr ()" and "check_freshness env s (ap_timestamp ptrs) = Inr ()"
    and "\<not> nl_is_null L (ap_user_data ptrs)"
    and "nl_slice L tbs (ap_user_data ptrs) = Inr (no_content_hash s @ sha256 X (encode_canonical ids prices))"
    and "length (no_content_hash s) = 32"
  shows "\<exists>s'. update_price X L env tbs signature hints (encode_canonical ids prices) s = Inr s'
     \<and> (\<forall>a. no_price s' a = (case map_of (rev (zip ids (map ucast prices))) a of Some p \<Rightarrow> p | None \<Rightarrow> no_price s a)
          \<and> no_price_timestamp_ms s' a = (if a \<in> set ids then ap_timestamp ptrs else no_price_timestamp_ms s a))
     \<and> ap_timestamp ptrs \<noteq> 0"
proof -
  let ?body = "encode_canonical ids prices" and ?s = "s\<lparr> no_chain := chain \<rparr>"
  have "length (sha256 X ?body) = 32" using assms(1) sha256_fn.sha_length externals.axioms(2) by blast
  then have "check_attested_data X L s tbs ptrs ?body = Inr ()"
    using assms(10-12) by (simp add: check_attested_data_Inr)
  then have c: "check_pcr0 L ?s tbs ptrs = Inr ()" "check_freshness env ?s (ap_timestamp ptrs) = Inr ()"
    "check_attested_data X L ?s tbs ptrs ?body = Inr ()"
    using assms(8,9) unfolding check_pcr0_Inr check_freshness_Inr check_attested_data_Inr by simp_all
  note p = canonical_agrees [OF assms(2-4)]
  have len: "length ids = length (map (ucast :: u64 \<Rightarrow> uint256) prices)" using assms(2) by simp
  obtain s' where s': "write_prices (ap_timestamp ptrs) ids (map ucast prices)
      (s\<lparr> no_chain := chain, no_last_timestamp_ms := ap_timestamp ptrs \<rparr>) = Inr s'"
    using write_prices_Inr [OF len] by blast
  have "update_price X L env tbs signature hints ?body s = Inr s'"
    using assms(5-7) c p s' by (simp add: update_price_def Let_def)
  moreover have "ap_timestamp ptrs \<noteq> 0" using assms(9) unfolding check_freshness_Inr by auto
  ultimately show ?thesis using written(1,2) [OF len s'] by blast
qed

text \<open>
  C13: A price lands as the guest read it. The guest answered a request with status 200, the host
  sent its answer on with an attestation document, and the contract, which pins the module and the
  image, gets the body and the document. If the attestor's documents carry the user data they are
  made for, and the validator reads it back from a fresh document, the update is accepted; then for
  every id of the request the contract gives the price the web service had for it, scaled by
  10^8 and rounded, and the exact price for a price of at most eight decimals below about eleven
  million dollars (which the guest's double is within one unit of its last place of). No other
  price changes.
\<close>

theorem enclave_price_lands:
  assumes "externals X" and "json_codec J" and "header_map H"
    and "oracle_handler J float fetch req w = (Inr (RResponse res), w1)" and "rs_status res = 200"
    and "encode_response X J res = Inr out"
    and "host_reply X J T H S (Some nonce) \<lparr> ir_output = out, ir_content_hash = wasm_hash \<rparr> w2 = (Inr answer, w3)"
    and "header_str H (an_headers answer) ATTESTATION_HEADER = Some (b64_encode X doc)"
    and "\<forall>ud n v d v'. hs_attestor S ud n v = (Inr (Some d), v') \<longrightarrow> user_data_of d = ud"
    and "nl_validate L (no_validator s) (tbs_of doc) (signature_of doc) hints (no_chain s) = Inr (ptrs, chain)"
    and "nl_slice L (tbs_of doc) (ap_user_data ptrs) = Inr (user_data_of doc)" and "\<not> nl_is_null L (ap_user_data ptrs)"
    and "check_pcr0 L s (tbs_of doc) ptrs = Inr ()" and "check_freshness env s (ap_timestamp ptrs) = Inr ()"
    and "no_content_hash s = content_hash_bytes wasm_hash" and "content_hash_ok wasm_hash"
    and "no_pcr0_hash s \<noteq> ZERO32" and "no_content_hash s \<noteq> ZERO32"
  shows "\<exists>ids upstream raw s'. rq_json J ''InvokeBody'' de_invoke_body req = Inr ids
     \<and> fetch (price_url (map map_id ids)) w = (Inr upstream, w1)
     \<and> rs_json J ''HashMap'' (de_price_map float) upstream = Inr raw
     \<and> update_price X L env (tbs_of doc) (signature_of doc) hints (an_body answer) s = Inr s'
     \<and> (\<forall>a \<in> set ids. \<exists>entry. raw (map_id a) = Some entry
          \<and> get_price s' a = Inr (ucast (usd_to_fixed (cg_usd entry)))
          \<and> (\<forall>d. is_finite (cg_usd entry) \<and> 0 < d \<and> d < 2 ^ 50
                \<and> \<bar>f64_real (cg_usd entry) - real d / 10 ^ 8\<bar> \<le> real d / 10 ^ 8 / 2 ^ 52
               \<longrightarrow> get_price s' a = Inr (word_of_nat d)))
     \<and> (\<forall>a. a \<notin> set ids \<longrightarrow> get_price s' a = get_price s a)"
  using assms(4)
proof (cases rule: oracle_answer)
  case (refused msg)
  with assms(5) show ?thesis by (simp add: err_json_400)
next
  case (prices ids raw prices upstream)
  note host = host_passes_on [OF assms(1-3) prices(9) assms(6-8)]
  have "user_data_of doc = no_content_hash s @ sha256 X (encode_canonical ids prices)"
    using assms(9) [rule_format, OF host(2)] by (simp add: assms(15) invoke_user_data_def content_hash_from_bytes_def)
  then obtain s' where s': "update_price X L env (tbs_of doc) (signature_of doc) hints (an_body answer) s = Inr s'"
    "\<And>a. no_price s' a = (case map_of (rev (zip ids (map ucast prices))) a of Some p \<Rightarrow> p | None \<Rightarrow> no_price s a)"
    "\<And>a. no_price_timestamp_ms s' a = (if a \<in> set ids then ap_timestamp ptrs else no_price_timestamp_ms s a)"
    "ap_timestamp ptrs \<noteq> 0"
    using update_lands [OF assms(1) prices(7,2,3) assms(10,17,18,13,14,12)] assms(11,15,16) host(1)
    by (auto simp: content_hash_ok_def)
  have here: "\<exists>entry. raw (map_id a) = Some entry \<and> get_price s' a = Inr (ucast (usd_to_fixed (cg_usd entry)))"
    if "a \<in> set ids" for a
  proof -
    have "map_of (rev (zip ids (map (ucast :: u64 \<Rightarrow> uint256) prices))) a \<noteq> None"
      using that map_of_zip_None [of ids "map ucast prices" a] prices(7) by auto
    then obtain p where p: "map_of (rev (zip ids (map (ucast :: u64 \<Rightarrow> uint256) prices))) a = Some p" by blast
    then have "(a, p) \<in> set (zip ids (map ucast prices))" by (auto dest: map_of_SomeD)
    then obtain i where i: "i < length ids" "ids ! i = a" "p = ucast (prices ! i)"
      using prices(7) by (auto simp: in_set_zip)
    then obtain entry where "raw (map_id a) = Some entry" "prices ! i = usd_to_fixed (cg_usd entry)" using prices(8) by blast
    with p i s'(2-4) that show ?thesis by (simp add: get_price_def)
  qed
  have exact: "(ucast (usd_to_fixed v) :: uint256) = word_of_nat d"
    if "is_finite v" "0 < d" "d < 2 ^ 50" "\<bar>f64_real v - real d / 10 ^ 8\<bar> \<le> real d / 10 ^ 8 / 2 ^ 52" for v d
    using usd_to_fixed_near [OF that] that(3)
    by (simp add: word_unat_eq_iff unsigned_ucast_eq unat_of_nat take_bit_nat_eq_self)
  have there: "get_price s' a = get_price s a" if "a \<notin> set ids" for a
  proof -
    have "map_of (rev (zip ids (map (ucast :: u64 \<Rightarrow> uint256) prices))) a = None"
      using that map_of_zip_None [of ids "map ucast prices" a] prices(7) by simp
    with that s'(2,3) show ?thesis by (simp add: get_price_def)
  qed
  show ?thesis
    using prices(1,4,6) s'(1) here there exact
    by (intro exI [of _ ids] exI [of _ upstream] exI [of _ raw] exI [of _ s'] conjI ballI allI impI) fastforce+
qed

section \<open>A concrete chain\<close>

text \<open>
  A validator that takes every document at its word: its first 48 bytes are the measurement, the next
  64 the user data.
\<close>

definition demo_nitro :: "(unit, nat \<times> nat) nitro_lib" where
  "demo_nitro =
     \<lparr> nl_validate = (\<lambda>_ tbs signature hints v.
         Inr (\<lparr> ap_pcrs = [(0, 48)], ap_user_data = (48, 64), ap_timestamp = 1700000000000 \<rparr>, v)),
       nl_is_null = (\<lambda>(_, n). n = 0), nl_slice = (\<lambda>b (i, n). if i + n \<le> length b then Inr (take n (drop i b)) else Inl SolPanic),
       nl_keccak = ref_sha \<rparr>"

definition demo_ptrs :: "(nat \<times> nat) attestation_ptrs" where
  "demo_ptrs = \<lparr> ap_pcrs = [(0, 48)], ap_user_data = (48, 64), ap_timestamp = 1700000000000 \<rparr>"

definition demo_pcr0 :: bytes where "demo_pcr0 = replicate 48 (CHR ''p'')"

definition demo_module :: content_hash where "demo_module = content_hash_from_bytes ref_ext ''oracle''"

definition demo_env :: call_env where "demo_env = \<lparr> ce_sender = 1, ce_timestamp = 1700000100 \<rparr>"

definition demo_oracle :: "unit nitrum_oracle" where
  "demo_oracle =
     \<lparr> no_validator = 7, no_max_age = 3600, no_owner = 1, no_pcr0_hash = ref_sha demo_pcr0,
       no_content_hash = content_hash_bytes demo_module, no_last_timestamp_ms = 0, no_price = (\<lambda>_. 0),
       no_price_timestamp_ms = (\<lambda>_. 0),
       no_log = [OwnershipTransferred 0 1, EnclaveSet (ref_sha demo_pcr0) (content_hash_bytes demo_module)],
       no_chain = () \<rparr>"

lemma demo_pins: "ref_sha demo_pcr0 \<noteq> ZERO32" "content_hash_bytes demo_module \<noteq> ZERO32"
    "length (content_hash_bytes demo_module) = 32"
proof -
  have "hd (ref_sha demo_pcr0) \<noteq> hd ZERO32" "hd (content_hash_bytes demo_module) \<noteq> hd ZERO32"
    by code_simp+
  then show "ref_sha demo_pcr0 \<noteq> ZERO32" "content_hash_bytes demo_module \<noteq> ZERO32" by auto
  show "length (content_hash_bytes demo_module) = 32" by code_simp
qed

lemma demo_created: "oracle_run ref_ext demo_nitro demo_oracle []"
proof -
  let ?s = "\<lparr> no_validator = 7, no_max_age = 3600, no_owner = 1, no_pcr0_hash = ZERO32, no_content_hash = ZERO32,
      no_last_timestamp_ms = 0, no_price = (\<lambda>_. 0), no_price_timestamp_ms = (\<lambda>_. 0),
      no_log = [OwnershipTransferred 0 1], no_chain = () \<rparr>"
  have "oracle_new demo_env 7 3600 () = Inr ?s" by (simp add: oracle_new_def demo_env_def emit_def)
  then have "oracle_run ref_ext demo_nitro ?s []" by (rule oracle_run.created)
  moreover have "set_enclave demo_env (ref_sha demo_pcr0) (content_hash_bytes demo_module) ?s = Inr demo_oracle"
    using demo_pins by (simp add: set_enclave_def only_owner_def demo_env_def emit_def demo_oracle_def)
  ultimately show ?thesis by (rule oracle_run.pinned)
qed

lemma demo_checks:
  "nl_validate demo_nitro (no_validator demo_oracle) tbs signature hints (no_chain demo_oracle) = Inr (demo_ptrs, ())"
  "check_pcr0 demo_nitro demo_oracle (demo_pcr0 @ ud) demo_ptrs = Inr ()"
  "check_freshness demo_env demo_oracle (ap_timestamp demo_ptrs) = Inr ()"
  "\<not> nl_is_null demo_nitro (ap_user_data demo_ptrs)"
  "length ud = 64 \<Longrightarrow> nl_slice demo_nitro (demo_pcr0 @ ud) (ap_user_data demo_ptrs) = Inr ud"
proof -
  have "length demo_pcr0 = 48" "\<not> is_all_zero demo_pcr0" by code_simp+
  then show "check_pcr0 demo_nitro demo_oracle (demo_pcr0 @ ud) demo_ptrs = Inr ()"
    "length ud = 64 \<Longrightarrow> nl_slice demo_nitro (demo_pcr0 @ ud) (ap_user_data demo_ptrs) = Inr ud"
    by (simp_all add: check_pcr0_Inr demo_nitro_def demo_ptrs_def demo_oracle_def)
  show "check_freshness demo_env demo_oracle (ap_timestamp demo_ptrs) = Inr ()"
    by (simp add: check_freshness_Inr demo_env_def demo_oracle_def demo_ptrs_def)
qed (simp_all add: demo_nitro_def demo_ptrs_def)

lemma eth_safe: "list_all is_safe_id [''eth'']"
  by (simp add: is_safe_id_def is_ascii_lowercase_def byte_def)

definition demo_price_text :: bytes where "demo_price_text = encode_canonical [''eth''] [350000000000]"

theorem prices_are_attested_witness:
  "\<exists>s us. oracle_run ref_ext demo_nitro s us \<and> length us = 1 \<and> get_price s ''eth'' = Inr 350000000000
     \<and> get_price s ''btc'' = Inl UnknownId \<and> (\<forall>u \<in> set us. ac_body u = demo_price_text)"
proof -
  let ?ud = "content_hash_bytes demo_module @ sha256 ref_ext demo_price_text"
  have ud: "length ?ud = 64" using demo_pins(3) by (simp add: ref_ext_def ref_sha_def)
  have sl: "nl_slice demo_nitro (demo_pcr0 @ ?ud) (ap_user_data demo_ptrs) = Inr ?ud" by (rule demo_checks(5) [OF ud])
  obtain s where s: "update_price ref_ext demo_nitro demo_env (demo_pcr0 @ ?ud) [] [] demo_price_text demo_oracle = Inr s"
    using update_lands [OF ref_externals.externals_axioms _ _ eth_safe demo_checks(1) _ _ demo_checks(2,3,4),
        of "[350000000000]" ?ud "[]" "[]"] sl demo_pins
    by (auto simp: demo_price_text_def demo_oracle_def)
  have p: "parse_prices demo_price_text = Inr \<lparr> pp_ids = [''eth''], pp_prices = [350000000000] \<rparr>"
    using canonical_agrees(2) [of "[350000000000]" "[''eth'']"] eth_safe by (simp add: demo_price_text_def)
  note run = oracle_run.updated [OF demo_created s demo_checks(1) p]
  show ?thesis
    using prices_are_attested [OF run, THEN conjunct1, THEN spec, of "''eth''"]
      prices_are_attested [OF run, THEN conjunct1, THEN spec, of "''btc''"] run
    by (intro exI conjI) (assumption, auto)
qed

text \<open>The guest asked for \<open>eth\<close>, which the web service gives as 3500 dollars.\<close>

definition demo_ask :: fn_request where
  "demo_ask = \<lparr> rq_method = ''POST'', rq_path = ''/invoke/oracle'', rq_headers = [],
     rq_body = print_json (JObject [(''ids'', JArray [JString ''eth''])]) \<rparr>"

definition demo_page :: json where
  "demo_page = JObject [(''ethereum'', JObject [(''usd'', JNumber (JPos 3500))])]"

definition demo_fetch :: "string \<Rightarrow> (ref_world, rt_fault, fn_response) io" where
  "demo_fetch url = ret (from_parts 200 [] (print_json demo_page))"

definition demo_attestor_host :: "ref_world host_state" where
  "demo_attestor_host = demo_host\<lparr> hs_attestor := (\<lambda>user_data nonce. ret (Some user_data)) \<rparr>"

definition demo_prices :: fn_response where
  "demo_prices = from_parts 200 [(''content-type'', ''application/json'')] demo_price_text"

lemma demo_json: "json_ok j \<Longrightarrow> de j = Some a \<Longrightarrow> from_slice_as ref_json_text ty de (print_json j) = Inr a"
  by (rule from_slice_as_read [OF ref_json_text.json_codec_axioms]) (simp_all add: ref_json_text_def)

lemma demo_asked: "rq_json ref_json_text ''InvokeBody'' de_invoke_body demo_ask = Inr [''eth'']"
proof -
  have "json_ok (JObject [(''ids'', JArray [JString ''eth''])])"
    by (simp add: utf8_valid_literal char_class_defs byte_def)
  from demo_json [OF this, of de_invoke_body "[''eth'']" "''InvokeBody''"] show ?thesis
    by (simp add: rq_json_def demo_ask_def)
qed

lemma demo_raw:
  "rs_json ref_json_text ''HashMap'' (de_price_map float) (from_parts 200 [] (print_json demo_page))
     = Inr [''ethereum'' \<mapsto> \<lparr> cg_usd = Finite 3500 0 \<rparr>]"
proof -
  have ok: "json_ok demo_page" by (simp add: demo_page_def utf8_valid_literal char_class_defs byte_def)
  have "f64_of_int 3500 = Finite 3500 0" by code_simp
  then have de: "de_price_map float demo_page = Some [''ethereum'' \<mapsto> \<lparr> cg_usd = Finite 3500 0 \<rparr>]"
    by (simp add: demo_page_def de_coin_gecko_price_def fun_eq_iff)
  show ?thesis
    using demo_json [where de = "de_price_map float", OF ok de] by (simp add: rs_json_def from_parts_def)
qed

lemma demo_usd: "usd_to_fixed (Finite 3500 0) = 350000000000"
  by code_simp

lemma demo_handler:
  "oracle_handler ref_json_text float demo_fetch demo_ask w = (Inr (RResponse demo_prices), w)"
proof -
  have page: "rs_status (from_parts 200 [] (print_json demo_page)) = 200" by (simp add: from_parts_def)
  show ?thesis
    using eth_safe
    by (simp add: oracle_handler_def priced_ids_def demo_asked bind_io_def demo_fetch_def await_request_send map_id_def
        demo_raw page price_reply_def demo_usd demo_prices_def demo_price_text_def)
      (simp add: from_parts_def with_body_def with_header_def response_builder_def)
qed

lemma demo_guest_sent: "encode_response ref_ext ref_json_text demo_prices = Inr (print_json (wire_response ref_ext demo_prices))"
  by (simp add: encode_response_def ref_json_text_def)

text \<open>The host answers with the same body and the document in its header.\<close>

lemma demo_answer:
  "\<exists>answer. host_reply ref_ext ref_json_text ref_text ref_headers demo_attestor_host (Some demo_nonce)
       \<lparr> ir_output = print_json (wire_response ref_ext demo_prices), ir_content_hash = demo_module \<rparr> w = (Inr answer, w)
     \<and> an_body answer = demo_price_text
     \<and> header_str ref_headers (an_headers answer) ATTESTATION_HEADER
         = Some (b64_encode ref_ext (invoke_user_data ref_ext demo_module demo_price_text))"
proof -
  let ?ud = "invoke_user_data ref_ext demo_module demo_price_text"
  let ?out = "hl_insert ref_headers ATTESTATION_HEADER (b64_encode ref_ext ?ud) (hl_insert ref_headers SHASUM_HEADER
      (content_hash_to_hex ref_ext demo_module) (guest_headers ref_headers (rs_headers demo_prices)))"
  have body: "rs_body demo_prices = demo_price_text" by (simp add: demo_prices_def from_parts_def)
  have dec: "decode_response ref_ext ref_json_text ref_text (print_json (wire_response ref_ext demo_prices)) = Inr demo_prices"
    by (rule response_read_back [OF ref_externals.externals_axioms ref_json_text.json_codec_axioms _ demo_guest_sent])
      (simp add: demo_prices_def price_reply_ok)
  have "host_reply ref_ext ref_json_text ref_text ref_headers demo_attestor_host (Some demo_nonce)
       \<lparr> ir_output = print_json (wire_response ref_ext demo_prices), ir_content_hash = demo_module \<rparr> w
     = (Inr (bytes_reply ref_headers (status_of_u16 (rs_status demo_prices)) ?out demo_price_text), w)"
    by (simp add: host_reply_def dec bind_io_def ref_externals.hex_header ref_externals.b64_header ref_headers.header_map_axioms
        attest_header_def attest_invoke_def demo_attestor_host_def body Let_def)
  moreover have "header_str ref_headers (an_headers (bytes_reply ref_headers n ?out demo_price_text)) ATTESTATION_HEADER
      = Some (b64_encode ref_ext ?ud)" for n
    by (subst header_str_absent(1) [OF ref_headers.header_map_axioms])
      (simp_all add: ATTESTATION_HEADER_def [of] ref_externals.b64_header_read [OF ref_headers.header_map_axioms])
  ultimately show ?thesis by (auto simp: bytes_reply_def)
qed

theorem enclave_price_lands_witness:
  "\<exists>s. update_price ref_ext demo_nitro demo_env
        (demo_pcr0 @ invoke_user_data ref_ext demo_module demo_price_text) [] [] demo_price_text demo_oracle = Inr s
     \<and> get_price s ''eth'' = Inr 350000000000"
proof -
  let ?ud = "invoke_user_data ref_ext demo_module demo_price_text"
  have ud: "length ?ud = 64"
    using demo_pins(3) by (simp add: invoke_user_data_def content_hash_from_bytes_def ref_ext_def ref_sha_def)
  obtain answer where a: "host_reply ref_ext ref_json_text ref_text ref_headers demo_attestor_host (Some demo_nonce)
       \<lparr> ir_output = print_json (wire_response ref_ext demo_prices), ir_content_hash = demo_module \<rparr> demo_world
       = (Inr answer, demo_world)" "an_body answer = demo_price_text"
    "header_str ref_headers (an_headers answer) ATTESTATION_HEADER = Some (b64_encode ref_ext ?ud)"
    using demo_answer by blast
  have st: "rs_status demo_prices = 200" by (simp add: demo_prices_def from_parts_def)
  have doc: "\<forall>ud n v d v'. hs_attestor demo_attestor_host ud n v = (Inr (Some d), v') \<longrightarrow> id d = ud"
    by (simp add: demo_attestor_host_def)
  have hash: "no_content_hash demo_oracle = content_hash_bytes demo_module" "content_hash_ok demo_module"
    "no_pcr0_hash demo_oracle \<noteq> ZERO32" "no_content_hash demo_oracle \<noteq> ZERO32"
    using demo_pins by (simp_all add: demo_oracle_def content_hash_ok_def)
  obtain ids upstream raw s where r:
    "rq_json ref_json_text ''InvokeBody'' de_invoke_body demo_ask = Inr ids"
    "update_price ref_ext demo_nitro demo_env (demo_pcr0 @ ?ud) [] [] (an_body answer) demo_oracle = Inr s"
    "demo_fetch (price_url (map map_id ids)) demo_world = (Inr upstream, demo_world)"
    "rs_json ref_json_text ''HashMap'' (de_price_map (\<lambda>_. NotANumber)) upstream = Inr raw"
    "\<forall>a \<in> set ids. \<exists>entry. raw (map_id a) = Some entry \<and> get_price s a = Inr (ucast (usd_to_fixed (cg_usd entry)))
          \<and> (\<forall>d. is_finite (cg_usd entry) \<and> 0 < d \<and> d < 2 ^ 50
                \<and> \<bar>f64_real (cg_usd entry) - real d / 10 ^ 8\<bar> \<le> real d / 10 ^ 8 / 2 ^ 52
               \<longrightarrow> get_price s a = Inr (word_of_nat d))"
    using enclave_price_lands [where tbs_of = "\<lambda>d. demo_pcr0 @ d" and signature_of = "\<lambda>_. []" and hints = "[]"
        and user_data_of = id, OF ref_externals.externals_axioms ref_json_text.json_codec_axioms ref_headers.header_map_axioms
        demo_handler [of "\<lambda>_. NotANumber" demo_world] st demo_guest_sent a(1,3) doc demo_checks(1) _ demo_checks(4) demo_checks(2,3) hash]
      demo_checks(5) [OF ud] by auto
  have "ids = [''eth'']" "raw = [''ethereum'' \<mapsto> \<lparr> cg_usd = Finite 3500 0 \<rparr>]"
    using r(1,3,4) demo_asked demo_raw by (auto simp: demo_fetch_def)
  with r(2,5) a(2) demo_usd show ?thesis by (simp add: map_id_def)
qed

end
