(* ===== verification/Telemetry.thy ===== *)
theory Telemetry
  imports System
begin

text \<open>
  \<open>crates/telemetry/src\<close>: the configuration and the providers of the OpenTelemetry exporters
  (\<open>lib.rs\<close>, \<open>otel.rs\<close>, \<open>env.rs\<close>) and the middleware that measures requests (\<open>http.rs\<close>), which both
  servers put around their routers. The OpenTelemetry crates and the log subscriber are a parameter
  of operations on the world; the environment is a function from names to values. The clock and the
  instruments of the middleware have a state of their own next to the services' world.
\<close>

section \<open>Configuration\<close>

definition OTEL_EXPORTER_OTLP_ENDPOINT :: string where "OTEL_EXPORTER_OTLP_ENDPOINT = ''OTEL_EXPORTER_OTLP_ENDPOINT''"
definition OTEL_EXPORTER_OTLP_PROTOCOL :: string where "OTEL_EXPORTER_OTLP_PROTOCOL = ''OTEL_EXPORTER_OTLP_PROTOCOL''"
definition OTEL_SERVICE_NAME :: string where "OTEL_SERVICE_NAME = ''OTEL_SERVICE_NAME''"
definition NAMESPACE :: string where "NAMESPACE = ''nitrum''"

type_synonym env_vars = "string \<Rightarrow> string option"

record telemetry_config =
  tc_service_name :: string
  tc_resource_attributes :: "(string \<times> string) list"
  tc_otlp_endpoint :: "string option"

definition telemetry_config_new :: "string \<Rightarrow> telemetry_config" where
  "telemetry_config_new service_name =
     \<lparr> tc_service_name = service_name, tc_resource_attributes = [(''service.namespace'', NAMESPACE)],
       tc_otlp_endpoint = None \<rparr>"

definition with_otlp_endpoint :: "string option \<Rightarrow> telemetry_config \<Rightarrow> telemetry_config" where
  "with_otlp_endpoint endpoint cfg = cfg\<lparr> tc_otlp_endpoint := endpoint \<rparr>"

definition with_resource_attributes :: "(string \<times> string) list \<Rightarrow> telemetry_config \<Rightarrow> telemetry_config" where
  "with_resource_attributes attributes cfg = cfg\<lparr> tc_resource_attributes := tc_resource_attributes cfg @ attributes \<rparr>"

definition telemetry_service_name :: "env_vars \<Rightarrow> telemetry_config \<Rightarrow> string" where
  "telemetry_service_name env cfg =
     (case env OTEL_SERVICE_NAME of Some s \<Rightarrow> if s \<noteq> [] then s else tc_service_name cfg | None \<Rightarrow> tc_service_name cfg)"

section \<open>Providers\<close>

datatype transport = Grpc | HttpBinary | HttpJson

definition transport_from_env :: "env_vars \<Rightarrow> transport" where
  "transport_from_env env =
     (let p = to_ascii_lowercase (case env OTEL_EXPORTER_OTLP_PROTOCOL of Some s \<Rightarrow> s | None \<Rightarrow> ''grpc'') in
      if p = ''http/protobuf'' \<or> p = ''http'' then HttpBinary else if p = ''http/json'' then HttpJson else Grpc)"

datatype signal = Traces | Metrics | Logs

record 'p providers =
  pv_tracer :: 'p
  pv_meter :: 'p
  pv_logger :: 'p

text \<open>
  The exporters of the SDK, the providers made of one, what stops them and what dropping one does,
  and the installation of the log subscriber: its filter, and with exporters the targets whose log
  records are exported.
\<close>

record ('w, 'r, 'x, 'p) otel_sdk =
  os_resource :: "string \<Rightarrow> (string \<times> string) list \<Rightarrow> 'r"
  os_exporter :: "signal \<Rightarrow> transport \<Rightarrow> string \<Rightarrow> ('w, string, 'x) io"
  os_provider :: "signal \<Rightarrow> 'x \<Rightarrow> 'r \<Rightarrow> 'w \<Rightarrow> 'p \<times> 'w"
  os_shutdown :: "'p \<Rightarrow> 'w \<Rightarrow> 'w"
  os_drop :: "'p \<Rightarrow> 'w \<Rightarrow> 'w"
  os_filter_ok :: "string \<Rightarrow> bool"
  os_install_stdout :: "string \<Rightarrow> 'w \<Rightarrow> 'w"
  os_install_otlp :: "string \<Rightarrow> (string \<Rightarrow> bool) \<Rightarrow> 'p providers \<Rightarrow> 'w \<Rightarrow> 'w"
  os_print :: "string \<Rightarrow> 'w \<Rightarrow> 'w"

definition build_resource :: "('w, 'r, 'x, 'p) otel_sdk \<Rightarrow> string \<Rightarrow> (string \<times> string) list \<Rightarrow> 'r" where
  "build_resource K service_name attributes = os_resource K service_name attributes"

fun transport_name :: "transport \<Rightarrow> string" where
  "transport_name HttpJson = ''HTTP''"
| "transport_name HttpBinary = ''HTTP''"
| "transport_name Grpc = ''gRPC''"

definition span_exporter :: "('w, 'r, 'x, 'p) otel_sdk \<Rightarrow> string \<Rightarrow> transport \<Rightarrow> ('w, string, 'x) io" where
  "span_exporter K endpoint t =
     map_err_io (\<lambda>e. ''build OTLP '' @ transport_name t @ '' span exporter: '' @ e) (os_exporter K Traces t endpoint)"

definition metric_exporter :: "('w, 'r, 'x, 'p) otel_sdk \<Rightarrow> string \<Rightarrow> transport \<Rightarrow> ('w, string, 'x) io" where
  "metric_exporter K endpoint t =
     map_err_io (\<lambda>e. ''build OTLP '' @ transport_name t @ '' metrics exporter: '' @ e) (os_exporter K Metrics t endpoint)"

definition log_exporter :: "('w, 'r, 'x, 'p) otel_sdk \<Rightarrow> string \<Rightarrow> transport \<Rightarrow> ('w, string, 'x) io" where
  "log_exporter K endpoint t =
     map_err_io (\<lambda>e. ''build OTLP '' @ transport_name t @ '' log exporter: '' @ e) (os_exporter K Logs t endpoint)"

text \<open>A provider that was built when a later exporter fails is dropped on the way out, the last one first.\<close>

definition build_providers ::
  "('w, 'r, 'x, 'p) otel_sdk \<Rightarrow> env_vars \<Rightarrow> string \<Rightarrow> 'r \<Rightarrow> ('w, string, 'p providers) io" where
  "build_providers K env endpoint res =
     (let t = transport_from_env env; make = (\<lambda>s x w. case os_provider K s x res w of (p, w') \<Rightarrow> (Inr p, w'));
          or_drop = (\<lambda>p m. match_io m ret (\<lambda>e w. (Inl e, os_drop K p w))) in
      bind_io (bind_io (span_exporter K endpoint t) (make Traces)) (\<lambda>tracer.
      or_drop tracer (
        bind_io (bind_io (metric_exporter K endpoint t) (make Metrics)) (\<lambda>meter.
        or_drop meter (
          bind_io (bind_io (log_exporter K endpoint t) (make Logs)) (\<lambda>logger.
          ret \<lparr> pv_tracer = tracer, pv_meter = meter, pv_logger = logger \<rparr>))))))"

section \<open>Starting and stopping\<close>

record 'p telemetry_guard =
  tg_tracer :: "'p option"
  tg_meter :: "'p option"
  tg_logger :: "'p option"

definition guard_default :: "'p telemetry_guard" where
  "guard_default = \<lparr> tg_tracer = None, tg_meter = None, tg_logger = None \<rparr>"

definition shutdown_taken :: "('w, 'r, 'x, 'p) otel_sdk \<Rightarrow> 'p option \<Rightarrow> 'w \<Rightarrow> 'w" where
  "shutdown_taken K p w = (case p of None \<Rightarrow> w | Some provider \<Rightarrow> os_shutdown K provider w)"

definition shutdown_providers ::
  "('w, 'r, 'x, 'p) otel_sdk \<Rightarrow> 'p telemetry_guard \<Rightarrow> 'w \<Rightarrow> 'p telemetry_guard \<times> 'w" where
  "shutdown_providers K g w =
     (guard_default, shutdown_taken K (tg_logger g) (shutdown_taken K (tg_meter g) (shutdown_taken K (tg_tracer g) w)))"

text \<open>\<open>shutdown\<close> drops the guard, and dropping it is \<open>shutdown_providers\<close>.\<close>

definition guard_drop :: "('w, 'r, 'x, 'p) otel_sdk \<Rightarrow> 'p telemetry_guard \<Rightarrow> 'w \<Rightarrow> 'w" where
  "guard_drop K g w = snd (shutdown_providers K g w)"

definition env_filter :: "('w, 'r, 'x, 'p) otel_sdk \<Rightarrow> env_vars \<Rightarrow> string" where
  "env_filter K env =
     (case env ''RUST_LOG'' of Some s \<Rightarrow> if os_filter_ok K s then s else ''info'' | None \<Rightarrow> ''info'')"

definition init_stdout_only :: "('w, 'r, 'x, 'p) otel_sdk \<Rightarrow> env_vars \<Rightarrow> 'w \<Rightarrow> 'w" where
  "init_stdout_only K env w = os_install_stdout K (env_filter K env) w"

definition exported_target :: "string \<Rightarrow> bool" where
  "exported_target target \<longleftrightarrow> \<not> (starts_with target ''opentelemetry'' \<or> starts_with target ''tonic'')"

definition install_with_otlp ::
  "('w, 'r, 'x, 'p) otel_sdk \<Rightarrow> env_vars \<Rightarrow> 'p providers \<Rightarrow> 'w \<Rightarrow> 'p telemetry_guard \<times> 'w" where
  "install_with_otlp K env p w =
     (\<lparr> tg_tracer = Some (pv_tracer p), tg_meter = Some (pv_meter p), tg_logger = Some (pv_logger p) \<rparr>,
      os_install_otlp K (env_filter K env) exported_target p w)"

definition EXPORT_DISABLED :: string where
  "EXPORT_DISABLED = ''OTEL_EXPORTER_OTLP_ENDPOINT unset '' @ [CHR 0xE2, CHR 0x80, CHR 0x94] @ '' OTLP export disabled''"

definition telemetry_init ::
  "('w, 'r, 'x, 'p) otel_sdk \<Rightarrow> env_vars \<Rightarrow> telemetry_config \<Rightarrow> 'w \<Rightarrow> 'p telemetry_guard \<times> 'w" where
  "telemetry_init K env cfg w =
     (let service_name = telemetry_service_name env cfg in
      case tc_otlp_endpoint cfg of
        None \<Rightarrow> (guard_default, os_print K EXPORT_DISABLED (init_stdout_only K env w))
      | Some endpoint \<Rightarrow>
          if endpoint = [] then (guard_default, os_print K EXPORT_DISABLED (init_stdout_only K env w))
          else
            (case build_providers K env endpoint (build_resource K service_name (tc_resource_attributes cfg)) w of
               (Inr providers, w1) \<Rightarrow>
                 (case install_with_otlp K env providers w1 of
                    (guard, w2) \<Rightarrow> (guard, os_print K ''OTLP traces/metrics/logs exporters enabled'' w2))
             | (Inl err, w1) \<Rightarrow>
                 (guard_default, init_stdout_only K env (os_print K
                    (''telemetry: OTLP exporters disabled ('' @ err @ ''); falling back to stdout-only logging'') w1))))"

section \<open>Measuring requests\<close>

datatype attribute = AttrStr string | AttrInt int

text \<open>A clock and the histogram \<open>http.server.request.duration\<close>, which takes seconds and attributes.\<close>

record ('m, 'i, 'f) http_meter =
  hm_now :: "'m \<Rightarrow> 'i \<times> 'm"
  hm_elapsed :: "'i \<Rightarrow> 'm \<Rightarrow> 'f \<times> 'm"
  hm_record :: "'f \<Rightarrow> (string \<times> attribute) list \<Rightarrow> 'm \<Rightarrow> 'm"

definition track_attributes :: "string \<Rightarrow> string \<Rightarrow> string \<Rightarrow> nat \<Rightarrow> (string \<times> attribute) list" where
  "track_attributes meth route scheme status =
     [(''http.request.method'', AttrStr meth), (''http.route'', AttrStr route),
      (''http.response.status_code'', AttrInt (int status)), (''url.scheme'', AttrStr scheme)]
     @ (if status \<ge> 500 then [(''error.type'', AttrStr (show_nat status))] else [])"

definition track ::
  "('m, 'i, 'f) http_meter \<Rightarrow> string \<Rightarrow> string option \<Rightarrow> string option \<Rightarrow> ('w \<Rightarrow> 'h http_answer \<times> 'w)
     \<Rightarrow> 'w \<times> 'm \<Rightarrow> 'h http_answer \<times> ('w \<times> 'm)" where
  "track M meth matched uri_scheme next_run = (\<lambda>(w, m).
     let route = (case matched of None \<Rightarrow> ''other'' | Some path \<Rightarrow> path);
         scheme = (case uri_scheme of None \<Rightarrow> ''http'' | Some s \<Rightarrow> s) in
     if route = ''/healthz'' then (case next_run w of (response, w') \<Rightarrow> (response, (w', m)))
     else
       (case hm_now M m of (start, m1) \<Rightarrow>
        case next_run w of (response, w') \<Rightarrow>
        case hm_elapsed M start m1 of (elapsed_s, m2) \<Rightarrow>
          (response, (w', hm_record M elapsed_s (track_attributes meth route scheme (an_status response)) m2))))"

text \<open>
  \<open>instrument_router\<close>: what the server knows of a request besides what the router sees, its matched
  route and the scheme of its URI, are arguments.
\<close>

definition instrument_router ::
  "('m, 'i, 'f) http_meter \<Rightarrow> ('h http_request \<Rightarrow> string option) \<Rightarrow> ('h http_request \<Rightarrow> string option)
     \<Rightarrow> ('h http_request \<Rightarrow> 'w \<Rightarrow> 'h http_answer \<times> 'w) \<Rightarrow> 'h http_request \<Rightarrow> 'w \<times> 'm \<Rightarrow> 'h http_answer \<times> ('w \<times> 'm)" where
  "instrument_router M matched scheme router rq = track M (rq_method rq) (matched rq) (scheme rq) (router rq)"

lemma track_transparent:
  "track M meth matched scheme k (w, m) = (answer, (w', m')) \<Longrightarrow> k w = (answer, w')"
  by (auto simp: track_def Let_def split: if_splits prod.splits)

text \<open>
  A request outside \<open>/healthz\<close> is recorded once, with its status, and as an error exactly when the
  status is one of a server error.
\<close>

lemma track_records:
  assumes "track M meth matched scheme k (w, m) = (answer, (w', m'))" and "matched \<noteq> Some ''/healthz''"
  obtains start m1 elapsed m2 attrs where "hm_now M m = (start, m1)" "hm_elapsed M start m1 = (elapsed, m2)"
    "m' = hm_record M elapsed attrs m2" "map_of attrs ''http.response.status_code'' = Some (AttrInt (int (an_status answer)))"
    "map_of attrs ''error.type'' \<noteq> None \<longleftrightarrow> 500 \<le> an_status answer"
  using assms
  by (auto simp: track_def Let_def track_attributes_def split: if_splits prod.splits option.splits)

lemma healthz_unrecorded:
  "track M meth (Some ''/healthz'') scheme k (w, m) = (case k w of (answer, w') \<Rightarrow> (answer, (w', m)))"
  by (simp add: track_def)

end
