(* ===== verification/Servers.thy ===== *)
theory Servers
  imports Telemetry Cli
begin

text \<open>
  The two server processes: \<open>main\<close> of \<open>crates/api/src/main.rs\<close> and \<open>crates/host/src/main.rs\<close>, from the
  telemetry they start to the guard they drop. Binding a socket, serving until the shutdown signal and
  the construction of the HTTP and engine clients are parameters; an error is its chain of contexts
  as one text. The world is that of the services next to that of the request meter.
\<close>

section \<open>Parts of both\<close>

text \<open>Seconds since the epoch, 0 for a clock before it: \<open>unix_now\<close> of the payments and of the lock.\<close>

definition unix_now :: "('w \<Rightarrow> int \<times> 'w) \<Rightarrow> 'w \<Rightarrow> u64 \<times> 'w" where
  "unix_now clock w = (case clock w of (t, w') \<Rightarrow> (if t < 0 then 0 else word_of_int t, w'))"

definition crypto_attestor_new ::
  "ext \<Rightarrow> json_text \<Rightarrow> codec_text \<Rightarrow> string + 'w crypto_client \<Rightarrow> app_error + 'w function_attestor" where
  "crypto_attestor_new X J T client = bind_r (map_err Attestation client) (\<lambda>c. Inr (crypto_attest X J T c))"

record ('w, 'm, 'h, 'l) server_io =
  si_bind :: "string \<Rightarrow> ('w \<times> 'm, string, 'l) io"
  si_serve :: "'l \<Rightarrow> ('h http_request \<Rightarrow> 'w \<times> 'm \<Rightarrow> 'h http_answer \<times> ('w \<times> 'm)) \<Rightarrow> ('w \<times> 'm, string, unit) io"

definition listen_addr :: "server_config \<Rightarrow> string" where
  "listen_addr c = ''0.0.0.0:'' @ show_nat (unat (sv_port c))"

text \<open>Whatever ends \<open>body\<close>, the guard is dropped at the end.\<close>

definition with_telemetry ::
  "('u, 'r, 'x, 'p) otel_sdk \<Rightarrow> env_vars \<Rightarrow> string \<Rightarrow> ('u, string, unit) io \<Rightarrow> ('u, string, unit) io" where
  "with_telemetry K env service_name body u =
     (case telemetry_init K env (with_otlp_endpoint (env OTEL_EXPORTER_OTLP_ENDPOINT) (telemetry_config_new service_name)) u of
        (telemetry, u1) \<Rightarrow> case body u1 of (r, u2) \<Rightarrow> (r, guard_drop K telemetry u2))"

definition listen_and_serve ::
  "('w, 'm, 'h, 'l) server_io \<Rightarrow> server_config \<Rightarrow> ('h http_request \<Rightarrow> 'w \<times> 'm \<Rightarrow> 'h http_answer \<times> ('w \<times> 'm))
     \<Rightarrow> ('w \<times> 'm, string, unit) io" where
  "listen_and_serve I c app =
     bind_io (map_err_io (\<lambda>e. ''bind '' @ listen_addr c @ '': '' @ e) (si_bind I (listen_addr c))) (\<lambda>listener.
     map_err_io (\<lambda>e. ''serve: '' @ e) (si_serve I listener app))"

section \<open>The API\<close>

text \<open>The application \<open>axum\<close> serves: the router inside the request meter.\<close>

definition api_service ::
  "ext \<Rightarrow> json_text \<Rightarrow> 'h header_lib \<Rightarrow> 'h json_extractor \<Rightarrow> 'h server_answers \<Rightarrow> 'w rng
     \<Rightarrow> ('m, 'i, 'f) http_meter \<Rightarrow> ('h http_request \<Rightarrow> string option) \<Rightarrow> ('h http_request \<Rightarrow> string option)
     \<Rightarrow> 'w api_state \<Rightarrow> 'h http_request \<Rightarrow> 'w \<times> 'm \<Rightarrow> 'h http_answer \<times> ('w \<times> 'm)" where
  "api_service X J H E A rng M matched scheme S = instrument_router M matched scheme (api_router X J H E A rng S)"

definition api_main ::
  "('w \<times> 'm, 'r, 'x, 'p) otel_sdk \<Rightarrow> env_vars \<Rightarrow> api_config config_env \<Rightarrow> ('w, 'm, 'h, 'l) server_io
     \<Rightarrow> ext \<Rightarrow> json_text \<Rightarrow> 'h header_lib \<Rightarrow> 'h json_extractor \<Rightarrow> 'h server_answers \<Rightarrow> 'w rng
     \<Rightarrow> ('m, 'i, 'f) http_meter \<Rightarrow> ('h http_request \<Rightarrow> string option) \<Rightarrow> ('h http_request \<Rightarrow> string option)
     \<Rightarrow> 'w aws \<Rightarrow> json_ext \<Rightarrow> string + (string \<Rightarrow> json \<Rightarrow> ('w, string, http_reply) io) \<Rightarrow> app_error + 'w function_runner
     \<Rightarrow> ('w \<Rightarrow> int \<times> 'w) \<Rightarrow> ('w \<Rightarrow> int \<times> 'w) \<Rightarrow> ('w \<times> 'm, string, unit) io" where
  "api_main K env C I X J H E A rng M matched scheme W KX payment_client new_runner clock_s clock_ms =
     with_telemetry K env ''nitrum-fn-api'' (
       bind_io (lift_r (with_context ''load api config'' (api_config_load C))) (\<lambda>config.
       bind_io (lift_r (with_context ''x402 settler'' (map_err (\<lambda>e. show_payment_error (PaySettle e)) payment_client))) (\<lambda>post.
       bind_io (lift_r (with_context ''create wasmtime runner'' (map_err show_app_error new_runner))) (\<lambda>runner.
       listen_and_serve I (apc_server config)
         (api_service X J H E A rng M matched scheme (api_app X W runner KX post (unix_now clock_s) clock_ms config))))))"

section \<open>The host\<close>

definition host_service ::
  "ext \<Rightarrow> json_text \<Rightarrow> codec_text \<Rightarrow> 'h header_lib \<Rightarrow> 'h server_answers
     \<Rightarrow> ('m, 'i, 'f) http_meter \<Rightarrow> ('h http_request \<Rightarrow> string option) \<Rightarrow> ('h http_request \<Rightarrow> string option)
     \<Rightarrow> 'w host_state \<Rightarrow> 'h http_request \<Rightarrow> 'w \<times> 'm \<Rightarrow> 'h http_answer \<times> ('w \<times> 'm)" where
  "host_service X J T H A M matched scheme S = instrument_router M matched scheme (host_router X J T H A S)"

definition host_main ::
  "('w \<times> 'm, 'r, 'x, 'p) otel_sdk \<Rightarrow> env_vars \<Rightarrow> host_config config_env \<Rightarrow> ('w, 'm, 'h, 'l) server_io
     \<Rightarrow> ext \<Rightarrow> json_text \<Rightarrow> codec_text \<Rightarrow> 'h header_lib \<Rightarrow> 'h server_answers
     \<Rightarrow> ('m, 'i, 'f) http_meter \<Rightarrow> ('h http_request \<Rightarrow> string option) \<Rightarrow> ('h http_request \<Rightarrow> string option)
     \<Rightarrow> 'w aws \<Rightarrow> app_error + 'w function_runner \<Rightarrow> string + 'w crypto_client \<Rightarrow> ('w \<times> 'm, string, unit) io" where
  "host_main K env C I X J T H A M matched scheme W new_runner crypto_client =
     with_telemetry K env ''nitrum-fn-host'' (
       bind_io (lift_r (with_context ''load host config'' (host_config_load C))) (\<lambda>config.
       bind_io (lift_r (with_context ''create wasmtime runner'' (map_err show_app_error new_runner))) (\<lambda>runner.
       bind_io (if hc_run_env config = ''local'' then ret noop_attestor
                else lift_r (with_context ''nitrum crypto attestor'' (map_err show_app_error (crypto_attestor_new X J T crypto_client))))
         (\<lambda>attestor.
       listen_and_serve I (hc_server config)
         (host_service X J T H A M matched scheme (host_app X W runner attestor config))))))"

section \<open>Measured requests\<close>

text \<open>
  Requests as the two processes serve them, each with a meter of its own. Seen on the services' world
  they are the requests of the routers, so what holds after any number of those (\<open>System\<close>) holds of
  the processes.
\<close>

inductive served ::
  "ext \<Rightarrow> json_text \<Rightarrow> codec_text \<Rightarrow> 'h header_lib \<Rightarrow> 'h json_extractor \<Rightarrow> 'h server_answers \<Rightarrow> 'w rng
     \<Rightarrow> ('m, 'i, 'f) http_meter \<Rightarrow> ('h http_request \<Rightarrow> string option) \<Rightarrow> ('h http_request \<Rightarrow> string option)
     \<Rightarrow> 'w api_state \<Rightarrow> 'w host_state \<Rightarrow> 'w \<times> 'm \<times> 'm \<Rightarrow> 'w \<times> 'm \<times> 'm \<Rightarrow> bool"
  for X J T H E A rng M matched scheme S G where
  served_none: "served X J T H E A rng M matched scheme S G u u"
| served_api: "served X J T H E A rng M matched scheme S G u (w, m, n) \<Longrightarrow>
    api_service X J H E A rng M matched scheme S rq (w, m) = (answer, (w', m')) \<Longrightarrow>
    served X J T H E A rng M matched scheme S G u (w', m', n)"
| served_host: "served X J T H E A rng M matched scheme S G u (w, m, n) \<Longrightarrow>
    host_service X J T H A M matched scheme G rq (w, n) = (answer, (w', n')) \<Longrightarrow>
    served X J T H E A rng M matched scheme S G u (w', m, n')"

lemma served_requests:
  "served X J T H E A rng M matched scheme S G u u' \<Longrightarrow> requests X J T H E A rng S G (fst u) (fst u')"
proof (induction rule: served.induct)
  case (served_api u w m n rq answer w' m')
  from served_api(2) have "api_router X J H E A rng S rq w = (answer, w')"
    unfolding api_service_def instrument_router_def by (rule track_transparent)
  with served_api(3) show ?case by (auto intro: more_requests to_api)
next
  case (served_host u w m n rq answer w' n')
  from served_host(2) have "host_router X J T H A G rq w = (answer, w')"
    unfolding host_service_def instrument_router_def by (rule track_transparent)
  with served_host(3) show ?case by (auto intro: more_requests to_host)
qed (auto intro: no_request)

end
