(* ===== verification/Cli_New.thy ===== *)
theory Cli_New
  imports Cli
begin

text \<open>
  \<open>crates/cli/src/commands/new.rs\<close>: the project scaffold. Paths are strings, the file system is a
  parameter with the contract \<open>project_files\<close>; the scaffold overwrites no file.
\<close>

section \<open>Paths and the file system\<close>

definition path_join :: "string \<Rightarrow> string \<Rightarrow> string" where
  "path_join dir rel = (if ends_with dir ''/'' then dir @ rel else dir @ ''/'' @ rel)"

lemma path_join_inj [simp]: "path_join d a = path_join d b \<longleftrightarrow> a = b"
  by (simp add: path_join_def)

text \<open>What stands before and after the last separator.\<close>

definition path_parent :: "string \<Rightarrow> string" where
  "path_parent p = rev (drop 1 (dropWhile (\<lambda>c. c \<noteq> CHR ''/'') (rev p)))"

definition path_file_name :: "string \<Rightarrow> string" where
  "path_file_name p = rev (takeWhile (\<lambda>c. c \<noteq> CHR ''/'') (rev p))"

text \<open>
  \<open>pj_has_entry\<close> is \<open>read_dir\<close> followed by \<open>next().is_some()\<close>, \<open>pj_debug\<close> the quoted form of a string.
\<close>

record 'w project_fs =
  pj_current_dir :: "('w, string, string) io"
  pj_exists :: "string \<Rightarrow> 'w \<Rightarrow> bool \<times> 'w"
  pj_has_entry :: "string \<Rightarrow> ('w, string, bool) io"
  pj_create_dir_all :: "string \<Rightarrow> ('w, string, unit) io"
  pj_write :: "string \<Rightarrow> string \<Rightarrow> ('w, string, unit) io"
  pj_debug :: "string \<Rightarrow> string"

text \<open>\<open>include_str!\<close> of the two files under \<open>template/\<close>.\<close>

definition newline :: string where "newline = [CHR 0x0A]"

definition quoted :: "string \<Rightarrow> string" where "quoted s = [CHR 0x22] @ s @ [CHR 0x22]"

definition text_of_lines :: "string list \<Rightarrow> string" where
  "text_of_lines ls = concat (map (\<lambda>l. l @ newline) ls)"

definition template_lib_rs :: string where
  "template_lib_rs = text_of_lines
     [''//! Sample nitrum-fn function.'', '''', ''use runtime::{Error, Request};'', ''use serde_json::{json, Value};'', '''',
      ''#[runtime::main]'', ''fn handler(_req: Request) -> Result<Value, Error> {'', ''    Ok(json!({'',
      ''        '' @ quoted ''message'' @ '': '' @ quoted ''Hello, world!'' @ '','', ''    }))'', ''}'']"

definition template_cargo_toml :: string where
  "template_cargo_toml = text_of_lines
     [''[package]'', ''name = '' @ quoted ''hello-world'', ''version = '' @ quoted ''0.1.0'', ''edition = '' @ quoted ''2021'',
      ''license = '' @ quoted ''Apache-2.0'', ''publish = false'', ''description = '' @ quoted ''Sample nitrum-fn function'', '''',
      ''[lib]'', ''crate-type = ['' @ quoted ''cdylib'' @ '']'', '''', ''[dependencies]'',
      ''runtime = { git = '' @ quoted ''https://github.com/matzapata/nitrum-fn'' @ '', package = '' @ quoted ''runtime''
        @ '', branch = '' @ quoted ''main'' @ '' }'',
      ''serde_json = '' @ quoted ''1'', '''', ''[profile.release]'', ''opt-level = '' @ quoted ''z'', ''lto = true'',
      ''codegen-units = 1'', ''panic = '' @ quoted ''abort'', ''strip = true'']"

section \<open>The command\<close>

definition NAME_RULE :: string where
  "NAME_RULE = '' (use 1'' @ [CHR 0xE2, CHR 0x80, CHR 0x93] @ ''64 chars: ASCII alphanumeric, hyphen, or underscore)''"

definition scaffold_writes :: "(string \<times> string) list" where
  "scaffold_writes = [(''src/lib.rs'', template_lib_rs), (''Cargo.toml'', template_cargo_toml),
     (''.gitignore'', text_of_lines [''/target'', ''/Cargo.lock''])]"

fun write_all :: "'w project_fs \<Rightarrow> string \<Rightarrow> (string \<times> string) list \<Rightarrow> ('w, string, unit) io" where
  "write_all F directory [] = ret ()"
| "write_all F directory ((relative_path, contents) # writes) =
     (let dest = path_join directory relative_path; parent = path_parent dest in
      bind_io (map_err_io (\<lambda>e. ''create '' @ parent @ '': '' @ e) (pj_create_dir_all F parent)) (\<lambda>_.
      bind_io (map_err_io (\<lambda>e. ''write '' @ dest @ '': '' @ e) (pj_write F dest contents)) (\<lambda>_.
      write_all F directory writes)))"

text \<open>\<open>directory.exists() && directory.read_dir()?.next().is_some()\<close>.\<close>

definition occupied :: "'w project_fs \<Rightarrow> string \<Rightarrow> ('w, string, bool) io" where
  "occupied F directory w =
     (case pj_exists F directory w of (found, w1) \<Rightarrow>
        if found then map_err_io (\<lambda>e. ''read '' @ directory @ '': '' @ e) (pj_has_entry F directory) w1
        else (Inr False, w1))"

definition scaffold :: "'w project_fs \<Rightarrow> string \<Rightarrow> string \<Rightarrow> ('w, string, string) io" where
  "scaffold F name cwd =
     bind_io (lift_r (map_err (\<lambda>e. ''invalid name '' @ pj_debug F name @ NAME_RULE @ '': '' @ show_domain_error e)
       (function_id_new name))) (\<lambda>_.
     let directory = path_join cwd name; src = path_join directory ''src'' in
     bind_io (occupied F directory) (\<lambda>nonempty.
     if nonempty then throw ''Directory is not empty''
     else
       bind_io (map_err_io (\<lambda>e. ''create '' @ src @ '': '' @ e) (pj_create_dir_all F src)) (\<lambda>_.
       bind_io (write_all F directory scaffold_writes) (\<lambda>_.
       ret directory))))"

definition cli_new :: "'w project_fs \<Rightarrow> string \<Rightarrow> ('w, string, string list) io" where
  "cli_new F name =
     bind_io (map_err_io (\<lambda>e. ''current directory: '' @ e) (pj_current_dir F)) (\<lambda>cwd.
     bind_io (scaffold F name cwd) (\<lambda>directory.
     let rel = path_file_name directory in
     ret [''Created ./'' @ rel, '''', ''  rustup target add wasm32-unknown-unknown'',
          ''  cargo build --manifest-path '' @ rel @ ''/Cargo.toml --target wasm32-unknown-unknown --release'',
          ''  nitrum-fn deploy '' @ rel @ ''/target/wasm32-unknown-unknown/release/hello_world.wasm --name '' @ name]))"

section \<open>What it writes\<close>

text \<open>
  The files of a world. A directory without an entry has no file in it, nothing but a write changes
  a file, and a write changes no other file.
\<close>

locale project_files =
  fixes F :: "'w project_fs" and files :: "'w \<Rightarrow> string \<Rightarrow> string option"
  assumes exists_files: "pj_exists F d w = (b, w') \<Longrightarrow>
      files w' = files w \<and> (\<not> b \<longrightarrow> (\<forall>rel. files w (path_join d rel) = None))"
    and has_entry_files: "pj_has_entry F d w = (r, w') \<Longrightarrow>
      files w' = files w \<and> (r = Inr False \<longrightarrow> (\<forall>rel. files w (path_join d rel) = None))"
    and create_dir_files: "pj_create_dir_all F d w = (u, w') \<Longrightarrow> files w' = files w"
    and write_files: "pj_write F p c w = (u, w') \<Longrightarrow>
      (\<forall>q. q \<noteq> p \<longrightarrow> files w' q = files w q) \<and> (u = Inr () \<longrightarrow> files w' p = Some c)"
begin

lemma write_all_files:
  "write_all F d ws w = (r, w') \<Longrightarrow>
     (\<forall>q. q \<notin> path_join d ` fst ` set ws \<longrightarrow> files w' q = files w q)
     \<and> (r = Inr () \<longrightarrow> distinct (map fst ws) \<longrightarrow>
          (\<forall>(rel, c) \<in> set ws. files w' (path_join d rel) = Some c))"
proof (induction ws arbitrary: w)
  case (Cons x ws)
  obtain rel c where x: "x = (rel, c)" by fastforce
  let ?dest = "path_join d rel"
  obtain r1 w1 where c1: "pj_create_dir_all F (path_parent ?dest) w = (r1, w1)" by fastforce
  note f1 = create_dir_files [OF c1]
  obtain r2 w2 where c2: "pj_write F ?dest c w1 = (r2, w2)" by fastforce
  note f2 = write_files [OF c2]
  consider e where "r1 = Inl e" | e where "r1 = Inr ()" "r2 = Inl e" | "r1 = Inr ()" "r2 = Inr ()"
    by (cases r1; cases r2) auto
  then show ?case
  proof cases
    case 1
    with Cons.prems c1 f1 show ?thesis by (auto simp: x bind_io_def map_err_io_def Let_def)
  next
    case 2
    with Cons.prems c1 c2 f1 f2 show ?thesis by (auto simp: x bind_io_def map_err_io_def Let_def)
  next
    case 3
    then have "write_all F d ws w2 = (r, w')" using Cons.prems c1 c2 by (simp add: x bind_io_def map_err_io_def Let_def)
    note ih = Cons.IH [OF this]
    have "files w' q = files w q" if "q \<notin> path_join d ` fst ` set (x # ws)" for q
      using that ih [THEN conjunct1, rule_format, of q] f1 f2 by (auto simp: x)
    moreover have "files w' (path_join d rel') = Some c'"
      if ok: "r = Inr ()" "distinct (map fst (x # ws))" and "(rel', c') \<in> set (x # ws)" for rel' c'
    proof (cases "(rel', c') \<in> set ws")
      case True
      then show ?thesis using ih ok by auto
    next
      case False
      then have "rel' = rel" "c' = c" using that(3) by (auto simp: x)
      moreover have "?dest \<notin> path_join d ` fst ` set ws" using ok(2) by (force simp: x)
      ultimately show ?thesis using ih f2 3 by simp
    qed
    ultimately show ?thesis by blast
  qed
qed simp

text \<open>
  Whatever it returns, the scaffold leaves every file as it was but the three it makes, which were
  not there before; when it succeeds they are the template.
\<close>

lemma scaffold_files:
  assumes "scaffold F name cwd w = (r, w')"
  defines "d \<equiv> path_join cwd name"
  shows "(\<forall>q c. files w q = Some c \<longrightarrow> files w' q = Some c)
    \<and> (\<forall>q. q \<notin> path_join d ` {''src/lib.rs'', ''Cargo.toml'', ''.gitignore''} \<longrightarrow> files w' q = files w q)
    \<and> (\<forall>e. function_id_new name = Inl e \<longrightarrow> w' = w)
    \<and> (\<forall>dir. r = Inr dir \<longrightarrow> dir = d \<and> (\<forall>(rel, c) \<in> set scaffold_writes. files w' (path_join d rel) = Some c))"
proof (cases "function_id_new name")
  case (Inl e)
  with assms(1) show ?thesis by (auto simp: scaffold_def)
next
  case (Inr f)
  obtain r1 w1 where o: "occupied F d w = (r1, w1)" by fastforce
  have o1: "files w1 = files w \<and> (r1 = Inr False \<longrightarrow> (\<forall>rel. files w (path_join d rel) = None))"
  proof -
    obtain found w0 where e: "pj_exists F d w = (found, w0)" by fastforce
    obtain r0 w00 where h: "pj_has_entry F d w0 = (r0, w00)" by fastforce
    show ?thesis
    proof (cases found)
      case True
      with o e h have "w1 = w00" "r1 = Inr False \<longrightarrow> r0 = Inr False"
        by (auto simp: occupied_def map_err_io_def split: sum.splits)
      with exists_files [OF e] has_entry_files [OF h] show ?thesis by simp
    next
      case False
      with o e have "w1 = w0" by (simp add: occupied_def)
      with False exists_files [OF e] show ?thesis by simp
    qed
  qed
  show ?thesis
  proof (cases "r1 = Inr False")
    case False
    with assms(1) Inr o o1 show ?thesis
      by (cases r1) (auto simp: scaffold_def bind_io_def d_def [symmetric] Let_def)
  next
    case True
    then have none: "files w (path_join d rel) = None" for rel using o1 by simp
    obtain r2 w2 where c: "pj_create_dir_all F (path_join d ''src'') w1 = (r2, w2)" by fastforce
    have c2: "files w2 = files w" using create_dir_files [OF c] o1 by simp
    obtain r3 w3 where ws: "write_all F d scaffold_writes w2 = (r3, w3)" by fastforce
    have sw: "fst ` set scaffold_writes = {''src/lib.rs'', ''Cargo.toml'', ''.gitignore''}" by (auto simp: scaffold_writes_def)
    have dist: "distinct (map fst scaffold_writes)" by (simp add: scaffold_writes_def)
    note w3 = write_all_files [OF ws, unfolded sw] 
    have "(r2 = Inr () \<and> w' = w3 \<and> (r3 = Inr () \<longrightarrow> r = Inr d) \<and> (r3 \<noteq> Inr () \<longrightarrow> (\<exists>e. r = Inl e)))
        \<or> (w' = w2 \<and> (\<exists>e. r = Inl e))"
      using assms(1) Inr o True c ws
      by (cases r2; cases r3) (auto simp: scaffold_def bind_io_def map_err_io_def d_def [symmetric] Let_def)
    then show ?thesis
    proof (elim disjE conjE exE)
      fix e assume "w' = w2" "r = Inl e"
      then show ?thesis using c2 Inr by simp
    next
      assume w': "w' = w3" and ok: "r3 = Inr () \<longrightarrow> r = Inr d" and bad: "r3 \<noteq> Inr () \<longrightarrow> (\<exists>e. r = Inl e)"
      have other: "files w' q = files w q" if "q \<notin> path_join d ` {''src/lib.rs'', ''Cargo.toml'', ''.gitignore''}" for q
        using that w3 c2 w' by simp
      have "files w' q = Some c" if q: "files w q = Some c" for q c
      proof -
        have "q \<notin> path_join d ` {''src/lib.rs'', ''Cargo.toml'', ''.gitignore''}" using none q by auto
        from other [OF this] q show ?thesis by simp
      qed
      moreover have "dir = d \<and> (\<forall>(rel, c) \<in> set scaffold_writes. files w' (path_join d rel) = Some c)" if "r = Inr dir" for dir
        using that ok bad w3 dist w' by (cases "r3 = Inr ()") auto
      ultimately show ?thesis using other Inr by auto
    qed
  qed
qed

end

section \<open>A file system in memory\<close>

text \<open>The world is an association list of paths and contents; directories are implied by their files.\<close>

definition under :: "string \<Rightarrow> (string \<times> string) list \<Rightarrow> bool" where
  "under d fs \<longleftrightarrow> list_ex (\<lambda>(p, _). starts_with p (path_join d [])) fs"

definition mem_fs :: "(string \<times> string) list project_fs" where
  "mem_fs = \<lparr> pj_current_dir = ret ''/home'', pj_exists = (\<lambda>d w. (under d w, w)),
     pj_has_entry = (\<lambda>d w. (Inr (under d w), w)), pj_create_dir_all = (\<lambda>d. ret ()),
     pj_write = (\<lambda>p c w. (Inr (), (p, c) # w)), pj_debug = quoted \<rparr>"

lemma not_under: "\<not> under d w \<Longrightarrow> map_of w (path_join d rel) = None"
  by (induction w) (auto simp: under_def path_join_def starts_with_def ends_with_def)

interpretation mem_fs: project_files mem_fs map_of
  by unfold_locales (auto simp: mem_fs_def not_under)

text \<open>A project made in an empty file system.\<close>

lemma new_in_empty_directory:
  "\<exists>w. scaffold mem_fs ''app'' ''/home'' [] = (Inr ''/home/app'', w)
     \<and> map_of w ''/home/app/Cargo.toml'' = Some template_cargo_toml"
proof -
  have "function_id_new ''app'' = Inr (FunctionId ''app'')"
    by (simp add: function_id_new_def char_class_defs byte_def)
  then obtain w where w: "scaffold mem_fs ''app'' ''/home'' [] = (Inr ''/home/app'', w)"
    by (simp add: scaffold_def mem_fs_def occupied_def under_def bind_io_def map_err_io_def scaffold_writes_def
        path_join_def ends_with_def Let_def)
  from mem_fs.scaffold_files [OF w] w show ?thesis
    by (auto simp: scaffold_writes_def path_join_def ends_with_def)
qed

end
