(* ===== verification/Cli_Main.thy ===== *)
theory Cli_Main
  imports Cli_New
begin

text \<open>
  The command line client as a whole: the subcommands of \<open>crates/cli/src/main.rs\<close> and of
  \<open>commands/account.rs\<close>, and what the process prints and returns. The arguments are those \<open>clap\<close> has
  parsed, with the defaults and environment variables it fills in. The tracing set-up is left out.
\<close>

datatype account_command = AccountCreate account_create_args | AccountCredit credit_args

datatype cli_command =
    NewCmd string
  | DeployCmd deploy_args
  | DescribeCmd string
  | InvokeCmd invoke_args
  | AccountCmd account_command

text \<open>What the commands use of the outside.\<close>

record ('w, 'h, 'k) cli_env =
  ce_ecdsa :: "'k ecdsa"
  ce_rng :: "'w rng"
  ce_http :: "('w, 'h) cli_http"
  ce_terminal :: "'w cli_terminal"
  ce_files :: "'w cli_files"
  ce_project :: "'w project_fs"
  ce_verifier :: "'w attestation_verifier"
  ce_writer :: "'w file_writer"

definition account_run ::
  "ext \<Rightarrow> json_text \<Rightarrow> cli_text \<Rightarrow> 'h header_lib \<Rightarrow> ('w, 'h, 'k) cli_env \<Rightarrow> account_command \<Rightarrow> ('w, string, string) io" where
  "account_run X J T H E command =
     (case command of
        AccountCreate args \<Rightarrow> account_create J T H (ce_http E) args
      | AccountCredit args \<Rightarrow> account_credit X J T H (ce_ecdsa E) (ce_rng E) (ce_http E) (ce_terminal E) args)"

definition run_command ::
  "ext \<Rightarrow> json_text \<Rightarrow> cli_text \<Rightarrow> 'h header_lib \<Rightarrow> ('w, 'h, 'k) cli_env \<Rightarrow> cli_command \<Rightarrow> ('w, string, string list) io" where
  "run_command X J T H E command =
     (case command of
        NewCmd name \<Rightarrow> cli_new (ce_project E) name
      | DeployCmd args \<Rightarrow> bind_io (cli_deploy J T H (ce_http E) (ce_files E) args) (\<lambda>l. ret [l])
      | DescribeCmd wasm \<Rightarrow> bind_io (cli_describe X (ce_files E) wasm) (\<lambda>l. ret [l])
      | InvokeCmd args \<Rightarrow>
          bind_io (cli_invoke X J T H (ce_rng E) (ce_http E) (ce_verifier E) (ce_writer E) args) (\<lambda>l. ret [l])
      | AccountCmd command \<Rightarrow> bind_io (account_run X J T H E command) (\<lambda>l. ret [l]))"

text \<open>
  The lines of the standard output, the error printed on the standard error (the notes some commands
  write there on their way are left out), and the exit code. A command prints its lines last.
\<close>

record cli_exit =
  cx_stdout :: "string list"
  cx_error :: "string option"
  cx_code :: int

definition cli_main ::
  "ext \<Rightarrow> json_text \<Rightarrow> cli_text \<Rightarrow> 'h header_lib \<Rightarrow> ('w, 'h, 'k) cli_env \<Rightarrow> cli_command \<Rightarrow> 'w \<Rightarrow> cli_exit \<times> 'w" where
  "cli_main X J T H E command w =
     (case run_command X J T H E command w of
        (Inl e, w') \<Rightarrow> (\<lparr> cx_stdout = [], cx_error = Some e, cx_code = 1 \<rparr>, w')
      | (Inr ls, w') \<Rightarrow> (\<lparr> cx_stdout = ls, cx_error = None, cx_code = 0 \<rparr>, w'))"

text \<open>A script may rely on the exit code: it is 0 exactly when the command did its work.\<close>

lemma exit_code_invoke:
  assumes "cli_main X J T H E (InvokeCmd args) w = (x, w')"
  shows "cx_code x = 0 \<longleftrightarrow>
     (\<exists>body. cli_invoke X J T H (ce_rng E) (ce_http E) (ce_verifier E) (ce_writer E) args w = (Inr body, w')
        \<and> cx_stdout x = [body])"
  using assms by (auto simp: cli_main_def run_command_def bind_io_def split: prod.splits sum.splits)

lemma exit_code_deploy:
  assumes "cli_main X J T H E (DeployCmd args) w = (x, w')"
  shows "cx_code x = 0 \<longleftrightarrow>
     (\<exists>line. cli_deploy J T H (ce_http E) (ce_files E) args w = (Inr line, w') \<and> cx_stdout x = [line])"
  using assms by (auto simp: cli_main_def run_command_def bind_io_def split: prod.splits sum.splits)

end
