(* ===== verification/Findings.thy ===== *)
theory Findings
  imports Publish_Properties Host_Properties Accounts_Properties
begin

text \<open>
  Where the code does not do what it means to: each behaviour that the modelling showed, as a
  lemma over the definitions of the components.
\<close>

section \<open>Origins\<close>

text \<open>
  \<open>validate_host\<close> means to keep guests from the machine and the network of the host, but refuses only
  the plain spellings: a trailing dot, upper case or another notation of the address passes.
\<close>

lemma local_spellings_pass:
  "validate_host ''localhost.'' = Inr ()" "validate_host ''printer.LOCAL'' = Inr ()"
  "validate_host ''127.1'' = Inr ()" "validate_host ''2130706433'' = Inr ()" "validate_host ''127.0.0.1.'' = Inr ()"
  by code_simp+

section \<open>Credits\<close>

text \<open>
  A credit transaction that was cancelled for any other reason than its own receipt, a conflict with
  a concurrent transaction for instance, is reported as an unknown account; the loop that retries a
  settled payment stops there, and the payment is lost.
\<close>

lemma cancelled_credit_is_not_retried:
  assumes "invokes \<noteq> 0" and "nonce \<noteq> []"
    and "ddb_transact (adb_client S) (credit_writes X S a invokes nonce) w = (Inl (TransactionCanceled s), w1)"
    and "store_receipt_exists S nonce w1 = (Inr False, w2)"
    and "ac_store A = dynamo_account_store X S"
  shows "credit_settled X A a invokes nonce w = (Inl (app_of_store X StoreNotFound), w2)"
proof -
  have "store_credit X S a invokes nonce w = (Inl StoreNotFound, w2)"
    using assms(1-4) by (simp add: store_credit_def match_io_def bind_io_def transaction_cancelled_def)
  then show ?thesis
    by (simp add: credit_settled_def credit_loop.simps [of X A a invokes nonce 0] assms(5) dynamo_account_store_def)
qed

text \<open>The account is there, the payment is settled, the service cancels one transaction.\<close>

lemma settled_payment_dropped:
  "\<exists>w'. credit_settled ref_ext ref_accounts (acc_id demo_account) 7 ''n1'' (demo_faulty [Cancel])
       = (Inl (app_of_store ref_ext StoreNotFound), w')
     \<and> lg_balance (ref_ledger (demo_faulty [Cancel])) demo_hex = Some 5 \<and> ref_ledger w' = ref_ledger (demo_faulty [Cancel])"
proof -
  let ?w = "demo_faulty [Cancel]" and ?w1 = "demo_faulty []"
  have cancel: "ddb_transact (ref_client ref_schema) ws ?w = (Inl (TransactionCanceled ''cancelled''), ?w1)" for ws
    by (simp add: ref_client_def ref_write_def next_fault_def demo_faulty_def Let_def)
  have none: "store_receipt_exists ref_store ''n1'' ?w1 = (Inr False, ?w1)"
    using demo_view(3) [of "[]"]
    by (simp add: store_receipt_exists_def bind_io_def map_err_io_def ref_get_calm demo_faulty_def demo_world_def empty_world_def)
  have "credit_settled ref_ext ref_accounts (acc_id demo_account) 7 ''n1'' ?w = (Inl (app_of_store ref_ext StoreNotFound), ?w1)"
    by (rule cancelled_credit_is_not_retried [where S = ref_store, OF _ _ _ none])
      (simp_all add: cancel ref_accounts_def accounts_new_def)
  moreover have "ref_ledger ?w1 = ref_ledger ?w"
    by (simp add: demo_faulty_def ref_view_def)
  ultimately show ?thesis using demo_ledger(1) by blast
qed

text \<open>A receipt counts for every account: whose payment it was is not compared.\<close>

lemma receipt_of_another_account_counts:
  assumes "store_receipt_exists S nonce w = (Inr True, w1)" and "store_balance_of X S a w1 = (Inr b, w2)"
  shows "store_credited_balance X S a nonce w = (Inr (Some b), w2)"
  using assms by (simp add: store_credited_balance_def bind_io_def)

section \<open>Keys\<close>

text \<open>A balance that moved between the two reads makes a revocation that happened an error.\<close>

lemma revoke_error_after_revocation:
  assumes "presented_key X A bearer w = (Inr presented, w1)" and "authorize_additional_key a presented = Inr u"
    and "st_account (ac_store A) a w1 = (Inr before, w2)" and "st_revoke (ac_store A) a kid w2 = (Inr (), w3)"
    and "st_account (ac_store A) a w3 = (Inr after, w4)"
    and "map_option acc_balance before \<noteq> map_option acc_balance after"
  shows "accounts_revoke X A a kid bearer w = (Inl (Storage ''revoke changed the invoke-credit balance''), w4)"
  using assms by (simp add: accounts_revoke_def bind_io_def map_err_io_def)

section \<open>Publishing\<close>

text \<open>The last step of a publish, the release, turns a function that is live into an error.\<close>

lemma publish_error_although_live:
  assumes "publish_env X P row stored good" and "good w" and "pq_wasm req \<noteq> []" and "length (pq_wasm req) \<le> MAX_WASM_BYTES"
    and "fr_validate (pf_runner P) (pq_wasm req) w = (Inr u, w1)" and "unix_now_ms P w1 = (Inr q, w2)"
    and "pl_acquire (pf_lock P) (pq_function req) (content_hash_from_bytes X (pq_wasm req)) q w2 = (Inr v, w3)"
    and "as_put (pf_artifacts P) (pq_wasm req) w3 = (Inr h, w4)"
    and upsert: "fc_upsert (pf_catalog P) (pq_function req) latest (content_hash_from_bytes X (pq_wasm req)) q (pq_egress_allow req) w4
         = (Inr True, w5)"
    and "pl_release (pf_lock P) (pq_function req) (content_hash_from_bytes X (pq_wasm req)) w5 = (Inl e, w6)"
  shows "publish_execute X P req w = (Inl e, w6)
    \<and> row w6 = (row w)(catalog_pkey (pq_function req) latest \<mapsto>
         catalog_item X (pq_function req) latest (content_hash_from_bytes X (pq_wasm req)) q (pq_egress_allow req))"
proof -
  note frame = publish_env.validate_frame [OF assms(1)] publish_env.clock_frame [OF assms(1)]
    publish_env.acquire_frame [OF assms(1)] publish_env.release_frame [OF assms(1)]
  have 3: "row w3 = row w" "good w3"
    using framesD [OF frame(1) assms(2,5)] framesD [OF frame(2) _ assms(6)] framesD [OF frame(3) _ assms(7)] by auto
  have 4: "row w4 = row w" "good w4" using publish_env.put_effect [OF assms(1) 3(2) assms(4,8)] 3(1) by auto
  from publish_env.upsert_effect [OF assms(1) 4(2) upsert] 4(1) framesD [OF frame(4) _ assms(10)] have
    "row w6 = (row w)(catalog_pkey (pq_function req) latest \<mapsto>
       catalog_item X (pq_function req) latest (content_hash_from_bytes X (pq_wasm req)) q (pq_egress_allow req))" by auto
  then show ?thesis
    using assms(3-10) by (simp add: publish_execute_def bind_io_def or_release_def match_io_def Let_def)
qed

text \<open>
  The release is conditional on the hash only: a publish that lost its lock to a newer publish of the
  same bytes releases the lock of the newer one.
\<close>

lemma late_release_unlocks_newer:
  assumes "calm_lock K view schema X calm" and "calm w" and "lock_acquire X K f h newer w = (Inr (), w1)"
    and "lock_release X K f h w1 = (r, w2)"
  shows "r = Inr () \<and> view w2 (lk_table K) (lock_pkey f) = None"
proof -
  note a = calm_lock.acquire_calm [OF assms(1-3)]
  obtain it where it: "view w1 (lk_table K) (lock_pkey f) = Some it"
    "it ATTR_HASH = Some (AvS (content_hash_to_hex X h))"
    using a by (auto simp: put_at_apply split: if_splits)
  show ?thesis
    using calm_lock.release_calm [OF assms(1) _ it assms(4)] a by (simp add: put_at_apply)
qed

section \<open>Answers\<close>

text \<open>Without a nonce the attestation header of an answer is whatever the guest put there.\<close>

definition forging_response :: fn_response where
  "forging_response = from_parts 200 [(ATTESTATION_HEADER, ''forged'')] ''hi''"

lemma guest_sets_attestation_header:
  "\<exists>reply. host_reply ref_ext ref_json_text ref_text ref_headers S None
      \<lparr> ir_output = print_json (wire_response ref_ext forging_response), ir_content_hash = h \<rparr> w = (Inr reply, w)
     \<and> header_str ref_headers (an_headers reply) ATTESTATION_HEADER = Some ''forged''"
proof -
  have ok: "response_ok forging_response"
    by (simp add: forging_response_def from_parts_def response_ok_def headers_ok_def utf8_valid_literal ATTESTATION_HEADER_def
        char_class_defs byte_def)
  have dec: "decode_response ref_ext ref_json_text ref_text (print_json (wire_response ref_ext forging_response)) = Inr forging_response"
    by (rule response_read_back [OF ref_externals.externals_axioms ref_json_text.json_codec_axioms ok])
      (simp add: encode_response_def ref_json_text_def)
  have hs: "guest_headers ref_headers (rs_headers forging_response) = [(ATTESTATION_HEADER, ''forged'')]"
    by (simp add: guest_headers_def forging_response_def from_parts_def ref_headers_def ATTESTATION_HEADER_def
        graphic_def byte_def to_ascii_lowercase_def to_lower_def char_class_defs)
  have "header_str ref_headers (hl_insert ref_headers SHASUM_HEADER v [(ATTESTATION_HEADER, ''forged'')]) ATTESTATION_HEADER
      = Some ''forged''" for v
    by (simp add: ref_headers.str_insert_other header_names_distinct ref_header_str)
      (simp add: ref_headers_def byte_def header_names_distinct)
  then have sent: "header_str ref_headers (an_headers (bytes_reply ref_headers st
      (hl_insert ref_headers SHASUM_HEADER v [(ATTESTATION_HEADER, ''forged'')]) b)) ATTESTATION_HEADER = Some ''forged''" for st v b
    unfolding bytes_reply_def http_answer.select_convs by (rule ref_headers.str_extend)
  show ?thesis
    by (simp add: host_reply_def dec hs Let_def bind_io_def ref_externals.hex_header [OF ref_headers.header_map_axioms]
        attest_header_def sent)
qed

end
