(* ===== verification/Tests_Invoke.thy ===== *)
theory Tests_Invoke
  imports Invoke Publish
begin

text \<open>
  The unit tests of \<open>crates/application/src/usecases/invoke.rs\<close>, replayed on the model. The test
  doubles are adapters of the ports like any other: their mutable fields are the world the use case
  runs in. A test is the truth value of its assertions, and the lemma \<open>invoke_tests\<close> says that all hold.
\<close>

section \<open>Doubles\<close>

text \<open>\<open>MemArtifacts\<close> and the counter of \<open>Runner\<close>; a \<open>HashMap\<close> from hexadecimal hashes.\<close>

record invoke_doubles =
  it_wasm :: "string \<rightharpoonup> bytes"
  it_from_wasm :: nat

definition fixed_catalog :: "function_version \<Rightarrow> 'w function_catalog" where
  "fixed_catalog version =
     \<lparr> fc_upsert = \<lambda>_ _ _ _ _. ret True,
       fc_resolve = \<lambda>f l. if f \<noteq> fv_id version \<or> l \<noteq> fv_label version then throw (NotFound (function_id_str f)) else ret version,
       fc_list = \<lambda>w. Some (Inr [version], w) \<rparr>"

definition mem_artifacts_get :: "ext \<Rightarrow> content_hash \<Rightarrow> (invoke_doubles, app_error, bytes) io" where
  "mem_artifacts_get X hash w =
     (case it_wasm w (content_hash_to_hex X hash) of
        None \<Rightarrow> (Inl (ArtifactMissing (content_hash_to_hex X hash)), w)
      | Some b \<Rightarrow>
          (let actual = content_hash_from_bytes X b in
           if actual \<noteq> hash then (Inl (HashMismatch (content_hash_to_hex X hash) (content_hash_to_hex X actual)), w)
           else (Inr b, w)))"

definition mem_artifacts :: "ext \<Rightarrow> invoke_doubles artifact_store" where
  "mem_artifacts X =
     \<lparr> as_put = \<lambda>wasm w. (let hash = content_hash_from_bytes X wasm in
         (Inr hash, w\<lparr> it_wasm := (it_wasm w)(content_hash_to_hex X hash \<mapsto> wasm) \<rparr>)),
       as_get = mem_artifacts_get X \<rparr>"

definition counting_runner :: "bool \<Rightarrow> invoke_doubles function_runner" where
  "counting_runner trap =
     \<lparr> fr_validate = \<lambda>_. ret (),
       fr_run = \<lambda>_ _ input _ w. (if trap then Inl (Trap ''unreachable'') else Inr \<lparr> ro_output = ''wasm:'' @ input \<rparr>,
         w\<lparr> it_from_wasm := it_from_wasm w + 1 \<rparr>) \<rparr>"

section \<open>Tests\<close>

definition ASM :: bytes where "ASM = chr 0 # ''asm''"

definition echo_at :: "content_hash \<Rightarrow> function_version" where
  "echo_at hash = \<lparr> fv_id = FunctionId ''echo'', fv_label = latest, fv_content_hash = hash, fv_egress_allow = [] \<rparr>"

definition harness :: "ext \<Rightarrow> bool \<Rightarrow> invoke_doubles invoke_function \<times> content_hash \<times> invoke_doubles" where
  "harness X trap =
     (let wasm = ASM @ '' fake''; hash = content_hash_from_bytes X wasm in
      (\<lparr> if_catalog = fixed_catalog (echo_at hash), if_artifacts = mem_artifacts X, if_runner = counting_runner trap \<rparr>,
       hash, \<lparr> it_wasm = [content_hash_to_hex X hash \<mapsto> wasm], it_from_wasm = 0 \<rparr>))"

definition hi_request :: invoke_request where
  "hi_request = \<lparr> iq_function = FunctionId ''echo'', iq_version = latest, iq_payload = ''hi'' \<rparr>"

definition runs_from_verified_wasm :: "ext \<Rightarrow> bool" where
  "runs_from_verified_wasm X \<longleftrightarrow>
     (case harness X False of (invoke, hash, w) \<Rightarrow>
       (case invoke_execute invoke hi_request w of
          (Inr out, w') \<Rightarrow> ir_output out = ''wasm:hi'' \<and> ir_content_hash out = hash \<and> it_from_wasm w' = 1
        | (Inl err, w') \<Rightarrow> False))"

definition missing_wasm_is_artifact_missing :: "ext \<Rightarrow> bool" where
  "missing_wasm_is_artifact_missing X \<longleftrightarrow>
     (let hash = content_hash_from_bytes X (ASM @ '' fake'');
          invoke = \<lparr> if_catalog = fixed_catalog (echo_at hash), if_artifacts = mem_artifacts X, if_runner = counting_runner False \<rparr> in
      case invoke_execute invoke hi_request \<lparr> it_wasm = Map.empty, it_from_wasm = 0 \<rparr> of
        (Inl (ArtifactMissing m), w') \<Rightarrow> it_from_wasm w' = 0
      | _ \<Rightarrow> False)"

definition wrong_bytes_is_hash_mismatch :: "ext \<Rightarrow> bool" where
  "wrong_bytes_is_hash_mismatch X \<longleftrightarrow>
     (let catalog_hash = content_hash_from_bytes X (ASM @ '' expected'');
          invoke = \<lparr> if_catalog = fixed_catalog (echo_at catalog_hash), if_artifacts = mem_artifacts X,
                     if_runner = counting_runner False \<rparr> in
      case invoke_execute invoke hi_request
             \<lparr> it_wasm = [content_hash_to_hex X catalog_hash \<mapsto> ASM @ '' wrong-bytes''], it_from_wasm = 0 \<rparr> of
        (Inl (HashMismatch expected actual), w') \<Rightarrow> it_from_wasm w' = 0
      | _ \<Rightarrow> False)"

definition guest_trap_propagates :: "ext \<Rightarrow> bool" where
  "guest_trap_propagates X \<longleftrightarrow>
     (case harness X True of (invoke, hash, w) \<Rightarrow>
       (case invoke_execute invoke hi_request w of
          (Inl (Trap m), w') \<Rightarrow> it_from_wasm w' = 1
        | _ \<Rightarrow> False))"

lemmas invoke_test_defs = harness_def hi_request_def echo_at_def fixed_catalog_def mem_artifacts_def mem_artifacts_get_def
  counting_runner_def invoke_execute_def bind_io_def Let_def

text \<open>
  All hold, whatever the hash function is, except that the test of the mismatch needs two texts it
  tells apart.
\<close>

lemma invoke_tests:
  "runs_from_verified_wasm X" "missing_wasm_is_artifact_missing X" "guest_trap_propagates X"
  "content_hash_from_bytes X (ASM @ '' wrong-bytes'') \<noteq> content_hash_from_bytes X (ASM @ '' expected'')
     \<Longrightarrow> wrong_bytes_is_hash_mismatch X"
  by (simp_all add: runs_from_verified_wasm_def missing_wasm_is_artifact_missing_def guest_trap_propagates_def
      wrong_bytes_is_hash_mismatch_def invoke_test_defs)

end
