(* ===== verification/Tests_Paid.thy ===== *)
theory Tests_Paid
  imports Tests_Invoke
begin

text \<open>
  The unit tests of \<open>crates/application/src/usecases/paid_invoke.rs\<close>, replayed on the model for every
  random source that fills its buffers, and every hash function. A method the double leaves
  \<open>unimplemented!\<close> would end the test; no test calls one, and it is written as an error here.
\<close>

section \<open>Doubles\<close>

text \<open>The fields of \<open>MemStore\<close> behind their locks, its fixed secret hash, and the calls of \<open>Runner\<close>.\<close>

record paid_doubles =
  pt_account :: account
  pt_key :: key_record
  pt_secret_hash :: secret_hash
  pt_calls :: nat

definition paid_funded :: "ext \<Rightarrow> 'u rng \<Rightarrow> u64 \<Rightarrow> u64 option \<Rightarrow> ('u, domain_error, paid_doubles \<times> string) io" where
  "paid_funded X rng balance cap =
     bind_io (account_id_generate rng) (\<lambda>a.
     bind_io (new_key_issue X rng a cap) (\<lambda>issued.
     ret (\<lparr> pt_account = \<lparr> acc_id = a, acc_balance = balance \<rparr>, pt_key = nk_record issued,
            pt_secret_hash = kr_secret_hash (nk_record issued), pt_calls = 0 \<rparr>, as_str (nk_secret issued))))"

definition unimplemented :: "('w, store_error, 'a) io" where
  "unimplemented = throw (StoreStorage ''not implemented'')"

definition paid_store_debit :: "secret_hash \<Rightarrow> u64 \<Rightarrow> (paid_doubles, store_error, debit_receipt) io" where
  "paid_store_debit hash cost w =
     (let key = pt_key w; account = pt_account w;
          short = StoreInsufficient (acc_id account) (acc_balance account) cost (kr_cap_remaining key);
          left = (case kr_cap_remaining key of Some c \<Rightarrow> c | None \<Rightarrow> 0) in
      if hash \<noteq> pt_secret_hash w then (Inl StoreUnauthorized, w)
      else if kr_revoked key then (Inl StoreUnauthorized, w)
      else if acc_balance account < cost then (Inl short, w)
      else if kr_capped key \<and> left < cost then (Inl short, w)
      else
        (Inr \<lparr> dr_secret_hash = hash, dr_account_id = kr_account_id key, dr_cost = cost, dr_capped = kr_capped key \<rparr>,
         w\<lparr> pt_account := account\<lparr> acc_balance := acc_balance account - cost \<rparr>,
            pt_key := (if kr_capped key then key\<lparr> kr_cap_remaining := Some (left - cost) \<rparr> else key) \<rparr>))"

definition paid_store_refund :: "debit_receipt \<Rightarrow> (paid_doubles, store_error, unit) io" where
  "paid_store_refund receipt w =
     (let account = pt_account w; key = pt_key w;
          left = (case kr_cap_remaining key of Some c \<Rightarrow> c | None \<Rightarrow> 0) in
      (Inr (), w\<lparr> pt_account := account\<lparr> acc_balance := acc_balance account + dr_cost receipt \<rparr>,
                  pt_key := (if dr_capped receipt then key\<lparr> kr_cap_remaining := Some (left + dr_cost receipt) \<rparr> else key) \<rparr>))"

definition paid_mem_store :: "paid_doubles account_store" where
  "paid_mem_store =
     \<lparr> st_create = \<lambda>_ _. unimplemented, st_put_key = \<lambda>_. unimplemented, st_revoke = \<lambda>_ _. unimplemented,
       st_key_by_hash = \<lambda>hash w. (Inr (if hash \<noteq> pt_secret_hash w then None else Some (pt_key w)), w),
       st_account = \<lambda>_ w. (Inr (Some (pt_account w)), w), st_list_keys = \<lambda>_. ret [],
       st_debit = paid_store_debit, st_refund = paid_store_refund,
       st_credited_balance = \<lambda>_ _. unimplemented, st_credit = \<lambda>_ _ _. unimplemented \<rparr>"

definition paid_fixed_catalog :: "function_version \<Rightarrow> 'w function_catalog" where
  "paid_fixed_catalog version =
     \<lparr> fc_upsert = \<lambda>_ _ _ _ _. ret True,
       fc_resolve = \<lambda>f _. if f \<noteq> fv_id version then throw (NotFound (function_id_str f)) else ret version,
       fc_list = \<lambda>w. Some (Inr [], w) \<rparr>"

definition paid_artifacts :: "ext \<Rightarrow> bytes \<Rightarrow> bool \<Rightarrow> 'w artifact_store" where
  "paid_artifacts X wasm missing =
     \<lparr> as_put = \<lambda>b. ret (content_hash_from_bytes X b),
       as_get = \<lambda>hash. if missing then throw (ArtifactMissing (content_hash_to_hex X hash)) else ret wasm \<rparr>"

datatype runner_mode = ModeOk | Guest4xx | ModeCompile | ModeTrap

fun mode_outcome :: "runner_mode \<Rightarrow> app_error + run_outcome" where
  "mode_outcome ModeOk = Inr \<lparr> ro_output = ''ok'' \<rparr>"
| "mode_outcome Guest4xx = Inr \<lparr> ro_output = ''status=400'' \<rparr>"
| "mode_outcome ModeCompile = Inl (Compile ''bad module'')"
| "mode_outcome ModeTrap = Inl (Trap ''unreachable'')"

definition mode_runner :: "runner_mode \<Rightarrow> paid_doubles function_runner" where
  "mode_runner mode =
     \<lparr> fr_validate = \<lambda>_. ret (), fr_run = \<lambda>_ _ _ _ w. (mode_outcome mode, w\<lparr> pt_calls := pt_calls w + 1 \<rparr>) \<rparr>"

definition paid_with :: "ext \<Rightarrow> u64 \<Rightarrow> runner_mode \<Rightarrow> bool \<Rightarrow> paid_doubles paid_invoke" where
  "paid_with X cost mode missing_wasm =
     paid_invoke_new cost ''http://api.test'' paid_mem_store
       \<lparr> if_catalog = paid_fixed_catalog (echo_at (content_hash_from_bytes X ASM)),
         if_artifacts = paid_artifacts X ASM missing_wasm, if_runner = mode_runner mode \<rparr>"

section \<open>Tests\<close>

text \<open>A test opens a funded store and looks at what its call returned and left.\<close>

definition with_funded ::
  "ext \<Rightarrow> 'u rng \<Rightarrow> 'u \<Rightarrow> u64 \<Rightarrow> u64 option \<Rightarrow> (paid_doubles \<Rightarrow> string \<Rightarrow> bool) \<Rightarrow> bool" where
  "with_funded X rng u balance cap test =
     (case paid_funded X rng balance cap u of (Inr (store, secret), u') \<Rightarrow> test store secret | (Inl e, u') \<Rightarrow> False)"

definition cost_zero_skips_the_bearer :: "ext \<Rightarrow> 'u rng \<Rightarrow> 'u \<Rightarrow> bool" where
  "cost_zero_skips_the_bearer X rng u = with_funded X rng u 0 None (\<lambda>store secret.
     case paid_execute X (paid_with X 0 ModeOk False) None hi_request store of
       (Inr out, w) \<Rightarrow> ir_output out = ''ok'' \<and> acc_balance (pt_account w) = 0 \<and> pt_calls w = 1
     | _ \<Rightarrow> False)"

definition one_credit_debit_then_runs :: "ext \<Rightarrow> 'u rng \<Rightarrow> 'u \<Rightarrow> bool" where
  "one_credit_debit_then_runs X rng u = with_funded X rng u 2 (Some 2) (\<lambda>store secret.
     case paid_execute X (paid_with X 1 ModeOk False) (Some secret) hi_request store of
       (Inr out, w) \<Rightarrow> acc_balance (pt_account w) = 1 \<and> kr_cap_remaining (pt_key w) = Some 1
     | _ \<Rightarrow> False)"

definition insufficient_balance_does_not_run :: "ext \<Rightarrow> 'u rng \<Rightarrow> 'u \<Rightarrow> bool" where
  "insufficient_balance_does_not_run X rng u = with_funded X rng u 0 None (\<lambda>store secret.
     case paid_execute X (paid_with X 1 ModeOk False) (Some secret) hi_request store of
       (Inl (InsufficientCredits credit_cost balance url spend_cap_remaining), w) \<Rightarrow>
         credit_cost = 1 \<and> balance = 0 \<and> contains_str url ''/credit'' \<and> spend_cap_remaining = None
         \<and> pt_calls w = 0 \<and> acc_balance (pt_account w) = 0
     | _ \<Rightarrow> False)"

definition spend_cap_blocks_a_funded_account :: "ext \<Rightarrow> 'u rng \<Rightarrow> 'u \<Rightarrow> bool" where
  "spend_cap_blocks_a_funded_account X rng u = with_funded X rng u 10 (Some 0) (\<lambda>store secret.
     case paid_execute X (paid_with X 1 ModeOk False) (Some secret) hi_request store of
       (Inl (InsufficientCredits credit_cost balance url spend_cap_remaining), w) \<Rightarrow>
         balance = 10 \<and> spend_cap_remaining = Some 0 \<and> pt_calls w = 0
         \<and> acc_balance (pt_account w) = 10 \<and> kr_cap_remaining (pt_key w) = Some 0
     | _ \<Rightarrow> False)"

definition guest_4xx_stays_paid :: "ext \<Rightarrow> 'u rng \<Rightarrow> 'u \<Rightarrow> bool" where
  "guest_4xx_stays_paid X rng u = with_funded X rng u 1 (Some 1) (\<lambda>store secret.
     case paid_execute X (paid_with X 1 Guest4xx False) (Some secret) hi_request store of
       (Inr out, w) \<Rightarrow> ir_output out = ''status=400'' \<and> acc_balance (pt_account w) = 0 \<and> kr_cap_remaining (pt_key w) = Some 0
     | _ \<Rightarrow> False)"

definition pre_guest_failure_restores_balance_and_cap :: "ext \<Rightarrow> 'u rng \<Rightarrow> 'u \<Rightarrow> bool" where
  "pre_guest_failure_restores_balance_and_cap X rng u = with_funded X rng u 4 (Some 3) (\<lambda>store secret.
     case paid_execute X (paid_with X 1 ModeCompile False) (Some secret) hi_request store of
       (Inl (Compile m), w) \<Rightarrow> acc_balance (pt_account w) = 4 \<and> kr_cap_remaining (pt_key w) = Some 3
     | _ \<Rightarrow> False)"

definition missing_artifact_restores_balance :: "ext \<Rightarrow> 'u rng \<Rightarrow> 'u \<Rightarrow> bool" where
  "missing_artifact_restores_balance X rng u = with_funded X rng u 4 (Some 3) (\<lambda>store secret.
     case paid_execute X (paid_with X 1 ModeOk True) (Some secret) hi_request store of
       (Inl (ArtifactMissing m), w) \<Rightarrow> pt_calls w = 0 \<and> acc_balance (pt_account w) = 4 \<and> kr_cap_remaining (pt_key w) = Some 3
     | _ \<Rightarrow> False)"

definition guest_trap_stays_paid :: "ext \<Rightarrow> 'u rng \<Rightarrow> 'u \<Rightarrow> bool" where
  "guest_trap_stays_paid X rng u = with_funded X rng u 1 None (\<lambda>store secret.
     case paid_execute X (paid_with X 1 ModeTrap False) (Some secret) hi_request store of
       (Inl (Trap m), w) \<Rightarrow> acc_balance (pt_account w) = 0
     | _ \<Rightarrow> False)"

section \<open>They hold\<close>

lemma contains_str_append: "contains_str t p \<Longrightarrow> contains_str (s @ t) p"
  by (induction s) auto

lemma issued_presented:
  assumes "externals X" and "rng_fills rng" and "new_key_issue X rng a cap w = (Inr nk, w')"
  shows "presented_bearer (Some (as_str (nk_secret nk))) = Some (nk_secret nk)"
proof -
  obtain w1 where g: "bearer_generate X rng w = (Inr (nk_secret nk), w1)"
    using assms(3) by (auto simp: new_key_issue_def bind_io_Inr_iff split: option.splits)
  have p: "bearer_parse (as_str (nk_secret nk)) = Inr (nk_secret nk)"
    by (rule externals.bearer_generate_parses [OF assms(1,2) g])
  then obtain rest where "as_str (nk_secret nk) = SECRET_PREFIX @ rest" "\<forall>c \<in> set rest. is_ascii_hexdigit c"
    by (auto simp: bearer_parse_Inr_iff)
  moreover have "graphic c" if "c \<in> set SECRET_PREFIX" for c
    using that by (auto simp: SECRET_PREFIX_def graphic_def byte_def)
  ultimately have "trim (as_str (nk_secret nk)) = as_str (nk_secret nk)"
    by (intro trim_graphic) (auto intro: alphanumeric_graphic [OF hexdigit_alphanumeric])
  moreover have "as_str (nk_secret nk) \<noteq> []" using p by (auto simp: bearer_parse_Inr_iff SECRET_PREFIX_def)
  ultimately show ?thesis using p by (simp add: presented_bearer_def)
qed

text \<open>What every test starts from.\<close>

lemma paid_funded_ok:
  assumes "externals X" and "rng_fills rng" and "\<And>n u. \<exists>b u'. rng n u = (Inr b, u')"
  obtains a kid secret u' where
    "paid_funded X rng balance cap u =
       (Inr (\<lparr> pt_account = \<lparr> acc_id = a, acc_balance = balance \<rparr>,
               pt_key = \<lparr> kr_secret_hash = secret_hash_of X secret, kr_account_id = a, kr_key_id = kid, kr_revoked = False,
                          kr_capped = (cap \<noteq> None), kr_cap_remaining = cap \<rparr>,
               pt_secret_hash = secret_hash_of X secret, pt_calls = 0 \<rparr>, as_str secret), u')"
    "presented_bearer (Some (as_str secret)) = Some secret"
proof -
  have drawn: "\<exists>b w'. random_bytes rng n w = (Inr b, w')" for n w
    using assms(3) [of n w] by (auto simp: random_bytes_def map_err_io_def)
  obtain a u1 where a: "account_id_generate rng u = (Inr a, u1)"
    using drawn [of ID_LEN u] by (auto simp: account_id_generate_def bind_io_def)
  obtain raw u2 where raw: "random_bytes rng SECRET_RANDOM_LEN u1 = (Inr raw, u2)" using drawn by blast
  obtain b u3 where b: "random_bytes rng ID_LEN u2 = (Inr b, u3)" using drawn by blast
  define secret where "secret = BearerSecret (SECRET_PREFIX @ hex_encode X raw)"
  have k: "new_key_issue X rng a cap u1 = (Inr \<lparr> nk_secret = secret, nk_record = \<lparr> kr_secret_hash = secret_hash_of X secret,
      kr_account_id = a, kr_key_id = KeyId b, kr_revoked = False, kr_capped = (cap \<noteq> None), kr_cap_remaining = cap \<rparr> \<rparr>, u3)"
    using raw b by (cases cap) (simp_all add: new_key_issue_def bearer_generate_def key_id_generate_def bind_io_def secret_def)
  have "presented_bearer (Some (as_str secret)) = Some secret"
    using issued_presented [OF assms(1,2) k] by simp
  with a k that show thesis by (simp add: paid_funded_def bind_io_def)
qed

lemmas paid_test_defs = with_funded_def paid_execute_def paid_with_def paid_invoke_new_def paid_mem_store_def
  paid_store_debit_def paid_store_refund_def paid_fixed_catalog_def paid_artifacts_def mode_runner_def run_or_refund_def
  invoke_execute_def hi_request_def echo_at_def bind_io_def match_io_def map_err_io_def Let_def

lemma paid_invoke_tests:
  assumes "externals X" and "rng_fills rng" and "\<And>n u. \<exists>b u'. rng n u = (Inr b, u')"
  shows "cost_zero_skips_the_bearer X rng u" "one_credit_debit_then_runs X rng u"
    "insufficient_balance_does_not_run X rng u" "spend_cap_blocks_a_funded_account X rng u"
    "guest_4xx_stays_paid X rng u" "pre_guest_failure_restores_balance_and_cap X rng u"
    "missing_artifact_restores_balance X rng u" "guest_trap_stays_paid X rng u"
proof -
  note funded = paid_funded_ok [OF assms]
  show "cost_zero_skips_the_bearer X rng u"
    by (rule funded [of 0 None u]) (simp add: cost_zero_skips_the_bearer_def paid_test_defs)
  show "one_credit_debit_then_runs X rng u"
    by (rule funded [of 2 "Some 2" u]) (simp add: one_credit_debit_then_runs_def paid_test_defs)
  show "insufficient_balance_does_not_run X rng u"
    by (rule funded [of 0 None u])
      (simp add: insufficient_balance_does_not_run_def paid_test_defs contains_str_append starts_with_def)
  show "spend_cap_blocks_a_funded_account X rng u"
    by (rule funded [of 10 "Some 0" u]) (simp add: spend_cap_blocks_a_funded_account_def paid_test_defs)
  show "guest_4xx_stays_paid X rng u"
    by (rule funded [of 1 "Some 1" u]) (simp add: guest_4xx_stays_paid_def paid_test_defs)
  show "pre_guest_failure_restores_balance_and_cap X rng u"
    by (rule funded [of 4 "Some 3" u]) (simp add: pre_guest_failure_restores_balance_and_cap_def paid_test_defs)
  show "missing_artifact_restores_balance X rng u"
    by (rule funded [of 4 "Some 3" u]) (simp add: missing_artifact_restores_balance_def paid_test_defs)
  show "guest_trap_stays_paid X rng u"
    by (rule funded [of 1 None u]) (simp add: guest_trap_stays_paid_def paid_test_defs)
qed

end
