(* ===== verification/Mem_Ledger.thy ===== *)
theory Mem_Ledger
  imports Store_Fresh
begin

text \<open>
  \<open>crates/api/src/testutil.rs\<close>: \<open>MemLedger\<close>, the account store the tests of the API run against. The
  three \<open>HashMap\<close>s are association lists, the one mutex makes every method one step, and additions
  wrap, as in a build without overflow checks. At the end the double is compared with what it stands
  in for, the store on DynamoDB. The methods are over any extension of the record, so that the double
  of the accounts use case, which has counters beside the same three tables, uses them too.
\<close>

record mem_ledger =
  ml_accounts :: "(string \<times> account) list"
  ml_keys :: "(string \<times> key_record) list"
  ml_receipts :: "(string \<times> u64) list"

definition mem_ledger_new :: mem_ledger where
  "mem_ledger_new = \<lparr> ml_accounts = [], ml_keys = [], ml_receipts = [] \<rparr>"

type_synonym ('z, 'a) mem_io = "('z mem_ledger_scheme, store_error, 'a) io"

definition ml_create :: "ext \<Rightarrow> account \<Rightarrow> key_record \<Rightarrow> ('z, unit) mem_io" where
  "ml_create X account key w =
     (Inr (), w\<lparr> ml_accounts := AList.update (account_id_to_hex X (acc_id account)) account (ml_accounts w),
                 ml_keys := AList.update (secret_hash_to_hex X (kr_secret_hash key)) key (ml_keys w) \<rparr>)"

definition ml_put_key :: "ext \<Rightarrow> key_record \<Rightarrow> ('z, unit) mem_io" where
  "ml_put_key X key w = (Inr (), w\<lparr> ml_keys := AList.update (secret_hash_to_hex X (kr_secret_hash key)) key (ml_keys w) \<rparr>)"

definition ml_revoke :: "account_id \<Rightarrow> key_id \<Rightarrow> ('z, unit) mem_io" where
  "ml_revoke a kid w =
     (case find (\<lambda>(h, k). kr_account_id k = a \<and> kr_key_id k = kid) (ml_keys w) of
        None \<Rightarrow> (Inl StoreNotFound, w)
      | Some (h, k) \<Rightarrow> (Inr (), w\<lparr> ml_keys := AList.update h (k\<lparr> kr_revoked := True \<rparr>) (ml_keys w) \<rparr>))"

definition ml_key_by_hash :: "ext \<Rightarrow> secret_hash \<Rightarrow> ('z, key_record option) mem_io" where
  "ml_key_by_hash X hash w = (Inr (map_of (ml_keys w) (secret_hash_to_hex X hash)), w)"

definition ml_account :: "ext \<Rightarrow> account_id \<Rightarrow> ('z, account option) mem_io" where
  "ml_account X a w = (Inr (map_of (ml_accounts w) (account_id_to_hex X a)), w)"

definition ml_list_keys :: "account_id \<Rightarrow> ('z, key_meta list) mem_io" where
  "ml_list_keys a w = (Inr (map key_meta_from (filter (\<lambda>k. kr_account_id k = a) (map snd (ml_keys w)))), w)"

definition cap_left :: "key_record \<Rightarrow> u64" where
  "cap_left k = (case kr_cap_remaining k of Some c \<Rightarrow> c | None \<Rightarrow> 0)"

definition ml_debit :: "ext \<Rightarrow> secret_hash \<Rightarrow> u64 \<Rightarrow> ('z, debit_receipt) mem_io" where
  "ml_debit X hash cost w =
     (let h = secret_hash_to_hex X hash in
      case map_of (ml_keys w) h of
        None \<Rightarrow> (Inl StoreUnauthorized, w)
      | Some key \<Rightarrow>
          if kr_revoked key then (Inl StoreUnauthorized, w)
          else
            (let a = account_id_to_hex X (kr_account_id key) in
             case map_of (ml_accounts w) a of
               None \<Rightarrow> (Inl StoreNotFound, w)
             | Some account \<Rightarrow>
                 (let cap_short = (kr_capped key \<and> cap_left key < cost) in
                  if acc_balance account < cost \<or> cap_short then
                    (Inl (StoreInsufficient (acc_id account) (acc_balance account) cost
                       (if kr_capped key then Some (cap_left key) else None)), w)
                  else
                    (Inr \<lparr> dr_secret_hash = hash, dr_account_id = acc_id account, dr_cost = cost, dr_capped = kr_capped key \<rparr>,
                     w\<lparr> ml_accounts := AList.update a (account\<lparr> acc_balance := acc_balance account - cost \<rparr>) (ml_accounts w),
                        ml_keys := (if kr_capped key
                          then AList.update h (key\<lparr> kr_cap_remaining := Some (cap_left key - cost) \<rparr>) (ml_keys w)
                          else ml_keys w) \<rparr>))))"

definition ml_refund :: "ext \<Rightarrow> debit_receipt \<Rightarrow> ('z, unit) mem_io" where
  "ml_refund X receipt w =
     (let a = account_id_to_hex X (dr_account_id receipt); h = secret_hash_to_hex X (dr_secret_hash receipt) in
      case map_of (ml_accounts w) a of
        None \<Rightarrow> (Inl StoreNotFound, w)
      | Some account \<Rightarrow>
          (let w1 = w\<lparr> ml_accounts := AList.update a
                 (account\<lparr> acc_balance := acc_balance account + dr_cost receipt \<rparr>) (ml_accounts w) \<rparr> in
           if \<not> dr_capped receipt then (Inr (), w1)
           else
             (case map_of (ml_keys w1) h of
                None \<Rightarrow> (Inl StoreNotFound, w1)
              | Some key \<Rightarrow>
                  (Inr (), w1\<lparr> ml_keys := AList.update h
                     (key\<lparr> kr_cap_remaining := Some (cap_left key + dr_cost receipt) \<rparr>) (ml_keys w1) \<rparr>))))"

definition ml_credited_balance :: "ext \<Rightarrow> account_id \<Rightarrow> string \<Rightarrow> ('z, u64 option) mem_io" where
  "ml_credited_balance X a nonce w =
     (if map_of (ml_receipts w) nonce = None then (Inr None, w)
      else (Inr (map_option acc_balance (map_of (ml_accounts w) (account_id_to_hex X a))), w))"

definition ml_credit :: "ext \<Rightarrow> account_id \<Rightarrow> u64 \<Rightarrow> string \<Rightarrow> ('z, credit_outcome) mem_io" where
  "ml_credit X acct invokes nonce w =
     (let a = account_id_to_hex X acct in
      if map_of (ml_receipts w) nonce \<noteq> None then
        (case map_of (ml_accounts w) a of
           None \<Rightarrow> (Inl StoreNotFound, w)
         | Some account \<Rightarrow> (Inr (Replay (acc_balance account)), w))
      else
        (case map_of (ml_accounts w) a of
           None \<Rightarrow> (Inl StoreNotFound, w)
         | Some account \<Rightarrow>
             (let balance = acc_balance account + invokes in
              (Inr (Applied balance),
               w\<lparr> ml_accounts := AList.update a (account\<lparr> acc_balance := balance \<rparr>) (ml_accounts w),
                  ml_receipts := AList.update nonce invokes (ml_receipts w) \<rparr>))))"

definition mem_account_store :: "ext \<Rightarrow> 'z mem_ledger_scheme account_store" where
  "mem_account_store X =
     \<lparr> st_create = ml_create X, st_put_key = ml_put_key X, st_revoke = ml_revoke,
       st_key_by_hash = ml_key_by_hash X, st_account = ml_account X, st_list_keys = ml_list_keys,
       st_debit = ml_debit X, st_refund = ml_refund X,
       st_credited_balance = ml_credited_balance X, st_credit = ml_credit X \<rparr>"

section \<open>Against the store it stands in for\<close>

text \<open>
  On a calm service a debit answers the same on the double and on DynamoDB when both hold the same key
  and account, and both hold the same key and account afterwards.
\<close>

definition same_records :: "ext \<Rightarrow> 'w account_db \<Rightarrow> tables \<Rightarrow> 'z mem_ledger_scheme \<Rightarrow> account \<Rightarrow> key_record \<Rightarrow> bool" where
  "same_records X S db m acc k \<longleftrightarrow>
     db (adb_accounts S) (account_pkey X (acc_id acc)) = Some (account_item X acc)
     \<and> db (adb_keys S) (key_pkey X (kr_secret_hash k)) = Some (key_item X k)
     \<and> map_of (ml_accounts m) (account_id_to_hex X (acc_id acc)) = Some acc
     \<and> map_of (ml_keys m) (secret_hash_to_hex X (kr_secret_hash k)) = Some k"

lemma denial_cap_left:
  "denial acc k cost =
     (if acc_balance acc < cost \<or> kr_capped k \<and> cap_left k < cost then
        Some (StoreInsufficient (acc_id acc) (acc_balance acc) cost (if kr_capped k then Some (cap_left k) else None))
      else None)"
  by (simp add: denial_def cap_left_def Let_def)

lemma mem_ledger_debits_alike:
  assumes "calm_store S view schema hist X calm" and "calm w" and "cost \<noteq> 0"
    and "same_records X S (view w) m acc k" and "key_record_ok k" and "kr_account_id k = acc_id acc"
  shows "\<exists>r w' m' acc' k'. store_debit X S (kr_secret_hash k) cost w = (r, w')
     \<and> ml_debit X (kr_secret_hash k) cost m = (r, m') \<and> same_records X S (view w') m' acc' k'
     \<and> acc_id acc' = acc_id acc \<and> kr_secret_hash k' = kr_secret_hash k"
proof -
  have m: "map_of (ml_accounts m) (account_id_to_hex X (acc_id acc)) = Some acc"
    "map_of (ml_keys m) (secret_hash_to_hex X (kr_secret_hash k)) = Some k"
    and db: "view w (adb_accounts S) (account_pkey X (acc_id acc)) = Some (account_item X acc)"
    "view w (adb_keys S) (key_pkey X (kr_secret_hash k)) = Some (key_item X k)"
    using assms(4) by (auto simp: same_records_def)
  obtain w' where d: "store_debit X S (kr_secret_hash k) cost w =
    (if kr_revoked k then (Inl StoreUnauthorized, w')
     else case denial acc k cost of
       Some e \<Rightarrow> (Inl e, w')
     | None \<Rightarrow> (Inr \<lparr> dr_secret_hash = kr_secret_hash k, dr_account_id = acc_id acc, dr_cost = cost,
                     dr_capped = kr_capped k \<rparr>, w'))"
    "if kr_revoked k \<or> denial acc k cost \<noteq> None then view w' = view w
     else view w' (adb_accounts S) (account_pkey X (acc_id acc))
              = Some (account_item X (acc\<lparr> acc_balance := acc_balance acc - cost \<rparr>))
          \<and> view w' (adb_keys S) (key_pkey X (kr_secret_hash k)) = Some (key_item X (debited_key cost k))"
    using calm_store.debit_decides [OF assms(1-3) db assms(5,6)] by blast
  show ?thesis
  proof (cases "kr_revoked k \<or> denial acc k cost \<noteq> None")
    case True
    then have "\<exists>r. store_debit X S (kr_secret_hash k) cost w = (r, w') \<and> ml_debit X (kr_secret_hash k) cost m = (r, m)"
      using d(1) m assms(6)
      by (auto simp: ml_debit_def denial_cap_left Let_def split: if_splits)
    with True d(2) assms(4) show ?thesis by (metis (no_types))
  next
    case False
    define acc' where "acc' = acc\<lparr> acc_balance := acc_balance acc - cost \<rparr>"
    define m' where "m' = snd (ml_debit X (kr_secret_hash k) cost m)"
    from False have "ml_debit X (kr_secret_hash k) cost m =
        (Inr \<lparr> dr_secret_hash = kr_secret_hash k, dr_account_id = acc_id acc, dr_cost = cost, dr_capped = kr_capped k \<rparr>, m')"
      and "map_of (ml_accounts m') (account_id_to_hex X (acc_id acc)) = Some acc'"
      and "map_of (ml_keys m') (secret_hash_to_hex X (kr_secret_hash k)) = Some (debited_key cost k)"
      using m assms(5,6)
      by (auto simp: denial_cap_left m'_def acc'_def ml_debit_def Let_def update_conv' debited_key_def cap_left_def key_record_ok_def)
    with False d show ?thesis
      by (auto simp: same_records_def acc'_def debited_key_def intro!: exI [of _ acc'] exI [of _ "debited_key cost k"])
  qed
qed

end
