(* ===== verification/Tests_Accounts.thy ===== *)
theory Tests_Accounts
  imports Mem_Ledger Accounts
begin

text \<open>
  The unit tests of \<open>crates/application/src/usecases/accounts.rs\<close>, replayed on the model. The double
  \<open>MemStore\<close> has the tables of \<open>Mem_Ledger\<close> and two counters, and the calls of \<open>Settler\<close> are counted
  beside them; the last field is where the random source of the run is, which gives different bytes
  at every call.
\<close>

section \<open>Doubles\<close>

record accounts_doubles = mem_ledger +
  at_credits :: nat
  at_credit_failures :: nat
  at_settles :: nat
  at_random :: nat

definition accounts_doubles_new :: accounts_doubles where
  "accounts_doubles_new =
     \<lparr> ml_accounts = [], ml_keys = [], ml_receipts = [], at_credits = 0, at_credit_failures = 0,
       at_settles = 0, at_random = 0 \<rparr>"

definition counting_rng :: "accounts_doubles rng" where
  "counting_rng n w = (Inr (replicate n (chr (at_random w mod 256))), w\<lparr> at_random := at_random w + 1 \<rparr>)"

definition at_unimplemented :: "('w, store_error, 'a) io" where
  "at_unimplemented = throw (StoreStorage ''not implemented'')"

definition failing_credit :: "ext \<Rightarrow> account_id \<Rightarrow> u64 \<Rightarrow> string \<Rightarrow> (accounts_doubles, store_error, credit_outcome) io" where
  "failing_credit X acct invokes nonce w =
     (if at_credit_failures w > 0 then
        (Inl (StoreStorage ''throttled''), w\<lparr> at_credit_failures := at_credit_failures w - 1 \<rparr>)
      else if map_of (ml_receipts w) nonce \<noteq> None then
        (case map_of (ml_accounts w) (account_id_to_hex X acct) of
           None \<Rightarrow> (Inl StoreNotFound, w)
         | Some account \<Rightarrow> (Inr (Replay (acc_balance account)), w))
      else
        (case map_of (ml_accounts w) (account_id_to_hex X acct) of
           None \<Rightarrow> (Inl StoreNotFound, w)
         | Some account \<Rightarrow>
             (let balance = (if uint (acc_balance account) + uint invokes < 2 ^ 64
                             then acc_balance account + invokes else - 1) in
              (Inr (Applied balance),
               w\<lparr> ml_accounts := AList.update (account_id_to_hex X acct) (account\<lparr> acc_balance := balance \<rparr>) (ml_accounts w),
                  ml_receipts := AList.update nonce invokes (ml_receipts w), at_credits := at_credits w + 1 \<rparr>))))"

definition accounts_mem_store :: "ext \<Rightarrow> accounts_doubles account_store" where
  "accounts_mem_store X =
     \<lparr> st_create = ml_create X, st_put_key = ml_put_key X, st_revoke = ml_revoke,
       st_key_by_hash = ml_key_by_hash X, st_account = ml_account X, st_list_keys = ml_list_keys,
       st_debit = \<lambda>_ _. at_unimplemented, st_refund = \<lambda>_. at_unimplemented,
       st_credited_balance = ml_credited_balance X, st_credit = failing_credit X \<rparr>"

definition counting_settle :: "bool \<Rightarrow> account_id \<Rightarrow> u64 \<Rightarrow> string \<Rightarrow> (accounts_doubles, app_error, string) io" where
  "counting_settle fail a invokes header w =
     (if fail then Inl (BadRequest ''payment rejected'') else Inr header, w\<lparr> at_settles := at_settles w + 1 \<rparr>)"

definition counting_settler :: "ext \<Rightarrow> bool \<Rightarrow> accounts_doubles credit_settler" where
  "counting_settler X fail =
     \<lparr> cs_challenge = \<lambda>a invokes. ret \<lparr> pc_invokes = invokes, pc_amount = invokes * 10, pc_asset = ''usdc'',
         pc_pay_to = ''0xplatform'', pc_resource = ''/accounts/'' @ account_id_to_hex X a @ ''/credit'', pc_network = ''base'' \<rparr>,
       cs_payment_nonce = \<lambda>_ header. ret header, cs_settle = counting_settle fail \<rparr>"

definition accounts_service :: "ext \<Rightarrow> bool \<Rightarrow> accounts_doubles accounts" where
  "accounts_service X fail = accounts_new (accounts_mem_store X) (counting_settler X fail) ''http://api.test''"

section \<open>Tests\<close>

text \<open>The text \<open>{:?}\<close> prints of a view: the \<open>Debug\<close> implementations derived for it.\<close>

fun debug_list :: "string list \<Rightarrow> string" where
  "debug_list [] = []"
| "debug_list [s] = s"
| "debug_list (s # t # ss) = s @ '', '' @ debug_list (t # ss)"

definition debug_bytes :: "string \<Rightarrow> bytes \<Rightarrow> string" where
  "debug_bytes name b = name @ ''(['' @ debug_list (map (\<lambda>c. show_nat (byte c)) b) @ ''])''"

definition debug_bool :: "bool \<Rightarrow> string" where
  "debug_bool b = (if b then ''true'' else ''false'')"

definition debug_key_meta :: "key_meta \<Rightarrow> string" where
  "debug_key_meta k =
     ''KeyMeta { key_id: '' @ debug_bytes ''KeyId'' (key_id_bytes (km_key_id k)) @ '', revoked: '' @ debug_bool (km_revoked k)
     @ '', capped: '' @ debug_bool (km_capped k) @ '', cap_remaining: ''
     @ (case km_cap_remaining k of None \<Rightarrow> ''None'' | Some c \<Rightarrow> ''Some('' @ show_u64 c @ '')'') @ '' }''"

definition debug_account_view :: "account_view \<Rightarrow> string" where
  "debug_account_view v =
     ''AccountView { account_id: '' @ debug_bytes ''AccountId'' (account_id_bytes (av_account_id v))
     @ '', balance: '' @ show_u64 (av_balance v) @ '', keys: ['' @ debug_list (map debug_key_meta (av_keys v)) @ ''] }''"

text \<open>A test starts by creating an account.\<close>

definition with_created :: "ext \<Rightarrow> bool \<Rightarrow> (accounts_doubles accounts \<Rightarrow> created_account \<Rightarrow> accounts_doubles \<Rightarrow> bool) \<Rightarrow> bool" where
  "with_created X fail test =
     (let accounts = accounts_service X fail in
      case accounts_create X counting_rng accounts accounts_doubles_new of
        (Inr created, w) \<Rightarrow> test accounts created w
      | (Inl e, w) \<Rightarrow> False)"

definition keys_listed :: "account_id \<Rightarrow> accounts_doubles \<Rightarrow> nat" where
  "keys_listed a w = (case ml_list_keys a w of (Inr ks, w') \<Rightarrow> length ks | (Inl e, w') \<Rightarrow> 0)"

definition stranger_cannot_issue_key :: "ext \<Rightarrow> bool" where
  "stranger_cannot_issue_key X = with_created X False (\<lambda>accounts created w.
     (case accounts_issue_key X counting_rng accounts (ca_account_id created) None None w of
        (Inl Unauthorized, w1) \<Rightarrow>
          keys_listed (ca_account_id created) w1 = 1
          \<and> (case accounts_create X counting_rng accounts w1 of
               (Inr other, w2) \<Rightarrow>
                 (case accounts_issue_key X counting_rng accounts (ca_account_id created) (Some (ca_secret other)) None w2 of
                    (Inl Unauthorized, w3) \<Rightarrow> keys_listed (ca_account_id created) w3 = 1
                  | _ \<Rightarrow> False)
             | _ \<Rightarrow> False)
      | _ \<Rightarrow> False))"

definition secret_is_not_in_the_list :: "ext \<Rightarrow> bool" where
  "secret_is_not_in_the_list X = with_created X False (\<lambda>accounts created w.
     (case accounts_read X accounts (ca_secret created) w of
        (Inr view, w1) \<Rightarrow>
          (let rendered = debug_account_view view in
           \<not> contains_str rendered (as_str (ca_secret created)) \<and> \<not> contains_str rendered ''secret_hash''
           \<and> \<not> contains_str rendered ''SecretHash'' \<and> av_balance view = 0
           \<and> map km_key_id (av_keys view) = [ca_key_id created])
      | _ \<Rightarrow> False))"

definition credit_is_not_applied_when_settle_fails :: "ext \<Rightarrow> bool" where
  "credit_is_not_applied_when_settle_fails X = with_created X True (\<lambda>accounts created w.
     (case accounts_credit X accounts (ca_account_id created) 3 (Some ''nonce-1'') w of
        (Inl (BadRequest m), w1) \<Rightarrow>
          at_credits w1 = 0
          \<and> (case ml_account X (ca_account_id created) w1 of (Inr (Some a), w2) \<Rightarrow> acc_balance a = 0 | _ \<Rightarrow> False)
      | _ \<Rightarrow> False))"

definition capped_key_cannot_issue_or_revoke_keys :: "ext \<Rightarrow> bool" where
  "capped_key_cannot_issue_or_revoke_keys X = with_created X False (\<lambda>accounts created w.
     (case accounts_issue_key X counting_rng accounts (ca_account_id created) (Some (ca_secret created)) (Some 5) w of
        (Inr capped, w1) \<Rightarrow>
          (case accounts_issue_key X counting_rng accounts (ca_account_id created) (Some (ik_secret capped)) None w1 of
             (Inl Unauthorized, w2) \<Rightarrow>
               (case accounts_revoke X accounts (ca_account_id created) (ca_key_id created) (Some (ik_secret capped)) w2 of
                  (Inl Unauthorized, w3) \<Rightarrow> keys_listed (ca_account_id created) w3 = 2
                | _ \<Rightarrow> False)
           | _ \<Rightarrow> False)
      | _ \<Rightarrow> False))"

definition transient_store_failure_after_settle_is_retried :: "ext \<Rightarrow> bool" where
  "transient_store_failure_after_settle_is_retried X = with_created X False (\<lambda>accounts created w.
     (case accounts_credit X accounts (ca_account_id created) 3 (Some ''nonce-1'') (w\<lparr> at_credit_failures := 2 \<rparr>) of
        (Inr balance, w1) \<Rightarrow> balance = 3 \<and> at_settles w1 = 1 \<and> at_credits w1 = 1
      | _ \<Rightarrow> False))"

definition retry_of_a_credited_payment_does_not_settle_again :: "ext \<Rightarrow> bool" where
  "retry_of_a_credited_payment_does_not_settle_again X = with_created X False (\<lambda>accounts created w.
     (case accounts_credit X accounts (ca_account_id created) 3 (Some ''nonce-1'') w of
        (Inr first, w1) \<Rightarrow>
          (case accounts_credit X accounts (ca_account_id created) 3 (Some ''nonce-1'') w1 of
             (Inr second, w2) \<Rightarrow> first = 3 \<and> second = 3 \<and> at_settles w2 = 1 \<and> at_credits w2 = 1
           | _ \<Rightarrow> False)
      | _ \<Rightarrow> False))"

section \<open>They hold\<close>

text \<open>What the first creation draws and stores, and what a later key of the run is.\<close>

definition drawn_account :: "nat \<Rightarrow> account_id" where
  "drawn_account n = AccountId (replicate ID_LEN (chr (n mod 256)))"

definition drawn_secret :: "ext \<Rightarrow> nat \<Rightarrow> bearer_secret" where
  "drawn_secret X n = BearerSecret (SECRET_PREFIX @ hex_encode X (replicate SECRET_RANDOM_LEN (chr (n mod 256))))"

definition drawn_key :: "ext \<Rightarrow> nat \<Rightarrow> account_id \<Rightarrow> u64 option \<Rightarrow> key_record" where
  "drawn_key X n a cap =
     \<lparr> kr_secret_hash = secret_hash_of X (drawn_secret X n), kr_account_id = a,
       kr_key_id = KeyId (replicate ID_LEN (chr ((n + 1) mod 256))), kr_revoked = False,
       kr_capped = (cap \<noteq> None), kr_cap_remaining = cap \<rparr>"

lemma drawn_key_fields [simp]:
  "kr_secret_hash (drawn_key X n a cap) = secret_hash_of X (drawn_secret X n)" "kr_account_id (drawn_key X n a cap) = a"
  "\<not> kr_revoked (drawn_key X n a cap)" "kr_capped (drawn_key X n a cap) \<longleftrightarrow> cap \<noteq> None"
  by (simp_all add: drawn_key_def)

lemma account_drawn:
  "account_open counting_rng w = (Inr \<lparr> acc_id = drawn_account (at_random w), acc_balance = 0 \<rparr>, w\<lparr> at_random := at_random w + 1 \<rparr>)"
  by (simp add: account_open_def account_id_generate_def random_bytes_def counting_rng_def map_err_io_def bind_io_def
      drawn_account_def)

lemma key_drawn:
  "new_key_issue X counting_rng a cap w =
     (Inr \<lparr> nk_secret = drawn_secret X (at_random w), nk_record = drawn_key X (at_random w) a cap \<rparr>,
      w\<lparr> at_random := at_random w + 2 \<rparr>)"
  by (cases cap)
    (simp_all add: new_key_issue_def bearer_generate_def key_id_generate_def random_bytes_def counting_rng_def
      map_err_io_def bind_io_def drawn_key_def drawn_secret_def)

lemma account_created:
  "accounts_create X counting_rng (accounts_service X fail) w =
     (Inr \<lparr> ca_account_id = drawn_account (at_random w), ca_key_id = kr_key_id (drawn_key X (at_random w + 1) (drawn_account (at_random w)) None),
            ca_secret = drawn_secret X (at_random w + 1), ca_balance = 0 \<rparr>,
      w\<lparr> ml_accounts := AList.update (account_id_to_hex X (drawn_account (at_random w)))
           \<lparr> acc_id = drawn_account (at_random w), acc_balance = 0 \<rparr> (ml_accounts w),
         ml_keys := AList.update (secret_hash_to_hex X (secret_hash_of X (drawn_secret X (at_random w + 1))))
           (drawn_key X (at_random w + 1) (drawn_account (at_random w)) None) (ml_keys w),
         at_random := at_random w + 3 \<rparr>)"
  by (simp add: accounts_create_def account_drawn key_drawn map_err_io_def bind_io_def accounts_service_def accounts_new_def
      accounts_mem_store_def ml_create_def)

lemma accounts_service_simps:
  "ac_store (accounts_service X fail) = accounts_mem_store X"
  "ac_settler (accounts_service X fail) = counting_settler X fail"
  by (simp_all add: accounts_service_def accounts_new_def)

lemma accounts_mem_store_simps:
  "st_key_by_hash (accounts_mem_store X) = ml_key_by_hash X" "st_put_key (accounts_mem_store X) = ml_put_key X"
  "st_list_keys (accounts_mem_store X) = ml_list_keys"
  "st_account (accounts_mem_store X) = ml_account X" "st_credited_balance (accounts_mem_store X) = ml_credited_balance X"
  "st_credit (accounts_mem_store X) = failing_credit X" "cs_payment_nonce (counting_settler X fail) v h = ret h"
  "cs_settle (counting_settler X fail) = counting_settle fail"
  by (simp_all add: accounts_mem_store_def counting_settler_def)

lemmas accounts_test_defs = with_created_def keys_listed_def Let_def accounts_service_simps accounts_mem_store_simps
  accounts_doubles_new_def account_created accounts_issue_key_def accounts_revoke_def accounts_credit_def credit_settled_def credit_loop.simps
  presented_key_def key_drawn authorize_additional_key_def CREDIT_ATTEMPTS_def map_err_io_def bind_io_def
  ml_key_by_hash_def ml_put_key_def ml_account_def ml_list_keys_def ml_credited_balance_def failing_credit_def
  counting_settle_def update_conv'

lemma chr_eq_iff: "m < 256 \<Longrightarrow> n < 256 \<Longrightarrow> chr m = chr n \<longleftrightarrow> m = n"
  by (metis byte_chr)

lemma contains_str_longer: "contains_str s (p @ q) \<Longrightarrow> contains_str s p"
proof (induction s)
  case (Cons c s)
  have "starts_with (c # s) (p @ q) \<Longrightarrow> starts_with (c # s) p"
    unfolding starts_with_def by (metis append_eq_conv_conj append_assoc append_take_drop_id)
  with Cons show ?case by auto
qed simp

text \<open>The two tests with two keys need their secrets to have different hashes.\<close>

lemma accounts_tests:
  assumes "externals X" and "inj_on (\<lambda>n. sha256 X (as_str (drawn_secret X n))) {1, 3, 4}"
  shows "stranger_cannot_issue_key X" "capped_key_cannot_issue_or_revoke_keys X"
    "credit_is_not_applied_when_settle_fails X" "transient_store_failure_after_settle_is_retried X"
    "retry_of_a_credited_payment_does_not_settle_again X"
proof -
  have hashes: "secret_hash_to_hex X (secret_hash_of X (drawn_secret X (Suc 0))) \<noteq> secret_hash_to_hex X (secret_hash_of X (drawn_secret X n))"
    if "n \<in> {3, 4}" for n
    using assms that by (auto simp: externals.id_to_hex_inj secret_hash_of_def inj_on_def)
  have accounts: "drawn_account 3 \<noteq> drawn_account 0"
    by (simp add: drawn_account_def ID_LEN_def chr_eq_iff)
  show "stranger_cannot_issue_key X"
    using hashes [of 4] accounts by (simp add: stranger_cannot_issue_key_def accounts_test_defs)
  show "capped_key_cannot_issue_or_revoke_keys X"
    using hashes [of 3] by (simp add: capped_key_cannot_issue_or_revoke_keys_def accounts_test_defs)
  show "credit_is_not_applied_when_settle_fails X"
    by (simp add: credit_is_not_applied_when_settle_fails_def accounts_test_defs)
  show "transient_store_failure_after_settle_is_retried X"
    by (simp add: transient_store_failure_after_settle_is_retried_def accounts_test_defs)
  show "retry_of_a_credited_payment_does_not_settle_again X"
    by (simp add: retry_of_a_credited_payment_does_not_settle_again_def accounts_test_defs)
qed

lemma shown_numbers: "show_nat 0 = ''0''" "show_nat (Suc (Suc 0)) = ''2''" "show_u64 0 = ''0''"
  by code_simp+

lemma secret_not_shown: "secret_is_not_in_the_list X"
proof -
  define view where "view = \<lparr> av_account_id = drawn_account 0, av_balance = 0,
    av_keys = [key_meta_from (drawn_key X 1 (drawn_account 0) None)] \<rparr>"
  have rendered: "debug_account_view view =
    ''AccountView { account_id: AccountId(['' @ debug_list (replicate 16 ''0'') @ '']), balance: 0, keys: [''
    @ ''KeyMeta { key_id: KeyId(['' @ debug_list (replicate 16 ''2'')
    @ '']), revoked: false, capped: false, cap_remaining: None }] }''"
    by (simp add: view_def debug_account_view_def debug_key_meta_def key_meta_from_def drawn_key_def drawn_account_def
        debug_bytes_def debug_bool_def ID_LEN_def shown_numbers)
  have shown: "\<not> contains_str (debug_account_view view) ''nfk_''" "\<not> contains_str (debug_account_view view) ''secret_hash''"
    "\<not> contains_str (debug_account_view view) ''SecretHash''"
    unfolding rendered by (simp_all add: starts_with_def numeral_eq_Suc)
  then have "\<not> contains_str (debug_account_view view) (as_str (drawn_secret X 1))"
    using contains_str_longer [of "debug_account_view view" SECRET_PREFIX] by (auto simp: drawn_secret_def SECRET_PREFIX_def)
  with shown show ?thesis
    by (simp add: secret_is_not_in_the_list_def accounts_test_defs accounts_read_def view_def) (simp add: key_meta_from_def)
qed

end
