(* ===== verification/Tests_Publish.thy ===== *)
theory Tests_Publish
  imports Publish Tests_Invoke
begin

text \<open>
  The unit tests of \<open>crates/application/src/usecases/publish.rs\<close>, replayed on the model for every
  hash function and every time of the clock. The fields of the doubles are one world; whether a
  double fails is fixed for a test. The double of the lock keeps the contract the use case is
  verified against, so what the contract gives holds of it for every request, not only for those
  of the tests.
\<close>

section \<open>Doubles\<close>

record publish_doubles =
  bt_wasm :: "string \<rightharpoonup> bytes"
  bt_hash :: "content_hash option"
  bt_held :: "string \<rightharpoonup> string"
  bt_releases :: nat
  bt_second :: "(app_error + publish_response) option"

definition publish_doubles_new :: publish_doubles where
  "publish_doubles_new = \<lparr> bt_wasm = Map.empty, bt_hash = None, bt_held = Map.empty, bt_releases = 0, bt_second = None \<rparr>"

definition put_artifacts :: "ext \<Rightarrow> bool \<Rightarrow> publish_doubles artifact_store" where
  "put_artifacts X fail =
     \<lparr> as_put = \<lambda>wasm w.
         (if fail then (Inl (Storage ''s3 down''), w)
          else
            (let hash = content_hash_from_bytes X wasm in
             (Inr hash, w\<lparr> bt_wasm := (bt_wasm w)(content_hash_to_hex X hash \<mapsto> wasm) \<rparr>))),
       as_get = \<lambda>hash w.
         (case bt_wasm w (content_hash_to_hex X hash) of
            None \<Rightarrow> (Inl (ArtifactMissing (content_hash_to_hex X hash)), w)
          | Some b \<Rightarrow> (Inr b, w)) \<rparr>"

definition row_catalog :: "bool \<Rightarrow> bool \<Rightarrow> publish_doubles function_catalog" where
  "row_catalog fail refuse_stale =
     \<lparr> fc_upsert = \<lambda>f l hash queued_at_ms egress_allow w.
         (if fail then (Inl (Storage ''ddb down''), w)
          else if refuse_stale then (Inr False, w) else (Inr True, w\<lparr> bt_hash := Some hash \<rparr>)),
       fc_resolve = \<lambda>f l w.
         (case bt_hash w of
            None \<Rightarrow> (Inl (NotFound (function_id_str f)), w)
          | Some hash \<Rightarrow> (Inr \<lparr> fv_id = f, fv_label = l, fv_content_hash = hash, fv_egress_allow = [] \<rparr>, w)),
       fc_list = \<lambda>w. Some (Inr [], w) \<rparr>"

text \<open>Neither double runs anything: \<open>run\<close> is \<open>unimplemented!\<close>, written as an error no test meets.\<close>

definition deciding_runner :: "app_error + unit \<Rightarrow> 'w function_runner" where
  "deciding_runner verdict =
     \<lparr> fr_validate = \<lambda>_. lift_r verdict, fr_run = \<lambda>_ _ _ _. throw (Invoke ''not implemented'') \<rparr>"

definition accepting_runner :: "'w function_runner" where
  "accepting_runner = deciding_runner (Inr ())"

definition rejecting_runner :: "'w function_runner" where
  "rejecting_runner = deciding_runner (Inl (Compile ''bad abi''))"

definition mem_acquire :: "ext \<Rightarrow> function_id \<Rightarrow> content_hash \<Rightarrow> (publish_doubles, app_error, unit) io" where
  "mem_acquire X f hash w =
     (if bt_held w (function_id_str f) \<noteq> None then
        (Inl (Conflict (''publish already in progress for '' @ function_id_str f)), w)
      else (Inr (), w\<lparr> bt_held := (bt_held w)(function_id_str f \<mapsto> content_hash_to_hex X hash) \<rparr>))"

definition mem_release :: "ext \<Rightarrow> function_id \<Rightarrow> content_hash \<Rightarrow> (publish_doubles, app_error, unit) io" where
  "mem_release X f hash w =
     (if bt_held w (function_id_str f) = Some (content_hash_to_hex X hash) then
        (Inr (), w\<lparr> bt_held := (bt_held w)(function_id_str f := None), bt_releases := bt_releases w + 1 \<rparr>)
      else (Inr (), w))"

definition mem_lock :: "ext \<Rightarrow> publish_doubles publish_lock" where
  "mem_lock X = \<lparr> pl_acquire = \<lambda>f hash _. mem_acquire X f hash, pl_release = mem_release X \<rparr>"

text \<open>
  \<open>HoldLock\<close>: the release of the first publish waits until the test allows it. What runs in between is
  the second publish, \<open>second\<close>, whose result the test keeps.
\<close>

definition hold_release ::
  "ext \<Rightarrow> (publish_doubles, app_error, publish_response) io \<Rightarrow> function_id \<Rightarrow> content_hash \<Rightarrow> (publish_doubles, app_error, unit) io" where
  "hold_release X second f hash w =
     (case second w of (r, w1) \<Rightarrow>
        (let w2 = w1\<lparr> bt_second := Some r \<rparr> in
         if bt_held w2 (function_id_str f) = Some (content_hash_to_hex X hash) then
           (Inr (), w2\<lparr> bt_held := (bt_held w2)(function_id_str f := None) \<rparr>)
         else (Inr (), w2)))"

definition hold_lock :: "ext \<Rightarrow> (publish_doubles, app_error, publish_response) io \<Rightarrow> publish_doubles publish_lock" where
  "hold_lock X second = \<lparr> pl_acquire = \<lambda>f hash _. mem_acquire X f hash, pl_release = hold_release X second \<rparr>"

definition publish_to ::
  "publish_doubles artifact_store \<Rightarrow> publish_doubles function_catalog \<Rightarrow> publish_doubles publish_lock \<Rightarrow> int
     \<Rightarrow> publish_doubles publish_function" where
  "publish_to artifacts catalog lock now = publish_new artifacts catalog lock accepting_runner (\<lambda>w. (now, w))"

text \<open>The contract of the lock.\<close>

interpretation mem_lock: publish_lock_env "publish_new (put_artifacts X fa) (row_catalog fc stale) (mem_lock X) (deciding_runner v) (\<lambda>w. (now, w))"
  "\<lambda>w f. bt_held w (function_id_str f)" "\<lambda>k h. k = content_hash_to_hex X h" "\<lambda>_. True" for X fa fc stale v now
  by unfold_locales
    (auto simp: publish_new_def put_artifacts_def row_catalog_def mem_lock_def deciding_runner_def mem_acquire_def
      mem_release_def unix_now_ms_def fun_eq_iff Let_def function_id.expand intro!: framesI split: if_splits)

section \<open>Tests\<close>

definition echo_publish :: "bytes \<Rightarrow> publish_request" where
  "echo_publish wasm = \<lparr> pq_function = FunctionId ''echo'', pq_wasm = wasm, pq_egress_allow = [] \<rparr>"

definition rejects_empty_wasm :: "ext \<Rightarrow> int \<Rightarrow> bool" where
  "rejects_empty_wasm X now \<longleftrightarrow>
     (case publish_execute X (publish_to (put_artifacts X False) (row_catalog False False) (mem_lock X) now)
             (echo_publish []) publish_doubles_new of
        (Inl (Compile m), w) \<Rightarrow> True | _ \<Rightarrow> False)"

definition rejects_invalid_wasm_without_put :: "ext \<Rightarrow> int \<Rightarrow> bool" where
  "rejects_invalid_wasm_without_put X now \<longleftrightarrow>
     (case publish_execute X (publish_new (put_artifacts X False) (row_catalog False False) (mem_lock X) rejecting_runner (\<lambda>w. (now, w)))
             (echo_publish (ASM @ '' not a real module'')) publish_doubles_new of
        (Inl (Compile m), w) \<Rightarrow> bt_wasm w = Map.empty \<and> bt_hash w = None \<and> bt_held w = Map.empty
      | _ \<Rightarrow> False)"

definition rejects_oversize_wasm_without_put :: "ext \<Rightarrow> int \<Rightarrow> bool" where
  "rejects_oversize_wasm_without_put X now \<longleftrightarrow>
     (case publish_execute X (publish_to (put_artifacts X False) (row_catalog False False) (mem_lock X) now)
             (echo_publish (replicate (MAX_WASM_BYTES + 1) (chr 0))) publish_doubles_new of
        (Inl (PayloadTooLarge m), w) \<Rightarrow> bt_wasm w = Map.empty \<and> bt_hash w = None \<and> bt_held w = Map.empty
      | _ \<Rightarrow> False)"

definition catalog_error_after_put_releases_lock :: "ext \<Rightarrow> int \<Rightarrow> bool" where
  "catalog_error_after_put_releases_lock X now \<longleftrightarrow>
     (let wasm = ASM @ '' not empty'' in
      case publish_execute X (publish_to (put_artifacts X False) (row_catalog True False) (mem_lock X) now)
             (echo_publish wasm) publish_doubles_new of
        (Inl (Storage m), w) \<Rightarrow>
          fst (as_get (put_artifacts X False) (content_hash_from_bytes X wasm) w) = Inr wasm
          \<and> bt_held w = Map.empty \<and> bt_releases w = 1
      | _ \<Rightarrow> False)"

definition put_error_releases_lock :: "ext \<Rightarrow> int \<Rightarrow> bool" where
  "put_error_releases_lock X now \<longleftrightarrow>
     (case publish_execute X (publish_to (put_artifacts X True) (row_catalog False False) (mem_lock X) now)
             (echo_publish (ASM @ '' not empty'')) publish_doubles_new of
        (Inl (Storage m), w) \<Rightarrow> bt_held w = Map.empty \<and> bt_releases w = 1
      | _ \<Rightarrow> False)"

definition success_upserts_catalog_and_returns_ready :: "ext \<Rightarrow> int \<Rightarrow> bool" where
  "success_upserts_catalog_and_returns_ready X now \<longleftrightarrow>
     (let wasm = ASM @ '' module'' in
      case publish_execute X (publish_to (put_artifacts X False) (row_catalog False False) (mem_lock X) now)
             (echo_publish wasm) publish_doubles_new of
        (Inr res, w) \<Rightarrow>
          pr_status res = Ready \<and> bt_hash w = Some (content_hash_from_bytes X wasm)
          \<and> bt_held w = Map.empty \<and> bt_releases w = 1
      | _ \<Rightarrow> False)"

definition stale_upsert_returns_superseded_and_releases :: "ext \<Rightarrow> int \<Rightarrow> bool" where
  "stale_upsert_returns_superseded_and_releases X now \<longleftrightarrow>
     (case publish_execute X (publish_to (put_artifacts X False) (row_catalog False True) (mem_lock X) now)
             (echo_publish (ASM @ '' module'')) publish_doubles_new of
        (Inr res, w) \<Rightarrow> pr_status res = Superseded \<and> bt_hash w = None \<and> bt_releases w = 1
      | _ \<Rightarrow> False)"

definition second_publish_while_locked_conflicts :: "ext \<Rightarrow> int \<Rightarrow> bool" where
  "second_publish_while_locked_conflicts X now \<longleftrightarrow>
     (case publish_execute X (publish_to (put_artifacts X False) (row_catalog False False) (mem_lock X) now)
             (echo_publish (ASM @ '' two'')) (publish_doubles_new\<lparr> bt_held := [''echo'' \<mapsto> ''other''] \<rparr>) of
        (Inl (Conflict m), w) \<Rightarrow> True | _ \<Rightarrow> False)"

definition overlapping_publishes_conflict_while_lock_held :: "ext \<Rightarrow> int \<Rightarrow> bool" where
  "overlapping_publishes_conflict_while_lock_held X now \<longleftrightarrow>
     (let second = publish_execute X (publish_to (put_artifacts X False) (row_catalog False False) (mem_lock X) now)
            (echo_publish (ASM @ '' two'')) in
      case publish_execute X (publish_to (put_artifacts X False) (row_catalog False False) (hold_lock X second) now)
             (echo_publish (ASM @ '' one'')) publish_doubles_new of
        (Inr ra, w) \<Rightarrow> pr_status ra = Ready \<and> (case bt_second w of Some (Inl (Conflict m)) \<Rightarrow> True | _ \<Rightarrow> False)
      | _ \<Rightarrow> False)"

lemmas publish_test_defs = publish_execute_def publish_to_def publish_new_def or_release_def put_artifacts_def row_catalog_def
  mem_lock_def hold_lock_def hold_release_def mem_acquire_def mem_release_def deciding_runner_def accepting_runner_def
  rejecting_runner_def echo_publish_def publish_doubles_new_def unix_now_ms_def bind_io_def match_io_def Let_def

lemma asm_fits: "ASM @ s \<noteq> []" "length s < 1024 \<Longrightarrow> length (ASM @ s) \<le> MAX_WASM_BYTES"
  by (simp_all add: ASM_def MAX_WASM_BYTES_def)

lemma publish_tests:
  "rejects_empty_wasm X now" "rejects_invalid_wasm_without_put X now" "rejects_oversize_wasm_without_put X now"
  "catalog_error_after_put_releases_lock X now" "put_error_releases_lock X now"
  "success_upserts_catalog_and_returns_ready X now" "stale_upsert_returns_superseded_and_releases X now"
  "second_publish_while_locked_conflicts X now" "overlapping_publishes_conflict_while_lock_held X now"
  subgoal by (simp add: rejects_empty_wasm_def publish_test_defs)
  subgoal using asm_fits(2) [of "'' not a real module''"]
    by (simp add: rejects_invalid_wasm_without_put_def publish_test_defs asm_fits(1))
  subgoal by (simp add: rejects_oversize_wasm_without_put_def publish_test_defs)
  subgoal using asm_fits(2) [of "'' not empty''"] by (simp add: catalog_error_after_put_releases_lock_def publish_test_defs asm_fits(1))
  subgoal using asm_fits(2) [of "'' not empty''"] by (simp add: put_error_releases_lock_def publish_test_defs asm_fits(1))
  subgoal using asm_fits(2) [of "'' module''"] by (simp add: success_upserts_catalog_and_returns_ready_def publish_test_defs asm_fits(1))
  subgoal using asm_fits(2) [of "'' module''"] by (simp add: stale_upsert_returns_superseded_and_releases_def publish_test_defs asm_fits(1))
  subgoal using asm_fits(2) [of "'' two''"] by (simp add: second_publish_while_locked_conflicts_def publish_test_defs asm_fits(1))
  subgoal using asm_fits(2) [of "'' one''"] asm_fits(2) [of "'' two''"]
    by (simp add: overlapping_publishes_conflict_while_lock_held_def publish_test_defs asm_fits(1))
  done

end
