(* ===== verification/Spec2Isabelle.thy ===== *)
theory Spec2Isabelle
  imports Store_Properties Accounts_Properties Runner_Properties Invoke_Properties Publish_Properties Runtime_Properties Host_Properties Api_Properties Cli_Properties System_Properties Client_Server Oracle_Properties Servers Cli_Main Findings Tests_Paid Tests_Accounts Tests_Publish
begin

text \<open>
  A verification development of nitrum-fn, a service that runs WebAssembly functions in an enclave
  and is paid in prepaid invoke credits.

  \<^bold>\<open>The program.\<close> Two servers share three kinds of storage. The API (\<open>crates/api\<close>) opens accounts,
  sells credits against x402 payments and publishes modules; the host (\<open>crates/host\<close>) debits one
  invoke, resolves a function, loads its module, runs it and attests the answer. Accounts, keys and
  payment receipts are three DynamoDB tables (\<open>crates/accounts\<close>), the catalog and the publish locks two
  more (\<open>crates/catalog\<close>), the modules objects of an S3 bucket under their SHA-256
  (\<open>crates/artifacts\<close>). The use cases (\<open>crates/application\<close>) see them through ports. Modules run in
  \<open>wasmtime\<close> (\<open>crates/executor\<close>) against one host function, \<open>nitrum.http_get\<close>; the guest's side of that
  interface is \<open>crates/runtime\<close>. The command line client (\<open>crates/cli\<close>) talks to both servers. The
  example \<open>examples/oracle\<close> is a guest that prices tokens and a contract that takes its attested
  answers.

  \<^bold>\<open>How it is modelled.\<close> A byte is a \<^typ>\<open>char\<close>, a string the list of its UTF-8 bytes, \<open>Result\<close> a sum and
  a fallible computation with effects a state-passing function on a world of any type (theory
  \<open>Prelude\<close>). Integers have the width they have in the code. What is not in the repository is a
  parameter: a record of the operations the code calls, with the documented behaviour the proofs
  need as the assumptions of a locale. Every such locale is interpreted, on the reference world in
  the end, so that the properties are proved to be about something.

  \<^bold>\<open>The theories\<close>, in the order of the code's layers:
  \<^item> \<open>Prelude\<close>, \<open>Rust_Str\<close>: results, effects with their frame and triple rules, and the part of
    Rust's string and integer library the program calls.
  \<^item> \<open>External\<close>, \<open>Json\<close>, \<open>Json_Text\<close>, \<open>Headers\<close>, \<open>Dynamo\<close>: the third-party interfaces (hex, SHA-256,
    base64, serde_json values, header maps, DynamoDB with stale reads, lost requests and lost
    replies), each with a reference instance.
  \<^item> \<open>Domain_Account\<close>, \<open>Domain_Function\<close>: \<open>crates/domain\<close>. Identifiers, bearer secrets, keys and
    their authorisation, function names, origins and the allowlist.
  \<^item> \<open>Ports\<close>: application errors and the port traits as records of operations.
  \<^item> \<open>Account_Store\<close>, \<open>Ledger\<close>, \<open>Account_Ledger\<close>, \<open>Store_Fresh\<close>, \<open>Store_Properties\<close>: the store of
    \<open>crates/accounts/src/store.rs\<close>, the abstract ledger its transactions refine, histories of
    interleaved callers, and the contract the use cases rely on.
  \<^item> \<open>Payments\<close>, \<open>Accounts\<close>, \<open>Accounts_Properties\<close>: the x402 check and settlement, and the accounts
    use case with the retry loop of a settled payment.
  \<^item> \<open>Artifacts\<close>, \<open>Catalog\<close>, \<open>Publish_Lock\<close>, \<open>Publish\<close>, \<open>Publish_Properties\<close>: what publishing writes.
  \<^item> \<open>Wasm_Abi\<close>, \<open>Http_Host\<close>, \<open>Runner\<close>, \<open>Guest\<close>, \<open>Runner_Env\<close>, \<open>Runner_Properties\<close>: the two ABI
    checks, the outbound client, the runner with its module cache, and the sandbox it runs guests in.
  \<^item> \<open>Wire\<close>, \<open>Guest_Runtime\<close>, \<open>Runtime_Properties\<close>: requests and responses as JSON between host and
    guest, and the code linked into the guest.
  \<^item> \<open>Invoke\<close>, \<open>Invoke_Properties\<close>: resolving, loading and running a function, and the debit around it.
  \<^item> \<open>Host_Http\<close>, \<open>Host_Properties\<close>, \<open>Api_Http\<close>, \<open>Api_Properties\<close>: the handlers of both servers and the
    errors they answer with.
  \<^item> \<open>Cli\<close>, \<open>Cli_Properties\<close>, \<open>Cli_New\<close>, \<open>Cli_Main\<close>: the client's commands against those handlers, its
    project scaffold, and its dispatch and exit code.
  \<^item> \<open>Deployment\<close>, \<open>System\<close>, \<open>System_Properties\<close>: the configuration of the two servers (\<open>config.rs\<close>),
    what \<open>main.rs\<close> builds from it, the routers in front of the handlers, and both servers together:
    histories of requests on one database, and a function from its publish to its invoke.
  \<^item> \<open>Client_Server\<close>: the client's commands over a network that delivers them to those routers.
  \<^item> \<open>Telemetry\<close>, \<open>Servers\<close>: the exporters and the request meter of \<open>crates/telemetry\<close>, and \<open>main\<close> of
    both servers around the routers. A measured request is the router's request
    (\<open>Servers.served_requests\<close>), so what holds of the routers holds of the processes.
  \<^item> \<open>F64\<close>, \<open>Oracle\<close>, \<open>Price_Json\<close>, \<open>Oracle_Contract\<close>, \<open>Oracle_Properties\<close>: doubles, the example guests,
    the contract's parser and printer of the canonical price text, the contract as a state with one
    function per call, and the way of a price from the guest over the host to the contract.
  \<^item> \<open>Findings\<close>: where the code does not do what it means to, each as a lemma over these definitions.
  \<^item> \<open>Mem_Ledger\<close>, \<open>Tests_Invoke\<close>, \<open>Tests_Paid\<close>, \<open>Tests_Accounts\<close>, \<open>Tests_Publish\<close>: the in-memory
    doubles of the ports (\<open>crates/api/src/testutil.rs\<close> and the test modules of the use cases) as
    adapters, and the unit tests of the invoke, accounts and publish use cases on them: a test is the
    conjunction of what it asserts, each proved to hold.
  \<^item> \<open>Ref_World\<close>, \<open>Ref_Services\<close>, \<open>Ref_Engine\<close>: the reference world on which the locales are
    interpreted and the witnesses evaluate.

  \<^bold>\<open>What the properties show.\<close> The system: whatever requests the two servers get, the ledger moves by
  debits of the configured cost and by credits of settled payments only, no nonce twice, no
  balance or cap below zero; and a user who deployed a file and then invokes it through the client, while
  the row of that deploy stands and the host's read of the catalog is fresh, gets what a run of that
  file answered, under the origins the user allowed.
  Money: a debit is exact and never overdraws an account or a key's cap
  under any interleaving, a payment is credited at most once, a failed invoke costs nothing when its module
  did not get as far as the sandbox, unless a write of the store failed, the artifact is over its limit
  (\<open>Invoke_Properties.oversize_artifact_is_charged\<close>) or the module cache is poisoned, and it stays paid
  after that, also for an input over the limit (\<open>Invoke_Properties.oversize_input_is_charged\<close>); only a
  payment the facilitator settled for the asked amount is credited, in at most three attempts; a key is
  issued or revoked for the presenter of an uncapped key of the account only, and nothing else changes. Code: a run executes bytes
  with the hash in the catalog row, reaches only allowed origins, and writes only the memory the
  guest announced; a call is one instantiation and one call of the guest on its input; the two ABI
  checks agree, given what the WebAssembly specification says of a file's index spaces
  (\<open>Wasm_Abi.describes\<close>, the assumption \<open>wasm_toolchain\<close> of \<open>Guest\<close>). Publishing: rows point at stored artifacts, an older
  publish does not replace a newer one and is told so, no lock is left behind, a publish under the live
  lock of another fails and changes nothing, and the lock of a publish that died is taken over.
  Answers: the hash header is that of the module that ran, and a document made for the client's nonce is
  about that module and the body (without one the guest's own attestation header goes out), and the
  client accepts an answer for no other module. Prices: the contract parses exactly what the
  guest prints, its storage is what accepted and attested answers said, and a price of up to eight
  decimals the guest read is, exactly, the price the contract gives out.

  \<^bold>\<open>Bounds and fuel.\<close> The product's limits (\<open>crates/domain/src/limits.rs\<close>) are definitions with the
  code's values. The retry loop of a settled payment carries its attempt counter, which bounds it.
  The paging listing of the catalog is the one loop without a bound; it is a partial function.
  \<open>block_on\<close> is a partial function, shown to return when every pending poll makes progress. The
  reference JSON parser's fuel is the length of its text. A double is an integer scaled by a power
  of two within the precision and range of binary64; products round to nearest, ties to even. The
  contract's 256-bit arithmetic is checked, an overflow is a revert.

  \<^bold>\<open>Not modelled.\<close> The merging of configuration files and environment variables, the construction of
  the AWS clients, route matching and extraction inside axum (a request arrives with its path split
  and decoded), the shutdown signal, TLS, the epoch ticker thread, what the flags of the wasmtime
  engine mean, the parser of the client's arguments, log lines and the notes on the client's
  standard error, benchmarks and the other tests: they are library calls or carry no state a property is
  about. Nothing is assumed of SHA-256 but the length of its output, so no property rests on the
  absence of collisions: statements are about hashes. Time passes only where the code reads a clock.
\<close>

end
